(* ===== verification/Prelude.thy ===== *)
theory Prelude
  imports Main "HOL-Library.Sublist" "HOL-Library.Code_Target_Nat"
begin

text \<open>
  Prelude of the SiteBrush development: the Go error values, the result type of fallible
  functions, and the generic list and option lemmas that the component theories share.

  A Go function that returns \<open>(v, err)\<close> is modelled by a value of \<open>'a result\<close>: \<open>Inl e\<close> when
  \<open>err != nil\<close>, \<open>Inr v\<close> otherwise. The idiom \<open>if err != nil { return err }\<close> is \<open>bind_result\<close>.
\<close>

section \<open>Collections of rewrite rules\<close>

named_theorems go_simps \<open>unfolding of the modelled Go library functions\<close>
named_theorems path_simps \<open>rules on cleaned paths and their components\<close>
named_theorems result_simps \<open>rules on results and their sequencing\<close>

section \<open>Go errors\<close>

text \<open>
  The kernel error numbers that the code can tell apart, and \<open>EOTHER\<close> for all the rest
  (\<open>EIO\<close>, \<open>ENOSPC\<close>, ...), which the code treats alike.
\<close>

datatype errno = ENOENT | EEXIST | ENOTDIR | EISDIR | ENOTEMPTY | ELOOP | EACCES | EINVAL | EOTHER string

text \<open>
  \<open>ErrText m\<close> is \<open>errors.New(m)\<close>; \<open>SysErr n\<close> is a \<open>*PathError\<close> that wraps the error number
  \<open>n\<close>; \<open>WrapErr pre e post\<close> is \<open>fmt.Errorf\<close> with one \<open>%w\<close> verb for \<open>e\<close>. The exported sentinel
  values that the code compares with \<open>errors.Is\<close> are constructors of their own.
\<close>

datatype go_error =
    ErrUnsafePath
  | ErrInvalidCredentials
  | ErrWeakPassword
  | SqlErrNoRows
  | ErrJson                      \<comment> \<open>an error of package \<open>encoding/json\<close>\<close>
  | OsErrNotExist
  | OsErrExist
  | SysErr errno
  | ErrText string
  | WrapErr string go_error string

text \<open>\<open>syscall.Errno.Is\<close>: which error numbers count as the portable sentinel errors.\<close>

fun errno_is :: "errno \<Rightarrow> go_error \<Rightarrow> bool" where
  "errno_is ENOENT OsErrNotExist = True"
| "errno_is EEXIST OsErrExist = True"
| "errno_is ENOTEMPTY OsErrExist = True"
| "errno_is n e = (e = SysErr n)"

text \<open>\<open>errors.Is(err, target)\<close>: walks the chain of wrapped errors.\<close>

fun errors_is :: "go_error \<Rightarrow> go_error \<Rightarrow> bool" where
  "errors_is (WrapErr p e s) t = (WrapErr p e s = t \<or> errors_is e t)"
| "errors_is (SysErr n) t = errno_is n t"
| "errors_is e t = (e = t)"

lemma errors_is_refl [simp]: "errors_is e e"
proof (cases e)
  case (SysErr n)
  then show ?thesis by (cases n) simp_all
qed simp_all

lemma errors_is_wrap [simp]: "errors_is e t \<Longrightarrow> errors_is (WrapErr p e s) t"
  by simp

section \<open>Results\<close>

type_synonym 'a result = "go_error + 'a"

definition bind_result :: "('e + 'a) \<Rightarrow> ('a \<Rightarrow> 'e + 'b) \<Rightarrow> 'e + 'b" where
  "bind_result r f = (case r of Inl e \<Rightarrow> Inl e | Inr v \<Rightarrow> f v)"

lemma bind_result_simps [simp, result_simps]:
  "bind_result (Inl e) f = Inl e"
  "bind_result (Inr v) f = f v"
  by (simp_all add: bind_result_def)

lemma bind_result_eq_Inr [result_simps]:
  "bind_result r f = Inr y \<longleftrightarrow> (\<exists>v. r = Inr v \<and> f v = Inr y)"
  by (cases r) auto

lemma bind_result_eq_Inl [result_simps]:
  "bind_result r f = Inl e \<longleftrightarrow> r = Inl e \<or> (\<exists>v. r = Inr v \<and> f v = Inl e)"
  by (cases r) auto

lemma bind_result_assoc:
  "bind_result (bind_result r f) g = bind_result r (\<lambda>v. bind_result (f v) g)"
  by (cases r) auto

text \<open>\<open>guard_err b e\<close> is the early return \<open>if b { return e }\<close>.\<close>

definition guard_err :: "bool \<Rightarrow> 'e \<Rightarrow> 'e + unit" where
  "guard_err b e = (if b then Inl e else Inr ())"

lemma guard_err_simps [simp, result_simps]:
  "guard_err True e = Inl e"
  "guard_err False e = Inr ()"
  "guard_err b e = Inr u \<longleftrightarrow> \<not> b"
  "guard_err b e = Inl e' \<longleftrightarrow> b \<and> e' = e"
  by (auto simp: guard_err_def)

section \<open>Lists\<close>

lemma takeWhile_neq_prefix: "prefix (takeWhile P xs) xs"
  by (metis prefixI takeWhile_dropWhile_id)

lemma set_dropWhile_subset: "set (dropWhile P xs) \<subseteq> set xs"
  by (metis set_dropWhileD subsetI)

lemma butlast_snoc_last: "xs \<noteq> [] \<Longrightarrow> butlast xs @ [last xs] = xs"
  by simp

lemma prefix_drop_length: "prefix p s \<Longrightarrow> p @ drop (length p) s = s"
  by (auto simp: prefix_def)

lemma drop_length_append [simp]: "drop (length p) (p @ s) = s"
  by simp

lemma prefix_append_iff_drop: "prefix xs ys \<longleftrightarrow> (\<exists>zs. ys = xs @ zs)"
  by (auto simp: prefix_def)

text \<open>The first element of a list with a property, as an option (a search loop with \<open>return\<close>).\<close>

fun find_first :: "('a \<Rightarrow> bool) \<Rightarrow> 'a list \<Rightarrow> 'a option" where
  "find_first P [] = None"
| "find_first P (x # xs) = (if P x then Some x else find_first P xs)"

lemma find_first_None [simp]: "find_first P xs = None \<longleftrightarrow> (\<forall>x\<in>set xs. \<not> P x)"
  by (induction xs) auto

lemma find_first_Some: "find_first P xs = Some x \<Longrightarrow> x \<in> set xs \<and> P x"
  by (induction xs) (auto split: if_splits)

end
