(* ===== verification/GoStrings.thy ===== *)
theory GoStrings
  imports GoUnicode
begin

text \<open>
  Go strings and the functions of packages \<open>strings\<close> and \<open>unicode/utf8\<close> that the code calls.
  A Go string is a sequence of bytes, so it is a \<open>string\<close> of Isabelle (a \<open>char\<close> is a byte).
  Functions that look at runes decode UTF-8 the way Go does, invalid bytes included.
\<close>

section \<open>Bytes and runes\<close>

definition byte :: "char \<Rightarrow> nat" where
  "byte c = of_char c"

definition of_byte :: "nat \<Rightarrow> char" where
  "of_byte n = char_of n"

lemma byte_less [simp]: "byte c < 256"
  by (simp add: byte_def)

lemma of_byte_byte [simp]: "of_byte (byte c) = c"
  by (simp add: byte_def of_byte_def)

lemma byte_of_byte [simp]: "n < 256 \<Longrightarrow> byte (of_byte n) = n"
  by (simp add: byte_def of_byte_def)

lemma byte_inject [simp]: "byte c = byte d \<longleftrightarrow> c = d"
  by (metis of_byte_byte)

text \<open>\<open>utf8.RuneError\<close>.\<close>

definition rune_error :: nat where
  "rune_error = 65533"

text \<open>
  \<open>utf8.DecodeRuneInString\<close>: the first rune and its width in bytes. Invalid or truncated
  encodings are \<open>(RuneError, 1)\<close>; the bounds on the second byte exclude overlong forms,
  surrogates and runes beyond \<open>0x10FFFF\<close>.
\<close>

definition cont_byte :: "nat \<Rightarrow> bool" where
  "cont_byte b \<longleftrightarrow> 128 \<le> b \<and> b \<le> 191"

definition decode_multi :: "nat \<Rightarrow> nat list \<Rightarrow> nat \<times> nat" where
  "decode_multi b0 bs =
     (if 194 \<le> b0 \<and> b0 \<le> 223 then
        (case bs of b1 # _ \<Rightarrow> if cont_byte b1 then ((b0 - 192) * 64 + (b1 - 128), 2) else (rune_error, 1)
         | _ \<Rightarrow> (rune_error, 1))
      else if 224 \<le> b0 \<and> b0 \<le> 239 then
        (case bs of b1 # b2 # _ \<Rightarrow>
            if (if b0 = 224 then 160 else 128) \<le> b1 \<and> b1 \<le> (if b0 = 237 then 159 else 191) \<and> cont_byte b2
            then ((b0 - 224) * 4096 + (b1 - 128) * 64 + (b2 - 128), 3) else (rune_error, 1)
         | _ \<Rightarrow> (rune_error, 1))
      else if 240 \<le> b0 \<and> b0 \<le> 244 then
        (case bs of b1 # b2 # b3 # _ \<Rightarrow>
            if (if b0 = 240 then 144 else 128) \<le> b1 \<and> b1 \<le> (if b0 = 244 then 143 else 191)
               \<and> cont_byte b2 \<and> cont_byte b3
            then ((b0 - 240) * 262144 + (b1 - 128) * 4096 + (b2 - 128) * 64 + (b3 - 128), 4)
            else (rune_error, 1)
         | _ \<Rightarrow> (rune_error, 1))
      else (rune_error, 1))"

fun decode_rune :: "string \<Rightarrow> nat \<times> nat" where
  "decode_rune [] = (rune_error, 0)"
| "decode_rune (c # cs) = (if byte c < 128 then (byte c, 1) else decode_multi (byte c) (map byte cs))"

lemma decode_multi_width: "1 \<le> snd (decode_multi b bs) \<and> snd (decode_multi b bs) \<le> 4"
  by (auto simp: decode_multi_def split: list.splits)

lemma decode_rune_width: "1 \<le> snd (decode_rune (c # cs))"
  using decode_multi_width by simp

text \<open>The runes that \<open>for _, r := range s\<close> visits, each with its width in bytes.\<close>

function runes_w :: "string \<Rightarrow> (nat \<times> nat) list" where
  "runes_w [] = []"
| "runes_w (c # cs) = decode_rune (c # cs) # runes_w (drop (snd (decode_rune (c # cs))) (c # cs))"
  by pat_completeness auto
termination
  by (relation "measure length") (use decode_rune_width in \<open>auto simp: Suc_le_eq\<close>)

definition runes :: "string \<Rightarrow> nat list" where
  "runes s = map fst (runes_w s)"

text \<open>\<open>utf8.AppendRune\<close>, as \<open>WriteRune\<close> and \<open>strings.Map\<close> use it: a rune that is no scalar
  value is written as \<open>RuneError\<close>.\<close>

definition encode_rune :: "nat \<Rightarrow> string" where
  "encode_rune r =
     (let r' = (if r > 1114111 \<or> (55296 \<le> r \<and> r \<le> 57343) then rune_error else r) in
      map of_byte
        (if r' \<le> 127 then [r']
         else if r' \<le> 2047 then [192 + r' div 64, 128 + r' mod 64]
         else if r' \<le> 65535 then [224 + r' div 4096, 128 + r' div 64 mod 64, 128 + r' mod 64]
         else [240 + r' div 262144, 128 + r' div 4096 mod 64, 128 + r' div 64 mod 64, 128 + r' mod 64]))"

definition is_ascii :: "string \<Rightarrow> bool" where
  "is_ascii s \<longleftrightarrow> list_all (\<lambda>c. byte c < 128) s"

lemma is_ascii_simps [simp]:
  "is_ascii []"
  "is_ascii (c # cs) \<longleftrightarrow> byte c < 128 \<and> is_ascii cs"
  "is_ascii (xs @ ys) \<longleftrightarrow> is_ascii xs \<and> is_ascii ys"
  by (simp_all add: is_ascii_def)

lemma runes_Nil [simp]: "runes [] = []"
  by (simp add: runes_def)

lemma runes_ascii_Cons [simp]: "byte c < 128 \<Longrightarrow> runes (c # cs) = byte c # runes cs"
  by (simp add: runes_def)

lemma runes_ascii: "is_ascii s \<Longrightarrow> runes s = map byte s"
  by (induction s) simp_all

lemma encode_rune_ascii: "byte c < 128 \<Longrightarrow> encode_rune (byte c) = [c]"
  by (simp add: encode_rune_def Let_def)

text \<open>If every rune is ASCII then every byte is: \<open>RuneError\<close> is not ASCII, so neither an invalid
  byte nor a longer encoding can hide.\<close>

lemma decode_multi_not_ascii: "128 \<le> b \<Longrightarrow> 128 \<le> fst (decode_multi b bs)"
proof -
  have two: "128 \<le> (b - 192) * 64 + (b1 - 128)" if "194 \<le> b" for b1
    using that by (auto intro: trans_le_add1)
  have three: "128 \<le> (b - 224) * 4096 + (b1 - 128) * 64 + (b2 - 128)"
    if "224 \<le> b" "(if b = 224 then 160 else 128) \<le> b1" for b1 b2
  proof (cases "b = 224")
    case True
    with that have "32 \<le> b1 - 128" by simp
    then have "2048 \<le> (b1 - 128) * 64" by simp
    then show ?thesis by simp
  next
    case False
    with that have "1 \<le> b - 224" by simp
    then have "4096 \<le> (b - 224) * 4096" by simp
    then show ?thesis by simp
  qed
  have four: "128 \<le> (b - 240) * 262144 + (b1 - 128) * 4096 + (b2 - 128) * 64 + (b3 - 128)"
    if "240 \<le> b" "(if b = 240 then 144 else 128) \<le> b1" for b1 b2 b3
  proof (cases "b = 240")
    case True
    with that have "16 \<le> b1 - 128" by simp
    then have "65536 \<le> (b1 - 128) * 4096" by simp
    then show ?thesis by simp
  next
    case False
    with that have "1 \<le> b - 240" by simp
    then have "262144 \<le> (b - 240) * 262144" by simp
    then show ?thesis by simp
  qed
  show ?thesis
    unfolding decode_multi_def rune_error_def
    using two three four by (auto split: list.splits)
qed

lemma runes_ascii_imp_bytes: "list_all (\<lambda>r. r < 128) (runes s) \<Longrightarrow> is_ascii s"
proof (induction s rule: runes_w.induct)
  case 1
  then show ?case by simp
next
  case (2 c cs)
  have hd: "fst (decode_rune (c # cs)) < 128"
    using "2.prems" by (simp add: runes_def)
  then have c: "byte c < 128"
    using decode_multi_not_ascii [of "byte c" "map byte cs"] by (auto split: if_splits)
  then have "is_ascii cs"
    using "2.IH" "2.prems" by simp
  with c show ?case by simp
qed

section \<open>Prefixes, suffixes, substrings\<close>

definition has_prefix :: "string \<Rightarrow> string \<Rightarrow> bool" where
  "has_prefix s p = prefix p s"

definition has_suffix :: "string \<Rightarrow> string \<Rightarrow> bool" where
  "has_suffix s p = suffix p s"

definition trim_prefix :: "string \<Rightarrow> string \<Rightarrow> string" where
  "trim_prefix s p = (if has_prefix s p then drop (length p) s else s)"

definition trim_suffix :: "string \<Rightarrow> string \<Rightarrow> string" where
  "trim_suffix s p = (if has_suffix s p then take (length s - length p) s else s)"

text \<open>\<open>strings.Contains\<close>.\<close>

fun contains :: "string \<Rightarrow> string \<Rightarrow> bool" where
  "contains [] p = (p = [])"
| "contains (c # cs) p = (has_prefix (c # cs) p \<or> contains cs p)"

text \<open>\<open>strings.ContainsAny\<close> and \<open>strings.Trim\<close> for cutsets of ASCII bytes, the only ones used.\<close>

definition contains_any :: "string \<Rightarrow> string \<Rightarrow> bool" where
  "contains_any s chars = list_ex (\<lambda>c. c \<in> set chars) s"

definition trim_left_bytes :: "string \<Rightarrow> string \<Rightarrow> string" where
  "trim_left_bytes s cutset = dropWhile (\<lambda>c. c \<in> set cutset) s"

definition trim_right_bytes :: "string \<Rightarrow> string \<Rightarrow> string" where
  "trim_right_bytes s cutset = rev (dropWhile (\<lambda>c. c \<in> set cutset) (rev s))"

definition trim_bytes :: "string \<Rightarrow> string \<Rightarrow> string" where
  "trim_bytes s cutset = trim_right_bytes (trim_left_bytes s cutset) cutset"

text \<open>\<open>strings.ReplaceAll\<close> of one ASCII byte by another.\<close>

definition replace_byte :: "string \<Rightarrow> char \<Rightarrow> char \<Rightarrow> string" where
  "replace_byte s a b = map (\<lambda>c. if c = a then b else c) s"

lemma contains_singleton [simp]: "contains s [c] \<longleftrightarrow> c \<in> set s"
  by (induction s) (auto simp: has_prefix_def)

lemma contains_iff: "contains s p \<longleftrightarrow> (\<exists>a b. s = a @ p @ b)"
proof (induction s)
  case Nil
  then show ?case by simp
next
  case IH: (Cons c cs)
  show ?case
  proof
    assume "contains (c # cs) p"
    then consider "has_prefix (c # cs) p" | "contains cs p" by auto
    then show "\<exists>a b. c # cs = a @ p @ b"
    proof cases
      case 1
      then have "\<exists>b. c # cs = [] @ p @ b" by (simp add: has_prefix_def prefix_def)
      then show ?thesis by blast
    next
      case 2
      with IH obtain a b where "cs = a @ p @ b" by blast
      then have "c # cs = (c # a) @ p @ b" by simp
      then show ?thesis by blast
    qed
  next
    assume "\<exists>a b. c # cs = a @ p @ b"
    then obtain a b where ab: "c # cs = a @ p @ b" by blast
    show "contains (c # cs) p"
    proof (cases a)
      case Nil
      with ab have "has_prefix (c # cs) p" by (simp add: has_prefix_def)
      then show ?thesis by simp
    next
      case (Cons x xs)
      with ab have "cs = xs @ p @ b" by simp
      then show ?thesis using IH by auto
    qed
  qed
qed

lemma has_prefix_Nil [simp]: "has_prefix s []"
  by (simp add: has_prefix_def)

lemma has_prefix_append [simp]: "has_prefix (p @ s) p"
  by (simp add: has_prefix_def)

lemma has_prefix_Cons [simp]:
  "has_prefix [] (a # p) \<longleftrightarrow> False"
  "has_prefix (c # s) (a # p) \<longleftrightarrow> c = a \<and> has_prefix s p"
  by (auto simp: has_prefix_def)

lemma trim_prefix_append [simp]: "trim_prefix (p @ s) p = s"
  by (simp add: trim_prefix_def)

section \<open>Splitting and joining\<close>

text \<open>\<open>strings.Split\<close> with a separator of one byte, and \<open>strings.Join\<close>.\<close>

fun split_on :: "char \<Rightarrow> string \<Rightarrow> string list" where
  "split_on d [] = [[]]"
| "split_on d (c # cs) =
     (if c = d then [] # split_on d cs
      else (case split_on d cs of [] \<Rightarrow> [[c]] | w # ws \<Rightarrow> (c # w) # ws))"

fun join_with :: "string \<Rightarrow> string list \<Rightarrow> string" where
  "join_with d [] = []"
| "join_with d [w] = w"
| "join_with d (w # v # vs) = w @ d @ join_with d (v # vs)"

lemma split_on_ne [simp]: "split_on d s \<noteq> []"
  by (induction s) (auto split: list.splits)

lemma split_on_no_sep: "w \<in> set (split_on d s) \<Longrightarrow> d \<notin> set w"
  by (induction s arbitrary: w) (auto split: list.splits if_splits)

lemma split_on_set: "w \<in> set (split_on d s) \<Longrightarrow> set w \<subseteq> set s"
proof (induction s arbitrary: w)
  case Nil
  then show ?case by simp
next
  case (Cons c cs)
  show ?case
  proof (cases "split_on d cs")
    case Nil
    then show ?thesis by simp
  next
    case (Cons v vs)
    then have "\<And>u. u = v \<or> u \<in> set vs \<Longrightarrow> set u \<subseteq> set cs"
      using Cons.IH by simp
    with Cons Cons.prems show ?thesis
      by (auto split: if_splits) blast+
  qed
qed

lemma join_split [simp]: "join_with [d] (split_on d s) = s"
proof (induction s)
  case (Cons c cs)
  then obtain w ws where "split_on d cs = w # ws" by (cases "split_on d cs") auto
  with Cons show ?case by (cases ws) auto
qed simp

lemma join_with_Cons_Cons: "join_with d (w # ws) = (if ws = [] then w else w @ d @ join_with d ws)"
  by (cases ws) simp_all

lemma split_on_append_sep: "d \<notin> set w \<Longrightarrow> split_on d (w @ d # s) = w # split_on d s"
  by (induction w) auto

lemma split_on_nosep [simp]: "d \<notin> set w \<Longrightarrow> split_on d w = [w]"
  by (induction w) auto

lemma split_join:
  "ws \<noteq> [] \<Longrightarrow> (\<forall>w\<in>set ws. d \<notin> set w) \<Longrightarrow> split_on d (join_with [d] ws) = ws"
proof (induction ws)
  case (Cons w ws)
  then show ?case
    by (cases ws) (auto simp: split_on_append_sep)
qed simp

lemma split_on_append: "\<exists>ws. split_on d (s @ d # t) = ws @ split_on d t"
proof (induction s)
  case Nil
  then show ?case by (auto intro: exI [of _ "[[]]"])
next
  case (Cons c cs)
  then obtain ws where ws: "split_on d (cs @ d # t) = ws @ split_on d t" by blast
  show ?case
  proof (cases "c = d")
    case True
    then show ?thesis using ws by (intro exI [of _ "[] # ws"]) simp
  next
    case False
    obtain v vs where v: "split_on d (cs @ d # t) = v # vs"
      by (cases "split_on d (cs @ d # t)") auto
    show ?thesis
    proof (cases ws)
      case Nil
      have "length (split_on d (cs @ d # t)) > length (split_on d t)" for cs
        by (induction cs) (auto split: list.splits)
      with ws Nil show ?thesis by (metis append_Nil less_irrefl)
    next
      case (Cons u us)
      then show ?thesis using ws False by (intro exI [of _ "(c # u) # us"]) simp
    qed
  qed
qed

section \<open>Trimming white space\<close>

text \<open>\<open>utf8.RuneStart\<close> and \<open>utf8.DecodeLastRuneInString\<close>.\<close>

definition rune_start :: "char \<Rightarrow> bool" where
  "rune_start c \<longleftrightarrow> \<not> cont_byte (byte c)"

fun back_to_start :: "nat \<Rightarrow> string \<Rightarrow> string \<Rightarrow> string" where
  \<comment> \<open>the bytes that the backward search takes: \<open>back_to_start n rs acc\<close> has read \<open>acc\<close> and may
      take \<open>n\<close> bytes more from the reversed rest \<open>rs\<close>; without a start byte it goes one further\<close>
  "back_to_start n [] acc = acc"
| "back_to_start 0 (c # rs) acc = c # acc"
| "back_to_start (Suc n) (c # rs) acc = (if rune_start c then c # acc else back_to_start n rs (c # acc))"

definition decode_last_rune :: "string \<Rightarrow> nat \<times> nat" where
  "decode_last_rune s =
     (case rev s of [] \<Rightarrow> (rune_error, 0)
      | c # rs \<Rightarrow>
          if byte c < 128 then (byte c, 1)
          else let t = back_to_start 3 rs [c]; d = decode_rune t in
               if snd d = length t then d else (rune_error, 1))"

lemma decode_last_rune_width: "s \<noteq> [] \<Longrightarrow> 1 \<le> snd (decode_last_rune s)"
proof -
  have ne: "back_to_start n rs (a # acc) \<noteq> []" for n rs a acc
    by (induction n rs "a # acc" arbitrary: a acc rule: back_to_start.induct) auto
  assume "s \<noteq> []"
  then obtain c rs where "rev s = c # rs" by (cases "rev s") auto
  then show ?thesis
    using ne [of 3 rs c "[]"]
    by (cases "back_to_start 3 rs [c]")
       (use decode_rune_width in \<open>auto simp: decode_last_rune_def Let_def\<close>)
qed

text \<open>\<open>strings.TrimLeftFunc\<close> and \<open>strings.TrimRightFunc\<close>.\<close>

function trim_left_func :: "(nat \<Rightarrow> bool) \<Rightarrow> string \<Rightarrow> string" where
  "trim_left_func P s =
     (if s \<noteq> [] \<and> P (fst (decode_rune s)) then trim_left_func P (drop (snd (decode_rune s)) s) else s)"
  by pat_completeness auto
termination
  by (relation "measure (\<lambda>(P, s). length s)")
     (simp, use decode_rune_width in \<open>auto simp: neq_Nil_conv Suc_le_eq\<close>)

function trim_right_func :: "(nat \<Rightarrow> bool) \<Rightarrow> string \<Rightarrow> string" where
  "trim_right_func P s =
     (if s \<noteq> [] \<and> P (fst (decode_last_rune s))
      then trim_right_func P (take (length s - snd (decode_last_rune s)) s) else s)"
  by pat_completeness auto
termination
  by (relation "measure (\<lambda>(P, s). length s)")
     (simp, use decode_last_rune_width in \<open>auto simp: Suc_le_eq diff_less\<close>)

declare trim_left_func.simps [simp del]
declare trim_right_func.simps [simp del]

text \<open>\<open>strings.TrimSpace\<close>.\<close>

definition trim_space :: "string \<Rightarrow> string" where
  "trim_space s = trim_right_func unicode_is_space (trim_left_func unicode_is_space s)"

lemma trim_left_func_suffix: "suffix (trim_left_func P s) s"
proof (induction P s rule: trim_left_func.induct)
  case (1 P s)
  show ?case
  proof (cases "s \<noteq> [] \<and> P (fst (decode_rune s))")
    case True
    with 1 have "suffix (trim_left_func P (drop (snd (decode_rune s)) s)) (drop (snd (decode_rune s)) s)"
      by simp
    then have "suffix (trim_left_func P (drop (snd (decode_rune s)) s)) s"
      by (rule suffix_order.trans) (rule suffix_drop)
    then show ?thesis
      using True by (subst trim_left_func.simps) simp
  next
    case False
    then show ?thesis by (subst trim_left_func.simps) auto
  qed
qed

lemma trim_right_func_prefix: "prefix (trim_right_func P s) s"
proof (induction P s rule: trim_right_func.induct)
  case (1 P s)
  show ?case
  proof (cases "s \<noteq> [] \<and> P (fst (decode_last_rune s))")
    case True
    with 1 have "prefix (trim_right_func P (take (length s - snd (decode_last_rune s)) s))
                   (take (length s - snd (decode_last_rune s)) s)"
      by simp
    then have "prefix (trim_right_func P (take (length s - snd (decode_last_rune s)) s)) s"
      by (rule prefix_order.trans) (rule take_is_prefix)
    then show ?thesis
      using True by (subst trim_right_func.simps) simp
  next
    case False
    then show ?thesis by (subst trim_right_func.simps) auto
  qed
qed

lemma trim_space_infix: "\<exists>a b. s = a @ trim_space s @ b"
proof -
  obtain a where a: "s = a @ trim_left_func unicode_is_space s"
    using trim_left_func_suffix by (auto simp: suffix_def)
  obtain b where "trim_left_func unicode_is_space s = trim_space s @ b"
    using trim_right_func_prefix unfolding trim_space_def prefix_def by blast
  with a show ?thesis by metis
qed

lemma set_trim_space: "set (trim_space s) \<subseteq> set s"
proof -
  obtain a b where "s = a @ trim_space s @ b" using trim_space_infix by blast
  then have "set s = set a \<union> set (trim_space s) \<union> set b"
    by (metis set_append sup_assoc)
  then show ?thesis by blast
qed

lemma trim_space_Nil [simp]: "trim_space [] = []"
  by (simp add: trim_space_def trim_left_func.simps trim_right_func.simps)

text \<open>On ASCII strings the search works byte by byte.\<close>

definition ascii_space :: "char \<Rightarrow> bool" where
  "ascii_space c \<longleftrightarrow> unicode_is_space (byte c)"

lemma trim_left_ascii: "is_ascii s \<Longrightarrow> trim_left_func P s = dropWhile (\<lambda>c. P (byte c)) s"
proof (induction s)
  case Nil
  then show ?case by (simp add: trim_left_func.simps)
next
  case (Cons c s)
  then show ?case by (subst trim_left_func.simps) simp
qed

lemma trim_right_ascii: "is_ascii s \<Longrightarrow> trim_right_func P s = rev (dropWhile (\<lambda>c. P (byte c)) (rev s))"
proof (induction s rule: rev_induct)
  case Nil
  then show ?case by (simp add: trim_right_func.simps)
next
  case (snoc c s)
  then show ?case
    by (subst trim_right_func.simps) (simp add: decode_last_rune_def)
qed

lemma trim_space_ascii:
  assumes "is_ascii s"
  shows "trim_space s = rev (dropWhile ascii_space (rev (dropWhile ascii_space s)))"
proof -
  have "is_ascii (dropWhile ascii_space s)"
    using assms by (auto simp: is_ascii_def list_all_iff dest: set_dropWhileD)
  then show ?thesis
    using assms by (simp add: trim_space_def trim_left_ascii trim_right_ascii ascii_space_def [abs_def])
qed

section \<open>ASCII bytes in strings of runes\<close>

text \<open>An ASCII byte is never part of a longer encoding, so decoding, trimming and mapping runes
  neither hide nor invent one.\<close>

lemma second_byte_low: "(if P then 160 else 128) \<le> (b::nat) \<Longrightarrow> 128 \<le> b" "(if P then 144 else 128) \<le> (b::nat) \<Longrightarrow> 128 \<le> b"
  by (simp_all split: if_split_asm)

lemma decode_multi_width_cases:
  "snd (decode_multi b bs) = 1
   \<or> (\<exists>b1 r. bs = b1 # r \<and> snd (decode_multi b bs) = 2 \<and> 128 \<le> b1)
   \<or> (\<exists>b1 b2 r. bs = b1 # b2 # r \<and> snd (decode_multi b bs) = 3 \<and> 128 \<le> b1 \<and> 128 \<le> b2)
   \<or> (\<exists>b1 b2 b3 r. bs = b1 # b2 # b3 # r \<and> snd (decode_multi b bs) = 4 \<and> 128 \<le> b1 \<and> 128 \<le> b2 \<and> 128 \<le> b3)"
proof -
  consider "194 \<le> b \<and> b \<le> 223" | "\<not> (194 \<le> b \<and> b \<le> 223)" "224 \<le> b \<and> b \<le> 239"
    | "\<not> (194 \<le> b \<and> b \<le> 223)" "\<not> (224 \<le> b \<and> b \<le> 239)" by blast
  then show ?thesis
  proof cases
    case 1
    then show ?thesis
      unfolding decode_multi_def cont_byte_def by (cases bs) simp_all
  next
    case 2
    then show ?thesis
      unfolding decode_multi_def cont_byte_def if_not_P [OF 2(1)] if_P [OF 2(2)]
      by (cases bs; cases "tl bs") (auto dest: second_byte_low)
  next
    case 3
    then show ?thesis
      unfolding decode_multi_def cont_byte_def if_not_P [OF 3(1)] if_not_P [OF 3(2)]
      by (cases bs; cases "tl bs"; cases "tl (tl bs)") (auto dest: second_byte_low)
  qed
qed

lemma decode_multi_cont:
  assumes "x \<in> set (take (snd (decode_multi b (map byte cs)) - 1) cs)"
  shows "128 \<le> byte x"
proof -
  have "byte x \<in> set (take (snd (decode_multi b (map byte cs)) - 1) (map byte cs))"
    using assms by (simp add: take_map)
  then show ?thesis
    using decode_multi_width_cases [of b "map byte cs"] by (elim disjE exE conjE) auto
qed

lemma decode_rune_ascii_bytes:
  assumes "x \<in> set (take (snd (decode_rune s)) s)" and "byte x < 128"
  shows "fst (decode_rune s) = byte x"
proof (cases s)
  case (Cons c cs)
  show ?thesis
  proof (cases "byte c < 128")
    case True
    with assms Cons show ?thesis by simp
  next
    case False
    obtain n where n: "snd (decode_multi (byte c) (map byte cs)) = Suc n"
      using decode_multi_width [of "byte c" "map byte cs"] by (metis One_nat_def Suc_le_D)
    with assms Cons False have "x \<in> set (take n cs)" by auto
    then have "128 \<le> byte x" using decode_multi_cont [of x "byte c" cs] n by simp
    with assms(2) show ?thesis by simp
  qed
qed (use assms in simp)

lemma ascii_byte_in_runes: "c \<in> set s \<Longrightarrow> byte c < 128 \<Longrightarrow> byte c \<in> set (runes s)"
proof (induction s rule: runes_w.induct)
  case (2 d ds)
  let ?n = "snd (decode_rune (d # ds))"
  have "set (d # ds) = set (take ?n (d # ds)) \<union> set (drop ?n (d # ds))"
    by (metis append_take_drop_id set_append)
  with 2 consider "c \<in> set (take ?n (d # ds))" | "c \<in> set (drop ?n (d # ds))" by blast
  then show ?case
  proof cases
    case 1
    then have "fst (decode_rune (d # ds)) = byte c"
      using "2.prems"(2) by (rule decode_rune_ascii_bytes)
    then show ?thesis by (simp add: runes_def)
  next
    case 2
    then have "byte c \<in> set (runes (drop ?n (d # ds)))" using "2.IH" "2.prems"(2) by blast
    then show ?thesis by (simp add: runes_def)
  qed
qed simp

lemma back_to_start_suffix: "suffix (back_to_start n rs acc) (rev rs @ acc)"
proof (induction n rs acc rule: back_to_start.induct)
  case (2 c rs acc)
  then show ?case by (simp add: suffix_def)
next
  case (3 n c rs acc)
  then show ?case by (auto simp: suffix_def)
qed simp

lemma decode_last_rune_ascii_bytes:
  assumes "x \<in> set (drop (length s - snd (decode_last_rune s)) s)" and "byte x < 128"
  shows "fst (decode_last_rune s) = byte x"
proof (cases s rule: rev_cases)
  case (snoc rs c)
  show ?thesis
  proof (cases "byte c < 128")
    case True
    with assms snoc show ?thesis by (simp add: decode_last_rune_def)
  next
    case False
    let ?t = "back_to_start 3 (rev rs) [c]"
    obtain u where u: "s = u @ ?t"
      using back_to_start_suffix [of 3 "rev rs" "[c]"] snoc by (auto simp: suffix_def)
    show ?thesis
    proof (cases "snd (decode_rune ?t) = length ?t")
      case True
      then have d: "decode_last_rune s = decode_rune ?t"
        using snoc False by (simp add: decode_last_rune_def Let_def)
      have "drop (length s - snd (decode_last_rune s)) s = ?t"
        using True u by (metis append_eq_conv_conj d diff_add_inverse2 length_append)
      then have "x \<in> set (take (snd (decode_rune ?t)) ?t)"
        using assms(1) True by simp
      with assms(2) d show ?thesis using decode_rune_ascii_bytes by simp
    next
      case neq: False
      then have "decode_last_rune s = (rune_error, 1)"
        using snoc False by (simp add: decode_last_rune_def Let_def)
      with assms snoc False show ?thesis by simp
    qed
  qed
qed (use assms in simp)

lemma trim_left_keeps:
  "c \<in> set s \<Longrightarrow> byte c < 128 \<Longrightarrow> \<not> P (byte c) \<Longrightarrow> c \<in> set (trim_left_func P s)"
proof (induction P s rule: trim_left_func.induct)
  case (1 P s)
  let ?n = "snd (decode_rune s)"
  show ?case
  proof (cases "s \<noteq> [] \<and> P (fst (decode_rune s))")
    case True
    have "c \<notin> set (take ?n s)"
      using True 1(3,4) decode_rune_ascii_bytes by metis
    then have "c \<in> set (drop ?n s)"
      using 1(2) by (metis Un_iff append_take_drop_id set_append)
    with True 1 show ?thesis by (subst trim_left_func.simps) simp
  next
    case False
    with 1 show ?thesis by (subst trim_left_func.simps) auto
  qed
qed

lemma trim_right_keeps:
  "c \<in> set s \<Longrightarrow> byte c < 128 \<Longrightarrow> \<not> P (byte c) \<Longrightarrow> c \<in> set (trim_right_func P s)"
proof (induction P s rule: trim_right_func.induct)
  case (1 P s)
  let ?n = "length s - snd (decode_last_rune s)"
  show ?case
  proof (cases "s \<noteq> [] \<and> P (fst (decode_last_rune s))")
    case True
    have "c \<notin> set (drop ?n s)"
      using True 1(3,4) decode_last_rune_ascii_bytes by metis
    then have "c \<in> set (take ?n s)"
      using 1(2) by (metis Un_iff append_take_drop_id set_append)
    with True 1 show ?thesis by (subst trim_right_func.simps) simp
  next
    case False
    with 1 show ?thesis by (subst trim_right_func.simps) auto
  qed
qed

lemma trim_space_keeps:
  "c \<in> set s \<Longrightarrow> byte c < 128 \<Longrightarrow> \<not> unicode_is_space (byte c) \<Longrightarrow> c \<in> set (trim_space s)"
  unfolding trim_space_def by (intro trim_right_keeps trim_left_keeps)

section \<open>Lower case\<close>

definition lower_byte :: "char \<Rightarrow> char" where
  "lower_byte c = (if 65 \<le> byte c \<and> byte c \<le> 90 then of_byte (byte c + 32) else c)"

text \<open>\<open>strings.ToLower\<close>: ASCII strings byte by byte, others by \<open>strings.Map(unicode.ToLower)\<close>.\<close>

definition to_lower :: "string \<Rightarrow> string" where
  "to_lower s =
     (if is_ascii s then map lower_byte s else concat (map (encode_rune \<circ> unicode_to_lower) (runes s)))"

lemma lower_byte_idem [simp]: "lower_byte (lower_byte c) = lower_byte c"
  by (simp add: lower_byte_def)

lemma is_ascii_lower [simp]: "is_ascii s \<Longrightarrow> is_ascii (map lower_byte s)"
  by (induction s) (auto simp: lower_byte_def)

lemma to_lower_ascii: "is_ascii s \<Longrightarrow> to_lower s = map lower_byte s"
  by (simp add: to_lower_def)

lemma to_lower_idem_ascii: "is_ascii s \<Longrightarrow> to_lower (to_lower s) = to_lower s"
  by (simp add: to_lower_ascii o_def)

text \<open>Lower case keeps the ASCII bytes that are no capital letters.\<close>

lemma to_lower_keeps:
  assumes "c \<in> set s" "byte c < 128" "\<not> (65 \<le> byte c \<and> byte c \<le> 90)"
  shows "c \<in> set (to_lower s)"
proof (cases "is_ascii s")
  case True
  have "lower_byte c = c" using assms(3) by (auto simp: lower_byte_def)
  then have "c \<in> lower_byte ` set s" using assms(1) by force
  with True show ?thesis by (simp add: to_lower_ascii)
next
  case False
  have "c \<in> set (encode_rune (unicode_to_lower (byte c)))"
    using assms by (auto simp: encode_rune_ascii)
  then show ?thesis
    using ascii_byte_in_runes [OF assms(1,2)] False by (auto simp: to_lower_def)
qed

section \<open>Numbers\<close>

text \<open>\<open>fmt.Sprint\<close> of a number: decimal digits without leading zeros.\<close>

fun nat_digits :: "nat \<Rightarrow> string" where
  "nat_digits n = (if n < 10 then [of_byte (48 + n)] else nat_digits (n div 10) @ [of_byte (48 + n mod 10)])"

declare nat_digits.simps [simp del]

definition int_digits :: "int \<Rightarrow> string" where
  "int_digits i = (if i < 0 then CHR ''-'' # nat_digits (nat (- i)) else nat_digits (nat i))"

definition is_digit_byte :: "char \<Rightarrow> bool" where
  "is_digit_byte c \<longleftrightarrow> 48 \<le> byte c \<and> byte c \<le> 57"

fun digits_value :: "nat \<Rightarrow> string \<Rightarrow> nat" where
  "digits_value acc [] = acc"
| "digits_value acc (c # cs) = digits_value (10 * acc + (byte c - 48)) cs"

text \<open>\<open>strconv.Atoi\<close> on a 64-bit platform: an optional sign, at least one digit, no other byte,
  and a value in the range of \<open>int64\<close>. \<open>None\<close> is the error.\<close>

definition atoi :: "string \<Rightarrow> int option" where
  "atoi s =
     (let neg = has_prefix s ''-'';
          ds = (if neg \<or> has_prefix s ''+'' then tl s else s) in
      if ds \<noteq> [] \<and> list_all is_digit_byte ds then
        let v = int (digits_value 0 ds); r = (if neg then - v else v) in
        if - (2 ^ 63) \<le> r \<and> r < 2 ^ 63 then Some r else None
      else None)"

lemma digits_value_append: "digits_value a (xs @ ys) = digits_value (digits_value a xs) ys"
  by (induction xs arbitrary: a) simp_all

lemma nat_digits_all: "list_all is_digit_byte (nat_digits n)"
proof (induction n rule: nat_digits.induct)
  case (1 n)
  have d: "is_digit_byte (of_byte (48 + k))" if "k < 10" for k
    using that by (simp add: is_digit_byte_def)
  show ?case
    using 1 d by (subst nat_digits.simps) auto
qed

lemma nat_digits_ne [simp]: "nat_digits n \<noteq> []"
  by (subst nat_digits.simps) simp

lemma digits_value_nat_digits [simp]: "digits_value 0 (nat_digits n) = n"
proof (induction n rule: nat_digits.induct)
  case (1 n)
  then show ?case
    by (subst nat_digits.simps) (auto simp: digits_value_append)
qed

lemma hd_nat_digits: "is_digit_byte (hd (nat_digits n))"
  using nat_digits_all [of n] nat_digits_ne [of n]
  by (cases "nat_digits n") auto

lemma atoi_nat_digits: "n < 2 ^ 63 \<Longrightarrow> atoi (nat_digits n) = Some (int n)"
proof -
  assume n: "n < 2 ^ 63"
  obtain c cs where d: "nat_digits n = c # cs"
    by (cases "nat_digits n") auto
  then have "is_digit_byte c" using hd_nat_digits [of n] by simp
  then have "\<not> has_prefix (nat_digits n) ''-''" "\<not> has_prefix (nat_digits n) ''+''"
    by (auto simp: d is_digit_byte_def byte_def)
  moreover have "int n < 2 ^ 63" using n by (metis of_nat_less_numeral_power_cancel_iff)
  ultimately show ?thesis
    by (simp add: atoi_def nat_digits_all Let_def)
qed

lemma nat_digits_inject [simp]: "nat_digits m = nat_digits n \<longleftrightarrow> m = n"
  by (metis digits_value_nat_digits)

end
