(* ===== verification/GoPath.thy ===== *)
theory GoPath
  imports GoStrings
begin

text \<open>
  Packages \<open>path\<close> and \<open>path/filepath\<close> on Unix, where both separate by a slash, \<open>ToSlash\<close> and
  \<open>FromSlash\<close> are the identity and there are no volume names. \<open>Clean\<close> works on the list of
  components instead of Go's byte buffer; the rules are the four of its documentation.
\<close>

section \<open>Cleaning\<close>

definition clean_step :: "bool \<Rightarrow> string list \<Rightarrow> string \<Rightarrow> string list" where
  \<comment> \<open>the components kept so far, last one first\<close>
  "clean_step rooted acc c =
     (if c = '''' \<or> c = ''.'' then acc
      else if c = ''..'' then
        (case acc of
           [] \<Rightarrow> (if rooted then [] else [''..''])
         | a # as \<Rightarrow> (if a = ''..'' then ''..'' # acc else as))
      else c # acc)"

definition clean_comps :: "bool \<Rightarrow> string list \<Rightarrow> string list" where
  "clean_comps rooted cs = rev (foldl (clean_step rooted) [] cs)"

definition is_abs :: "string \<Rightarrow> bool" where
  "is_abs p = has_prefix p ''/''"

text \<open>The absolute path with the given components, and the components of a path.\<close>

definition abs_path :: "string list \<Rightarrow> string" where
  "abs_path cs = CHR ''/'' # join_with ''/'' cs"

definition path_comps :: "string \<Rightarrow> string list" where
  "path_comps p = filter (\<lambda>c. c \<noteq> '''') (split_on (CHR ''/'') p)"

definition path_clean :: "string \<Rightarrow> string" where
  "path_clean p =
     (let cs = clean_comps (is_abs p) (split_on (CHR ''/'') p) in
      if is_abs p then abs_path cs else if cs = [] then ''.'' else join_with ''/'' cs)"

text \<open>\<open>path.Join\<close> and \<open>filepath.Join\<close>: empty elements in front are dropped, the rest is joined
  and cleaned; nothing is left of empty elements only.\<close>

definition path_join :: "string list \<Rightarrow> string" where
  "path_join elems =
     (case dropWhile (\<lambda>e. e = '''') elems of [] \<Rightarrow> '''' | es \<Rightarrow> path_clean (join_with ''/'' es))"

text \<open>\<open>path.Dir\<close>, \<open>path.Base\<close> and \<open>path.Ext\<close>.\<close>

definition not_slash :: "char \<Rightarrow> bool" where
  "not_slash c \<longleftrightarrow> c \<noteq> CHR ''/''"

definition path_dir :: "string \<Rightarrow> string" where
  "path_dir p = path_clean (rev (dropWhile not_slash (rev p)))"

definition path_base :: "string \<Rightarrow> string" where
  "path_base p =
     (if p = '''' then ''.''
      else let q = trim_right_bytes p ''/''; b = rev (takeWhile not_slash (rev q)) in
           if b = '''' then ''/'' else b)"

definition path_ext :: "string \<Rightarrow> string" where
  "path_ext p =
     (let l = takeWhile not_slash (rev p) in
      if CHR ''.'' \<in> set l then CHR ''.'' # rev (takeWhile (\<lambda>c. c \<noteq> CHR ''.'') l) else '''')"

section \<open>Absolute and relative paths\<close>

text \<open>\<open>filepath.Abs\<close>; the argument \<open>wd\<close> is what \<open>os.Getwd\<close> returns.\<close>

definition filepath_abs :: "string result \<Rightarrow> string \<Rightarrow> string result" where
  "filepath_abs wd p =
     (if is_abs p then Inr (path_clean p) else bind_result wd (\<lambda>d. Inr (path_join [d, p])))"

fun strip_common :: "string list \<Rightarrow> string list \<Rightarrow> string list \<times> string list" where
  "strip_common (b # bs) (t # ts) = (if b = t then strip_common bs ts else (b # bs, t # ts))"
| "strip_common bs ts = (bs, ts)"

text \<open>
  \<open>filepath.Rel\<close>: both paths are cleaned, the common leading components are dropped, one \<open>..\<close>
  per component left of the base is put before what is left of the target. It fails when only
  one of the paths is absolute and when it would have to leave a \<open>..\<close> of the base.
\<close>

definition filepath_rel :: "string \<Rightarrow> string \<Rightarrow> string result" where
  "filepath_rel basepath targpath =
     (let base = path_clean basepath; targ = path_clean targpath;
          err = Inl (ErrText (''Rel: can't make '' @ targpath @ '' relative to '' @ basepath)) in
      if targ = base then Inr ''.''
      else
        let base' = (if base = ''.'' then '''' else base) in
        if is_abs base' \<noteq> is_abs targ then err
        else case strip_common (path_comps base') (path_comps targ) of
               (bs, ts) \<Rightarrow>
                 if bs \<noteq> [] \<and> ts \<noteq> [] \<and> hd bs = ''..'' then err
                 else Inr (join_with ''/'' (map (\<lambda>_. ''..'') bs @ ts)))"

section \<open>Components of cleaned paths\<close>

definition proper :: "string \<Rightarrow> bool" where
  "proper c \<longleftrightarrow> c \<noteq> '''' \<and> c \<noteq> ''.'' \<and> c \<noteq> ''..'' \<and> CHR ''/'' \<notin> set c"

definition propers :: "string list \<Rightarrow> bool" where
  "propers cs \<longleftrightarrow> (\<forall>c\<in>set cs. proper c)"

lemma propers_simps [simp]:
  "propers []"
  "propers (c # cs) \<longleftrightarrow> proper c \<and> propers cs"
  "propers (as @ bs) \<longleftrightarrow> propers as \<and> propers bs"
  "propers (rev as) \<longleftrightarrow> propers as"
  by (auto simp: propers_def)

lemma propers_butlast: "propers cs \<Longrightarrow> propers (butlast cs)"
  by (auto simp: propers_def dest: in_set_butlastD)

lemma properD [dest]:
  "proper c \<Longrightarrow> c \<noteq> ''''" "proper c \<Longrightarrow> c \<noteq> ''.''" "proper c \<Longrightarrow> c \<noteq> ''..''"
  "proper c \<Longrightarrow> CHR ''/'' \<notin> set c"
  by (simp_all add: proper_def)

text \<open>The components a fold of \<open>clean_step\<close> keeps when there is no \<open>..\<close>.\<close>

definition keep_comp :: "string \<Rightarrow> bool" where
  "keep_comp c \<longleftrightarrow> c \<noteq> '''' \<and> c \<noteq> ''.''"

lemma keep_comp_simps [simp]: "\<not> keep_comp ''''" "\<not> keep_comp ''.''" "proper c \<Longrightarrow> keep_comp c"
  by (auto simp: keep_comp_def proper_def)

lemma clean_step_empty [simp]: "clean_step r acc '''' = acc"
  by (simp add: clean_step_def)

lemma clean_step_proper [simp]: "proper c \<Longrightarrow> clean_step r acc c = c # acc"
  by (auto simp: clean_step_def proper_def)

lemma foldl_clean_nodots:
  "''..'' \<notin> set cs \<Longrightarrow> foldl (clean_step r) acc cs = rev (filter keep_comp cs) @ acc"
  by (induction cs arbitrary: acc) (auto simp: clean_step_def keep_comp_def)

lemma clean_step_propers:
  "propers acc \<Longrightarrow> CHR ''/'' \<notin> set c \<Longrightarrow> propers (clean_step True acc c)"
  by (auto simp: clean_step_def proper_def split: list.splits)

lemma foldl_clean_propers:
  "propers acc \<Longrightarrow> (\<forall>c\<in>set cs. CHR ''/'' \<notin> set c) \<Longrightarrow> propers (foldl (clean_step True) acc cs)"
  by (induction cs arbitrary: acc) (auto simp: clean_step_propers)

lemma clean_comps_propers: "propers (clean_comps True (split_on (CHR ''/'') p))"
  unfolding clean_comps_def
  by (auto intro!: foldl_clean_propers dest: split_on_no_sep)

lemma filter_keep_propers: "propers cs \<Longrightarrow> filter keep_comp cs = cs"
  by (induction cs) (auto simp: keep_comp_def)

lemma propers_no_dots: "propers cs \<Longrightarrow> ''..'' \<notin> set cs"
  by (auto simp: propers_def)

lemma foldl_clean_of_propers:
  "propers cs \<Longrightarrow> foldl (clean_step r) acc cs = rev cs @ acc"
  by (simp add: foldl_clean_nodots propers_no_dots filter_keep_propers)

lemma is_abs_simps [simp]:
  "is_abs [] \<longleftrightarrow> False"
  "is_abs (c # s) \<longleftrightarrow> c = CHR ''/''"
  by (simp_all add: is_abs_def)

lemma is_abs_append: "is_abs (p @ q) \<longleftrightarrow> is_abs p \<or> p = [] \<and> is_abs q"
  by (cases p) auto

lemma is_abs_abs_path [simp]: "is_abs (abs_path cs)"
  by (simp add: abs_path_def)

lemma split_join_propers:
  "propers cs \<Longrightarrow> cs \<noteq> [] \<Longrightarrow> split_on (CHR ''/'') (join_with ''/'' cs) = cs"
  by (rule split_join) (auto simp: propers_def)

lemma split_abs_path:
  "propers cs \<Longrightarrow> split_on (CHR ''/'') (abs_path cs) = [] # (if cs = [] then [[]] else cs)"
  by (simp add: abs_path_def split_join_propers)

lemma path_comps_abs_path [simp, path_simps]: "propers cs \<Longrightarrow> path_comps (abs_path cs) = cs"
  by (auto simp: path_comps_def split_abs_path propers_def intro!: filter_True)

lemma abs_path_inject: "propers as \<Longrightarrow> propers bs \<Longrightarrow> abs_path as = abs_path bs \<longleftrightarrow> as = bs"
  by (metis path_comps_abs_path)

lemma path_clean_abs: "is_abs p \<Longrightarrow> path_clean p = abs_path (clean_comps True (split_on (CHR ''/'') p))"
  by (simp add: path_clean_def Let_def)

lemma path_clean_abs_ex: "is_abs p \<Longrightarrow> \<exists>cs. propers cs \<and> path_clean p = abs_path cs"
  using path_clean_abs clean_comps_propers by blast

lemma path_clean_abs_path [simp, path_simps]: "propers cs \<Longrightarrow> path_clean (abs_path cs) = abs_path cs"
  by (auto simp: path_clean_abs split_abs_path clean_comps_def clean_step_def foldl_clean_of_propers)

lemma path_clean_idem_abs: "is_abs p \<Longrightarrow> path_clean (path_clean p) = path_clean p"
  using path_clean_abs_ex path_clean_abs_path by metis

text \<open>Joining onto an absolute path walks on from its components.\<close>

definition walk_from :: "string list \<Rightarrow> string \<Rightarrow> string list" where
  "walk_from rs s = rev (foldl (clean_step True) (rev rs) (split_on (CHR ''/'') s))"

lemma walk_from_propers: "propers rs \<Longrightarrow> propers (walk_from rs s)"
  by (auto simp: walk_from_def intro!: foldl_clean_propers dest: split_on_no_sep)

lemma path_join_abs [path_simps]:
  assumes "propers rs"
  shows "path_join [abs_path rs, s] = abs_path (walk_from rs s)"
proof -
  have ne: "abs_path rs \<noteq> []" by (simp add: abs_path_def)
  have "split_on (CHR ''/'') (abs_path rs @ CHR ''/'' # s) = [] # (if rs = [] then [[]] else rs) @ split_on (CHR ''/'') s"
  proof (cases "rs = []")
    case False
    have "split_on (CHR ''/'') (join_with ''/'' rs @ CHR ''/'' # s) = rs @ split_on (CHR ''/'') s"
      using assms False
    proof (induction rs)
      case (Cons r rs)
      show ?case
      proof (cases rs)
        case Nil
        with Cons.prems show ?thesis by (simp add: split_on_append_sep properD)
      next
        case (Cons r' rs')
        with Cons.prems Cons.IH show ?thesis by (simp add: split_on_append_sep properD)
      qed
    qed simp
    with False show ?thesis by (simp add: abs_path_def)
  qed (simp add: abs_path_def)
  moreover have "is_abs (abs_path rs @ CHR ''/'' # s)" by (simp add: is_abs_append)
  ultimately show ?thesis
    using assms ne
    by (auto simp: path_join_def path_clean_abs clean_comps_def walk_from_def foldl_clean_of_propers
        clean_step_def)
qed

lemma walk_from_nodots:
  "''..'' \<notin> set (split_on (CHR ''/'') s) \<Longrightarrow>
     walk_from rs s = rs @ filter keep_comp (split_on (CHR ''/'') s)"
  by (simp add: walk_from_def foldl_clean_nodots)

lemma walk_from_proper [simp]: "proper c \<Longrightarrow> walk_from rs c = rs @ [c]"
  by (subst walk_from_nodots) (auto simp: proper_def keep_comp_def)

section \<open>Containment\<close>

lemma strip_common_prefix: "strip_common rs (rs @ ts) = ([], ts)"
  by (induction rs) (cases ts; simp)+

lemma strip_common_not_prefix:
  "\<not> prefix rs ts \<Longrightarrow> \<exists>b bs. fst (strip_common rs ts) = b # bs"
  by (induction rs ts rule: strip_common.induct) (auto simp: neq_Nil_conv)

lemma strip_common_sets:
  "set (fst (strip_common bs ts)) \<subseteq> set bs \<and> set (snd (strip_common bs ts)) \<subseteq> set ts"
  by (induction bs ts rule: strip_common.induct) auto

lemma filepath_rel_abs:
  assumes "propers rs" and "propers ts"
  shows "filepath_rel (abs_path rs) (abs_path ts) =
    (if ts = rs then Inr ''.''
     else Inr (join_with ''/'' (map (\<lambda>_. ''..'') (fst (strip_common rs ts)) @ snd (strip_common rs ts))))"
proof -
  have "abs_path rs \<noteq> ''.''" by (simp add: abs_path_def)
  moreover have "''..'' \<notin> set (fst (strip_common rs ts))"
    using strip_common_sets assms(1) by (meson propers_no_dots subsetD)
  then have "fst (strip_common rs ts) \<noteq> [] \<longrightarrow> hd (fst (strip_common rs ts)) \<noteq> ''..''"
    by (metis list.set_sel(1))
  ultimately show ?thesis
    using assms by (auto simp: filepath_rel_def Let_def abs_path_inject split: prod.split)
qed

lemma takeWhile_not_slash_app: "CHR ''/'' \<notin> set w \<Longrightarrow> takeWhile not_slash (w @ CHR ''/'' # s) = w"
  by (induction w) (auto simp: not_slash_def)

lemma takeWhile_not_slash: "CHR ''/'' \<notin> set w \<Longrightarrow> takeWhile not_slash w = w"
  by (induction w) (auto simp: not_slash_def)

lemma join_with_first:
  "CHR ''/'' \<notin> set w \<Longrightarrow> takeWhile not_slash (join_with ''/'' (w # ws)) = w"
  by (cases ws) (simp_all add: takeWhile_not_slash takeWhile_not_slash_app)

lemma dropWhile_not_slash: "CHR ''/'' \<notin> set w \<Longrightarrow> dropWhile not_slash (w @ CHR ''/'' # s) = CHR ''/'' # s"
  by (induction w) (auto simp: not_slash_def)

lemma abs_path_snoc: "abs_path (ds @ [d]) = (if ds = [] then [] else abs_path ds) @ CHR ''/'' # d"
proof (induction ds)
  case (Cons e es)
  then show ?case by (cases es) (simp_all add: abs_path_def)
qed (simp add: abs_path_def)

lemma path_dir_abs_path [path_simps]:
  assumes "propers cs"
  shows "path_dir (abs_path cs) = abs_path (butlast cs)"
proof (cases cs rule: rev_cases)
  case Nil
  then show ?thesis
    by (simp add: path_dir_def abs_path_def not_slash_def path_clean_def clean_comps_def clean_step_def)
next
  case (snoc ds d)
  have d: "CHR ''/'' \<notin> set (rev d)" using assms snoc by auto
  have "rev (dropWhile not_slash (rev (abs_path cs))) = (if ds = [] then [] else abs_path ds) @ ''/''"
    using dropWhile_not_slash [OF d] by (simp add: snoc abs_path_snoc)
  moreover have "path_clean (abs_path ds @ ''/'') = abs_path ds" if "ds \<noteq> []"
  proof -
    have pj: "path_clean (abs_path ds @ ''/'') = path_join [abs_path ds, []]"
      by (simp add: path_join_def abs_path_def)
    show ?thesis using assms snoc by (simp add: pj path_join_abs walk_from_def clean_step_def)
  qed
  moreover have "path_clean ''/'' = abs_path []"
    by (simp add: path_clean_def clean_comps_def clean_step_def)
  ultimately show ?thesis
    using snoc by (simp add: path_dir_def)
qed

end
