(* ===== verification/World.thy ===== *)
theory World
  imports GoPath "HOL-Library.AList" "HOL-Library.Word"
begin

text \<open>
  The outside world of the program: a Unix file system with symbolic links, the clock, the
  random source, and an oracle of system-call failures.

  The file system maps the components of a physical absolute path to a node; the world keeps it
  as an association list, so that directories can be listed. A system call
  first asks the oracle: \<open>fault w n = Some e\<close> lets the \<open>n\<close>-th call fail with \<open>e\<close> and change
  nothing. A theorem that holds for every world therefore holds however calls fail.
\<close>

section \<open>State\<close>

datatype node =
    NDir nat             \<comment> \<open>a directory and its permission bits\<close>
  | NFile nat string     \<comment> \<open>a regular file: permission bits and contents\<close>
  | NLink string         \<comment> \<open>a symbolic link and its target\<close>

type_synonym path = "string list"
type_synonym file_system = "path \<Rightarrow> node option"

text \<open>
  The calls on the database, as package \<open>database/sql\<close> sends them to a driver, and its answers. White
  space in a statement counts as one blank. The driver and its database are not part of the program:
  the world has a function that answers each call, given all the calls before it.
\<close>

datatype sql_value = SqlNull | SqlInt int | SqlText string | SqlBool bool | SqlReal "64 word"

datatype sql_call =
    SqlOpen string string
  | SqlPing
  | SqlExec string "sql_value list"
  | SqlQuery string "sql_value list"
  | SqlBegin
  | SqlCommit
  | SqlRollback
  | SqlClose

datatype sql_reply =
    SqlFail string                  \<comment> \<open>an error and its text\<close>
  | SqlRows "sql_value list list"
  | SqlDone int                     \<comment> \<open>success; the last inserted row's id\<close>

record world =
  files :: "(path \<times> node) list"
  cwd :: path
  fault :: "nat \<Rightarrow> errno option"
  sysno :: nat
  torn :: "nat \<Rightarrow> nat"                     \<comment> \<open>how many bytes a failing write has written\<close>
  entropy :: "nat \<Rightarrow> nat \<Rightarrow> string option"  \<comment> \<open>the \<open>n\<close>-th read of so many random bytes\<close>
  rands :: nat
  clock :: "nat \<Rightarrow> int"                    \<comment> \<open>the \<open>n\<close>-th reading of the clock, in nanoseconds\<close>
  ticks :: nat
  umask :: nat                              \<comment> \<open>permission bits that new files do not get\<close>
  fastrand :: "nat \<Rightarrow> nat"                  \<comment> \<open>the runtime's own random numbers\<close>
  environ :: "string \<Rightarrow> string"             \<comment> \<open>\<open>os.Getenv\<close>\<close>
  driver :: "sql_call list \<Rightarrow> sql_call \<Rightarrow> sql_reply"
  sql_log :: "sql_call list"                \<comment> \<open>the calls so far\<close>
  error_words :: "nat \<Rightarrow> go_error \<Rightarrow> string" \<comment> \<open>how the library words an error of its own\<close>

definition fs :: "world \<Rightarrow> file_system" where
  "fs w = map_of (files w)"

definition put_node :: "path \<Rightarrow> node \<Rightarrow> world \<Rightarrow> world" where
  "put_node q n w = w\<lparr>files := AList.update q n (files w)\<rparr>"

definition drop_node :: "path \<Rightarrow> world \<Rightarrow> world" where
  "drop_node q w = w\<lparr>files := AList.delete q (files w)\<rparr>"

lemma fs_put [simp]: "fs (put_node q n w) = (fs w)(q \<mapsto> n)"
  by (simp add: fs_def put_node_def update_conv')

lemma fs_drop [simp]: "fs (drop_node q w) = (fs w)(q := None)"
  by (simp add: fs_def drop_node_def delete_conv')

lemma node_updates_simps [simp]:
  "cwd (put_node q n w) = cwd w" "fault (put_node q n w) = fault w" "sysno (put_node q n w) = sysno w"
  "torn (put_node q n w) = torn w" "entropy (put_node q n w) = entropy w" "rands (put_node q n w) = rands w"
  "clock (put_node q n w) = clock w" "ticks (put_node q n w) = ticks w" "umask (put_node q n w) = umask w"
  "fastrand (put_node q n w) = fastrand w" "environ (put_node q n w) = environ w"
  "driver (put_node q n w) = driver w" "sql_log (put_node q n w) = sql_log w"
  "driver (drop_node q w) = driver w" "sql_log (drop_node q w) = sql_log w"
  "error_words (put_node q n w) = error_words w" "error_words (drop_node q w) = error_words w"
  "cwd (drop_node q w) = cwd w" "fault (drop_node q w) = fault w" "sysno (drop_node q w) = sysno w"
  "torn (drop_node q w) = torn w" "entropy (drop_node q w) = entropy w" "rands (drop_node q w) = rands w"
  "clock (drop_node q w) = clock w" "ticks (drop_node q w) = ticks w" "umask (drop_node q w) = umask w"
  "fastrand (drop_node q w) = fastrand w" "environ (drop_node q w) = environ w"
  by (simp_all add: put_node_def drop_node_def)

lemma fs_other_fields [simp]:
  "fs (w\<lparr>sysno := a\<rparr>) = fs w" "fs (w\<lparr>rands := b\<rparr>) = fs w" "fs (w\<lparr>ticks := c\<rparr>) = fs w"
  "fs (w\<lparr>fault := d\<rparr>) = fs w" "fs (w\<lparr>sql_log := l\<rparr>) = fs w"
  by (simp_all add: fs_def)

type_synonym 'a io = "world \<Rightarrow> 'a result \<times> world"

section \<open>Sequencing\<close>

definition ret_io :: "'a \<Rightarrow> 'a io" where
  "ret_io v w = (Inr v, w)"

definition fail_io :: "go_error \<Rightarrow> 'a io" where
  "fail_io e w = (Inl e, w)"

text \<open>\<open>bind_io m f\<close> is \<open>v, err := m; if err != nil { return err }; f(v)\<close>.\<close>

definition bind_io :: "'a io \<Rightarrow> ('a \<Rightarrow> 'b io) \<Rightarrow> 'b io" where
  "bind_io m f w = (case m w of (Inl e, w') \<Rightarrow> (Inl e, w') | (Inr v, w') \<Rightarrow> f v w')"

text \<open>\<open>catch_io m h f\<close> is \<open>v, err := m; if err != nil { h(err) } else { f(v) }\<close>.\<close>

definition catch_io :: "'a io \<Rightarrow> (go_error \<Rightarrow> 'b io) \<Rightarrow> ('a \<Rightarrow> 'b io) \<Rightarrow> 'b io" where
  "catch_io m h f w = (case m w of (Inl e, w') \<Rightarrow> h e w' | (Inr v, w') \<Rightarrow> f v w')"

definition lift_io :: "'a result \<Rightarrow> 'a io" where
  "lift_io r w = (r, w)"

text \<open>A loop over a list that stops at the first error.\<close>

fun each_io :: "('a \<Rightarrow> 'b io) \<Rightarrow> 'a list \<Rightarrow> 'b list io" where
  "each_io f [] = ret_io []"
| "each_io f (x # xs) = bind_io (f x) (\<lambda>y. bind_io (each_io f xs) (\<lambda>ys. ret_io (y # ys)))"

text \<open>
  \<open>wp m Q w\<close>: running \<open>m\<close> from \<open>w\<close> ends in a result and a world with \<open>Q\<close>. Rewriting with the
  rules collected in \<open>wp_simps\<close> executes a program symbolically.
\<close>

definition wp :: "'a io \<Rightarrow> ('a result \<Rightarrow> world \<Rightarrow> bool) \<Rightarrow> world \<Rightarrow> bool" where
  "wp m Q w = (case m w of (r, w') \<Rightarrow> Q r w')"

named_theorems wp_simps \<open>symbolic execution of input and output\<close>

lemma wp_ret [wp_simps]: "wp (ret_io v) Q w = Q (Inr v) w"
  by (simp add: wp_def ret_io_def)

lemma wp_fail [wp_simps]: "wp (fail_io e) Q w = Q (Inl e) w"
  by (simp add: wp_def fail_io_def)

lemma wp_lift [wp_simps]: "wp (lift_io r) Q w = Q r w"
  by (simp add: wp_def lift_io_def)

lemma wp_bind [wp_simps]:
  "wp (bind_io m f) Q w = wp m (\<lambda>r w'. case r of Inl e \<Rightarrow> Q (Inl e) w' | Inr v \<Rightarrow> wp (f v) Q w') w"
  by (auto simp: wp_def bind_io_def split: prod.split sum.split)

lemma wp_catch [wp_simps]:
  "wp (catch_io m h f) Q w = wp m (\<lambda>r w'. case r of Inl e \<Rightarrow> wp (h e) Q w' | Inr v \<Rightarrow> wp (f v) Q w') w"
  by (auto simp: wp_def catch_io_def split: prod.split sum.split)

lemma wp_if [wp_simps]: "wp (if b then m else n) Q w = (if b then wp m Q w else wp n Q w)"
  by simp

lemma wpI: "(\<And>r w'. m w = (r, w') \<Longrightarrow> Q r w') \<Longrightarrow> wp m Q w"
  by (simp add: wp_def split: prod.split)

lemma wpD: "wp m Q w \<Longrightarrow> m w = (r, w') \<Longrightarrow> Q r w'"
  by (simp add: wp_def)

lemma wp_mono: "wp m Q w \<Longrightarrow> (\<And>r w'. Q r w' \<Longrightarrow> R r w') \<Longrightarrow> wp m R w"
  by (auto simp: wp_def split: prod.splits)

lemma wp_conj: "wp m Q w \<Longrightarrow> wp m R w \<Longrightarrow> wp m (\<lambda>r w'. Q r w' \<and> R r w') w"
  by (auto simp: wp_def split: prod.splits)

text \<open>Inversion: what a run with a given outcome must have done.\<close>

named_theorems io_inv \<open>inversion of runs of input and output\<close>

lemma bind_io_Inr [io_inv]:
  "bind_io m f w = (Inr v, w') \<longleftrightarrow> (\<exists>u w1. m w = (Inr u, w1) \<and> f u w1 = (Inr v, w'))"
  by (auto simp: bind_io_def split: prod.splits sum.splits)

lemma bind_io_Inl [io_inv]:
  "bind_io m f w = (Inl e, w') \<longleftrightarrow>
     m w = (Inl e, w') \<or> (\<exists>u w1. m w = (Inr u, w1) \<and> f u w1 = (Inl e, w'))"
  by (auto simp: bind_io_def split: prod.splits sum.splits)

lemma catch_io_eq [io_inv]:
  "catch_io m h f w = (r, w') \<longleftrightarrow>
     (\<exists>e w1. m w = (Inl e, w1) \<and> h e w1 = (r, w')) \<or> (\<exists>v w1. m w = (Inr v, w1) \<and> f v w1 = (r, w'))"
  by (auto simp: catch_io_def split: prod.splits sum.splits)

lemma ret_io_eq [io_inv]: "ret_io v w = (r, w') \<longleftrightarrow> r = Inr v \<and> w' = w"
  by (auto simp: ret_io_def)

lemma fail_io_eq [io_inv]: "fail_io e w = (r, w') \<longleftrightarrow> r = Inl e \<and> w' = w"
  by (auto simp: fail_io_def)

lemma lift_io_eq [io_inv]: "lift_io q w = (r, w') \<longleftrightarrow> q = r \<and> w' = w"
  by (auto simp: lift_io_def)

text \<open>
  \<open>err.Error()\<close>. The text of a path error names the call and its path, the text of a JSON error the
  place in the input: the world words them.
\<close>

fun error_text :: "go_error \<Rightarrow> world \<Rightarrow> string" where
  "error_text ErrUnsafePath w = ''unsafe path''"
| "error_text ErrInvalidCredentials w = ''invalid credentials''"
| "error_text ErrWeakPassword w = ''weak password''"
| "error_text SqlErrNoRows w = ''sql: no rows in result set''"
| "error_text OsErrNotExist w = ''file does not exist''"
| "error_text OsErrExist w = ''file already exists''"
| "error_text (ErrText m) w = m"
| "error_text (WrapErr p e s) w = p @ error_text e w @ s"
| "error_text e w = error_words w (sysno w) e"

section \<open>Clock and random source\<close>

definition time_now :: "int io" where
  "time_now w = (Inr (clock w (ticks w)), w\<lparr>ticks := Suc (ticks w)\<rparr>)"

text \<open>\<open>rand.Read(buffer)\<close> fills the whole buffer or fails.\<close>

definition rand_read :: "nat \<Rightarrow> string io" where
  "rand_read n w =
     (let w' = w\<lparr>rands := Suc (rands w)\<rparr> in
      case entropy w (rands w) n of
        None \<Rightarrow> (Inl (ErrText ''rand''), w')
      | Some bs \<Rightarrow> (Inr (take n (bs @ replicate n (CHR 0x00))), w'))"

section \<open>Path resolution\<close>

text \<open>
  The kernel's walk over the components \<open>rest\<close> from the physical directory \<open>cur\<close>. A symbolic
  link in the middle is followed always, at the end when \<open>follow\<close> is set; \<open>links\<close> bounds how
  many may be followed. The last component need not exist.
\<close>

function resolve :: "file_system \<Rightarrow> bool \<Rightarrow> nat \<Rightarrow> path \<Rightarrow> path \<Rightarrow> errno + path" where
  "resolve f follow links cur [] = Inr cur"
| "resolve f follow links cur (c # cs) =
     (if c = '''' \<or> c = ''.'' then resolve f follow links cur cs
      else if c = ''..'' then resolve f follow links (butlast cur) cs
      else (case f (cur @ [c]) of
              None \<Rightarrow> (if cs = [] then Inr (cur @ [c]) else Inl ENOENT)
            | Some (NDir m) \<Rightarrow> resolve f follow links (cur @ [c]) cs
            | Some (NFile m b) \<Rightarrow> (if cs = [] then Inr (cur @ [c]) else Inl ENOTDIR)
            | Some (NLink t) \<Rightarrow>
                (if cs = [] \<and> \<not> follow then Inr (cur @ [c])
                 else (case links of
                         0 \<Rightarrow> Inl ELOOP
                       | Suc links' \<Rightarrow>
                           resolve f follow links' (if is_abs t then [] else cur)
                             (split_on (CHR ''/'') t @ cs)))))"
  by pat_completeness auto
termination
  by (relation "measures [\<lambda>(f, fl, n, cur, rest). n, \<lambda>(f, fl, n, cur, rest). length rest]") auto

declare resolve.simps(2) [simp del]

text \<open>Where a path argument of a system call leads (at most 40 links, as on Linux).\<close>

definition kernel_path :: "world \<Rightarrow> bool \<Rightarrow> string \<Rightarrow> errno + path" where
  "kernel_path w follow p =
     (if p = '''' then Inl ENOENT
      else resolve (fs w) follow 40 (if is_abs p then [] else cwd w) (split_on (CHR ''/'') p))"

section \<open>System calls that only read\<close>

definition tick_sys :: "world \<Rightarrow> world" where
  "tick_sys w = w\<lparr>sysno := Suc (sysno w)\<rparr>"

lemma files_tick [simp]: "files (tick_sys w) = files w"
  by (simp add: tick_sys_def)

definition sys_call :: "'a io \<Rightarrow> 'a io" where
  "sys_call op w =
     (case fault w (sysno w) of
        Some e \<Rightarrow> (Inl (SysErr e), tick_sys w)
      | None \<Rightarrow> op (tick_sys w))"

lemma tick_sys_simps [simp]:
  "fs (tick_sys w) = fs w" "cwd (tick_sys w) = cwd w" "fault (tick_sys w) = fault w"
  "torn (tick_sys w) = torn w" "entropy (tick_sys w) = entropy w" "rands (tick_sys w) = rands w"
  "clock (tick_sys w) = clock w" "ticks (tick_sys w) = ticks w" "umask (tick_sys w) = umask w"
  "fastrand (tick_sys w) = fastrand w" "environ (tick_sys w) = environ w"
  "driver (tick_sys w) = driver w" "sql_log (tick_sys w) = sql_log w" "error_words (tick_sys w) = error_words w" "sysno (tick_sys w) = Suc (sysno w)"
  by (simp_all add: tick_sys_def)

lemma kernel_path_tick [simp]: "kernel_path (tick_sys w) = kernel_path w"
  by (simp add: kernel_path_def fun_eq_iff)

definition node_at :: "world \<Rightarrow> bool \<Rightarrow> string \<Rightarrow> errno + node" where
  "node_at w follow p =
     (case kernel_path w follow p of
        Inl e \<Rightarrow> Inl e
      | Inr q \<Rightarrow> (case fs w q of None \<Rightarrow> Inl ENOENT | Some n \<Rightarrow> Inr n))"

definition sys_result :: "errno + 'a \<Rightarrow> 'a io" where
  "sys_result r w = (case r of Inl e \<Rightarrow> (Inl (SysErr e), w) | Inr v \<Rightarrow> (Inr v, w))"

definition os_getwd :: "string io" where
  "os_getwd = sys_call (\<lambda>w. (Inr (abs_path (cwd w)), w))"

definition os_lstat :: "string \<Rightarrow> node io" where
  "os_lstat p = sys_call (\<lambda>w. sys_result (node_at w False p) w)"

definition os_stat :: "string \<Rightarrow> node io" where
  "os_stat p = sys_call (\<lambda>w. sys_result (node_at w True p) w)"

text \<open>\<open>os.ReadFile\<close>: opening a directory succeeds and reading it fails.\<close>

definition os_read_file :: "string \<Rightarrow> string io" where
  "os_read_file p =
     sys_call (\<lambda>w. sys_result
       (case node_at w True p of
          Inl e \<Rightarrow> Inl e
        | Inr (NFile m b) \<Rightarrow> Inr b
        | Inr _ \<Rightarrow> Inl EISDIR) w)"

text \<open>
  \<open>filepath.EvalSymlinks\<close> of an absolute path (the only use): the physical path, which must
  exist; Go gives up after 255 links.
\<close>

definition eval_symlinks :: "string \<Rightarrow> string io" where
  "eval_symlinks p =
     sys_call (\<lambda>w. sys_result
       (case resolve (fs w) True 255 [] (split_on (CHR ''/'') p) of
          Inl e \<Rightarrow> Inl e
        | Inr q \<Rightarrow> (case fs w q of None \<Rightarrow> Inl ENOENT | Some n \<Rightarrow> Inr (abs_path q))) w)"

text \<open>\<open>filepath.Abs\<close>, which asks for the working directory only when it needs it.\<close>

definition abs_io :: "string \<Rightarrow> string io" where
  "abs_io p =
     (if is_abs p then ret_io (path_clean p)
      else bind_io os_getwd (\<lambda>d. lift_io (filepath_abs (Inr d) p)))"

text \<open>The path a successful \<open>filepath.Abs\<close> returns.\<close>

definition abs_of :: "world \<Rightarrow> string \<Rightarrow> string" where
  "abs_of w p = (if is_abs p then path_clean p else path_join [abs_path (cwd w), p])"

text \<open>The parts of the world that reading leaves alone.\<close>

definition same_files :: "world \<Rightarrow> world \<Rightarrow> bool" where
  "same_files w w' \<longleftrightarrow> files w' = files w \<and> cwd w' = cwd w \<and> fault w' = fault w \<and> torn w' = torn w"

lemma same_files_refl [simp]: "same_files w w"
  by (simp add: same_files_def)

lemma same_files_trans: "same_files a b \<Longrightarrow> same_files b c \<Longrightarrow> same_files a c"
  by (simp add: same_files_def)

lemma same_files_tick [simp]: "same_files w (tick_sys w)"
  by (simp add: same_files_def)

lemma same_files_simps:
  assumes "same_files w w'"
  shows "fs w' = fs w" "cwd w' = cwd w" "kernel_path w' = kernel_path w" "node_at w' = node_at w"
    "abs_of w' = abs_of w"
proof -
  show fs: "fs w' = fs w" and cwd: "cwd w' = cwd w"
    using assms by (simp_all add: same_files_def fs_def)
  then show kp: "kernel_path w' = kernel_path w"
    by (intro ext) (simp add: kernel_path_def)
  show "node_at w' = node_at w"
    by (intro ext) (unfold node_at_def kp fs, rule refl)
  show "abs_of w' = abs_of w"
    by (intro ext) (simp add: abs_of_def cwd)
qed

lemma node_at_tick [simp]: "node_at (tick_sys w) = node_at w"
  by (rule same_files_simps) simp

text \<open>Reading operations: they leave the files alone.\<close>

definition reads :: "'a io \<Rightarrow> bool" where
  "reads m \<longleftrightarrow> (\<forall>w. same_files w (snd (m w)))"

lemma readsD: "reads m \<Longrightarrow> m w = (r, w') \<Longrightarrow> same_files w w'"
  unfolding reads_def by (metis snd_conv)

lemma reads_ret [simp]: "reads (ret_io v)" and reads_fail [simp]: "reads (fail_io e)"
  and reads_lift [simp]: "reads (lift_io r)"
  by (simp_all add: reads_def ret_io_def fail_io_def lift_io_def)

lemma reads_bind [intro]: "reads m \<Longrightarrow> (\<And>v. reads (f v)) \<Longrightarrow> reads (bind_io m f)"
  unfolding reads_def bind_io_def
  by (auto split: prod.split sum.split) (metis same_files_trans snd_conv)+

lemma reads_catch [intro]:
  "reads m \<Longrightarrow> (\<And>e. reads (h e)) \<Longrightarrow> (\<And>v. reads (f v)) \<Longrightarrow> reads (catch_io m h f)"
  unfolding reads_def catch_io_def
  by (auto split: prod.split sum.split) (metis same_files_trans snd_conv)+

lemma reads_sys [intro]: "(\<And>w. snd (op w) = w) \<Longrightarrow> reads (sys_call op)"
  by (auto simp: reads_def sys_call_def split: option.split)

lemma sys_result_snd [simp]: "snd (sys_result r w) = w"
  by (simp add: sys_result_def split: sum.split)

lemma reads_calls [simp]:
  "reads os_getwd" "reads (os_lstat p)" "reads (os_stat p)" "reads (os_read_file p)"
  "reads (eval_symlinks p)"
  unfolding os_getwd_def os_lstat_def os_stat_def os_read_file_def eval_symlinks_def
  by (auto intro!: reads_sys)

lemma reads_abs_io [simp]: "reads (abs_io p)"
  by (auto simp: abs_io_def)

lemma abs_io_Inr: "abs_io p w = (Inr q, w') \<Longrightarrow> q = abs_of w p"
  by (auto simp: abs_io_def abs_of_def bind_io_def ret_io_def os_getwd_def sys_call_def lift_io_def
      filepath_abs_def split: if_splits option.splits)

lemma eval_symlinks_Inr:
  assumes "eval_symlinks p w = (Inr q, w')"
  shows "\<exists>qs. resolve (fs w) True 255 [] (split_on (CHR ''/'') p) = Inr qs \<and> fs w qs \<noteq> None
    \<and> q = abs_path qs"
  using assms
  by (auto simp: eval_symlinks_def sys_call_def sys_result_def split: option.splits sum.splits)

text \<open>The physical path a walk ends in has proper components only.\<close>

lemma resolve_propers:
  "propers cur \<Longrightarrow> (\<forall>c\<in>set cs. CHR ''/'' \<notin> set c) \<Longrightarrow> resolve f fl n cur cs = Inr q \<Longrightarrow> propers q"
proof (induction f fl n cur cs rule: resolve.induct)
  case (1 f follow links cur)
  then show ?case by simp
next
  case (2 f follow links cur c cs)
  consider "c = [] \<or> c = ''.''" | "c = ''..''" | "proper c"
    using "2.prems"(2) by (auto simp: proper_def)
  then show ?case
  proof cases
    case 1
    with 2 show ?thesis by (simp add: resolve.simps(2))
  next
    case 2
    with "2.IH"(2) "2.prems" show ?thesis by (simp add: resolve.simps(2) propers_butlast)
  next
    case 3
    then have ne: "\<not> (c = [] \<or> c = ''.'')" "c \<noteq> ''..''" by (auto simp: proper_def)
    show ?thesis
    proof (cases "f (cur @ [c])")
      case None
      with ne 3 "2.prems" show ?thesis by (auto simp: resolve.simps(2) split: if_splits)
    next
      case (Some nd)
      show ?thesis
      proof (cases nd)
        case (NDir m)
        with "2.IH"(3) [OF ne Some] "2.prems" ne 3 Some show ?thesis by (simp add: resolve.simps(2))
      next
        case (NFile m b)
        with ne 3 Some "2.prems" show ?thesis by (auto simp: resolve.simps(2) split: if_splits)
      next
        case (NLink t)
        have "\<forall>d\<in>set (split_on (CHR ''/'') t @ cs). CHR ''/'' \<notin> set d"
          using "2.prems"(2) by (auto dest: split_on_no_sep)
        with "2.IH"(4) [OF ne Some NLink] NLink ne 3 Some "2.prems" show ?thesis
          by (auto simp: resolve.simps(2) split: if_splits nat.splits)
      qed
    qed
  qed
qed

lemma eval_symlinks_propers:
  "eval_symlinks p w = (Inr q, w') \<Longrightarrow> \<exists>qs. propers qs \<and> q = abs_path qs"
  using eval_symlinks_Inr resolve_propers [of "[]" "split_on (CHR ''/'') p"] split_on_no_sep
  by (metis propers_simps(1))

lemma abs_of_propers: "propers (cwd w) \<Longrightarrow> \<exists>cs. propers cs \<and> abs_of w p = abs_path cs"
  using path_clean_abs_ex [of p] path_join_abs [of "cwd w" p] walk_from_propers [of "cwd w" p]
  by (auto simp: abs_of_def)

lemma abs_of_abs_path [simp]: "propers cs \<Longrightarrow> abs_of w (abs_path cs) = abs_path cs"
  by (simp add: abs_of_def)

section \<open>Runs without failing calls\<close>

definition no_faults :: "world \<Rightarrow> bool" where
  "no_faults w \<longleftrightarrow> (\<forall>n. fault w n = None)"

lemma no_faults_same: "same_files w w' \<Longrightarrow> no_faults w' = no_faults w"
  by (simp add: no_faults_def same_files_def)

lemma eval_symlinks_no_faults:
  assumes "no_faults w"
  shows "\<exists>w'. same_files w w' \<and> eval_symlinks p w =
    ((case resolve (fs w) True 255 [] (split_on (CHR ''/'') p) of
        Inl e \<Rightarrow> Inl (SysErr e)
      | Inr q \<Rightarrow> (case fs w q of None \<Rightarrow> Inl (SysErr ENOENT) | Some n \<Rightarrow> Inr (abs_path q))), w')"
  using assms
  by (auto simp: eval_symlinks_def sys_call_def no_faults_def sys_result_def
      intro!: exI [of _ "tick_sys w"] split: sum.split option.split)

lemma abs_io_no_faults:
  assumes "no_faults w"
  shows "\<exists>w'. same_files w w' \<and> abs_io p w = (Inr (abs_of w p), w')"
  using assms
  by (auto simp: abs_io_def abs_of_def bind_io_def os_getwd_def sys_call_def no_faults_def ret_io_def
      lift_io_def filepath_abs_def)

lemma os_lstat_no_faults:
  assumes "no_faults w"
  shows "os_lstat p w = (case node_at w False p of Inl e \<Rightarrow> Inl (SysErr e) | Inr n \<Rightarrow> Inr n, tick_sys w)"
  using assms by (simp add: os_lstat_def sys_call_def no_faults_def sys_result_def split: sum.split)

section \<open>A small world for the witnesses\<close>

text \<open>
  A site with two pages, a symbolic link inside it (\<open>in\<close>) and one that leads out of it
  (\<open>link\<close>), and a database directory. No call fails; random bytes are all \<open>a\<close>.
\<close>

definition demo_world :: world where
  "demo_world =
     \<lparr>files = [([], NDir 493), ([''site''], NDir 493), ([''site'', ''index.html''], NFile 420 ''home''),
        ([''site'', ''docs''], NDir 493), ([''site'', ''docs'', ''a.html''], NFile 420 ''a''),
        ([''site'', ''in''], NLink ''docs''), ([''site'', ''link''], NLink ''/etc''),
        ([''etc''], NDir 493), ([''db''], NDir 493)],
      cwd = [], fault = (\<lambda>_. None), sysno = 0, torn = (\<lambda>_. 0),
      entropy = (\<lambda>_ n. Some (replicate n (CHR ''a''))), rands = 0, clock = int, ticks = 0,
      umask = 18, fastrand = (\<lambda>n. n), environ = (\<lambda>_. ''''),
      driver = (\<lambda>_ _. SqlFail ''no database''), sql_log = [],
      error_words = (\<lambda>_ _. ''i/o error'')\<rparr>"

lemma demo_world_facts [simp]: "no_faults demo_world" "cwd demo_world = []"
  by (simp_all add: demo_world_def no_faults_def)

lemma run_Inr: "fst (m w) = Inr v \<Longrightarrow> \<exists>w'. m w = (Inr v, w')"
  by (metis prod.collapse)

end
