(* ===== verification/Config.thy ===== *)
theory Config
  imports GoStrings "HOL-Library.Word"
begin

text \<open>
  The settings of the program, \<open>pkg/config/config.go\<close>: the defaults of the command-line flags and what
  \<open>ParseFlags\<close> derives from them. The scan of the command line itself is in \<open>Flags\<close>.
\<close>

unbundle bit_operations_syntax

record settings =
  APP_NAME :: string
  VERSION :: string
  WEB_LISTENER_ADDRESS_HASH :: string
  WEB_LISTENER_ADDRESS :: string
  WEB_FILE_PATH :: string
  WEB_INDEX_FILE :: string
  LOCALHOST_LISTENER_ADDRESS :: string
  DB_TYPE :: string
  DB_FILE_PATH :: string
  DB_FULL_FILE_PATH :: string
  PG_HOST :: string
  PG_USER :: string
  PG_PASS :: string
  PG_DB_NAME :: string
  PG_SSL :: string
  TIME_ZONE :: string
  PG_PORT :: int
  WEB_PORT :: int
  DB_SAVE_INTERVAL_DURATION :: int
  GUI :: bool

text \<open>\<open>fnv.New32a\<close>, printed in decimal.\<close>

definition fnv1a_step :: "32 word \<Rightarrow> char \<Rightarrow> 32 word" where
  "fnv1a_step h c = (h XOR of_nat (byte c)) * 16777619"

definition config_hash :: "string \<Rightarrow> string" where
  "config_hash s = nat_digits (unat (foldl fnv1a_step 2166136261 s))"

definition db_full_file_path :: "string \<Rightarrow> string \<Rightarrow> string \<Rightarrow> string \<Rightarrow> string" where
  "db_full_file_path appName dbPath listenerAddressHash dbType =
     dbPath @ ''/'' @ appName @ ''.'' @ listenerAddressHash @ ''.db.'' @ dbType"

text \<open>The settings before the command line is read: the flags' defaults.\<close>

definition flag_defaults :: settings where
  "flag_defaults =
     \<lparr>APP_NAME = ''sitebrush'', VERSION = '''', WEB_LISTENER_ADDRESS_HASH = '''', WEB_LISTENER_ADDRESS = '''',
      WEB_FILE_PATH = ''public_html'', WEB_INDEX_FILE = ''index.html'', LOCALHOST_LISTENER_ADDRESS = '''',
      DB_TYPE = ''genji'', DB_FILE_PATH = ''.'', DB_FULL_FILE_PATH = '''', PG_HOST = ''127.0.0.1'',
      PG_USER = ''postgres'', PG_PASS = '''', PG_DB_NAME = ''chicha'', PG_SSL = ''prefer'', TIME_ZONE = ''UTC'',
      PG_PORT = 5432, WEB_PORT = 2444, DB_SAVE_INTERVAL_DURATION = 30000 * 1000000, GUI = False\<rparr>"

text \<open>What follows \<open>flag.Parse\<close>.\<close>

definition derive_settings :: "string \<Rightarrow> settings \<Rightarrow> settings" where
  "derive_settings compileVersion c =
     (let listen = ''0.0.0.0:'' @ int_digits (WEB_PORT c); h = config_hash listen in
      c\<lparr>WEB_LISTENER_ADDRESS := listen,
        LOCALHOST_LISTENER_ADDRESS := ''127.0.0.1:'' @ int_digits (WEB_PORT c),
        WEB_LISTENER_ADDRESS_HASH := h,
        DB_FULL_FILE_PATH := db_full_file_path (APP_NAME c) (DB_FILE_PATH c) h (DB_TYPE c),
        VERSION := compileVersion\<rparr>)"

lemma config_hash_default: "config_hash ''0.0.0.0:2444'' = ''274261711''"
  by code_simp

end
