(* ===== verification/SafePath.thy ===== *)
theory SafePath
  imports World Config
begin

text \<open>
  Path safety of the web server (\<open>pkg/webserver/functions.go\<close>): the containment test
  \<open>pathIsInsideRoot\<close>, the mapping of request paths to files (\<open>safePathUnderRoot\<close>, \<open>safeJoinUnderRoot\<close>,
  \<open>safeWritableStaticFilePath\<close>), the inverse mapping of files to request URIs, and the checks on
  symbolic links that writing operations make first.
\<close>

section \<open>Containment\<close>

definition path_is_inside_root :: "string \<Rightarrow> string \<Rightarrow> bool" where
  "path_is_inside_root rootPath targetPath =
     (case filepath_rel rootPath targetPath of
        Inl _ \<Rightarrow> False
      | Inr relativePath \<Rightarrow>
          relativePath = ''.''
          \<or> (\<not> is_abs relativePath \<and> relativePath \<noteq> ''..'' \<and> \<not> has_prefix relativePath ''../''))"

text \<open>On cleaned absolute paths the test is: the components of the root are a prefix.\<close>

lemma inside_root_iff_prefix:
  assumes rs: "propers rs" and ts: "propers ts"
  shows "path_is_inside_root (abs_path rs) (abs_path ts) \<longleftrightarrow> prefix rs ts"
proof (cases "prefix rs ts")
  case True
  then obtain us where us: "ts = rs @ us" by (auto simp: prefix_def)
  show ?thesis
  proof (cases us)
    case Nil
    with us rs ts show ?thesis
      by (simp add: path_is_inside_root_def filepath_rel_abs)
  next
    case (Cons c cs)
    then have c: "proper c" using ts us by simp
    let ?rel = "join_with ''/'' us"
    have first: "takeWhile not_slash ?rel = c"
      using Cons c by (simp add: join_with_first properD)
    have "\<not> is_abs ?rel" "?rel \<noteq> ''..''" "\<not> has_prefix ?rel ''../''"
      using first c
      by (auto simp: is_abs_def has_prefix_def prefix_def not_slash_def proper_def)
    then show ?thesis
      using True us Cons rs ts
      by (simp add: path_is_inside_root_def filepath_rel_abs strip_common_prefix)
  qed
next
  case False
  then obtain b bs where b: "fst (strip_common rs ts) = b # bs"
    using strip_common_not_prefix by blast
  let ?rel = "join_with ''/'' (''..'' # map (\<lambda>_. ''..'') bs @ snd (strip_common rs ts))"
  have "?rel = ''..'' \<or> has_prefix ?rel ''../''"
    by (cases "map (\<lambda>_. ''..'') bs @ snd (strip_common rs ts)") simp_all
  moreover have "?rel \<noteq> ''.''"
    by (cases "map (\<lambda>_. ''..'') bs @ snd (strip_common rs ts)") simp_all
  moreover have "ts \<noteq> rs" using False by auto
  ultimately show ?thesis
    using False b rs ts by (auto simp: path_is_inside_root_def filepath_rel_abs)
qed

section \<open>Request paths to files\<close>

text \<open>\<open>url.PathUnescape\<close>: every \<open>%XY\<close> is replaced by its byte, anything else after a \<open>%\<close> is an error.\<close>

definition hex_value :: "char \<Rightarrow> nat option" where
  "hex_value c =
     (let b = byte c in
      if 48 \<le> b \<and> b \<le> 57 then Some (b - 48)
      else if 97 \<le> b \<and> b \<le> 102 then Some (b - 87)
      else if 65 \<le> b \<and> b \<le> 70 then Some (b - 55)
      else None)"

fun path_unescape :: "string \<Rightarrow> string result" where
  "path_unescape [] = Inr []"
| "path_unescape (c # cs) =
     (if c = CHR ''%'' then
        (case cs of
           a # b # rest \<Rightarrow>
             (case (hex_value a, hex_value b) of
                (Some x, Some y) \<Rightarrow>
                  bind_result (path_unescape rest) (\<lambda>r. Inr (of_byte (16 * x + y) # r))
              | _ \<Rightarrow> Inl (ErrText ''invalid URL escape''))
         | _ \<Rightarrow> Inl (ErrText ''invalid URL escape''))
      else bind_result (path_unescape cs) (\<lambda>r. Inr (c # r)))"

text \<open>The checks on the unescaped request path and the relative path it stands for.\<close>

definition request_segments_ok :: "string \<Rightarrow> bool" where
  "request_segments_ok unescapedPath \<longleftrightarrow>
     \<not> list_ex (\<lambda>segment. segment = ''..'' \<or> contains segment '':'') (split_on (CHR ''/'') unescapedPath)"

definition relative_request_path :: "string \<Rightarrow> string \<Rightarrow> bool \<Rightarrow> string result" where
  "relative_request_path requestPath indexFile appendIndex =
     (let requestPath = (if requestPath = '''' then ''/'' else requestPath) in
      bind_result (path_unescape requestPath) (\<lambda>unescapedPath.
      bind_result (guard_err (contains unescapedPath [CHR 0x5C]) ErrUnsafePath) (\<lambda>_.
      bind_result (guard_err (has_prefix unescapedPath ''//'') ErrUnsafePath) (\<lambda>_.
      bind_result (guard_err (\<not> request_segments_ok unescapedPath) ErrUnsafePath) (\<lambda>_.
        let isDirectory = has_suffix unescapedPath ''/'';
            cleanedPath = path_clean (''/'' @ trim_prefix unescapedPath ''/'');
            relativePath = trim_prefix cleanedPath ''/'';
            relativePath = (if relativePath = ''.'' then '''' else relativePath)
        in Inr (if appendIndex \<and> (relativePath = '''' \<or> isDirectory)
                then path_join [relativePath, indexFile] else relativePath))))))"

definition safe_path_under_root :: "string \<Rightarrow> string \<Rightarrow> string \<Rightarrow> bool \<Rightarrow> string io" where
  "safe_path_under_root root requestPath indexFile appendIndex =
     bind_io (lift_io (relative_request_path requestPath indexFile appendIndex)) (\<lambda>relativePath.
     bind_io (abs_io root) (\<lambda>rootPath.
     bind_io (abs_io (path_join [rootPath, relativePath])) (\<lambda>targetPath.
     if \<not> path_is_inside_root rootPath targetPath then fail_io ErrUnsafePath
     else
     catch_io (eval_symlinks rootPath) (\<lambda>_. ret_io targetPath) (\<lambda>evaluatedRoot.
     catch_io (eval_symlinks targetPath) (\<lambda>_. ret_io targetPath) (\<lambda>evaluatedTarget.
     if \<not> path_is_inside_root evaluatedRoot evaluatedTarget then fail_io ErrUnsafePath
     else ret_io targetPath)))))"

text \<open>\<open>safeJoinUnderRoot\<close>.\<close>

definition safe_join_under_root :: "string \<Rightarrow> string list \<Rightarrow> string io" where
  "safe_join_under_root root elems =
     bind_io (abs_io root) (\<lambda>rootPath.
     bind_io (abs_io (path_join (rootPath # elems))) (\<lambda>targetPath.
     if \<not> path_is_inside_root rootPath targetPath then fail_io (ErrText ''unsafe path'')
     else ret_io targetPath))"

section \<open>Checks before a write\<close>

text \<open>
  The loop of \<open>validateExistingParentSymlinkSafe\<close> and of \<open>nearestExistingParent\<close>: climb from a
  directory to the first ancestor that exists. Every turn replaces the path by \<open>filepath.Dir\<close>
  of it, so a path with \<open>n\<close> bytes needs at most \<open>n + 1\<close> turns; \<open>fuel\<close> counts them.
\<close>

fun climb_to_existing :: "nat \<Rightarrow> string \<Rightarrow> string io" where
  "climb_to_existing 0 parent = fail_io (ErrText ''fuel'')"
| "climb_to_existing (Suc fuel) parent =
     catch_io (os_lstat parent)
       (\<lambda>err.
          if errors_is err OsErrNotExist then
            (let next = path_dir parent in
             if next = parent then fail_io err else climb_to_existing fuel next)
          else fail_io err)
       (\<lambda>_. ret_io parent)"

definition validate_existing_parent_symlink_safe :: "string \<Rightarrow> string \<Rightarrow> unit io" where
  "validate_existing_parent_symlink_safe root targetPath =
     bind_io (abs_io root) (\<lambda>rootPath.
     bind_io (eval_symlinks rootPath) (\<lambda>evaluatedRoot.
     bind_io (climb_to_existing (Suc (length targetPath)) (path_dir targetPath)) (\<lambda>parent.
     bind_io (eval_symlinks parent) (\<lambda>evaluatedParent.
     if \<not> path_is_inside_root evaluatedRoot evaluatedParent then fail_io ErrUnsafePath
     else ret_io ()))))"

definition safe_requested_file_path :: "settings \<Rightarrow> string \<Rightarrow> string io" where
  "safe_requested_file_path config requestPath =
     safe_path_under_root (WEB_FILE_PATH config) requestPath (WEB_INDEX_FILE config) True"

text \<open>\<open>fmt.Errorf("%w: %v", errUnsafePath, err)\<close>: the text of \<open>err\<close> plays no role, so it is left out.\<close>

definition unsafe_wrap :: "'a io \<Rightarrow> 'a io" where
  "unsafe_wrap m = catch_io m (\<lambda>_. fail_io (WrapErr '''' ErrUnsafePath '': '')) ret_io"

definition safe_writable_static_file_path :: "settings \<Rightarrow> string \<Rightarrow> string io" where
  "safe_writable_static_file_path config requestPath =
     bind_io (unsafe_wrap (safe_path_under_root (WEB_FILE_PATH config) requestPath (WEB_INDEX_FILE config) True))
       (\<lambda>fileName.
     bind_io (unsafe_wrap (validate_existing_parent_symlink_safe (WEB_FILE_PATH config) fileName)) (\<lambda>_.
     ret_io fileName))"

section \<open>Files to request URIs\<close>

definition canonical_request_uri_for_file :: "settings \<Rightarrow> string \<Rightarrow> string io" where
  "canonical_request_uri_for_file config fileName =
     bind_io (abs_io (WEB_FILE_PATH config)) (\<lambda>rootPath.
     bind_io (abs_io fileName) (\<lambda>targetPath.
     if \<not> path_is_inside_root rootPath targetPath then fail_io ErrUnsafePath
     else
     bind_io (lift_io (filepath_rel rootPath targetPath)) (\<lambda>relativeSlash.
       let indexFile = (if WEB_INDEX_FILE config = '''' then ''index.html'' else WEB_INDEX_FILE config) in
       if relativeSlash = indexFile then ret_io ''/''
       else if path_base relativeSlash = indexFile then
         (let dir = path_dir relativeSlash in
          if dir = ''.'' then ret_io ''/'' else ret_io (''/'' @ trim_bytes dir ''/'' @ ''/''))
       else ret_io (''/'' @ trim_prefix relativeSlash ''/''))))"

section \<open>What the path checks guarantee\<close>

lemma reads_safe_path [simp]: "reads (safe_path_under_root root p i a)"
  unfolding safe_path_under_root_def
  by (auto intro!: reads_bind reads_catch)

lemma reads_climb [simp]: "reads (climb_to_existing n p)"
  by (induction n arbitrary: p)
    (auto intro!: reads_catch simp: Let_def)

declare climb_to_existing.simps [simp del]

lemma reads_validate_existing_parent [simp]: "reads (validate_existing_parent_symlink_safe r t)"
  unfolding validate_existing_parent_symlink_safe_def
  by (auto intro!: reads_bind)

text \<open>
  A successful \<open>safe_path_under_root\<close> returns the joined path, and that path lies lexically
  below the root.
\<close>

lemma safe_path_Inr:
  assumes "safe_path_under_root root p i a w = (Inr t, w')"
  shows "\<exists>rel. relative_request_path p i a = Inr rel
    \<and> t = abs_of w (path_join [abs_of w root, rel])
    \<and> path_is_inside_root (abs_of w root) t \<and> same_files w w'"
proof -
  from assms obtain rel rp w1 w2 where rel: "relative_request_path p i a = Inr rel"
    and a1: "abs_io root w = (Inr rp, w1)" and a2: "abs_io (path_join [rp, rel]) w1 = (Inr t, w2)"
    and "path_is_inside_root rp t"
    unfolding safe_path_under_root_def
    by (auto simp: io_inv split: if_splits sum.splits)
  moreover have "same_files w w1" using a1 by (rule readsD [OF reads_abs_io])
  moreover have "same_files w w'" using assms by (rule readsD [OF reads_safe_path])
  ultimately show ?thesis
    using abs_io_Inr [OF a1] abs_io_Inr [OF a2] by (auto simp: same_files_simps)
qed

text \<open>The relative path of an accepted request has no \<open>..\<close> in it, provided the index file has none.\<close>

lemma trim_prefix_abs_path [simp]: "trim_prefix (abs_path cs) ''/'' = join_with ''/'' cs"
  by (simp add: abs_path_def trim_prefix_def)

lemma not_in_split_join: "propers cs \<Longrightarrow> ''..'' \<notin> set (split_on (CHR ''/'') (join_with ''/'' cs))"
  using split_join_propers [of cs] propers_no_dots [of cs] by (cases "cs = []") auto

lemma join_with_single_comp: "propers cs \<Longrightarrow> join_with ''/'' cs = ''.'' \<Longrightarrow> False"
  using split_join_propers [of cs] by (cases cs) (auto simp: proper_def)

lemma path_join_rel:
  assumes cs: "propers cs" and i: "proper i"
  shows "path_join [join_with ''/'' cs, i] = join_with ''/'' (cs @ [i])"
proof (cases "cs = []")
  case True
  have "path_clean i = i"
    using i by (auto simp: path_clean_def is_abs_def has_prefix_def prefix_def proper_def clean_comps_def
          clean_step_def Let_def)
  with True i show ?thesis by (simp add: path_join_def properD)
next
  case False
  then obtain d ds where d: "cs = d # ds" by (cases cs) auto
  have all: "propers (cs @ [i])" using cs i by simp
  have ne: "join_with ''/'' cs \<noteq> []"
    using d cs by (cases ds) (auto simp: proper_def)
  have jj: "join_with ''/'' [join_with ''/'' cs, i] = join_with ''/'' (cs @ [i])"
    by (simp add: d join_with_Cons_Cons) (induction ds, auto simp: join_with_Cons_Cons)
  have nabs: "\<not> is_abs (join_with ''/'' (cs @ [i]))"
    using d cs by (auto simp: is_abs_def has_prefix_def prefix_def join_with_Cons_Cons proper_def
        append_eq_Cons_conv)
  show ?thesis
    using ne nabs all
    by (simp add: path_join_def jj [simplified] path_clean_def clean_comps_def split_join_propers
        foldl_clean_of_propers)
qed

lemma relative_request_path_Inr:
  assumes "relative_request_path p i a = Inr rel" and "proper i"
  shows "\<exists>u cs. path_unescape (if p = [] then ''/'' else p) = Inr u \<and> propers cs
    \<and> ''..'' \<notin> set (split_on (CHR ''/'') u)
    \<and> cs = filter keep_comp (split_on (CHR ''/'') u)
    \<and> rel = join_with ''/'' (if a \<and> (cs = [] \<or> has_suffix u ''/'') then cs @ [i] else cs)"
proof -
  from assms(1) obtain u where u: "path_unescape (if p = [] then ''/'' else p) = Inr u"
    and seg: "request_segments_ok u"
    and rel: "rel = (let c = trim_prefix (path_clean (''/'' @ trim_prefix u ''/'')) ''/'';
       c' = (if c = ''.'' then [] else c) in
       if a \<and> (c' = [] \<or> has_suffix u ''/'') then path_join [c', i] else c')"
    unfolding relative_request_path_def
    by (auto simp: result_simps Let_def)
  have nd: "''..'' \<notin> set (split_on (CHR ''/'') u)"
    using seg by (auto simp: request_segments_ok_def list_ex_iff)
  define cs where "cs = filter keep_comp (split_on (CHR ''/'') u)"
  have sp: "filter keep_comp (split_on (CHR ''/'') (''/'' @ trim_prefix u ''/'')) = cs"
    by (cases u) (auto simp: cs_def trim_prefix_def keep_comp_def has_prefix_def)
  have nd': "''..'' \<notin> set (split_on (CHR ''/'') (''/'' @ trim_prefix u ''/''))"
    using nd by (cases u) (auto simp: trim_prefix_def split: if_splits)
  have pc: "path_clean (CHR ''/'' # trim_prefix u ''/'') = abs_path cs"
    using sp nd' by (simp add: path_clean_abs clean_comps_def foldl_clean_nodots)
  have cs: "propers cs"
    using nd by (auto simp: cs_def propers_def proper_def keep_comp_def dest: split_on_no_sep)
  have dot: "join_with ''/'' cs \<noteq> ''.''"
    using join_with_single_comp [OF cs] by blast
  have ne: "join_with ''/'' cs = [] \<longleftrightarrow> cs = []"
    using cs by (cases cs; cases "tl cs") (auto simp: proper_def)
  have "rel = join_with ''/'' (if a \<and> (cs = [] \<or> has_suffix u ''/'') then cs @ [i] else cs)"
    using path_join_rel [OF cs assms(2)] dot
    by (auto simp: rel pc Let_def ne)
  with u nd cs cs_def show ?thesis by blast
qed

section \<open>Properties\<close>

definition demo_config :: settings where
  "demo_config = flag_defaults\<lparr>WEB_FILE_PATH := ''/site'', DB_FILE_PATH := ''/db'', DB_FULL_FILE_PATH := ''/db/sitebrush.db''\<rparr>"

text \<open>Where an existing path leads, with every symbolic link followed.\<close>

definition phys :: "world \<Rightarrow> string \<Rightarrow> path option" where
  "phys w p =
     (case resolve (fs w) True 255 [] (split_on (CHR ''/'') p) of
        Inl _ \<Rightarrow> None
      | Inr q \<Rightarrow> (if fs w q = None then None else Some q))"

lemma phys_propers: "phys w p = Some q \<Longrightarrow> propers q"
  using resolve_propers [of "[]" "split_on (CHR ''/'') p" "fs w" True 255 q] split_on_no_sep
  by (auto simp: phys_def split: sum.splits if_splits)

lemma phys_same: "same_files w w' \<Longrightarrow> phys w' = phys w"
  by (rule ext) (unfold phys_def same_files_simps, rule refl)

lemma eval_symlinks_phys: "eval_symlinks p w = (Inr q, w') \<Longrightarrow> \<exists>qs. phys w p = Some qs \<and> q = abs_path qs"
  using eval_symlinks_Inr by (fastforce simp: phys_def)

lemma eval_symlinks_phys_no_faults:
  "no_faults w \<Longrightarrow> phys w p = Some qs \<Longrightarrow> eval_symlinks p w = (r, w') \<Longrightarrow> r = Inr (abs_path qs)"
  using eval_symlinks_no_faults [of w p] by (auto simp: phys_def split: sum.splits if_splits option.splits)

text \<open>
  Property C10. A path that \<open>safePathUnderRoot\<close> accepts lies lexically below the root: it is the
  root's components followed by more proper components (none empty, \<open>.\<close> or \<open>..\<close>), whatever the
  request was and however system calls fail; and the check changes no file.
\<close>

theorem safe_path_lexically_inside:
  assumes "propers (cwd w)"
    and "safe_path_under_root root p i a w = (Inr t, w')"
  shows "fs w' = fs w
    \<and> (\<exists>rs us. propers (rs @ us) \<and> abs_of w root = abs_path rs \<and> t = abs_path (rs @ us))"
proof -
  obtain rel where t: "t = abs_of w (path_join [abs_of w root, rel])"
    and inside: "path_is_inside_root (abs_of w root) t" and same: "same_files w w'"
    using safe_path_Inr [OF assms(2)] by blast
  obtain rs where rs: "propers rs" "abs_of w root = abs_path rs"
    using abs_of_propers [OF assms(1)] by blast
  obtain ts where ts: "propers ts" "t = abs_path ts"
    using abs_of_propers [OF assms(1)] t by blast
  have "prefix rs ts"
    using inside rs ts by (simp add: inside_root_iff_prefix)
  then obtain us where "ts = rs @ us" by (auto simp: prefix_def)
  then show ?thesis
    using rs ts same by (auto simp: same_files_simps)
qed

text \<open>
  Property C8. When no system call fails, a path that \<open>safePathUnderRoot\<close> accepts and that
  exists leads, with every symbolic link followed, to a place below the physical root: a
  symbolic link cannot carry a request for an existing file out of the site.
\<close>

theorem safe_path_physically_inside:
  assumes "no_faults w" and "propers (cwd w)"
    and ok: "safe_path_under_root root p i a w = (Inr t, w')"
    and root: "phys w (abs_of w root) = Some rq" and target: "phys w t = Some q"
  shows "prefix rq q"
proof -
  obtain rp w1 w2 rel where a1: "abs_io root w = (Inr rp, w1)"
    and a2: "abs_io (path_join [rp, rel]) w1 = (Inr t, w2)"
    and rest: "(\<exists>e w3. eval_symlinks rp w2 = (Inl e, w3))
      \<or> (\<exists>er w3. eval_symlinks rp w2 = (Inr er, w3)
            \<and> ((\<exists>e w4. eval_symlinks t w3 = (Inl e, w4))
               \<or> (\<exists>et w4. eval_symlinks t w3 = (Inr et, w4) \<and> path_is_inside_root er et)))"
    using ok unfolding safe_path_under_root_def
    by (auto simp: io_inv split: if_splits)
  have s1: "same_files w w1" using a1 by (rule readsD [OF reads_abs_io])
  have s2: "same_files w w2" using s1 readsD [OF reads_abs_io a2] by (rule same_files_trans)
  have rp: "rp = abs_of w root" using abs_io_Inr [OF a1] .
  have n2: "no_faults w2" using assms(1) s2 by (simp add: no_faults_same)
  have e1: "\<And>r w3. eval_symlinks rp w2 = (r, w3) \<Longrightarrow> r = Inr (abs_path rq) \<and> same_files w w3"
    using eval_symlinks_phys_no_faults [OF n2] root rp s2
    by (auto simp: phys_same dest: readsD [OF reads_calls(5)] same_files_trans)
  have "\<And>r w3 w4. same_files w w3 \<Longrightarrow> eval_symlinks t w3 = (r, w4) \<Longrightarrow> r = Inr (abs_path q)"
    using eval_symlinks_phys_no_faults assms(1) target by (metis no_faults_same phys_same)
  with e1 rest have "path_is_inside_root (abs_path rq) (abs_path q)"
    by (metis sum.inject(2) sum.simps(4))
  then show ?thesis
    using inside_root_iff_prefix phys_propers root target by blast
qed

lemma path_join_abs_rel:
  "propers rs \<Longrightarrow> propers cs \<Longrightarrow> path_join [abs_path rs, join_with ''/'' cs] = abs_path (rs @ cs)"
  by (cases "cs = []") (simp_all add: path_join_abs walk_from_def split_join_propers foldl_clean_of_propers)

text \<open>
  Property C33. Which file a request is for: the unescaped request path must have no segment
  \<open>..\<close>, and the accepted path is the root followed by the segments that are neither empty nor
  \<open>.\<close>, and by the index file when the request was for a directory.
\<close>

theorem safe_path_maps_request:
  assumes "propers (cwd w)" and "proper i"
    and "safe_path_under_root root p i a w = (Inr t, w')"
  shows "\<exists>u cs rs. path_unescape (if p = [] then ''/'' else p) = Inr u
    \<and> ''..'' \<notin> set (split_on (CHR ''/'') u)
    \<and> cs = filter keep_comp (split_on (CHR ''/'') u)
    \<and> propers rs \<and> abs_of w root = abs_path rs
    \<and> t = abs_path (rs @ (if a \<and> (cs = [] \<or> has_suffix u ''/'') then cs @ [i] else cs))"
proof -
  obtain rel where rel: "relative_request_path p i a = Inr rel"
    and t: "t = abs_of w (path_join [abs_of w root, rel])"
    using safe_path_Inr [OF assms(3)] by blast
  obtain rs where rs: "propers rs" "abs_of w root = abs_path rs"
    using abs_of_propers [OF assms(1)] by blast
  obtain u cs where u: "path_unescape (if p = [] then ''/'' else p) = Inr u"
      "''..'' \<notin> set (split_on (CHR ''/'') u)" "cs = filter keep_comp (split_on (CHR ''/'') u)"
    and cs: "propers cs"
    and eq: "rel = join_with ''/'' (if a \<and> (cs = [] \<or> has_suffix u ''/'') then cs @ [i] else cs)"
    using relative_request_path_Inr [OF rel assms(2)] by blast
  have "t = abs_path (rs @ (if a \<and> (cs = [] \<or> has_suffix u ''/'') then cs @ [i] else cs))"
    using t rs cs assms(2) by (simp add: eq path_join_abs_rel)
  with u rs show ?thesis by blast
qed

text \<open>Climbing to an existing ancestor.\<close>

lemma climb_Inr:
  "propers ds \<Longrightarrow> climb_to_existing n (abs_path ds) w = (Inr p, w') \<Longrightarrow>
     \<exists>as. prefix as ds \<and> p = abs_path as
       \<and> (no_faults w \<longrightarrow> (\<forall>bs. prefix bs ds \<and> length as < length bs \<longrightarrow>
             node_at w False (abs_path bs) = Inl ENOENT))"
proof (induction n arbitrary: ds w)
  case 0
  then show ?case by (simp add: climb_to_existing.simps fail_io_def)
next
  case (Suc n)
  from Suc.prems(2) consider
      (found) nd where "os_lstat (abs_path ds) w = (Inr nd, w')" "p = abs_path ds"
    | (up) e w1 where "os_lstat (abs_path ds) w = (Inl e, w1)" "errors_is e OsErrNotExist"
        "climb_to_existing n (path_dir (abs_path ds)) w1 = (Inr p, w')"
    by (auto simp: climb_to_existing.simps io_inv Let_def split: if_splits)
  then show ?case
  proof cases
    case found
    then show ?thesis
      by (intro exI [of _ ds]) (auto dest: prefix_length_le)
  next
    case up
    have same: "same_files w w1" using up(1) by (rule readsD [OF reads_calls(2)])
    have "propers (butlast ds)" using Suc.prems(1) by (rule propers_butlast)
    then have "\<exists>as. prefix as (butlast ds) \<and> p = abs_path as
       \<and> (no_faults w1 \<longrightarrow> (\<forall>bs. prefix bs (butlast ds) \<and> length as < length bs \<longrightarrow>
             node_at w1 False (abs_path bs) = Inl ENOENT))"
      using up(3) Suc.prems(1) by (intro Suc.IH) (simp_all add: path_dir_abs_path)
    then obtain as where as: "prefix as (butlast ds)" "p = abs_path as"
      and no: "no_faults w1 \<longrightarrow> (\<forall>bs. prefix bs (butlast ds) \<and> length as < length bs \<longrightarrow>
             node_at w1 False (abs_path bs) = Inl ENOENT)"
      by blast
    have top: "node_at w False (abs_path ds) = Inl ENOENT" if nf: "no_faults w"
    proof -
      have "(case node_at w False (abs_path ds) of Inl n \<Rightarrow> Inl (SysErr n) | Inr n \<Rightarrow> Inr n) = Inl e"
        using os_lstat_no_faults [OF nf, of "abs_path ds"] up(1) by simp
      then obtain n where n: "node_at w False (abs_path ds) = Inl n" "e = SysErr n"
        by (auto split: sum.splits)
      with up(2) have "n = ENOENT" by (cases n) auto
      with n show ?thesis by simp
    qed
    have "node_at w False (abs_path bs) = Inl ENOENT"
      if "no_faults w" "prefix bs ds" "length as < length bs" for bs
    proof (cases "bs = ds")
      case False
      with that(2) have "prefix bs (butlast ds)"
        by (cases ds rule: rev_cases) auto
      with no that same show ?thesis by (simp add: no_faults_same same_files_simps)
    qed (use top that in simp)
    moreover have "prefix as ds"
      using as(1) by (metis prefix_order.trans prefixeq_butlast)
    ultimately show ?thesis using as(2) by blast
  qed
qed

lemma climb_enough_fuel:
  "propers ds \<Longrightarrow> length ds < n \<Longrightarrow> fst (climb_to_existing n (abs_path ds) w) \<noteq> Inl (ErrText ''fuel'')"
proof (induction n arbitrary: ds w)
  case (Suc n)
  show ?case
  proof (cases "os_lstat (abs_path ds) w")
    case (Pair r w1)
    have errs: "r \<noteq> Inl (ErrText ''fuel'')"
      using Pair by (auto simp: os_lstat_def sys_call_def sys_result_def split: option.splits sum.splits)
    show ?thesis
    proof (cases "ds = []")
      case True
      with Pair errs show ?thesis
        by (auto simp: climb_to_existing.simps catch_io_def ret_io_def fail_io_def Let_def
            path_dir_abs_path split: sum.split)
    next
      case False
      with Suc.prems have "length (butlast ds) < n" "propers (butlast ds)"
        by (cases ds rule: rev_cases, auto simp: propers_butlast)
      with Suc.IH Suc.prems Pair errs show ?thesis
        by (auto simp: climb_to_existing.simps catch_io_def ret_io_def fail_io_def Let_def
            path_dir_abs_path split: sum.split)
    qed
  qed
qed simp



section \<open>Witnesses\<close>

lemma demo_run_link:
  "fst (safe_path_under_root ''/site'' ''/in/a.html'' ''index.html'' True demo_world) = Inr ''/site/in/a.html''"
  by code_simp

theorem safe_path_lexically_inside_witness:
  "\<exists>w' :: world. fs w' = fs demo_world \<and>
     (\<exists>rs us. propers (rs @ us) \<and> abs_of demo_world ''/site'' = abs_path rs
        \<and> ''/site/in/a.html'' = abs_path (rs @ us))"
proof -
  obtain w' where run: "safe_path_under_root ''/site'' ''/in/a.html'' ''index.html'' True demo_world
      = (Inr ''/site/in/a.html'', w')"
    using demo_run_link run_Inr by metis
  have "propers (cwd demo_world)" by simp
  from safe_path_lexically_inside [OF this run] show ?thesis by blast
qed

theorem safe_path_physically_inside_witness:
  "prefix [''site''] [''site'', ''docs'', ''a.html'']"
proof -
  obtain w' where run: "safe_path_under_root ''/site'' ''/in/a.html'' ''index.html'' True demo_world
      = (Inr ''/site/in/a.html'', w')"
    using demo_run_link run_Inr by metis
  have root: "phys demo_world (abs_of demo_world ''/site'') = Some [''site'']" by code_simp
  have target: "phys demo_world ''/site/in/a.html'' = Some [''site'', ''docs'', ''a.html'']" by code_simp
  show ?thesis
    by (rule safe_path_physically_inside [OF _ _ run root target]) simp_all
qed

theorem safe_path_maps_request_witness:
  "\<exists>u cs rs. path_unescape ''/%64ocs/'' = Inr u
    \<and> ''..'' \<notin> set (split_on (CHR ''/'') u)
    \<and> cs = filter keep_comp (split_on (CHR ''/'') u)
    \<and> propers rs \<and> abs_of demo_world ''/site'' = abs_path rs
    \<and> ''/site/docs/index.html''
        = abs_path (rs @ (if True \<and> (cs = [] \<or> has_suffix u ''/'') then cs @ [''index.html''] else cs))"
proof -
  have "fst (safe_path_under_root ''/site'' ''/%64ocs/'' ''index.html'' True demo_world)
      = Inr ''/site/docs/index.html''"
    by code_simp
  then obtain w' where run: "safe_path_under_root ''/site'' ''/%64ocs/'' ''index.html'' True demo_world
      = (Inr ''/site/docs/index.html'', w')"
    using run_Inr by metis
  have index: "proper ''index.html''" by (simp add: proper_def)
  show ?thesis
    using safe_path_maps_request [OF _ index run] by simp
qed


end
