(* ===== verification/Data.thy ===== *)
theory Data
  imports "HOL-Library.Word" Prelude
begin

text \<open>
  The rows of the database, \<open>pkg/data/data.go\<close>: one record per struct, its fields prefixed by the
  struct's name because records share a name space. \<open>int\<close> and \<open>int64\<close> fields are \<open>int\<close>: the code
  copies and compares them and computes with none of them. A \<open>float64\<close> is its 64 bits.
\<close>

record post =
  Post_Id :: int
  Post_OwnerId :: int
  Post_EditorId :: int
  Post_DeleterId :: int
  Post_RequestUri :: string
  Post_Type :: string
  Post_Date :: int
  Post_Title :: string
  Post_Body :: string
  Post_Header :: string
  Post_Summary :: string
  Post_ShortText :: string
  Post_Tags :: string
  Post_Revision :: int
  Post_Domain :: string
  Post_Status :: string
  Post_Published :: bool

record domain =
  Domain_Id :: int
  Domain_Name :: string
  Domain_DNSZoneData :: string
  Domain_CNAMESecret :: string
  Domain_EmailSecretHash :: string
  Domain_Status :: string
  Domain_Frozen :: bool

record user =
  User_Id :: int
  User_SessionId :: string
  User_OldId :: int
  User_AvatarId :: int
  User_Email :: string
  User_PasswordHash :: string
  User_Nickname :: string
  User_FirstName :: string
  User_LastName :: string
  User_Gender :: string
  User_Phone :: string
  User_DateOfRegistration :: int
  User_DateOfBirth :: int
  User_LastVisitTime :: int
  User_GreenwichOffset :: int
  User_Activated :: string
  User_VerificationCode :: string
  User_Domain :: string
  User_Status :: string
  User_Language :: string
  User_CurrentIP :: string
  User_Profile :: string
  User_Preferences :: string
  User_SecurityLog :: string
  User_InvitedBy :: string
  User_InvitesAmount :: int
  User_QuotaBytes :: string
  User_QuotaOriginals :: string
  User_QuotaBytesUsed :: int
  User_QuotaOriginalsUsed :: int
  User_AutoGrab :: string
  User_DomainToGrab :: string

record group =
  Group_Id :: int
  Group_OwnerId :: int
  Group_Name :: string
  Group_Title :: string
  Group_Comment :: string
  Group_Date :: int
  Group_Status :: string
  Group_Domain :: string

record user_group =
  UserGroup_UserId :: int
  UserGroup_GroupId :: int
  UserGroup_Status :: string
  UserGroup_Domain :: string

record redirect =
  Redirect_Id :: int
  Redirect_OldUri :: string
  Redirect_NewUri :: string
  Redirect_Date :: int
  Redirect_Status :: string
  Redirect_Domain :: string

record uri_map =
  URIMap_Id :: int
  URIMap_OldUri :: string
  URIMap_NewUri :: string
  URIMap_Date :: int
  URIMap_Status :: string
  URIMap_Domain :: string

record media =
  Media_Id :: int
  Media_Type :: string
  Media_Hash :: string
  Media_OriginalHash :: string
  Media_Format :: string
  Media_MimeType :: string
  Media_StoragePath :: string
  Media_Width :: int
  Media_Height :: int
  Media_Status :: string
  Media_Domain :: string
  Media_Day :: int
  Media_Date :: int
  Media_SizesArray :: string
  Media_Rating :: "64 word"
  Media_RatingCount :: int
  Media_RatingIP :: string
  Media_Views :: int
  Media_BytesUsed :: int

record template =
  Template_Id :: int
  Template_Name :: string
  Template_Data :: string
  Template_Status :: string
  Template_Domain :: string

record post_template =
  PostTemplate_PostId :: int
  PostTemplate_TemplateId :: int
  PostTemplate_Status :: string
  PostTemplate_Domain :: string

record backup =
  Backup_Id :: int
  Backup_Domain :: string
  Backup_Path :: string
  Backup_Checksum :: string
  Backup_Size :: int
  Backup_Format :: string
  Backup_DownloadToken :: string
  Backup_CreatedAt :: int
  Backup_CompletedAt :: int
  Backup_Status :: string
  Backup_Error :: string

end
