(* ===== verification/Migration.thy ===== *)
theory Migration
  imports Data GoQuote GoPath
begin

text \<open>
  The migration of a version 1 site, \<open>pkg/migration/migration.go\<close>: \<open>BuildImportPlan\<close> turns the rows
  of the old database into rows of the new one and a list of warnings. The records have the
  struct's fields, prefixed by the struct's name.
\<close>

section \<open>Rows of version 1, the plan and its warnings\<close>

record warning =
  Warning_Code :: string
  Warning_Entity :: string
  Warning_EntityID :: int
  Warning_Field :: string
  Warning_Message :: string

record V1Domain =
  V1Domain_ID :: int
  V1Domain_Name :: string
  V1Domain_DNSZoneData :: string
  V1Domain_CNAMESecret :: string
  V1Domain_Status :: string
  V1Domain_EmailSecret :: string
  V1Domain_Freezed :: int

record V1Post =
  V1Post_ID :: int
  V1Post_OwnerID :: int
  V1Post_DeleterID :: int
  V1Post_RequestURI :: string
  V1Post_Type :: string
  V1Post_Date :: int
  V1Post_Title :: string
  V1Post_Text :: string
  V1Post_ShortText :: string
  V1Post_Tags :: string
  V1Post_Version :: int
  V1Post_Domain :: string
  V1Post_Status :: string
  V1Post_Published :: string

record V1URI =
  V1URI_ID :: int
  V1URI_OldURI :: string
  V1URI_NewURI :: string
  V1URI_Date :: int
  V1URI_Status :: string
  V1URI_Domain :: string

record V1User =
  V1User_ID :: int
  V1User_SessionID :: string
  V1User_OldID :: int
  V1User_AvatarID :: int
  V1User_Email :: string
  V1User_Password :: string
  V1User_Nickname :: string
  V1User_FirstName :: string
  V1User_LastName :: string
  V1User_Gender :: string
  V1User_Phone :: string
  V1User_DateOfRegistration :: int
  V1User_DateOfBirth :: int
  V1User_LastVisitTime :: int
  V1User_GrinvichTimeOffset :: int
  V1User_Activated :: string
  V1User_VerificationCode :: string
  V1User_Domain :: string
  V1User_Status :: string
  V1User_Language :: string
  V1User_CurrentIP :: string
  V1User_Profile :: string
  V1User_Preferences :: string
  V1User_SecurityLog :: string
  V1User_InvitedBy :: string
  V1User_InvitesAmmount :: int
  V1User_QuotaBytes :: string
  V1User_QuotaOriginals :: string
  V1User_QuotaBytesUsed :: int
  V1User_QuotaOriginalsUsed :: int
  V1User_AutoGrab :: string
  V1User_DomainToGrab :: string

record V1Group =
  V1Group_ID :: int
  V1Group_OwnerID :: int
  V1Group_Name :: string
  V1Group_Title :: string
  V1Group_Comment :: string
  V1Group_Date :: int
  V1Group_Status :: string
  V1Group_Domain :: string

record V1UserGroup =
  V1UserGroup_UserID :: int
  V1UserGroup_GroupID :: int

record V1Media =
  V1Media_ID :: int
  V1Media_Type :: string
  V1Media_Hash :: string
  V1Media_OriginalHash :: string
  V1Media_Format :: string
  V1Media_Width :: string
  V1Media_Height :: string
  V1Media_Status :: string
  V1Media_Domain :: string
  V1Media_Day :: int
  V1Media_Date :: int
  V1Media_SizesArray :: string
  V1Media_Rating :: "64 word"
  V1Media_RatingCount :: int
  V1Media_RatingIP :: string
  V1Media_Views :: int
  V1Media_BytesUsed :: int

record V1Template =
  V1Template_ID :: int
  V1Template_Name :: string
  V1Template_Data :: string
  V1Template_Status :: string
  V1Template_Domain :: string

record V1PostTemplate =
  V1PostTemplate_PostID :: int
  V1PostTemplate_TemplateID :: int

record SourceData =
  Source_Domains :: "V1Domain list"
  Source_Posts :: "V1Post list"
  Source_URIs :: "V1URI list"
  Source_Users :: "V1User list"
  Source_Groups :: "V1Group list"
  Source_UserGroups :: "V1UserGroup list"
  Source_Media :: "V1Media list"
  Source_Templates :: "V1Template list"
  Source_PostTemplates :: "V1PostTemplate list"

record ImportPlan =
  Plan_Domains :: "domain list"
  Plan_Posts :: "post list"
  Plan_Redirects :: "redirect list"
  Plan_URIMaps :: "uri_map list"
  Plan_Users :: "user list"
  Plan_Groups :: "group list"
  Plan_UserGroups :: "user_group list"
  Plan_Media :: "media list"
  Plan_Templates :: "template list"
  Plan_PostTemplates :: "post_template list"
  Plan_Warnings :: "warning list"

text \<open>The warning codes.\<close>

definition WarningLegacyPassword :: string where
  "WarningLegacyPassword = ''legacy_password_forced_reset''"

definition WarningInvalidInteger :: string where
  "WarningInvalidInteger = ''invalid_integer''"

definition WarningUnsafeMediaLocation :: string where
  "WarningUnsafeMediaLocation = ''unsafe_media_location''"

definition WarningMissingDomain :: string where
  "WarningMissingDomain = ''missing_domain''"

definition WarningDomainMismatch :: string where
  "WarningDomainMismatch = ''domain_mismatch''"

lemmas warning_codes = WarningLegacyPassword_def WarningInvalidInteger_def
  WarningUnsafeMediaLocation_def WarningMissingDomain_def WarningDomainMismatch_def

section \<open>Fields that are converted\<close>

definition legacy_bool :: "string \<Rightarrow> bool" where
  "legacy_bool value \<longleftrightarrow>
     to_lower (trim_space value)
       \<in> set [''1'', ''true'', ''yes'', ''y'', ''on'', ''published'', ''public'', ''active'']"

text \<open>The length is counted in bytes, the loop goes over runes.\<close>

definition is_md5_rune :: "nat \<Rightarrow> bool" where
  "is_md5_rune r \<longleftrightarrow>
     \<not> (\<not> unicode_is_digit r \<and> (r < 97 \<or> r > 102) \<and> (r < 65 \<or> r > 70))"

definition is_md5_hash :: "string \<Rightarrow> bool" where
  "is_md5_hash value \<longleftrightarrow> (if length value \<noteq> 32 then False else list_all is_md5_rune (runes value))"

definition parse_legacy_int :: "string \<Rightarrow> int \<Rightarrow> string \<Rightarrow> string \<Rightarrow> int \<times> warning list" where
  "parse_legacy_int entity entityID field value =
     (let value = trim_space value in
      if value = '''' then (0, [])
      else
        let invalid = (0, [\<lparr>Warning_Code = WarningInvalidInteger, Warning_Entity = entity,
              Warning_EntityID = entityID, Warning_Field = field,
              Warning_Message = ''legacy '' @ field @ '' value '' @ strconv_quote value
                @ '' could not be converted to an integer''\<rparr>]) in
        case atoi value of
          Some parsed \<Rightarrow> if parsed \<ge> 0 then (parsed, []) else invalid
        | None \<Rightarrow> invalid)"

definition lower_format :: "string \<Rightarrow> string" where
  "lower_format format = to_lower (trim_prefix (trim_space format) ''.'')"

definition media_mime_type :: "string \<Rightarrow> string" where
  "media_mime_type format =
     (let f = lower_format format in
      if f = ''jpg'' \<or> f = ''jpeg'' then ''image/jpeg''
      else if f = ''png'' then ''image/png''
      else if f = ''gif'' then ''image/gif''
      else if f = ''webp'' then ''image/webp''
      else '''')"

definition is_safe_public_media_format :: "string \<Rightarrow> bool" where
  "is_safe_public_media_format format \<longleftrightarrow>
     lower_format format \<in> set [''jpg'', ''jpeg'', ''png'', ''gif'', ''webp'']"

definition media_storage_path :: "int \<Rightarrow> string \<Rightarrow> string \<Rightarrow> string \<times> warning list" where
  "media_storage_path entityID hash format =
     (let hash = trim_space hash; format = lower_format format in
      if hash = '''' \<or> format = '''' then ('''', [])
      else if \<not> is_md5_hash hash then
        ('''', [\<lparr>Warning_Code = WarningUnsafeMediaLocation, Warning_Entity = ''media'',
           Warning_EntityID = entityID, Warning_Field = ''hash'',
           Warning_Message = ''legacy media hash is not a 32-character hex digest; ''
             @ ''storage path was not derived''\<rparr>])
      else if \<not> is_safe_public_media_format format then
        ('''', [\<lparr>Warning_Code = WarningUnsafeMediaLocation, Warning_Entity = ''media'',
           Warning_EntityID = entityID, Warning_Field = ''format'',
           Warning_Message = ''legacy media format is not in the safe import allowlist; ''
             @ ''storage path was not derived''\<rparr>])
      else (''/f/'' @ hash @ ''.'' @ format, []))"

section \<open>Row by row\<close>

definition map_domain :: "V1Domain \<Rightarrow> domain" where
  "map_domain row =
     \<lparr>Domain_Id = V1Domain_ID row, Domain_Name = V1Domain_Name row,
      Domain_DNSZoneData = V1Domain_DNSZoneData row, Domain_CNAMESecret = V1Domain_CNAMESecret row,
      Domain_EmailSecretHash = V1Domain_EmailSecret row, Domain_Status = V1Domain_Status row,
      Domain_Frozen = (V1Domain_Freezed row \<noteq> 0)\<rparr>"

definition map_post :: "V1Post \<Rightarrow> post" where
  "map_post row =
     \<lparr>Post_Id = V1Post_ID row, Post_OwnerId = V1Post_OwnerID row, Post_EditorId = 0,
      Post_DeleterId = V1Post_DeleterID row, Post_RequestUri = V1Post_RequestURI row,
      Post_Type = V1Post_Type row, Post_Date = V1Post_Date row, Post_Title = V1Post_Title row,
      Post_Body = V1Post_Text row, Post_Header = '''', Post_Summary = V1Post_ShortText row,
      Post_ShortText = V1Post_ShortText row, Post_Tags = V1Post_Tags row,
      Post_Revision = V1Post_Version row, Post_Domain = V1Post_Domain row, Post_Status = V1Post_Status row,
      Post_Published = legacy_bool (V1Post_Published row)\<rparr>"

definition map_redirect :: "V1URI \<Rightarrow> redirect" where
  "map_redirect row =
     \<lparr>Redirect_Id = V1URI_ID row, Redirect_OldUri = V1URI_OldURI row,
      Redirect_NewUri = V1URI_NewURI row, Redirect_Date = V1URI_Date row,
      Redirect_Status = V1URI_Status row, Redirect_Domain = V1URI_Domain row\<rparr>"

definition map_uri_map :: "V1URI \<Rightarrow> uri_map" where
  "map_uri_map row =
     \<lparr>URIMap_Id = V1URI_ID row, URIMap_OldUri = V1URI_OldURI row, URIMap_NewUri = V1URI_NewURI row,
      URIMap_Date = V1URI_Date row, URIMap_Status = V1URI_Status row,
      URIMap_Domain = V1URI_Domain row\<rparr>"

definition map_user :: "V1User \<Rightarrow> user \<times> warning list" where
  "map_user row =
    (let user =
     \<lparr>User_Id = V1User_ID row, User_SessionId = V1User_SessionID row, User_OldId = V1User_OldID row,
      User_AvatarId = V1User_AvatarID row, User_Email = V1User_Email row, User_PasswordHash = '''',
      User_Nickname = V1User_Nickname row, User_FirstName = V1User_FirstName row,
      User_LastName = V1User_LastName row, User_Gender = V1User_Gender row, User_Phone = V1User_Phone row,
      User_DateOfRegistration = V1User_DateOfRegistration row, User_DateOfBirth = V1User_DateOfBirth row,
      User_LastVisitTime = V1User_LastVisitTime row, User_GreenwichOffset = V1User_GrinvichTimeOffset row,
      User_Activated = V1User_Activated row, User_VerificationCode = V1User_VerificationCode row,
      User_Domain = V1User_Domain row, User_Status = V1User_Status row,
      User_Language = V1User_Language row, User_CurrentIP = V1User_CurrentIP row,
      User_Profile = V1User_Profile row, User_Preferences = V1User_Preferences row,
      User_SecurityLog = V1User_SecurityLog row, User_InvitedBy = V1User_InvitedBy row,
      User_InvitesAmount = V1User_InvitesAmmount row, User_QuotaBytes = V1User_QuotaBytes row,
      User_QuotaOriginals = V1User_QuotaOriginals row, User_QuotaBytesUsed = V1User_QuotaBytesUsed row,
      User_QuotaOriginalsUsed = V1User_QuotaOriginalsUsed row, User_AutoGrab = V1User_AutoGrab row,
      User_DomainToGrab = V1User_DomainToGrab row\<rparr> in
     if V1User_Password row = '''' then (user, [])
     else (user, [\<lparr>Warning_Code = WarningLegacyPassword, Warning_Entity = ''user'',
       Warning_EntityID = V1User_ID row, Warning_Field = ''password'',
       Warning_Message = ''legacy v1 password material was not imported as an active password hash; ''
         @ ''force a password reset before login''\<rparr>]))"

definition map_group :: "V1Group \<Rightarrow> group" where
  "map_group row =
     \<lparr>Group_Id = V1Group_ID row, Group_OwnerId = V1Group_OwnerID row, Group_Name = V1Group_Name row,
      Group_Title = V1Group_Title row, Group_Comment = V1Group_Comment row, Group_Date = V1Group_Date row,
      Group_Status = V1Group_Status row, Group_Domain = V1Group_Domain row\<rparr>"

definition map_user_group :: "V1UserGroup \<Rightarrow> string \<Rightarrow> user_group" where
  "map_user_group row domain =
     \<lparr>UserGroup_UserId = V1UserGroup_UserID row, UserGroup_GroupId = V1UserGroup_GroupID row,
      UserGroup_Status = ''active'', UserGroup_Domain = domain\<rparr>"

definition map_media :: "V1Media \<Rightarrow> media \<times> warning list" where
  "map_media row =
    (case parse_legacy_int ''media'' (V1Media_ID row) ''width'' (V1Media_Width row) of
       (width, width_warnings) \<Rightarrow>
     case parse_legacy_int ''media'' (V1Media_ID row) ''height'' (V1Media_Height row) of
       (height, height_warnings) \<Rightarrow>
     case media_storage_path (V1Media_ID row) (V1Media_Hash row) (V1Media_Format row) of
       (storage_path, path_warnings) \<Rightarrow>
    (
     \<lparr>Media_Id = V1Media_ID row, Media_Type = V1Media_Type row, Media_Hash = V1Media_Hash row,
      Media_OriginalHash = V1Media_OriginalHash row, Media_Format = V1Media_Format row,
      Media_MimeType = media_mime_type (V1Media_Format row), Media_StoragePath = storage_path,
      Media_Width = width, Media_Height = height, Media_Status = V1Media_Status row,
      Media_Domain = V1Media_Domain row, Media_Day = V1Media_Day row, Media_Date = V1Media_Date row,
      Media_SizesArray = V1Media_SizesArray row, Media_Rating = V1Media_Rating row,
      Media_RatingCount = V1Media_RatingCount row, Media_RatingIP = V1Media_RatingIP row,
      Media_Views = V1Media_Views row, Media_BytesUsed = V1Media_BytesUsed row\<rparr>,
     width_warnings @ height_warnings @ path_warnings))"

definition map_template :: "V1Template \<Rightarrow> template" where
  "map_template row =
     \<lparr>Template_Id = V1Template_ID row, Template_Name = V1Template_Name row,
      Template_Data = V1Template_Data row, Template_Status = V1Template_Status row,
      Template_Domain = V1Template_Domain row\<rparr>"

definition map_post_template :: "V1PostTemplate \<Rightarrow> string \<Rightarrow> post_template" where
  "map_post_template row domain =
     \<lparr>PostTemplate_PostId = V1PostTemplate_PostID row,
      PostTemplate_TemplateId = V1PostTemplate_TemplateID row, PostTemplate_Status = ''active'',
      PostTemplate_Domain = domain\<rparr>"

section \<open>The domain of a join row\<close>

definition domains_by_user_id :: "V1User list \<Rightarrow> int \<rightharpoonup> string" where
  "domains_by_user_id rows = foldl (\<lambda>domains row. domains(V1User_ID row \<mapsto> V1User_Domain row)) Map.empty rows"

definition domains_by_group_id :: "V1Group list \<Rightarrow> int \<rightharpoonup> string" where
  "domains_by_group_id rows = foldl (\<lambda>domains row. domains(V1Group_ID row \<mapsto> V1Group_Domain row)) Map.empty rows"

definition domains_by_post_id :: "V1Post list \<Rightarrow> int \<rightharpoonup> string" where
  "domains_by_post_id rows = foldl (\<lambda>domains row. domains(V1Post_ID row \<mapsto> V1Post_Domain row)) Map.empty rows"

definition domains_by_template_id :: "V1Template list \<Rightarrow> int \<rightharpoonup> string" where
  "domains_by_template_id rows =
     foldl (\<lambda>domains row. domains(V1Template_ID row \<mapsto> V1Template_Domain row)) Map.empty rows"

text \<open>Reading a missing key of a Go map gives the zero value.\<close>

definition map_get :: "(int \<rightharpoonup> string) \<Rightarrow> int \<Rightarrow> string" where
  "map_get m k = (case m k of None \<Rightarrow> '''' | Some v \<Rightarrow> v)"

definition derived_join_domain ::
  "string \<Rightarrow> int \<Rightarrow> int \<Rightarrow> (int \<rightharpoonup> string) \<Rightarrow> (int \<rightharpoonup> string) \<Rightarrow> string \<times> warning list" where
  "derived_join_domain entity leftID rightID leftDomains rightDomains =
     (let leftDomain = trim_space (map_get leftDomains leftID);
          rightDomain = trim_space (map_get rightDomains rightID) in
      if leftDomain \<noteq> '''' \<and> rightDomain \<noteq> '''' then
        if leftDomain = rightDomain then (leftDomain, [])
        else ('''', [\<lparr>Warning_Code = WarningDomainMismatch, Warning_Entity = entity,
          Warning_EntityID = leftID, Warning_Field = ''domain'',
          Warning_Message = ''v1 join references rows from different domains; ''
            @ ''join domain was not derived''\<rparr>])
      else if leftDomain \<noteq> '''' then (leftDomain, [])
      else if rightDomain \<noteq> '''' then (rightDomain, [])
      else ('''', [\<lparr>Warning_Code = WarningMissingDomain, Warning_Entity = entity,
        Warning_EntityID = leftID, Warning_Field = ''domain'',
        Warning_Message = ''v1 join table has no domain column and ''
          @ ''no related row domain could be derived''\<rparr>]))"

section \<open>The plan\<close>

text \<open>The bodies of the loops of \<open>BuildImportPlan\<close>, one per kind of row, and the loops in order.\<close>

definition empty_plan :: ImportPlan where
  "empty_plan = \<lparr>Plan_Domains = [], Plan_Posts = [], Plan_Redirects = [], Plan_URIMaps = [],
     Plan_Users = [], Plan_Groups = [], Plan_UserGroups = [], Plan_Media = [], Plan_Templates = [],
     Plan_PostTemplates = [], Plan_Warnings = []\<rparr>"

definition add_domain :: "ImportPlan \<Rightarrow> V1Domain \<Rightarrow> ImportPlan" where
  "add_domain plan row = plan\<lparr>Plan_Domains := Plan_Domains plan @ [map_domain row]\<rparr>"

definition add_post :: "ImportPlan \<Rightarrow> V1Post \<Rightarrow> ImportPlan" where
  "add_post plan row = plan\<lparr>Plan_Posts := Plan_Posts plan @ [map_post row]\<rparr>"

definition add_uri :: "ImportPlan \<Rightarrow> V1URI \<Rightarrow> ImportPlan" where
  "add_uri plan row =
     plan\<lparr>Plan_Redirects := Plan_Redirects plan @ [map_redirect row],
          Plan_URIMaps := Plan_URIMaps plan @ [map_uri_map row]\<rparr>"

definition add_user :: "ImportPlan \<Rightarrow> V1User \<Rightarrow> ImportPlan" where
  "add_user plan row =
     (case map_user row of (user, warnings) \<Rightarrow>
        plan\<lparr>Plan_Users := Plan_Users plan @ [user], Plan_Warnings := Plan_Warnings plan @ warnings\<rparr>)"

definition add_group :: "ImportPlan \<Rightarrow> V1Group \<Rightarrow> ImportPlan" where
  "add_group plan row = plan\<lparr>Plan_Groups := Plan_Groups plan @ [map_group row]\<rparr>"

definition add_user_group ::
  "(int \<rightharpoonup> string) \<Rightarrow> (int \<rightharpoonup> string) \<Rightarrow> ImportPlan \<Rightarrow> V1UserGroup \<Rightarrow> ImportPlan" where
  "add_user_group userDomains groupDomains plan row =
     (case derived_join_domain ''user_group'' (V1UserGroup_UserID row) (V1UserGroup_GroupID row)
             userDomains groupDomains of (domain, warnings) \<Rightarrow>
        plan\<lparr>Plan_UserGroups := Plan_UserGroups plan @ [map_user_group row domain],
             Plan_Warnings := Plan_Warnings plan @ warnings\<rparr>)"

definition add_media :: "ImportPlan \<Rightarrow> V1Media \<Rightarrow> ImportPlan" where
  "add_media plan row =
     (case map_media row of (media, warnings) \<Rightarrow>
        plan\<lparr>Plan_Media := Plan_Media plan @ [media], Plan_Warnings := Plan_Warnings plan @ warnings\<rparr>)"

definition add_template :: "ImportPlan \<Rightarrow> V1Template \<Rightarrow> ImportPlan" where
  "add_template plan row = plan\<lparr>Plan_Templates := Plan_Templates plan @ [map_template row]\<rparr>"

definition add_post_template ::
  "(int \<rightharpoonup> string) \<Rightarrow> (int \<rightharpoonup> string) \<Rightarrow> ImportPlan \<Rightarrow> V1PostTemplate \<Rightarrow> ImportPlan" where
  "add_post_template postDomains templateDomains plan row =
     (case derived_join_domain ''post_template'' (V1PostTemplate_PostID row) (V1PostTemplate_TemplateID row)
             postDomains templateDomains of (domain, warnings) \<Rightarrow>
        plan\<lparr>Plan_PostTemplates := Plan_PostTemplates plan @ [map_post_template row domain],
             Plan_Warnings := Plan_Warnings plan @ warnings\<rparr>)"

definition build_import_plan :: "SourceData \<Rightarrow> ImportPlan" where
  "build_import_plan source =
     (let plan = empty_plan;
          plan = foldl add_domain plan (Source_Domains source);
          plan = foldl add_post plan (Source_Posts source);
          plan = foldl add_uri plan (Source_URIs source);
          plan = foldl add_user plan (Source_Users source);
          plan = foldl add_group plan (Source_Groups source);
          userDomains = domains_by_user_id (Source_Users source);
          groupDomains = domains_by_group_id (Source_Groups source);
          plan = foldl (add_user_group userDomains groupDomains) plan (Source_UserGroups source);
          plan = foldl add_media plan (Source_Media source);
          plan = foldl add_template plan (Source_Templates source);
          postDomains = domains_by_post_id (Source_Posts source);
          templateDomains = domains_by_template_id (Source_Templates source);
          plan = foldl (add_post_template postDomains templateDomains) plan (Source_PostTemplates source)
      in plan)"

section \<open>What the import does\<close>

text \<open>The loops build the lists row by row.\<close>

lemma foldl_append_map: "foldl (\<lambda>acc x. acc @ [f x]) acc xs = acc @ map f xs"
  by (induction xs arbitrary: acc) simp_all

lemma foldl_add_domain:
  "foldl add_domain plan rows = plan\<lparr>Plan_Domains := Plan_Domains plan @ map map_domain rows\<rparr>"
  by (induction rows arbitrary: plan) (simp_all add: add_domain_def)

lemma foldl_add_post:
  "foldl add_post plan rows = plan\<lparr>Plan_Posts := Plan_Posts plan @ map map_post rows\<rparr>"
  by (induction rows arbitrary: plan) (simp_all add: add_post_def)

lemma foldl_add_uri:
  "foldl add_uri plan rows =
     plan\<lparr>Plan_Redirects := Plan_Redirects plan @ map map_redirect rows,
          Plan_URIMaps := Plan_URIMaps plan @ map map_uri_map rows\<rparr>"
  by (induction rows arbitrary: plan) (simp_all add: add_uri_def)

lemma foldl_add_user:
  "foldl add_user plan rows =
     plan\<lparr>Plan_Users := Plan_Users plan @ map (fst \<circ> map_user) rows,
          Plan_Warnings := Plan_Warnings plan @ concat (map (snd \<circ> map_user) rows)\<rparr>"
  by (induction rows arbitrary: plan) (simp_all add: add_user_def case_prod_beta)

lemma foldl_add_group:
  "foldl add_group plan rows = plan\<lparr>Plan_Groups := Plan_Groups plan @ map map_group rows\<rparr>"
  by (induction rows arbitrary: plan) (simp_all add: add_group_def)

lemma foldl_add_media:
  "foldl add_media plan rows =
     plan\<lparr>Plan_Media := Plan_Media plan @ map (fst \<circ> map_media) rows,
          Plan_Warnings := Plan_Warnings plan @ concat (map (snd \<circ> map_media) rows)\<rparr>"
  by (induction rows arbitrary: plan) (simp_all add: add_media_def case_prod_beta)

lemma foldl_add_template:
  "foldl add_template plan rows = plan\<lparr>Plan_Templates := Plan_Templates plan @ map map_template rows\<rparr>"
  by (induction rows arbitrary: plan) (simp_all add: add_template_def)

text \<open>A join row with its derived domain, and the warnings about it.\<close>

definition joined_user_group :: "SourceData \<Rightarrow> V1UserGroup \<Rightarrow> string \<times> warning list" where
  "joined_user_group s row =
     derived_join_domain ''user_group'' (V1UserGroup_UserID row) (V1UserGroup_GroupID row)
       (domains_by_user_id (Source_Users s)) (domains_by_group_id (Source_Groups s))"

definition joined_post_template :: "SourceData \<Rightarrow> V1PostTemplate \<Rightarrow> string \<times> warning list" where
  "joined_post_template s row =
     derived_join_domain ''post_template'' (V1PostTemplate_PostID row) (V1PostTemplate_TemplateID row)
       (domains_by_post_id (Source_Posts s)) (domains_by_template_id (Source_Templates s))"

lemma foldl_add_user_group:
  "foldl (add_user_group (domains_by_user_id (Source_Users s)) (domains_by_group_id (Source_Groups s))) plan rows =
     plan\<lparr>Plan_UserGroups := Plan_UserGroups plan @ map (\<lambda>r. map_user_group r (fst (joined_user_group s r))) rows,
          Plan_Warnings := Plan_Warnings plan @ concat (map (snd \<circ> joined_user_group s) rows)\<rparr>"
  by (induction rows arbitrary: plan) (simp_all add: add_user_group_def joined_user_group_def case_prod_beta)

lemma foldl_add_post_template:
  "foldl (add_post_template (domains_by_post_id (Source_Posts s)) (domains_by_template_id (Source_Templates s))) plan rows =
     plan\<lparr>Plan_PostTemplates := Plan_PostTemplates plan @ map (\<lambda>r. map_post_template r (fst (joined_post_template s r))) rows,
          Plan_Warnings := Plan_Warnings plan @ concat (map (snd \<circ> joined_post_template s) rows)\<rparr>"
  by (induction rows arbitrary: plan)
    (simp_all add: add_post_template_def joined_post_template_def case_prod_beta)

lemmas plan_loops = foldl_add_domain foldl_add_post foldl_add_uri foldl_add_user foldl_add_group
  foldl_add_user_group foldl_add_media foldl_add_template foldl_add_post_template

lemma plan_closed_form:
  "build_import_plan s =
     \<lparr>Plan_Domains = map map_domain (Source_Domains s),
      Plan_Posts = map map_post (Source_Posts s),
      Plan_Redirects = map map_redirect (Source_URIs s),
      Plan_URIMaps = map map_uri_map (Source_URIs s),
      Plan_Users = map (fst \<circ> map_user) (Source_Users s),
      Plan_Groups = map map_group (Source_Groups s),
      Plan_UserGroups = map (\<lambda>r. map_user_group r (fst (joined_user_group s r))) (Source_UserGroups s),
      Plan_Media = map (fst \<circ> map_media) (Source_Media s),
      Plan_Templates = map map_template (Source_Templates s),
      Plan_PostTemplates =
        map (\<lambda>r. map_post_template r (fst (joined_post_template s r))) (Source_PostTemplates s),
      Plan_Warnings =
        concat (map (snd \<circ> map_user) (Source_Users s))
        @ concat (map (snd \<circ> joined_user_group s) (Source_UserGroups s))
        @ concat (map (snd \<circ> map_media) (Source_Media s))
        @ concat (map (snd \<circ> joined_post_template s) (Source_PostTemplates s))\<rparr>"
  unfolding build_import_plan_def Let_def plan_loops
  by (simp add: empty_plan_def)

lemma plan_parts [simp]:
  "Plan_Users (build_import_plan s) = map (fst \<circ> map_user) (Source_Users s)"
  "Plan_UserGroups (build_import_plan s) =
     map (\<lambda>r. map_user_group r (fst (joined_user_group s r))) (Source_UserGroups s)"
  "Plan_Media (build_import_plan s) = map (fst \<circ> map_media) (Source_Media s)"
  "Plan_PostTemplates (build_import_plan s) =
     map (\<lambda>r. map_post_template r (fst (joined_post_template s r))) (Source_PostTemplates s)"
  "Plan_Warnings (build_import_plan s) =
     concat (map (snd \<circ> map_user) (Source_Users s))
     @ concat (map (snd \<circ> joined_user_group s) (Source_UserGroups s))
     @ concat (map (snd \<circ> map_media) (Source_Media s))
     @ concat (map (snd \<circ> joined_post_template s) (Source_PostTemplates s))"
  by (simp_all add: plan_closed_form)

text \<open>Which warnings each kind of row can raise.\<close>

definition warns :: "string \<Rightarrow> warning list \<Rightarrow> warning list" where
  "warns code = filter (\<lambda>w. Warning_Code w = code)"

lemma warns_simps [simp]:
  "warns code [] = []"
  "warns code (a @ b) = warns code a @ warns code b"
  by (simp_all add: warns_def)

lemma warns_concat_map: "warns code (concat (map f xs)) = concat (map (\<lambda>x. warns code (f x)) xs)"
  by (induction xs) simp_all

lemma warns_media:
  "code \<noteq> WarningInvalidInteger \<Longrightarrow> code \<noteq> WarningUnsafeMediaLocation \<Longrightarrow> warns code (snd (map_media row)) = []"
  by (auto simp: map_media_def parse_legacy_int_def media_storage_path_def warns_def Let_def
      split: prod.split option.split)

lemma warns_user: "code \<noteq> WarningLegacyPassword \<Longrightarrow> warns code (snd (map_user row)) = []"
  by (simp add: map_user_def warns_def Let_def)

lemma warns_join:
  "code \<noteq> WarningDomainMismatch \<Longrightarrow> code \<noteq> WarningMissingDomain \<Longrightarrow>
     warns code (snd (derived_join_domain e l r ld rd)) = []"
  by (simp add: derived_join_domain_def warns_def Let_def)

lemma concat_singletons:
  "concat (map (\<lambda>x. if P x then [] else [f x]) xs) = map f (filter (\<lambda>x. \<not> P x) xs)"
  by (induction xs) simp_all

text \<open>
  The import takes over every row of the old site, in order and once: each list of
  the plan is the list of the old rows, converted one by one (a URI row gives a redirect and a URI
  map), and the warnings are those of the rows, in the order in which the loops run.
\<close>

theorem import_takes_every_row:
  "map Domain_Id (Plan_Domains (build_import_plan s)) = map V1Domain_ID (Source_Domains s)
   \<and> map Post_Id (Plan_Posts (build_import_plan s)) = map V1Post_ID (Source_Posts s)
   \<and> map (\<lambda>p. (Post_RequestUri p, Post_Body p)) (Plan_Posts (build_import_plan s))
       = map (\<lambda>r. (V1Post_RequestURI r, V1Post_Text r)) (Source_Posts s)
   \<and> map (\<lambda>r. (Redirect_Id r, Redirect_OldUri r, Redirect_NewUri r)) (Plan_Redirects (build_import_plan s))
       = map (\<lambda>r. (V1URI_ID r, V1URI_OldURI r, V1URI_NewURI r)) (Source_URIs s)
   \<and> map URIMap_Id (Plan_URIMaps (build_import_plan s)) = map V1URI_ID (Source_URIs s)
   \<and> map User_Id (Plan_Users (build_import_plan s)) = map V1User_ID (Source_Users s)
   \<and> map Group_Id (Plan_Groups (build_import_plan s)) = map V1Group_ID (Source_Groups s)
   \<and> map (\<lambda>g. (UserGroup_UserId g, UserGroup_GroupId g)) (Plan_UserGroups (build_import_plan s))
       = map (\<lambda>r. (V1UserGroup_UserID r, V1UserGroup_GroupID r)) (Source_UserGroups s)
   \<and> map Media_Id (Plan_Media (build_import_plan s)) = map V1Media_ID (Source_Media s)
   \<and> map Template_Id (Plan_Templates (build_import_plan s)) = map V1Template_ID (Source_Templates s)
   \<and> map (\<lambda>p. (PostTemplate_PostId p, PostTemplate_TemplateId p)) (Plan_PostTemplates (build_import_plan s))
       = map (\<lambda>r. (V1PostTemplate_PostID r, V1PostTemplate_TemplateID r)) (Source_PostTemplates s)"
  by (simp add: plan_closed_form o_def map_domain_def map_post_def map_redirect_def map_uri_map_def
      map_user_def map_group_def map_user_group_def map_media_def map_template_def
      map_post_template_def Let_def case_prod_beta)

text \<open>
  Property C39. No password of the old site becomes an active one: every imported user has an empty
  password hash, and the users who had a password are exactly those the plan warns about, in order.
\<close>

theorem import_drops_passwords:
  "map User_PasswordHash (Plan_Users (build_import_plan s)) = replicate (length (Source_Users s)) ''''
   \<and> map Warning_EntityID (filter (\<lambda>w. Warning_Code w = WarningLegacyPassword) (Plan_Warnings (build_import_plan s)))
       = map V1User_ID (filter (\<lambda>r. V1User_Password r \<noteq> '''') (Source_Users s))"
proof -
  have user: "warns WarningLegacyPassword (snd (map_user row)) =
      (if V1User_Password row = '''' then []
       else [\<lparr>Warning_Code = WarningLegacyPassword, Warning_Entity = ''user'',
         Warning_EntityID = V1User_ID row, Warning_Field = ''password'',
         Warning_Message = ''legacy v1 password material was not imported as an active password hash; ''
           @ ''force a password reset before login''\<rparr>])" for row
    by (simp add: map_user_def warns_def Let_def)
  have media: "warns WarningLegacyPassword (snd (map_media row)) = []" for row
    by (rule warns_media) (simp_all add: warning_codes)
  have join: "warns WarningLegacyPassword (snd (derived_join_domain e l r ld rd)) = []" for e l r ld rd
    by (rule warns_join) (simp_all add: warning_codes)
  have "warns WarningLegacyPassword (Plan_Warnings (build_import_plan s)) =
      concat (map (\<lambda>row. warns WarningLegacyPassword (snd (map_user row))) (Source_Users s))"
    by (simp add: warns_concat_map media join joined_user_group_def joined_post_template_def)
  then have "map Warning_EntityID (warns WarningLegacyPassword (Plan_Warnings (build_import_plan s)))
      = map V1User_ID (filter (\<lambda>r. V1User_Password r \<noteq> '''') (Source_Users s))"
    by (simp add: user concat_singletons o_def)
  moreover have "map User_PasswordHash (map (fst \<circ> map_user) rows) = replicate (length rows) ''''" for rows
    by (induction rows) (simp_all add: map_user_def Let_def)
  ultimately show ?thesis by (simp add: warns_def)
qed

section \<open>Where imported media live\<close>

lemma md5_no_slash: "is_md5_hash h \<Longrightarrow> CHR ''/'' \<notin> set h"
proof
  assume md5: "is_md5_hash h" and "CHR ''/'' \<in> set h"
  then have "byte (CHR ''/'') \<in> set (runes h)"
    by (intro ascii_byte_in_runes) (simp_all add: byte_def)
  then have "is_md5_rune (byte (CHR ''/''))"
    using md5 by (auto simp: is_md5_hash_def list_all_iff split: if_splits)
  then show False by (simp add: is_md5_rune_def byte_def unicode_is_digit_def)
qed

definition media_formats :: "string list" where
  "media_formats = [''jpg'', ''jpeg'', ''png'', ''gif'', ''webp'']"

lemma lower_format_keeps_slash: "CHR ''/'' \<in> set f \<Longrightarrow> CHR ''/'' \<in> set (lower_format f)"
proof -
  assume "CHR ''/'' \<in> set f"
  then have "CHR ''/'' \<in> set (trim_space f)"
    by (rule trim_space_keeps) (simp_all add: byte_def unicode_is_space_def)
  then have "CHR ''/'' \<in> set (trim_prefix (trim_space f) ''.'')"
    by (cases "trim_space f") (auto simp: trim_prefix_def)
  then show ?thesis
    unfolding lower_format_def by (rule to_lower_keeps) (simp_all add: byte_def)
qed

lemma safe_format_no_slash: "lower_format f \<in> set media_formats \<Longrightarrow> CHR ''/'' \<notin> set f"
  using lower_format_keeps_slash [of f] by (auto simp: media_formats_def)

lemma storage_path_shape:
  "fst (media_storage_path i h f) = ''''
   \<or> (\<exists>hash format. fst (media_storage_path i h f) = ''/f/'' @ hash @ ''.'' @ format
        \<and> length hash = 32 \<and> proper (hash @ ''.'' @ format) \<and> lower_format format \<in> set media_formats)"
proof -
  have p: "proper (hash @ CHR ''.'' # format)"
    if "is_md5_hash hash" "lower_format format \<in> set media_formats" for hash format
  proof -
    have "length hash = 32" using that(1) by (simp add: is_md5_hash_def split: if_splits)
    then have "length (hash @ CHR ''.'' # format) > 2" by simp
    then have "hash @ CHR ''.'' # format \<noteq> []" "hash @ CHR ''.'' # format \<noteq> ''.''"
      "hash @ CHR ''.'' # format \<noteq> ''..''"
      by (auto simp del: length_append)
    then show ?thesis
      using that md5_no_slash [of hash] safe_format_no_slash [of format] by (simp add: proper_def)
  qed
  show ?thesis
  proof (cases "fst (media_storage_path i h f) = ''''")
    case False
    then have md5: "is_md5_hash (trim_space h)" and fmt: "lower_format (lower_format f) \<in> set media_formats"
      and path: "fst (media_storage_path i h f) = ''/f/'' @ trim_space h @ ''.'' @ lower_format f"
      by (auto simp: media_storage_path_def is_safe_public_media_format_def media_formats_def Let_def
          split: if_splits)
    then have "length (trim_space h) = 32" by (simp add: is_md5_hash_def split: if_splits)
    then show ?thesis
      using p [OF md5 fmt] fmt path by (intro disjI2 exI [of _ "trim_space h"] exI [of _ "lower_format f"]) simp
  qed simp
qed

text \<open>
  Property C40. A storage path that the import derives is empty or a file directly below \<open>/f/\<close>:
  32 bytes of hash, a dot and a format that the allowlist accepts, none of which can hold a slash.
  Rows of the old database, whatever they contain, cannot place a medium elsewhere.
\<close>

theorem import_media_paths_safe:
  "list_all (\<lambda>m. Media_StoragePath m = ''''
      \<or> (\<exists>hash format. Media_StoragePath m = ''/f/'' @ hash @ ''.'' @ format
           \<and> length hash = 32 \<and> proper (hash @ ''.'' @ format) \<and> lower_format format \<in> set media_formats))
     (Plan_Media (build_import_plan s))"
proof -
  have "Media_StoragePath (fst (map_media row))
      = fst (media_storage_path (V1Media_ID row) (V1Media_Hash row) (V1Media_Format row))" for row
    by (simp add: map_media_def case_prod_beta)
  then show ?thesis
    using storage_path_shape by (auto simp: list_all_iff)
qed

text \<open>
  Two slips in the derivation of the storage path: the digest test counts
  bytes but tests runes for any decimal digit of Unicode, so 16 Arabic-Indic zeros pass as a
  32-character hexadecimal digest; and the allowlist normalises the format again after
  \<open>mediaStoragePath\<close> has, so the format \<open>..jpg\<close> passes and leaves a doubled dot in the path of a
  medium that has no MIME type.
\<close>

theorem import_media_path_slips:
  "is_md5_hash (concat (replicate 16 (encode_rune 1632)))
   \<and> media_storage_path 1 (replicate 32 (CHR ''a'')) ''..jpg''
       = (''/f/'' @ replicate 32 (CHR ''a'') @ ''..jpg'', [])
   \<and> media_mime_type ''..jpg'' = ''''"
  by code_simp

section \<open>Domains of join rows\<close>

lemma foldl_map_upd: "foldl (\<lambda>m x. m(k x \<mapsto> v x)) m xs = m ++ map_of (rev (map (\<lambda>x. (k x, v x)) xs))"
  by (induction xs rule: rev_induct) (simp_all add: map_add_def fun_eq_iff split: option.split)

lemmas domains_by = domains_by_user_id_def domains_by_group_id_def domains_by_post_id_def
  domains_by_template_id_def

text \<open>The domain that two rows agree on: a blank one agrees with any.\<close>

definition agreed_domain :: "string \<Rightarrow> string \<Rightarrow> string" where
  "agreed_domain l r = (if l = '''' \<or> l = r then r else if r = '''' then l else '''')"

definition last_domain :: "('r \<Rightarrow> int) \<Rightarrow> ('r \<Rightarrow> string) \<Rightarrow> 'r list \<Rightarrow> int \<Rightarrow> string" where
  "last_domain key domain_of rows i =
     (case find_first (\<lambda>r. key r = i) (rev rows) of None \<Rightarrow> '''' | Some r \<Rightarrow> trim_space (domain_of r))"

lemma map_of_find_first: "map_of (map (\<lambda>x. (k x, v x)) xs) i = map_option v (find_first (\<lambda>x. k x = i) xs)"
  by (induction xs) auto

lemma map_get_domains:
  "trim_space (map_get (domains_by_user_id us) i) = last_domain V1User_ID V1User_Domain us i"
  "trim_space (map_get (domains_by_group_id gs) i) = last_domain V1Group_ID V1Group_Domain gs i"
  "trim_space (map_get (domains_by_post_id ps) i) = last_domain V1Post_ID V1Post_Domain ps i"
  "trim_space (map_get (domains_by_template_id ts) i) = last_domain V1Template_ID V1Template_Domain ts i"
  by (simp_all add: domains_by foldl_map_upd rev_map map_of_find_first map_get_def last_domain_def
      del: find_first_None split: option.split)

lemma derived_join_agreed:
  "fst (derived_join_domain e i j ld rd) = agreed_domain (trim_space (map_get ld i)) (trim_space (map_get rd j))"
  "map Warning_EntityID (snd (derived_join_domain e i j ld rd))
     = (if agreed_domain (trim_space (map_get ld i)) (trim_space (map_get rd j)) = '''' then [i] else [])"
  by (simp_all add: derived_join_domain_def agreed_domain_def Let_def)

definition user_group_domain :: "SourceData \<Rightarrow> V1UserGroup \<Rightarrow> string" where
  "user_group_domain s r =
     agreed_domain (last_domain V1User_ID V1User_Domain (Source_Users s) (V1UserGroup_UserID r))
       (last_domain V1Group_ID V1Group_Domain (Source_Groups s) (V1UserGroup_GroupID r))"

definition post_template_domain :: "SourceData \<Rightarrow> V1PostTemplate \<Rightarrow> string" where
  "post_template_domain s r =
     agreed_domain (last_domain V1Post_ID V1Post_Domain (Source_Posts s) (V1PostTemplate_PostID r))
       (last_domain V1Template_ID V1Template_Domain (Source_Templates s) (V1PostTemplate_TemplateID r))"

lemma joined_domains:
  "fst (joined_user_group s r) = user_group_domain s r"
  "fst (joined_post_template s q) = post_template_domain s q"
  by (simp_all add: joined_user_group_def joined_post_template_def derived_join_agreed
      map_get_domains user_group_domain_def post_template_domain_def)

definition about :: "string \<Rightarrow> warning list \<Rightarrow> warning list" where
  "about entity = filter (\<lambda>w. Warning_Entity w = entity)"

lemma about_simps [simp]:
  "about e [] = []"
  "about e (a @ b) = about e a @ about e b"
  by (simp_all add: about_def)

lemma about_concat_map: "about e (concat (map f xs)) = concat (map (\<lambda>x. about e (f x)) xs)"
  by (induction xs) simp_all

lemma about_user: "about e (snd (map_user row)) = (if e = ''user'' then snd (map_user row) else [])"
  by (simp add: map_user_def about_def Let_def)

lemma about_int:
  "about e (snd (parse_legacy_int e' i f v)) = (if e = e' then snd (parse_legacy_int e' i f v) else [])"
  by (simp add: parse_legacy_int_def about_def Let_def split: option.split)

lemma about_storage_path:
  "about e (snd (media_storage_path i h f)) = (if e = ''media'' then snd (media_storage_path i h f) else [])"
  by (simp add: media_storage_path_def about_def Let_def)

lemma about_media: "about e (snd (map_media row)) = (if e = ''media'' then snd (map_media row) else [])"
  by (simp add: map_media_def about_int about_storage_path case_prod_beta)

lemma about_join:
  "about e (snd (derived_join_domain e' i j ld rd)) = (if e = e' then snd (derived_join_domain e' i j ld rd) else [])"
  by (simp add: derived_join_domain_def about_def Let_def)

lemma concat_map_Nil: "concat (map (\<lambda>x. []) xs) = []"
  by (induction xs) simp_all

lemma concat_if_single: "concat (map (\<lambda>x. if P x then [f x] else []) xs) = map f (filter P xs)"
  by (induction xs) simp_all

lemma joined_warnings:
  "map Warning_EntityID (snd (joined_user_group s r))
     = (if user_group_domain s r = '''' then [V1UserGroup_UserID r] else [])"
  "map Warning_EntityID (snd (joined_post_template s q))
     = (if post_template_domain s q = '''' then [V1PostTemplate_PostID q] else [])"
  by (simp_all add: joined_user_group_def joined_post_template_def derived_join_agreed
      map_get_domains user_group_domain_def post_template_domain_def)

text \<open>
  A join row of the import gets the domain that its two rows agree on, where the last
  row with an id counts and a blank domain agrees with any; rows of different domains give the
  join row none. The join rows without a domain are exactly those the plan warns about, in order,
  by the id of their left row.
\<close>

theorem import_join_domains:
  "map UserGroup_Domain (Plan_UserGroups (build_import_plan s)) = map (user_group_domain s) (Source_UserGroups s)
   \<and> map PostTemplate_Domain (Plan_PostTemplates (build_import_plan s))
       = map (post_template_domain s) (Source_PostTemplates s)
   \<and> map Warning_EntityID (filter (\<lambda>w. Warning_Entity w = ''user_group'') (Plan_Warnings (build_import_plan s)))
       = map V1UserGroup_UserID (filter (\<lambda>r. user_group_domain s r = '''') (Source_UserGroups s))
   \<and> map Warning_EntityID (filter (\<lambda>w. Warning_Entity w = ''post_template'') (Plan_Warnings (build_import_plan s)))
       = map V1PostTemplate_PostID (filter (\<lambda>r. post_template_domain s r = '''') (Source_PostTemplates s))"
proof -
  have joins: "about e (snd (joined_user_group s r)) = (if e = ''user_group'' then snd (joined_user_group s r) else [])"
    "about e (snd (joined_post_template s q)) = (if e = ''post_template'' then snd (joined_post_template s q) else [])"
    for e r q
    by (simp_all add: joined_user_group_def joined_post_template_def about_join)
  have "map Warning_EntityID (about ''user_group'' (Plan_Warnings (build_import_plan s)))
      = map V1UserGroup_UserID (filter (\<lambda>r. user_group_domain s r = '''') (Source_UserGroups s))"
    by (simp add: about_concat_map about_user about_media joins map_concat o_def joined_warnings concat_if_single
        concat_map_Nil)
  moreover have "map Warning_EntityID (about ''post_template'' (Plan_Warnings (build_import_plan s)))
      = map V1PostTemplate_PostID (filter (\<lambda>r. post_template_domain s r = '''') (Source_PostTemplates s))"
    by (simp add: about_concat_map about_user about_media joins map_concat o_def joined_warnings concat_if_single
        concat_map_Nil)
  ultimately show ?thesis
    by (simp add: about_def o_def joined_domains map_user_group_def map_post_template_def)
qed

end
