(* ===== verification/KeyedMutex.thy ===== *)
theory KeyedMutex
  imports Prelude
begin

text \<open>
  The keyed mutex: \<open>keyedMutex\<close> of \<open>pkg/webserver/functions.go\<close> and its copy
  \<open>postRevisionKeyedMutex\<close> of \<open>pkg/database/functions.go\<close>, a map from keys to reference-counted
  locks. Any number of goroutines run \<open>lock\<close> and the function it returns, interleaved at every
  access to shared memory: a step relation with one program point per line of the code.
\<close>

section \<open>State and steps\<close>

type_synonym thread = nat
type_synonym lock_ref = nat   \<comment> \<open>a pointer to a \<open>keyedLock\<close>\<close>

text \<open>Where a goroutine is. The pointer and the key are the local variables of \<open>lock\<close>.\<close>

datatype point =
    Idle
  | Enter string                \<comment> \<open>before \<open>k.mu.Lock()\<close> of \<open>lock\<close>\<close>
  | Lookup string               \<comment> \<open>before the lookup in the map\<close>
  | Found string lock_ref       \<comment> \<open>before \<open>lock.refs++\<close>\<close>
  | Counted string lock_ref     \<comment> \<open>before \<open>k.mu.Unlock()\<close>\<close>
  | Waiting string lock_ref     \<comment> \<open>before \<open>lock.mu.Lock()\<close>\<close>
  | Held string lock_ref        \<comment> \<open>between \<open>lock\<close> and the call of the returned function\<close>
  | Leave string lock_ref       \<comment> \<open>after \<open>lock.mu.Unlock()\<close>, before \<open>k.mu.Lock()\<close>\<close>
  | Release string lock_ref     \<comment> \<open>before \<open>lock.refs--\<close>\<close>
  | Dropped string lock_ref     \<comment> \<open>before the test of \<open>lock.refs\<close>\<close>
  | Cleaned string lock_ref     \<comment> \<open>before the last \<open>k.mu.Unlock()\<close>\<close>

record mutex_state =
  map_mu :: "thread option"                  \<comment> \<open>who holds \<open>k.mu\<close>\<close>
  locks :: "string \<rightharpoonup> lock_ref"
  lock_mu :: "lock_ref \<Rightarrow> thread option"     \<comment> \<open>who holds the \<open>mu\<close> of a lock\<close>
  lock_refs :: "lock_ref \<Rightarrow> int"
  next_ref :: lock_ref                       \<comment> \<open>the next pointer that an allocation returns\<close>
  at :: "thread \<Rightarrow> point"

definition new_keyed_mutex :: mutex_state where
  "new_keyed_mutex = \<lparr>map_mu = None, locks = Map.empty, lock_mu = (\<lambda>_. None), lock_refs = (\<lambda>_. 0),
     next_ref = 0, at = (\<lambda>_. Idle)\<rparr>"

definition goes :: "thread \<Rightarrow> point \<Rightarrow> mutex_state \<Rightarrow> mutex_state" where
  "goes t p s = s\<lparr>at := (at s)(t := p)\<rparr>"

inductive mutex_step :: "thread \<Rightarrow> mutex_state \<Rightarrow> mutex_state \<Rightarrow> bool" where
  call: "at s t = Idle \<Longrightarrow> mutex_step t s (goes t (Enter key) s)"
| lock_map: "at s t = Enter key \<Longrightarrow> map_mu s = None \<Longrightarrow>
    mutex_step t s (goes t (Lookup key) (s\<lparr>map_mu := Some t\<rparr>))"
| found: "at s t = Lookup key \<Longrightarrow> locks s key = Some l \<Longrightarrow> mutex_step t s (goes t (Found key l) s)"
| alloc: "at s t = Lookup key \<Longrightarrow> locks s key = None \<Longrightarrow> l = next_ref s \<Longrightarrow>
    mutex_step t s (goes t (Found key l)
      (s\<lparr>next_ref := Suc l, lock_mu := (lock_mu s)(l := None), lock_refs := (lock_refs s)(l := 0),
         locks := (locks s)(key \<mapsto> l)\<rparr>))"
| count: "at s t = Found key l \<Longrightarrow>
    mutex_step t s (goes t (Counted key l) (s\<lparr>lock_refs := (lock_refs s)(l := lock_refs s l + 1)\<rparr>))"
| unlock_map: "at s t = Counted key l \<Longrightarrow>
    mutex_step t s (goes t (Waiting key l) (s\<lparr>map_mu := None\<rparr>))"
| acquire: "at s t = Waiting key l \<Longrightarrow> lock_mu s l = None \<Longrightarrow>
    mutex_step t s (goes t (Held key l) (s\<lparr>lock_mu := (lock_mu s)(l := Some t)\<rparr>))"
| unlock: "at s t = Held key l \<Longrightarrow>
    mutex_step t s (goes t (Leave key l) (s\<lparr>lock_mu := (lock_mu s)(l := None)\<rparr>))"
| lock_map_again: "at s t = Leave key l \<Longrightarrow> map_mu s = None \<Longrightarrow>
    mutex_step t s (goes t (Release key l) (s\<lparr>map_mu := Some t\<rparr>))"
| uncount: "at s t = Release key l \<Longrightarrow>
    mutex_step t s (goes t (Dropped key l) (s\<lparr>lock_refs := (lock_refs s)(l := lock_refs s l - 1)\<rparr>))"
| remove: "at s t = Dropped key l \<Longrightarrow> lock_refs s l = 0 \<Longrightarrow>
    mutex_step t s (goes t (Cleaned key l) (s\<lparr>locks := (locks s)(key := None)\<rparr>))"
| keep: "at s t = Dropped key l \<Longrightarrow> lock_refs s l \<noteq> 0 \<Longrightarrow> mutex_step t s (goes t (Cleaned key l) s)"
| return: "at s t = Cleaned key l \<Longrightarrow> mutex_step t s (goes t Idle (s\<lparr>map_mu := None\<rparr>))"

inductive mutex_reachable :: "mutex_state \<Rightarrow> bool" where
  start: "mutex_reachable new_keyed_mutex"
| step: "mutex_reachable s \<Longrightarrow> mutex_step t s s' \<Longrightarrow> mutex_reachable s'"

inductive_cases mutex_step_cases: "mutex_step t s s'"

lemma goes_simps [simp]:
  "at (goes t p s) = (at s)(t := p)"
  "map_mu (goes t p s) = map_mu s" "locks (goes t p s) = locks s" "lock_mu (goes t p s) = lock_mu s"
  "lock_refs (goes t p s) = lock_refs s" "next_ref (goes t p s) = next_ref s"
  by (simp_all add: goes_def)

section \<open>The invariant\<close>

text \<open>The points between \<open>k.mu.Lock()\<close> and \<open>k.mu.Unlock()\<close>.\<close>

fun in_map :: "point \<Rightarrow> bool" where
  "in_map (Lookup k) = True"
| "in_map (Found k l) = True"
| "in_map (Counted k l) = True"
| "in_map (Release k l) = True"
| "in_map (Dropped k l) = True"
| "in_map (Cleaned k l) = True"
| "in_map p = False"

text \<open>The points at which a goroutine is counted in \<open>refs\<close> of its lock.\<close>

fun counted :: "point \<Rightarrow> lock_ref \<Rightarrow> bool" where
  "counted (Counted k l) l' = (l = l')"
| "counted (Waiting k l) l' = (l = l')"
| "counted (Held k l) l' = (l = l')"
| "counted (Leave k l) l' = (l = l')"
| "counted (Release k l) l' = (l = l')"
| "counted p l' = False"

text \<open>The points at which a goroutine relies on its lock being the one in the map.\<close>

fun uses :: "point \<Rightarrow> string \<Rightarrow> lock_ref \<Rightarrow> bool" where
  "uses (Found k l) k' l' = (k = k' \<and> l = l')"
| "uses (Counted k l) k' l' = (k = k' \<and> l = l')"
| "uses (Waiting k l) k' l' = (k = k' \<and> l = l')"
| "uses (Held k l) k' l' = (k = k' \<and> l = l')"
| "uses (Leave k l) k' l' = (k = k' \<and> l = l')"
| "uses (Release k l) k' l' = (k = k' \<and> l = l')"
| "uses (Dropped k l) k' l' = (k = k' \<and> l = l')"
| "uses p k' l' = False"

definition users :: "mutex_state \<Rightarrow> lock_ref \<Rightarrow> thread set" where
  "users s l = {t. counted (at s t) l}"

text \<open>Finitely many goroutines are active.\<close>

definition inv_finite :: "mutex_state \<Rightarrow> bool" where
  "inv_finite s \<longleftrightarrow> finite {t. at s t \<noteq> Idle}"

text \<open>The holder of \<open>k.mu\<close> is the goroutine in the critical section on the map.\<close>

definition inv_map_mu :: "mutex_state \<Rightarrow> bool" where
  "inv_map_mu s \<longleftrightarrow> (\<forall>t. map_mu s = Some t \<longleftrightarrow> in_map (at s t))"

text \<open>The holder of a lock's \<open>mu\<close> is the goroutine that has acquired it.\<close>

definition inv_lock_mu :: "mutex_state \<Rightarrow> bool" where
  "inv_lock_mu s \<longleftrightarrow> (\<forall>t l. lock_mu s l = Some t \<longleftrightarrow> (\<exists>k. at s t = Held k l))"

text \<open>A lock that a goroutine relies on is the one that the map has for its key.\<close>

definition inv_uses :: "mutex_state \<Rightarrow> bool" where
  "inv_uses s \<longleftrightarrow> (\<forall>t k l. uses (at s t) k l \<longrightarrow> locks s k = Some l)"

text \<open>Two keys never share a lock.\<close>

definition inv_inj :: "mutex_state \<Rightarrow> bool" where
  "inv_inj s \<longleftrightarrow> (\<forall>k k' l. locks s k = Some l \<longrightarrow> locks s k' = Some l \<longrightarrow> k = k')"

text \<open>Every lock in the map has been allocated and some goroutine relies on it.\<close>

definition inv_alive :: "mutex_state \<Rightarrow> bool" where
  "inv_alive s \<longleftrightarrow> (\<forall>k l. locks s k = Some l \<longrightarrow> l < next_ref s \<and> (\<exists>t. uses (at s t) k l))"

text \<open>\<open>refs\<close> counts the users of a lock.\<close>

definition inv_refs :: "mutex_state \<Rightarrow> bool" where
  "inv_refs s \<longleftrightarrow> (\<forall>l. lock_refs s l = int (card (users s l)))"

definition mutex_inv :: "mutex_state \<Rightarrow> bool" where
  "mutex_inv s \<longleftrightarrow> inv_finite s \<and> inv_map_mu s \<and> inv_lock_mu s \<and> inv_uses s \<and> inv_inj s
     \<and> inv_alive s \<and> inv_refs s"

lemmas mutex_inv_defs = inv_finite_def inv_map_mu_def inv_lock_mu_def inv_uses_def inv_inj_def
  inv_alive_def inv_refs_def

text \<open>A step changes the users of a lock by one goroutine at most.\<close>

lemma users_goes: "users (goes t p s) l = (if counted p l then insert t (users s l) else users s l - {t})"
  by (auto simp: users_def)

lemma users_irrelevant [simp]:
  "users (s\<lparr>map_mu := a\<rparr>) l = users s l" "users (s\<lparr>locks := b\<rparr>) l = users s l"
  "users (s\<lparr>lock_mu := c\<rparr>) l = users s l" "users (s\<lparr>lock_refs := d\<rparr>) l = users s l"
  "users (s\<lparr>next_ref := e\<rparr>) l = users s l"
  by (simp_all add: users_def)

lemma in_users: "t \<in> users s l \<longleftrightarrow> counted (at s t) l"
  by (simp add: users_def)

lemma counted_uses: "counted p l \<Longrightarrow> \<exists>k. uses p k l"
  by (cases p) auto

lemma uses_cases: "uses p k l \<Longrightarrow> counted p l \<or> in_map p"
  by (cases p) auto

lemma mutex_inv_init: "mutex_inv new_keyed_mutex"
  by (simp add: mutex_inv_def mutex_inv_defs new_keyed_mutex_def users_def)

lemma finite_users: "inv_finite s \<Longrightarrow> finite (users s l)"
  unfolding inv_finite_def users_def by (erule rev_finite_subset) auto

lemma finite_step: "inv_finite s \<Longrightarrow> mutex_step t s s' \<Longrightarrow> inv_finite s'"
proof -
  assume fin: "inv_finite s" and "mutex_step t s s'"
  then have "{u. at s' u \<noteq> Idle} \<subseteq> insert t {u. at s u \<noteq> Idle}"
    by (auto elim!: mutex_step_cases split: if_splits)
  with fin show ?thesis unfolding inv_finite_def by (meson finite_insert finite_subset)
qed

lemma map_mu_step: "inv_map_mu s \<Longrightarrow> mutex_step t s s' \<Longrightarrow> inv_map_mu s'"
  unfolding inv_map_mu_def by (erule mutex_step_cases) (auto, (metis option.inject in_map.simps)+)

lemma lock_mu_step: "inv_lock_mu s \<Longrightarrow> inv_uses s \<Longrightarrow> inv_alive s \<Longrightarrow> mutex_step t s s' \<Longrightarrow> inv_lock_mu s'"
  unfolding inv_lock_mu_def inv_uses_def inv_alive_def
  by (erule mutex_step_cases)
    (auto split: if_splits, (metis less_irrefl option.distinct(1) option.inject uses.simps(4))+)

lemma inj_step: "inv_inj s \<Longrightarrow> inv_alive s \<Longrightarrow> mutex_step t s s' \<Longrightarrow> inv_inj s'"
  unfolding inv_inj_def inv_alive_def
  by (erule mutex_step_cases) (auto split: if_splits)

text \<open>While a goroutine is in the critical section on the map, no other one is.\<close>

lemma in_map_unique: "inv_map_mu s \<Longrightarrow> in_map (at s t) \<Longrightarrow> in_map (at s u) \<Longrightarrow> u = t"
  unfolding inv_map_mu_def by (metis option.inject)

lemma no_users_no_use:
  assumes "inv_map_mu s" "inv_refs s" "inv_finite s" "at s t = Dropped key l" "lock_refs s l = 0"
    and "uses (at s u) k l"
  shows "u = t"
proof -
  have "users s l = {}"
    using assms(2,3,5) finite_users [of s l] by (simp add: inv_refs_def)
  then have "\<not> counted (at s u) l" by (auto simp: users_def)
  then have "in_map (at s u)" using assms(6) uses_cases by blast
  then show ?thesis using assms(1,4) in_map_unique [of s t u] by simp
qed

lemma uses_step: "mutex_inv s \<Longrightarrow> mutex_step t s s' \<Longrightarrow> inv_uses s'"
proof -
  assume inv: "mutex_inv s" and st: "mutex_step t s s'"
  then have u: "\<And>t k l. uses (at s t) k l \<Longrightarrow> locks s k = Some l"
    by (auto simp: mutex_inv_def inv_uses_def)
  from st show ?thesis
  proof cases
    case (remove key l)
    have "locks s' k = Some m" if "uses (at s' v) k m" for v k m
    proof -
      have v: "v \<noteq> t" "uses (at s v) k m"
        using that remove by (auto split: if_splits)
      have "k \<noteq> key"
      proof
        assume "k = key"
        then have "m = l" using u [OF v(2)] u [of t key l] remove by simp
        then show False
          using no_users_no_use [of s t key l v] inv remove v by (simp add: mutex_inv_def)
      qed
      then show ?thesis using u [OF v(2)] remove by simp
    qed
    then show ?thesis by (simp add: inv_uses_def)
  qed (auto simp: inv_uses_def split: if_splits intro: u u [of t] dest: u)
qed

text \<open>Only the steps from \<open>Dropped\<close> stop relying on a lock.\<close>

lemma uses_kept:
  "mutex_step t s s' \<Longrightarrow> (\<And>k l. at s t \<noteq> Dropped k l) \<Longrightarrow> uses (at s v) k m \<Longrightarrow> uses (at s' v) k m"
  by (erule mutex_step_cases) auto

lemma alive_step: "mutex_inv s \<Longrightarrow> mutex_step t s s' \<Longrightarrow> inv_alive s'"
proof -
  assume inv: "mutex_inv s" and st: "mutex_step t s s'"
  then have u: "\<And>t k l. uses (at s t) k l \<Longrightarrow> locks s k = Some l"
    and lt: "\<And>k l. locks s k = Some l \<Longrightarrow> l < next_ref s"
    and a: "\<And>k l. locks s k = Some l \<Longrightarrow> \<exists>t. uses (at s t) k l"
    by (auto simp: mutex_inv_def inv_uses_def inv_alive_def)
  have "l < next_ref s'" if "locks s' k = Some l" for k l
    using st that lt by (auto elim!: mutex_step_cases split: if_splits simp: less_Suc_eq)
  moreover have "\<exists>v. uses (at s' v) k m" if m: "locks s' k = Some m" for k m
  proof (cases "\<exists>key l. at s t = Dropped key l")
    case False
    show ?thesis
    proof (cases "locks s k = Some m")
      case True
      then show ?thesis using a uses_kept [OF st] False by metis
    next
      case new: False
      with st m show ?thesis
        by (auto elim!: mutex_step_cases split: if_splits intro!: exI [of _ t])
    qed
  next
    case True
    then obtain key l where d: "at s t = Dropped key l" by blast
    have old: "locks s k = Some m" using st m d by (auto elim!: mutex_step_cases split: if_splits)
    have stay: "uses (at s w) k' m' \<Longrightarrow> w \<noteq> t \<Longrightarrow> uses (at s' w) k' m'" for w k' m'
      using st d by (auto elim!: mutex_step_cases)
    obtain v where v: "uses (at s v) k m" using a old by blast
    show ?thesis
    proof (cases "v = t")
      case True
      then have k: "k = key" "m = l" using v d by auto
      have "lock_refs s l \<noteq> 0" using st m d k by (auto elim!: mutex_step_cases)
      then have "users s l \<noteq> {}" using inv by (auto simp: mutex_inv_def inv_refs_def)
      then obtain w where w: "counted (at s w) l" by (auto simp: users_def)
      then obtain k' where k': "uses (at s w) k' l" using counted_uses by blast
      have "k' = key"
        using u [OF k'] old k inv unfolding mutex_inv_def inv_inj_def by blast
      moreover have "w \<noteq> t" using w d by auto
      ultimately show ?thesis using stay [OF k'] k by blast
    qed (use stay v in blast)
  qed
  ultimately show ?thesis by (simp add: inv_alive_def)
qed

lemma refs_step: "mutex_inv s \<Longrightarrow> mutex_step t s s' \<Longrightarrow> inv_refs s'"
proof -
  assume inv: "mutex_inv s" and st: "mutex_step t s s'"
  then have r: "\<And>l. lock_refs s l = int (card (users s l))" and fin: "\<And>l. finite (users s l)"
    and u: "\<And>t k l. uses (at s t) k l \<Longrightarrow> locks s k = Some l"
    and lt: "\<And>k l. locks s k = Some l \<Longrightarrow> l < next_ref s"
    by (auto simp: mutex_inv_def inv_refs_def inv_uses_def inv_alive_def finite_users)
  have fresh: "users s (next_ref s) = {}"
    using u lt counted_uses unfolding users_def by (metis (mono_tags) empty_Collect_eq less_irrefl)
  have card_gain: "int (card (insert t (users s l))) = int (card (users s l)) + 1"
    if "\<not> counted (at s t) l" for l
    using that fin by (simp add: users_def)
  have card_loss: "int (card (users s l - {t})) = int (card (users s l)) - 1"
    if "counted (at s t) l" for l
  proof -
    have "card (users s l) > 0" using that fin by (auto simp: card_gt_0_iff users_def)
    then show ?thesis using that fin by (auto simp: users_def card_Diff_singleton int_ops)
  qed
  have same: "users s l - {t} = users s l" if "\<not> counted (at s t) l" for l
    using that by (auto simp: users_def)
  have stays: "insert t (users s l) = users s l" if "counted (at s t) l" for l
    using that by (auto simp: users_def)
  from st show ?thesis
    by cases (simp_all add: inv_refs_def users_goes r fresh card_gain card_loss same stays)
qed

lemma mutex_inv_step: "mutex_inv s \<Longrightarrow> mutex_step t s s' \<Longrightarrow> mutex_inv s'"
  using finite_step map_mu_step lock_mu_step uses_step inj_step alive_step refs_step
  by (meson mutex_inv_def)

lemma mutex_reachable_inv: "mutex_reachable s \<Longrightarrow> mutex_inv s"
  by (induction rule: mutex_reachable.induct) (auto simp: mutex_inv_init mutex_inv_step)

lemmas mutex_reachable_parts =
  mutex_reachable_inv [unfolded mutex_inv_def inv_map_mu_def inv_lock_mu_def inv_uses_def inv_alive_def inv_refs_def]

section \<open>The contract of a keyed lock\<close>

text \<open>
  What the callers of \<open>lock\<close> rely on: no two goroutines hold the same key, and a goroutine's hold
  on a key does not change by what others do. The initial state and the steps generate the
  states that can occur.
\<close>

inductive lock_reachable :: "'s \<Rightarrow> (thread \<Rightarrow> 's \<Rightarrow> 's \<Rightarrow> bool) \<Rightarrow> 's \<Rightarrow> bool" for start lstep where
  init: "lock_reachable start lstep start"
| step: "lock_reachable start lstep s \<Longrightarrow> lstep t s s' \<Longrightarrow> lock_reachable start lstep s'"

locale keyed_lock =
  fixes start :: 's
    and lstep :: "thread \<Rightarrow> 's \<Rightarrow> 's \<Rightarrow> bool"
    and holds :: "'s \<Rightarrow> thread \<Rightarrow> string \<Rightarrow> bool"
  assumes exclusive: "lock_reachable start lstep s \<Longrightarrow> holds s t k \<Longrightarrow> holds s u k \<Longrightarrow> t = u"
    and others: "lstep u s s' \<Longrightarrow> u \<noteq> t \<Longrightarrow> holds s' t k \<longleftrightarrow> holds s t k"

text \<open>
  A client that reads, computes and writes one value per key while it holds the key, as the code
  does to allocate revision numbers. \<open>pending\<close> is what a goroutine has read and not yet written;
  \<open>updates\<close> counts the writes. A goroutine releases its key only after it has written.
\<close>

record ('s, 'v) guarded =
  lock_state :: 's
  vals :: "string \<Rightarrow> 'v"
  pending :: "thread \<Rightarrow> (string \<times> 'v) option"
  updates :: "string \<Rightarrow> nat"

inductive guarded_reachable ::
  "'s \<Rightarrow> (thread \<Rightarrow> 's \<Rightarrow> 's \<Rightarrow> bool) \<Rightarrow> ('s \<Rightarrow> thread \<Rightarrow> string \<Rightarrow> bool) \<Rightarrow> (string \<Rightarrow> 'v) \<Rightarrow> ('v \<Rightarrow> 'v)
     \<Rightarrow> ('s, 'v) guarded \<Rightarrow> bool"
  for start lstep holds first upd where
  g_start: "guarded_reachable start lstep holds first upd
     \<lparr>lock_state = start, vals = first, pending = (\<lambda>_. None), updates = (\<lambda>_. 0)\<rparr>"
| g_lock: "guarded_reachable start lstep holds first upd g \<Longrightarrow> lstep t (lock_state g) s' \<Longrightarrow> pending g t = None \<Longrightarrow>
     guarded_reachable start lstep holds first upd (g\<lparr>lock_state := s'\<rparr>)"
| g_read: "guarded_reachable start lstep holds first upd g \<Longrightarrow> holds (lock_state g) t k \<Longrightarrow>
     guarded_reachable start lstep holds first upd (g\<lparr>pending := (pending g)(t \<mapsto> (k, vals g k))\<rparr>)"
| g_write: "guarded_reachable start lstep holds first upd g \<Longrightarrow> pending g t = Some (k, v) \<Longrightarrow>
     guarded_reachable start lstep holds first upd
       (g\<lparr>vals := (vals g)(k := upd v), pending := (pending g)(t := None),
          updates := (updates g)(k := Suc (updates g k))\<rparr>)"

definition guarded_inv ::
  "'s \<Rightarrow> (thread \<Rightarrow> 's \<Rightarrow> 's \<Rightarrow> bool) \<Rightarrow> ('s \<Rightarrow> thread \<Rightarrow> string \<Rightarrow> bool) \<Rightarrow> (string \<Rightarrow> 'v) \<Rightarrow> ('v \<Rightarrow> 'v)
     \<Rightarrow> ('s, 'v) guarded \<Rightarrow> bool" where
  "guarded_inv start lstep holds first upd g \<longleftrightarrow>
     lock_reachable start lstep (lock_state g)
     \<and> (\<forall>t k v. pending g t = Some (k, v) \<longrightarrow> holds (lock_state g) t k \<and> v = vals g k)
     \<and> (\<forall>k. vals g k = (upd ^^ updates g k) (first k))"

context keyed_lock
begin

lemma guarded_invariant:
  "guarded_reachable start lstep holds first upd g \<Longrightarrow> guarded_inv start lstep holds first upd g"
proof (induction rule: guarded_reachable.induct)
  case g_start
  then show ?case by (simp add: guarded_inv_def lock_reachable.init)
next
  case (g_lock g t s')
  then have r: "lock_reachable start lstep s'"
    unfolding guarded_inv_def by (blast intro: lock_reachable.step)
  have "holds s' u k" if "pending g u = Some (k, v)" for u k v
  proof -
    have "u \<noteq> t" using that g_lock.hyps(3) by auto
    then show ?thesis
      using others [OF g_lock.hyps(2), of u k] that g_lock.IH by (auto simp: guarded_inv_def)
  qed
  then show ?case using g_lock r by (auto simp: guarded_inv_def)
next
  case (g_read g t k)
  then show ?case by (auto simp: guarded_inv_def)
next
  case (g_write g t k v)
  then have h: "holds (lock_state g) t k" "v = vals g k"
    and r: "lock_reachable start lstep (lock_state g)"
    by (auto simp: guarded_inv_def)
  have "k' \<noteq> k" if "u \<noteq> t" "pending g u = Some (k', v')" for u k' v'
    using that exclusive [OF r h(1), of u] g_write.IH by (auto simp: guarded_inv_def)
  then show ?case
    using g_write.IH h by (auto simp: guarded_inv_def)
qed

text \<open>No update is lost: the value of a key is the first one, updated as often as was written.\<close>

lemma no_lost_update:
  "guarded_reachable start lstep holds first upd g \<Longrightarrow> vals g k = (upd ^^ updates g k) (first k)"
  by (drule guarded_invariant) (simp add: guarded_inv_def)

end

text \<open>The keyed mutex keeps the contract.\<close>

definition mutex_holds :: "mutex_state \<Rightarrow> thread \<Rightarrow> string \<Rightarrow> bool" where
  "mutex_holds s t k \<longleftrightarrow> (case at s t of Held k' l \<Rightarrow> k = k' | _ \<Rightarrow> False)"

lemma mutex_holds_iff: "mutex_holds s t k \<longleftrightarrow> (\<exists>l. at s t = Held k l)"
  by (auto simp: mutex_holds_def split: point.splits)

lemma mutex_exclusive: "mutex_reachable s \<Longrightarrow> mutex_holds s t k \<Longrightarrow> mutex_holds s u k \<Longrightarrow> t = u"
proof -
  assume r: "mutex_reachable s" and "mutex_holds s t k" "mutex_holds s u k"
  then obtain l m where h: "at s t = Held k l" "at s u = Held k m" by (auto simp: mutex_holds_iff)
  then have "locks s k = Some l" "locks s k = Some m"
    using mutex_reachable_parts [OF r] by (metis uses.simps(4))+
  then have "lock_mu s l = Some t" "lock_mu s l = Some u"
    using h mutex_reachable_parts [OF r] by auto
  then show ?thesis by simp
qed

lemma mutex_lock_reachable: "lock_reachable new_keyed_mutex mutex_step s \<longleftrightarrow> mutex_reachable s"
proof
  show "mutex_reachable s" if "lock_reachable new_keyed_mutex mutex_step s"
    using that by induction (auto intro: mutex_reachable.intros)
  show "lock_reachable new_keyed_mutex mutex_step s" if "mutex_reachable s"
    using that by induction (auto intro: lock_reachable.intros)
qed

lemma mutex_others: "mutex_step u s s' \<Longrightarrow> u \<noteq> t \<Longrightarrow> mutex_holds s' t k \<longleftrightarrow> mutex_holds s t k"
  by (erule mutex_step_cases) (simp_all add: mutex_holds_iff)

interpretation keyed: keyed_lock new_keyed_mutex mutex_step mutex_holds
  by unfold_locales (auto simp: mutex_lock_reachable mutex_others intro: mutex_exclusive)

text \<open>
  A goroutine that calls \<open>lock\<close> while nobody is inside the critical section on the map comes to wait
  for the lock that the map has for its key, and to hold it at once when the key is new.
\<close>

lemma lock_call_waits:
  assumes "mutex_reachable s" "at s t = Idle" "map_mu s = None"
  shows "\<exists>s' l. mutex_reachable s' \<and> at s' = (at s)(t := Waiting k l) \<and> map_mu s' = None
    \<and> locks s' = (locks s)(k \<mapsto> l)
    \<and> (case locks s k of
         None \<Rightarrow> lock_mu s' l = None
       | Some m \<Rightarrow> l = m \<and> lock_mu s' = lock_mu s)"
proof -
  define s1 where "s1 = goes t (Enter k) s"
  have r1: "mutex_reachable s1"
    unfolding s1_def using assms by (blast intro: mutex_reachable.step mutex_step.call)
  define s2 where "s2 = goes t (Lookup k) (s1\<lparr>map_mu := Some t\<rparr>)"
  have r2: "mutex_reachable s2"
    unfolding s2_def
    by (rule mutex_reachable.step [OF r1 mutex_step.lock_map]) (simp_all add: s1_def assms)
  have at2: "at s2 t = Lookup k" "locks s2 = locks s" "at s2 = (at s)(t := Lookup k)" "lock_mu s2 = lock_mu s"
    by (simp_all add: s2_def s1_def)
  have "\<exists>s3 l. mutex_reachable s3 \<and> at s3 = (at s)(t := Found k l) \<and> locks s3 = (locks s)(k \<mapsto> l)
      \<and> (case locks s k of None \<Rightarrow> lock_mu s3 l = None | Some m \<Rightarrow> l = m \<and> lock_mu s3 = lock_mu s)"
  proof (cases "locks s k")
    case None
    define s3 where "s3 = goes t (Found k (next_ref s2))
      (s2\<lparr>next_ref := Suc (next_ref s2), lock_mu := (lock_mu s2)(next_ref s2 := None),
         lock_refs := (lock_refs s2)(next_ref s2 := 0), locks := (locks s2)(k \<mapsto> next_ref s2)\<rparr>)"
    have "mutex_step t s2 s3"
      unfolding s3_def by (rule mutex_step.alloc) (simp_all add: at2 None)
    then have "mutex_reachable s3" by (rule mutex_reachable.step [OF r2])
    then show ?thesis
      by (rule_tac x = s3 in exI, rule_tac x = "next_ref s2" in exI) (simp add: s3_def at2 None)
  next
    case (Some l)
    define s3 where "s3 = goes t (Found k l) s2"
    have "mutex_step t s2 s3"
      unfolding s3_def by (rule mutex_step.found) (simp_all add: at2 Some)
    then have "mutex_reachable s3" by (rule mutex_reachable.step [OF r2])
    then show ?thesis
      by (rule_tac x = s3 in exI, rule_tac x = l in exI) (simp add: s3_def at2 Some fun_upd_idem)
  qed
  then obtain s3 l where r3: "mutex_reachable s3" and at3: "at s3 = (at s)(t := Found k l)"
    and l3: "locks s3 = (locks s)(k \<mapsto> l)"
    and c: "case locks s k of None \<Rightarrow> lock_mu s3 l = None | Some m \<Rightarrow> l = m \<and> lock_mu s3 = lock_mu s"
    by blast
  define s4 where "s4 = goes t (Counted k l) (s3\<lparr>lock_refs := (lock_refs s3)(l := lock_refs s3 l + 1)\<rparr>)"
  have r4: "mutex_reachable s4"
    unfolding s4_def by (rule mutex_reachable.step [OF r3 mutex_step.count]) (simp add: at3)
  have r5: "mutex_reachable (goes t (Waiting k l) (s4\<lparr>map_mu := None\<rparr>))"
    by (rule mutex_reachable.step [OF r4 mutex_step.unlock_map]) (simp add: s4_def)
  show ?thesis
    using c by (intro exI [of _ "goes t (Waiting k l) (s4\<lparr>map_mu := None\<rparr>)"] exI [of _ l] conjI r5)
      (simp_all add: s4_def at3 l3 split: option.splits)
qed

text \<open>A state with one holder of a key and one goroutine that waits for it.\<close>

lemma demo_contention:
  "\<exists>s l. mutex_reachable s \<and> at s 0 = Held ''a'' l \<and> at s 1 = Waiting ''a'' l \<and> lock_mu s l = Some 0"
proof -
  obtain s1 l where s1: "mutex_reachable s1" "at s1 = (at new_keyed_mutex)(0 := Waiting ''a'' l)"
    "map_mu s1 = None" "lock_mu s1 l = None" "locks s1 ''a'' = Some l"
    using lock_call_waits [OF mutex_reachable.start, of 0 "''a''"] by (auto simp: new_keyed_mutex_def)
  define s2 where "s2 = goes 0 (Held ''a'' l) (s1\<lparr>lock_mu := (lock_mu s1)(l := Some 0)\<rparr>)"
  have s2: "mutex_reachable s2"
    unfolding s2_def by (rule mutex_reachable.step [OF s1(1) mutex_step.acquire]) (simp_all add: s1)
  have "at s2 1 = Idle" "map_mu s2 = None" "locks s2 ''a'' = Some l"
    using s1 by (simp_all add: s2_def new_keyed_mutex_def)
  with lock_call_waits [OF s2, of 1 "''a''"] obtain s3 where
    "mutex_reachable s3" "at s3 = (at s2)(1 := Waiting ''a'' l)" "lock_mu s3 = lock_mu s2"
    by auto
  then show ?thesis
    by (intro exI [of _ s3] exI [of _ l]) (simp add: s2_def)
qed

lemma guarded_of_mutex:
  "mutex_reachable s \<Longrightarrow> guarded_reachable new_keyed_mutex mutex_step mutex_holds first upd
     \<lparr>lock_state = s, vals = first, pending = (\<lambda>_. None), updates = (\<lambda>_. 0)\<rparr>"
proof (induction rule: mutex_reachable.induct)
  case start
  show ?case by (rule g_start)
next
  case (step s t s')
  show ?case using g_lock [OF step.IH, of t s'] step.hyps by simp
qed

section \<open>Properties\<close>

text \<open>
  Property C28. Mutual exclusion: in every interleaving of any number of goroutines, at most one is
  between \<open>lock\<close> and the call of the function it returned, for each key.
\<close>

theorem keyed_mutex_exclusion:
  assumes "mutex_reachable s" and "at s t = Held key l" and "at s u = Held key m"
  shows "t = u"
  using mutex_exclusive [OF assms(1), of t key u] assms(2,3) by (simp add: mutex_holds_iff)

text \<open>
  Property C31. No leak and no early removal: the map has a lock for exactly the keys that some
  goroutine is using, and the reference counter of every lock is the number of goroutines that
  hold it, wait for it or are about to return it. So the map is empty once all have returned.
\<close>

theorem keyed_mutex_no_leak:
  assumes "mutex_reachable s"
  shows "dom (locks s) = {k. \<exists>t l. uses (at s t) k l}
    \<and> (\<forall>l. lock_refs s l = int (card {t. counted (at s t) l}))
    \<and> ((\<forall>t. at s t = Idle) \<longrightarrow> locks s = Map.empty)"
proof -
  have a: "\<And>k l. locks s k = Some l \<Longrightarrow> \<exists>t. uses (at s t) k l"
    and u: "\<And>t k l. uses (at s t) k l \<Longrightarrow> locks s k = Some l"
    and r: "\<forall>l. lock_refs s l = int (card {t. counted (at s t) l})"
    using mutex_reachable_parts [OF assms] by (auto simp: users_def)
  have dom: "dom (locks s) = {k. \<exists>t l. uses (at s t) k l}"
    by (auto simp: dom_def dest!: a dest: u)
  moreover have "locks s = Map.empty" if "\<forall>t. at s t = Idle"
    using dom that by simp
  ultimately show ?thesis using r by blast
qed

text \<open>
  Property C30. No deadlock inside the keyed mutex: as long as some goroutine has not returned, one
  that has not returned can take a step; and a goroutine that cannot acquire its lock waits for one
  that holds the same key, never for the user of another key.
\<close>

theorem keyed_mutex_progress:
  assumes "mutex_reachable s"
  shows "((\<exists>t. at s t \<noteq> Idle) \<longrightarrow> (\<exists>u s'. at s u \<noteq> Idle \<and> mutex_step u s s'))
    \<and> (\<forall>t k l u. at s t = Waiting k l \<longrightarrow> lock_mu s l = Some u \<longrightarrow> at s u = Held k l)"
proof
  note inv = mutex_reachable_parts [OF assms]
  have inj: "\<And>k k' l. locks s k = Some l \<Longrightarrow> locks s k' = Some l \<Longrightarrow> k = k'"
    using mutex_reachable_inv [OF assms] by (auto simp: mutex_inv_def inv_inj_def)
  show "\<forall>t k l u. at s t = Waiting k l \<longrightarrow> lock_mu s l = Some u \<longrightarrow> at s u = Held k l"
    using inv inj by (metis uses.simps(3) uses.simps(4))
  have critical: "\<exists>s'. mutex_step u s s'" if "in_map (at s u)" for u
  proof (cases "at s u")
    case (Lookup k)
    then show ?thesis by (cases "locks s k") (blast intro: mutex_step.intros)+
  next
    case (Dropped k l)
    then show ?thesis by (cases "lock_refs s l = 0") (blast intro: mutex_step.intros)+
  qed (use that in \<open>auto intro: mutex_step.intros\<close>)
  show "(\<exists>t. at s t \<noteq> Idle) \<longrightarrow> (\<exists>u s'. at s u \<noteq> Idle \<and> mutex_step u s s')"
  proof
    assume "\<exists>t. at s t \<noteq> Idle"
    then obtain t where t: "at s t \<noteq> Idle" by blast
    show "\<exists>u s'. at s u \<noteq> Idle \<and> mutex_step u s s'"
    proof (cases "map_mu s")
      case (Some u)
      then have "in_map (at s u)" using inv by blast
      then show ?thesis using critical by (metis in_map.simps(7))
    next
      case free: None
      show ?thesis
      proof (cases "at s t")
        case (Waiting k l)
        show ?thesis
        proof (cases "lock_mu s l")
          case None
          then show ?thesis using t mutex_step.acquire [OF Waiting None] by blast
        next
          case (Some u)
          then obtain k' where "at s u = Held k' l" using inv by blast
          then show ?thesis by (metis point.distinct(11) mutex_step.unlock)
        qed
      next
        case (Held k l)
        then show ?thesis by (metis t mutex_step.unlock)
      next
        case (Enter k)
        then show ?thesis using free t by (metis mutex_step.lock_map)
      next
        case (Leave k l)
        then show ?thesis using free t by (metis mutex_step.lock_map_again)
      qed (use t critical in \<open>metis in_map.simps\<close>)+
    qed
  qed
qed

text \<open>
  Property C29. Under the keyed mutex no update is lost: when goroutines read a key's value and write
  a value computed from it while they hold the key, the key's value is the first one updated as
  often as goroutines have written. Two allocations of a revision number never return the same.
\<close>

theorem keyed_mutex_no_lost_update:
  assumes "guarded_reachable new_keyed_mutex mutex_step mutex_holds first upd g"
  shows "vals g k = (upd ^^ updates g k) (first k)"
  using assms by (rule keyed.no_lost_update)

section \<open>Witnesses\<close>

theorem keyed_mutex_exclusion_witness:
  "\<exists>s l. mutex_reachable s \<and> at s 0 = Held ''a'' l \<and> at s 1 = Waiting ''a'' l
     \<and> {u. \<exists>m. at s u = Held ''a'' m} = {0}"
proof -
  obtain s l where s: "mutex_reachable s" "at s 0 = Held ''a'' l" "at s 1 = Waiting ''a'' l"
    using demo_contention by blast
  then show ?thesis using keyed_mutex_exclusion [OF s(1,2)] by blast
qed

theorem keyed_mutex_no_leak_witness:
  "(\<exists>s l. mutex_reachable s \<and> at s 1 = Waiting ''a'' l
      \<and> dom (locks s) = {k. \<exists>t l. uses (at s t) k l} \<and> ''a'' \<in> dom (locks s))
   \<and> locks new_keyed_mutex = Map.empty"
proof
  obtain s l where s: "mutex_reachable s" "at s 1 = Waiting ''a'' l"
    using demo_contention by blast
  have "uses (at s 1) ''a'' l" using s by simp
  then show "\<exists>s l. mutex_reachable s \<and> at s 1 = Waiting ''a'' l
      \<and> dom (locks s) = {k. \<exists>t l. uses (at s t) k l} \<and> ''a'' \<in> dom (locks s)"
    using s keyed_mutex_no_leak [OF s(1)] by blast
  have "\<forall>t. at new_keyed_mutex t = Idle" by (simp add: new_keyed_mutex_def)
  then show "locks new_keyed_mutex = Map.empty"
    using keyed_mutex_no_leak [OF mutex_reachable.start] by blast
qed

theorem keyed_mutex_progress_witness:
  "\<exists>s l u s'. mutex_reachable s \<and> at s 1 = Waiting ''a'' l \<and> lock_mu s l = Some 0
     \<and> at s 0 = Held ''a'' l \<and> mutex_step u s s'"
proof -
  obtain s l where s: "mutex_reachable s" "at s 1 = Waiting ''a'' l" "lock_mu s l = Some 0"
    using demo_contention by blast
  then have "at s 1 \<noteq> Idle" by simp
  then show ?thesis using s keyed_mutex_progress [OF s(1)] by blast
qed

theorem keyed_mutex_no_lost_update_witness:
  "\<exists>g. guarded_reachable new_keyed_mutex mutex_step mutex_holds (\<lambda>_. 0) Suc g \<and> updates g ''a'' = 2
     \<and> vals g ''a'' = 2"
proof -
  obtain s l where s: "mutex_reachable s" "at s 0 = Held ''a'' l"
    using demo_contention by blast
  then have h: "mutex_holds s 0 ''a''" by (simp add: mutex_holds_iff)
  note r0 = guarded_of_mutex [OF s(1), of "\<lambda>_. 0" Suc]
  note r1 = g_write [OF g_read [OF r0, of 0 "''a''"], of 0 "''a''" 0, simplified, OF h]
  note r2 = g_write [OF g_read [OF r1, of 0 "''a''"], of 0 "''a''" 1, simplified, OF h]
  show ?thesis
  proof (intro exI conjI)
    show "guarded_reachable new_keyed_mutex mutex_step mutex_holds (\<lambda>_. 0) Suc
        \<lparr>lock_state = s, vals = (\<lambda>_. 0)(''a'' := 2), pending = (\<lambda>_. None), updates = (\<lambda>_. 0)(''a'' := 2)\<rparr>"
      using r2 by (simp add: numeral_2_eq_2)
    from keyed_mutex_no_lost_update [OF this, of "''a''"]
    show "vals \<lparr>lock_state = s, vals = (\<lambda>_. 0)(''a'' := 2 :: nat), pending = (\<lambda>_. None),
        updates = (\<lambda>_. 0)(''a'' := 2)\<rparr> ''a'' = 2"
      by simp
  qed simp
qed

end
