(* ===== verification/SysWrite.thy ===== *)
theory SysWrite
  imports World
begin

text \<open>
  The system calls that change the file system, and the functions of package \<open>os\<close> built from them:
  \<open>Mkdir\<close>, \<open>MkdirAll\<close>, \<open>CreateTemp\<close>, \<open>Write\<close>, \<open>Chmod\<close>, \<open>Sync\<close>, \<open>Close\<close>, \<open>Rename\<close>, \<open>Remove\<close>. An open file
  is the physical path of its node. A failing call changes nothing, but a failing write leaves a
  prefix of its data (\<open>torn\<close>). A crash is a run in which every call from some point on fails.
\<close>

section \<open>Calls\<close>

definition masked :: "nat \<Rightarrow> world \<Rightarrow> nat" where
  "masked perm w = perm - and perm (umask w)"

definition os_mkdir :: "string \<Rightarrow> nat \<Rightarrow> unit io" where
  "os_mkdir p perm = sys_call (\<lambda>w.
     case kernel_path w False p of
       Inl e \<Rightarrow> (Inl (SysErr e), w)
     | Inr q \<Rightarrow>
         if fs w q \<noteq> None then (Inl (SysErr EEXIST), w)
         else (Inr (), put_node q (NDir (masked perm w)) w))"

text \<open>\<open>open(name, O_RDWR|O_CREATE|O_EXCL, perm)\<close>.\<close>

definition open_excl :: "string \<Rightarrow> nat \<Rightarrow> path io" where
  "open_excl p perm = sys_call (\<lambda>w.
     case kernel_path w False p of
       Inl e \<Rightarrow> (Inl (SysErr e), w)
     | Inr q \<Rightarrow>
         if fs w q \<noteq> None then (Inl (SysErr EEXIST), w)
         else (Inr q, put_node q (NFile (masked perm w) '''') w))"

text \<open>\<open>file.Write(data)\<close> to a file just created: a failing call may have written some of the data.\<close>

definition file_write :: "path \<Rightarrow> string \<Rightarrow> unit io" where
  "file_write q data w =
     (let put = (\<lambda>b w'. case fs w' q of
                   Some (NFile m old) \<Rightarrow> put_node q (NFile m (old @ b)) w'
                 | _ \<Rightarrow> w') in
      case fault w (sysno w) of
        Some e \<Rightarrow> (Inl (SysErr e), put (take (torn w (sysno w)) data) (tick_sys w))
      | None \<Rightarrow> (Inr (), put data (tick_sys w)))"

definition file_chmod :: "path \<Rightarrow> nat \<Rightarrow> unit io" where
  "file_chmod q mode = sys_call (\<lambda>w.
     (Inr (), case fs w q of
                Some (NFile m b) \<Rightarrow> put_node q (NFile mode b) w
              | Some (NDir m) \<Rightarrow> put_node q (NDir mode) w
              | _ \<Rightarrow> w))"

definition file_sync :: "path \<Rightarrow> unit io" where
  "file_sync q = sys_call (ret_io ())"

definition file_close :: "path \<Rightarrow> unit io" where
  "file_close q = sys_call (ret_io ())"

text \<open>\<open>os.Chmod\<close> follows symbolic links.\<close>

definition os_chmod :: "string \<Rightarrow> nat \<Rightarrow> unit io" where
  "os_chmod p mode = sys_call (\<lambda>w.
     case kernel_path w True p of
       Inl e \<Rightarrow> (Inl (SysErr e), w)
     | Inr q \<Rightarrow>
         (case fs w q of
            None \<Rightarrow> (Inl (SysErr ENOENT), w)
          | Some (NFile m b) \<Rightarrow> (Inr (), put_node q (NFile mode b) w)
          | Some (NDir m) \<Rightarrow> (Inr (), put_node q (NDir mode) w)
          | Some (NLink t) \<Rightarrow> (Inr (), w)))"

text \<open>\<open>os.Open\<close>.\<close>

definition os_open :: "string \<Rightarrow> path io" where
  "os_open p = sys_call (\<lambda>w.
     case kernel_path w True p of
       Inl e \<Rightarrow> (Inl (SysErr e), w)
     | Inr q \<Rightarrow> if fs w q = None then (Inl (SysErr ENOENT), w) else (Inr q, w))"

text \<open>A directory with nothing below it.\<close>

definition empty_dir :: "world \<Rightarrow> path \<Rightarrow> bool" where
  "empty_dir w q \<longleftrightarrow> \<not> list_ex (\<lambda>(p, n). strict_prefix q p) (files w)"

definition is_dir :: "node \<Rightarrow> bool" where
  "is_dir n = (case n of NDir _ \<Rightarrow> True | _ \<Rightarrow> False)"

lemma is_dir_simps [simp]: "is_dir (NDir m)" "\<not> is_dir (NFile m b)" "\<not> is_dir (NLink t)"
  by (simp_all add: is_dir_def)

text \<open>The node at \<open>a\<close>, with all below it, becomes the node at \<open>b\<close>.\<close>

definition move_node :: "path \<Rightarrow> path \<Rightarrow> world \<Rightarrow> world" where
  "move_node a b w =
     w\<lparr>files := map (\<lambda>(p, n). (if prefix a p then b @ drop (length a) p else p, n))
        (filter (\<lambda>(p, n). \<not> prefix b p) (files w))\<rparr>"

definition rename_node :: "path \<Rightarrow> path \<Rightarrow> world \<Rightarrow> world" where
  "rename_node a b w =
     (case fs w a of
        Some (NDir m) \<Rightarrow> move_node a b w
      | Some n \<Rightarrow> put_node b n (drop_node a w)
      | None \<Rightarrow> w)"

text \<open>\<open>rename(2)\<close>: neither last component is followed; a directory that is replaced must be empty.\<close>

definition rename_check :: "world \<Rightarrow> path \<Rightarrow> path \<Rightarrow> errno option" where
  "rename_check w a b =
     (case fs w a of
        None \<Rightarrow> Some ENOENT
      | Some n \<Rightarrow>
          if a = b then None
          else if is_dir n \<and> prefix a b then Some EINVAL
          else (case fs w b of
                  None \<Rightarrow> None
                | Some old \<Rightarrow>
                    if is_dir n \<and> \<not> is_dir old then Some ENOTDIR
                    else if \<not> is_dir n \<and> is_dir old then Some EISDIR
                    else if is_dir old \<and> \<not> empty_dir w b then Some ENOTEMPTY
                    else None))"

definition sys_rename :: "string \<Rightarrow> string \<Rightarrow> unit io" where
  "sys_rename old new = sys_call (\<lambda>w.
     case kernel_path w False old of
       Inl e \<Rightarrow> (Inl (SysErr e), w)
     | Inr a \<Rightarrow>
         (case kernel_path w False new of
            Inl e \<Rightarrow> (Inl (SysErr e), w)
          | Inr b \<Rightarrow>
              (case rename_check w a b of
                 Some e \<Rightarrow> (Inl (SysErr e), w)
               | None \<Rightarrow> (Inr (), if a = b then w else rename_node a b w))))"

text \<open>\<open>os.SameFile\<close> of the nodes at two paths, without following the last component.\<close>

definition same_file :: "world \<Rightarrow> string \<Rightarrow> string \<Rightarrow> bool" where
  "same_file w a b = (kernel_path w False a = kernel_path w False b)"

text \<open>\<open>os.Rename\<close> refuses a directory as the new name before it asks the kernel.\<close>

definition os_rename :: "string \<Rightarrow> string \<Rightarrow> unit io" where
  "os_rename old new =
     catch_io (os_lstat new) (\<lambda>_. sys_rename old new)
       (\<lambda>n. if is_dir n then
              catch_io (os_lstat old) fail_io
                (\<lambda>_ w. if new = old \<or> \<not> same_file w new old then (Inl (SysErr EEXIST), w)
                       else sys_rename old new w)
            else sys_rename old new)"

definition sys_unlink :: "string \<Rightarrow> unit io" where
  "sys_unlink p = sys_call (\<lambda>w.
     case kernel_path w False p of
       Inl e \<Rightarrow> (Inl (SysErr e), w)
     | Inr q \<Rightarrow>
         (case fs w q of
            None \<Rightarrow> (Inl (SysErr ENOENT), w)
          | Some (NDir _) \<Rightarrow> (Inl (SysErr EISDIR), w)
          | Some _ \<Rightarrow> (Inr (), drop_node q w)))"

definition sys_rmdir :: "string \<Rightarrow> unit io" where
  "sys_rmdir p = sys_call (\<lambda>w.
     case kernel_path w False p of
       Inl e \<Rightarrow> (Inl (SysErr e), w)
     | Inr q \<Rightarrow>
         (case fs w q of
            None \<Rightarrow> (Inl (SysErr ENOENT), w)
          | Some (NDir _) \<Rightarrow>
              if empty_dir w q then (Inr (), drop_node q w)
              else (Inl (SysErr ENOTEMPTY), w)
          | Some _ \<Rightarrow> (Inl (SysErr ENOTDIR), w)))"

text \<open>\<open>os.Remove\<close>: unlink, and when that fails rmdir; the error of the call that fits is returned.\<close>

definition os_remove :: "string \<Rightarrow> unit io" where
  "os_remove p =
     catch_io (sys_unlink p)
       (\<lambda>e. catch_io (sys_rmdir p)
              (\<lambda>e1. fail_io (if e1 \<noteq> SysErr ENOTDIR then e1 else e)) ret_io)
       ret_io"

section \<open>\<open>os.MkdirAll\<close>\<close>

text \<open>The parent that \<open>MkdirAll\<close> recurs on: the path without trailing slashes, its last component
  and one separator, when that leaves something.\<close>

definition mkdir_parent :: "string \<Rightarrow> string option" where
  "mkdir_parent p =
     (let i = rev (dropWhile (\<lambda>c. c = CHR ''/'') (rev p));
          j = rev (dropWhile not_slash (rev i)) in
      if length j > 1 then Some (butlast j) else None)"

lemma mkdir_parent_shorter: "mkdir_parent p = Some q \<Longrightarrow> length q < length p"
proof -
  assume q: "mkdir_parent p = Some q"
  let ?i = "rev (dropWhile (\<lambda>c. c = CHR ''/'') (rev p))"
  let ?j = "rev (dropWhile not_slash (rev ?i))"
  have "length ?i \<le> length p" "length ?j \<le> length ?i"
    using length_dropWhile_le [of _ "rev p"] length_dropWhile_le [of _ "rev ?i"] by simp_all
  with q show ?thesis by (auto simp: mkdir_parent_def Let_def split: if_splits)
qed

function mkdir_all :: "nat \<Rightarrow> string \<Rightarrow> unit io" where
  "mkdir_all perm p =
     catch_io (os_stat p)
       (\<lambda>_. bind_io (case mkdir_parent p of None \<Rightarrow> ret_io () | Some q \<Rightarrow> mkdir_all perm q) (\<lambda>_.
            catch_io (os_mkdir p perm)
              (\<lambda>e. catch_io (os_lstat p) (\<lambda>_. fail_io e)
                     (\<lambda>n. if is_dir n then ret_io () else fail_io e))
              ret_io))
       (\<lambda>n. if is_dir n then ret_io () else fail_io (SysErr ENOTDIR))"
  by pat_completeness auto
termination
  by (relation "measure (\<lambda>(perm, p). length p)") (auto dest: mkdir_parent_shorter)

declare mkdir_all.simps [simp del]

text \<open>\<open>os.MkdirAll(path, perm)\<close> has its arguments the other way round.\<close>

definition os_mkdir_all :: "string \<Rightarrow> nat \<Rightarrow> unit io" where
  "os_mkdir_all p perm = mkdir_all perm p"

section \<open>\<open>os.CreateTemp\<close>\<close>

text \<open>
  The loop that draws names until one is free, at most 10000 times. The result is the name and
  the open file.
\<close>

definition next_random :: "string io" where
  "next_random w = (Inr (nat_digits (fastrand w (rands w) mod 2 ^ 32)), w\<lparr>rands := Suc (rands w)\<rparr>)"

fun create_temp_try :: "nat \<Rightarrow> string \<Rightarrow> string \<Rightarrow> (string \<times> path) io" where
  "create_temp_try n pre suf =
     bind_io next_random (\<lambda>r.
       let name = pre @ r @ suf in
       catch_io (open_excl name 384)
         (\<lambda>e. if errors_is e OsErrExist then
                (case n of 0 \<Rightarrow> fail_io (WrapErr ''createtemp: '' OsErrExist '''') | Suc m \<Rightarrow> create_temp_try m pre suf)
              else fail_io e)
         (\<lambda>q. ret_io (name, q)))"

declare create_temp_try.simps [simp del]

text \<open>\<open>CreateTemp(dir, "prefix*suffix")\<close> for a non-empty directory and a pattern without a slash.\<close>

definition os_create_temp :: "string \<Rightarrow> string \<Rightarrow> string \<Rightarrow> (string \<times> path) io" where
  "os_create_temp dir pre suf =
     create_temp_try 9999 ((if has_suffix dir ''/'' then dir else dir @ ''/'') @ pre) suf"

section \<open>Path resolution when files change\<close>

text \<open>Nodes that a walk can end at and never passes through.\<close>

definition end_node :: "node option \<Rightarrow> bool" where
  "end_node n = (case n of None \<Rightarrow> True | Some (NFile m b) \<Rightarrow> True | _ \<Rightarrow> False)"

lemma end_node_simps [simp]:
  "end_node None" "end_node (Some (NFile m b))" "\<not> end_node (Some (NDir m))" "\<not> end_node (Some (NLink t))"
  by (simp_all add: end_node_def)

text \<open>A walk to a directory does not depend on the nodes that are no directories and no links.\<close>

lemma resolve_dir_stable:
  "resolve f True n cur cs = Inr d \<Longrightarrow> f d = Some (NDir m) \<or> d \<noteq> q \<Longrightarrow> end_node (f q) \<Longrightarrow>
     resolve (f(q := x)) True n cur cs = Inr d"
proof (induction f "True" n cur cs rule: resolve.induct)
  case (2 f n cur c cs)
  consider "c = [] \<or> c = ''.''" | "c = ''..''" | "\<not> (c = [] \<or> c = ''.'')" "c \<noteq> ''..''" by blast
  then show ?case
  proof cases
    case 1
    with 2 show ?thesis by (simp add: resolve.simps(2))
  next
    case 2
    with "2.hyps"(2) "2.prems" show ?thesis by (simp add: resolve.simps(2))
  next
    case 3
    show ?thesis
    proof (cases "f (cur @ [c])")
      case None
      with 3 "2.prems" show ?thesis by (auto simp: resolve.simps(2) split: if_splits)
    next
      case (Some nd)
      show ?thesis
      proof (cases nd)
        case (NDir k)
        with "2.hyps"(3) [OF 3 Some] "2.prems" 3 Some show ?thesis
          by (auto simp: resolve.simps(2) split: if_splits)
      next
        case (NFile k b)
        with 3 Some "2.prems" show ?thesis by (auto simp: resolve.simps(2) split: if_splits)
      next
        case (NLink t)
        with "2.hyps"(4) [OF 3 Some NLink] "2.prems" 3 Some show ?thesis
          by (auto simp: resolve.simps(2) split: if_splits nat.splits)
      qed
    qed
  qed
qed simp

text \<open>One more component after a walk to a directory.\<close>

lemma resolve_snoc:
  "resolve f True n cur cs = Inr d \<Longrightarrow> f d = Some (NDir m) \<Longrightarrow> proper c \<Longrightarrow>
     resolve f False n cur (cs @ [c]) = Inr (d @ [c])"
proof (induction f "True" n cur cs rule: resolve.induct)
  case (1 f n cur)
  then show ?case by (auto simp: resolve.simps(2) proper_def split: option.split node.split)
next
  case (2 f n cur x xs)
  consider "x = [] \<or> x = ''.''" | "x = ''..''" | "\<not> (x = [] \<or> x = ''.'')" "x \<noteq> ''..''" by blast
  then show ?case
  proof cases
    case 1
    with 2 show ?thesis by (simp add: resolve.simps(2))
  next
    case 2
    with "2.hyps"(2) "2.prems" show ?thesis by (simp add: resolve.simps(2))
  next
    case 3
    show ?thesis
    proof (cases "f (cur @ [x])")
      case None
      with 3 "2.prems" show ?thesis by (auto simp: resolve.simps(2) split: if_splits)
    next
      case (Some nd)
      show ?thesis
      proof (cases nd)
        case (NDir k)
        with "2.hyps"(3) [OF 3 Some] "2.prems" 3 Some show ?thesis
          by (auto simp: resolve.simps(2) split: if_splits)
      next
        case (NFile k b)
        with 3 Some "2.prems" show ?thesis by (auto simp: resolve.simps(2) split: if_splits)
      next
        case (NLink t)
        with "2.hyps"(4) [OF 3 Some NLink] "2.prems" 3 Some show ?thesis
          by (auto simp: resolve.simps(2) split: if_splits nat.splits)
      qed
    qed
  qed
qed

text \<open>A walk that ends where nothing is still ends there when something has been put there.\<close>

lemma resolve_made:
  "resolve f False n cur cs = Inr q \<Longrightarrow> f q = None \<Longrightarrow> resolve (f(q \<mapsto> nd)) False n cur cs = Inr q"
proof (induction f "False" n cur cs rule: resolve.induct)
  case (2 f n cur x xs)
  consider "x = [] \<or> x = ''.''" | "x = ''..''" | "\<not> (x = [] \<or> x = ''.'')" "x \<noteq> ''..''" by blast
  then show ?case
  proof cases
    case 1
    with 2 show ?thesis by (simp add: resolve.simps(2))
  next
    case 2
    with "2.hyps"(2) "2.prems" show ?thesis by (simp add: resolve.simps(2))
  next
    case 3
    show ?thesis
    proof (cases "f (cur @ [x])")
      case None
      with 3 "2.prems" show ?thesis by (auto simp: resolve.simps(2) split: if_splits node.split)
    next
      case (Some nd')
      then have ne: "cur @ [x] \<noteq> q" using "2.prems"(2) by auto
      show ?thesis
      proof (cases nd')
        case (NDir k)
        with "2.hyps"(3) [OF 3 Some] "2.prems" 3 Some ne show ?thesis
          by (auto simp: resolve.simps(2) split: if_splits)
      next
        case (NFile k b)
        with 3 Some "2.prems" ne show ?thesis by (auto simp: resolve.simps(2) split: if_splits)
      next
        case (NLink t)
        with "2.hyps"(4) [OF 3 Some NLink] "2.prems" 3 Some ne show ?thesis
          by (auto simp: resolve.simps(2) split: if_splits nat.splits)
      qed
    qed
  qed
qed simp

text \<open>A walk that ends at no link is the same whether or not a last link is followed.\<close>

lemma resolve_nofollow:
  "resolve f False n cur cs = Inr q \<Longrightarrow> (\<And>t. f q \<noteq> Some (NLink t)) \<Longrightarrow> resolve f True n cur cs = Inr q"
proof (induction f "False" n cur cs rule: resolve.induct)
  case (2 f n cur x xs)
  consider "x = [] \<or> x = ''.''" | "x = ''..''" | "\<not> (x = [] \<or> x = ''.'')" "x \<noteq> ''..''" by blast
  then show ?case
  proof cases
    case 1
    with 2 show ?thesis by (simp add: resolve.simps(2))
  next
    case 2
    with "2.hyps"(2) "2.prems" show ?thesis by (simp add: resolve.simps(2))
  next
    case 3
    show ?thesis
    proof (cases "f (cur @ [x])")
      case None
      with 3 "2.prems" show ?thesis by (auto simp: resolve.simps(2) split: if_splits)
    next
      case (Some nd)
      show ?thesis
      proof (cases nd)
        case (NDir k)
        with "2.hyps"(3) [OF 3 Some] "2.prems" 3 Some show ?thesis
          by (auto simp: resolve.simps(2) split: if_splits)
      next
        case (NFile k b)
        with 3 Some "2.prems" show ?thesis by (auto simp: resolve.simps(2) split: if_splits)
      next
        case (NLink t)
        with "2.hyps"(4) [OF 3 Some NLink] "2.prems" 3 Some show ?thesis
          by (auto simp: resolve.simps(2) split: if_splits nat.splits)
      qed
    qed
  qed
qed simp

lemma resolve_nofollow_dir:
  "resolve f False n cur cs = Inr q \<Longrightarrow> f q = Some (NDir m) \<Longrightarrow> resolve f True n cur cs = Inr q"
  by (rule resolve_nofollow) simp_all

lemma resolve_made_dir:
  "resolve f False n cur cs = Inr q \<Longrightarrow> f q = None \<Longrightarrow> resolve (f(q \<mapsto> NDir m)) True n cur cs = Inr q"
  using resolve_made by (rule resolve_nofollow_dir) simp_all

end
