(* ===== verification/AtomicFile.thy ===== *)
theory AtomicFile
  imports SysWrite
begin

text \<open>
  Atomic replacement of files: \<open>atomicWriteFile\<close> and \<open>syncDir\<close> of \<open>pkg/webserver/functions.go\<close>,
  which every writing operation of the server goes through.
\<close>

section \<open>Operations\<close>

text \<open>\<open>_ = m\<close>, then \<open>k\<close>: the error of \<open>m\<close> is dropped.\<close>

definition ignoring :: "'a io \<Rightarrow> 'b io \<Rightarrow> 'b io" where
  "ignoring m k = catch_io m (\<lambda>_. k) (\<lambda>_. k)"

definition sync_dir :: "string \<Rightarrow> unit io" where
  "sync_dir dir =
     bind_io (os_open dir) (\<lambda>dirFile.
     catch_io (file_sync dirFile)
       (\<lambda>err. ignoring (file_close dirFile) (fail_io err))
       (\<lambda>_. ignoring (file_close dirFile) (ret_io ())))"

text \<open>From \<open>tmpFile.Write\<close> to \<open>os.Rename\<close>.\<close>

definition fill_and_rename :: "path \<Rightarrow> string \<Rightarrow> string \<Rightarrow> string \<Rightarrow> nat \<Rightarrow> unit io" where
  "fill_and_rename tmpFile tmpName fileName data mode =
     catch_io (file_write tmpFile data) (\<lambda>err. ignoring (file_close tmpFile) (fail_io err)) (\<lambda>_.
     catch_io (file_chmod tmpFile mode) (\<lambda>err. ignoring (file_close tmpFile) (fail_io err)) (\<lambda>_.
     catch_io (file_sync tmpFile) (\<lambda>err. ignoring (file_close tmpFile) (fail_io err)) (\<lambda>_.
     bind_io (file_close tmpFile) (\<lambda>_.
     os_rename tmpName fileName))))"

definition atomic_write_file :: "string \<Rightarrow> string \<Rightarrow> nat \<Rightarrow> unit io" where
  "atomic_write_file fileName data mode =
     bind_io (os_mkdir_all (path_dir fileName) 493) (\<lambda>_.
     bind_io (os_create_temp (path_dir fileName) (''.'' @ path_base fileName @ ''.'') ''.tmp'') (\<lambda>(tmpName, tmpFile).
     catch_io (fill_and_rename tmpFile tmpName fileName data mode)
       (\<lambda>err. ignoring (os_remove tmpName) (fail_io err))
       (\<lambda>_. sync_dir (path_dir fileName))))"

section \<open>Cleaned file names\<close>

text \<open>A cleaned path that ends in a name, as \<open>filepath.Join\<close> makes them.\<close>

definition file_path :: "string \<Rightarrow> bool" where
  "file_path p \<longleftrightarrow> path_clean p = p \<and> proper (last (split_on (CHR ''/'') p))"

text \<open>The components of a cleaned path: some \<open>..\<close> in front when it is relative, then proper ones.\<close>

definition climb_form :: "bool \<Rightarrow> string list \<Rightarrow> bool" where
  "climb_form rooted cs \<longleftrightarrow> (\<exists>k ds. cs = replicate k ''..'' @ ds \<and> propers ds \<and> (rooted \<longrightarrow> k = 0))"

lemma clean_step_form:
  assumes "climb_form r (rev acc)" and "CHR ''/'' \<notin> set c"
  shows "climb_form r (rev (clean_step r acc c))"
proof -
  from assms(1) obtain k ds where acc: "acc = rev ds @ replicate k ''..''" and ds: "propers ds" and r: "r \<longrightarrow> k = 0"
    by (auto simp: climb_form_def rev_swap)
  consider "c = [] \<or> c = ''.''" | "c = ''..''" "ds = []" | e es where "c = ''..''" "ds = es @ [e]"
    | "proper c"
    using assms(2) by (cases ds rule: rev_cases) (auto simp: proper_def)
  then show ?thesis
  proof cases
    case 1
    with assms show ?thesis by (simp add: clean_step_def)
  next
    case 2
    then have "clean_step r acc c = (if r then [] else replicate (Suc k) ''..'')"
      using acc r by (cases k) (auto simp: clean_step_def)
    then show ?thesis
      by (auto simp: climb_form_def simp del: replicate_Suc intro: exI [of _ 0] exI [of _ "Suc k"])
  next
    case 3
    then have "clean_step r acc c = rev es @ replicate k ''..''"
      using acc ds by (auto simp: clean_step_def)
    then show ?thesis using 3 ds r by (auto simp: climb_form_def)
  next
    case 4
    then have "rev (clean_step r acc c) = replicate k ''..'' @ ds @ [c]"
      using acc by simp
    then show ?thesis using 4 ds r by (auto simp: climb_form_def intro!: exI [of _ k])
  qed
qed

lemma foldl_clean_form:
  "climb_form r (rev acc) \<Longrightarrow> (\<forall>c\<in>set cs. CHR ''/'' \<notin> set c) \<Longrightarrow> climb_form r (rev (foldl (clean_step r) acc cs))"
  by (induction cs arbitrary: acc) (simp_all add: clean_step_form)

lemma clean_comps_form: "climb_form r (clean_comps r (split_on (CHR ''/'') p))"
  unfolding clean_comps_def
  by (rule foldl_clean_form) (auto simp: climb_form_def dest: split_on_no_sep)

lemma foldl_clean_dots: "foldl (clean_step False) (replicate j ''..'') (replicate k ''..'') = replicate (j + k) ''..''"
proof (induction k arbitrary: j)
  case (Suc k)
  have "clean_step False (replicate j ''..'') ''..'' = replicate (Suc j) ''..''"
    by (cases j) (simp_all add: clean_step_def)
  with Suc [of "Suc j"] show ?case by simp
qed simp

lemma clean_of_form: "climb_form r cs \<Longrightarrow> clean_comps r cs = cs"
  using foldl_clean_dots [of 0]
  by (cases r) (auto simp: climb_form_def clean_comps_def foldl_clean_of_propers)

lemma climb_form_no_sep:
  assumes "climb_form r cs" and "c \<in> set cs"
  shows "CHR ''/'' \<notin> set c" and "c \<noteq> []"
proof -
  obtain k ds where cs: "cs = replicate k ''..'' @ ds" and ds: "propers ds"
    using assms(1) by (auto simp: climb_form_def)
  have "c = ''..'' \<or> proper c"
    using assms(2) ds unfolding cs propers_def by (cases "k = 0") auto
  then show "CHR ''/'' \<notin> set c" and "c \<noteq> []" by (auto simp: proper_def)
qed

lemma split_join_form:
  "climb_form r cs \<Longrightarrow> cs \<noteq> [] \<Longrightarrow> split_on (CHR ''/'') (join_with ''/'' cs) = cs"
  by (rule split_join) (auto dest: climb_form_no_sep)

lemma climb_form_snoc: "climb_form r (cs @ [d]) \<Longrightarrow> proper d \<Longrightarrow> climb_form r cs"
proof -
  assume "climb_form r (cs @ [d])" "proper d"
  then obtain k ds where k: "cs @ [d] = replicate k ''..'' @ ds" "propers ds" "r \<longrightarrow> k = 0"
    by (auto simp: climb_form_def)
  show ?thesis
  proof (cases ds rule: rev_cases)
    case Nil
    then have eq: "cs @ [d] = replicate k ''..''" using k(1) by simp
    have "d \<in> set (cs @ [d])" by simp
    then have "d = ''..''" unfolding eq by simp
    with \<open>proper d\<close> show ?thesis by (simp add: proper_def)
  next
    case (snoc es e)
    with k have "cs = replicate k ''..'' @ es" "propers es" by simp_all
    with k(3) show ?thesis unfolding climb_form_def by blast
  qed
qed

text \<open>The shape of a cleaned file name.\<close>

lemma file_path_shape:
  assumes "file_path p"
  obtains cs d where "climb_form (is_abs p) cs" "proper d"
    "is_abs p \<Longrightarrow> p = abs_path (cs @ [d])" "\<not> is_abs p \<Longrightarrow> p = join_with ''/'' (cs @ [d])"
proof -
  define es where "es = clean_comps (is_abs p) (split_on (CHR ''/'') p)"
  have form: "climb_form (is_abs p) es" by (simp add: es_def clean_comps_form)
  have p: "path_clean p = p" and last: "proper (last (split_on (CHR ''/'') p))"
    using assms by (simp_all add: file_path_def)
  have abs: "is_abs p \<Longrightarrow> p = abs_path es" and rel: "\<not> is_abs p \<Longrightarrow> p = (if es = [] then ''.'' else join_with ''/'' es)"
    using p unfolding path_clean_def es_def by (simp_all only: Let_def if_True if_False)
  have ne: "es \<noteq> []"
  proof
    assume "es = []"
    then have "p = ''/'' \<or> p = ''.''" using abs rel by (cases "is_abs p") (auto simp: abs_path_def)
    then show False using last by (auto simp: proper_def)
  qed
  then obtain cs d where es: "es = cs @ [d]" by (cases es rule: rev_cases) auto
  have "split_on (CHR ''/'') p = (if is_abs p then [] # es else es)"
  proof (cases "is_abs p")
    case True
    show ?thesis
      by (subst (1) abs [OF True]) (simp add: abs_path_def split_join_form [OF form ne] True)
  next
    case False
    show ?thesis
      by (subst (1) rel [OF False]) (simp add: split_join_form [OF form ne] ne False)
  qed
  then have "last (split_on (CHR ''/'') p) = d" by (simp add: es)
  with last have d: "proper d" by simp
  with form es have "climb_form (is_abs p) cs" using climb_form_snoc by blast
  then show ?thesis using d abs rel es ne that by simp
qed

lemma abs_path_ne: "abs_path cs \<noteq> []"
  by (simp add: abs_path_def)

lemma join_with_snoc: "join_with s (cs @ [d]) = (if cs = [] then d else join_with s cs @ s @ d)"
proof (induction cs)
  case (Cons c cs)
  then show ?case by (cases cs) simp_all
qed simp

lemma split_join_app:
  "climb_form r cs \<Longrightarrow> cs \<noteq> [] \<Longrightarrow>
     split_on (CHR ''/'') (join_with ''/'' cs @ CHR ''/'' # s) = cs @ split_on (CHR ''/'') s"
proof -
  have "(\<forall>c\<in>set cs. CHR ''/'' \<notin> set c) \<Longrightarrow> cs \<noteq> [] \<Longrightarrow>
     split_on (CHR ''/'') (join_with ''/'' cs @ CHR ''/'' # s) = cs @ split_on (CHR ''/'') s"
  proof (induction cs)
    case (Cons c cs)
    then show ?case by (cases cs) (simp_all add: split_on_append_sep)
  qed simp
  then show "climb_form r cs \<Longrightarrow> cs \<noteq> [] \<Longrightarrow> ?thesis"
    using climb_form_no_sep(1) by blast
qed

lemma join_form_not_abs: "climb_form r cs \<Longrightarrow> cs \<noteq> [] \<Longrightarrow> \<not> is_abs (join_with ''/'' cs @ t)"
proof -
  assume form: "climb_form r cs" and ne: "cs \<noteq> []"
  then obtain c es where cs: "cs = c # es" by (cases cs) auto
  then have "c \<noteq> []" "CHR ''/'' \<notin> set c" using climb_form_no_sep [OF form, of c] by simp_all
  then show ?thesis using cs by (cases c; cases es) (auto simp: is_abs_append)
qed

lemma path_dir_snoc: "CHR ''/'' \<notin> set d \<Longrightarrow> path_dir (a @ CHR ''/'' # d) = path_clean (a @ ''/'')"
  using dropWhile_not_slash [of "rev d" "rev a"] by (simp add: path_dir_def)

lemma path_dir_nosep: "CHR ''/'' \<notin> set d \<Longrightarrow> path_dir d = ''.''"
proof -
  assume "CHR ''/'' \<notin> set d"
  then have nil: "dropWhile not_slash (rev d) = []" by (auto simp: not_slash_def dropWhile_eq_Nil_conv)
  have "path_dir d = path_clean []" by (simp only: path_dir_def nil rev.simps)
  then show ?thesis by (simp add: path_clean_def clean_comps_def clean_step_def)
qed

lemma path_dir_rel:
  assumes "climb_form False cs" "proper d"
  shows "path_dir (join_with ''/'' (cs @ [d])) = (if cs = [] then ''.'' else join_with ''/'' cs)"
proof (cases "cs = []")
  case True
  with assms show ?thesis by (simp add: path_dir_nosep properD)
next
  case False
  have "path_clean (join_with ''/'' cs @ ''/'') = join_with ''/'' cs"
    using assms(1) False join_form_not_abs [OF assms(1) False, of "''/''"]
      split_join_app [OF assms(1) False, of "[]"] clean_of_form [OF assms(1)]
    by (simp add: path_clean_def clean_comps_def Let_def)
  with False assms show ?thesis by (simp add: join_with_snoc path_dir_snoc properD)
qed

lemma path_base_last: "proper d \<Longrightarrow> path_base ((if b then [] else a @ ''/'') @ d) = d"
proof -
  assume d: "proper d"
  then obtain x xs where x: "rev d = x # xs" "x \<noteq> CHR ''/''"
    by (cases "rev d") (auto simp: proper_def)
  have "trim_right_bytes (c @ d) ''/'' = c @ d" for c
    using x by (simp add: trim_right_bytes_def)
  then have base: "path_base (c @ d) = d" if "takeWhile not_slash (rev (c @ d)) = rev d" for c
    using d by (simp only: path_base_def Let_def that rev_rev_ident) (auto simp: proper_def)
  have nd: "CHR ''/'' \<notin> set (rev d)" using d by auto
  have "path_base ([] @ d) = d"
    by (rule base) (simp only: append_Nil takeWhile_not_slash [OF nd])
  moreover have "path_base ((a @ ''/'') @ d) = d"
    by (rule base) (simp only: rev_append rev.simps append.simps append_assoc takeWhile_not_slash_app [OF nd])
  ultimately show ?thesis by (cases b) simp_all
qed

section \<open>Where a file name leads\<close>

text \<open>A name in the directory \<open>dir\<close>, as \<open>os.CreateTemp\<close> composes it.\<close>

definition child_name :: "string \<Rightarrow> string \<Rightarrow> string" where
  "child_name dir name = (if has_suffix dir ''/'' then dir else dir @ ''/'') @ name"

definition start_of :: "world \<Rightarrow> string \<Rightarrow> path" where
  "start_of w p = (if is_abs p then [] else cwd w)"

lemma resolve_skip [simp]:
  "resolve f fl n cur ([] # cs) = resolve f fl n cur cs"
  "resolve f fl n cur (''.'' # cs) = resolve f fl n cur cs"
  by (simp_all add: resolve.simps(2))

lemma has_suffix_slash: "has_suffix p ''/'' \<longleftrightarrow> p \<noteq> [] \<and> last p = CHR ''/''"
  by (cases p rule: rev_cases) (auto simp: has_suffix_def)

lemma last_join_form: "climb_form r cs \<Longrightarrow> cs \<noteq> [] \<Longrightarrow> join_with ''/'' cs \<noteq> [] \<and> last (join_with ''/'' cs) \<noteq> CHR ''/''"
proof -
  assume form: "climb_form r cs" and "cs \<noteq> []"
  then obtain ds d where cs: "cs = ds @ [d]" by (cases cs rule: rev_cases) auto
  then have "d \<noteq> []" "CHR ''/'' \<notin> set d" using climb_form_no_sep [OF form, of d] by simp_all
  then show ?thesis using cs by (auto simp: join_with_snoc) (metis last_in_set)+
qed

lemma file_path_resolve:
  assumes "file_path p"
  obtains cs where "proper (path_base p)"
    "\<And>w. kernel_path w True (path_dir p) = resolve (fs w) True 40 (start_of w p) cs"
    "\<And>w fl. kernel_path w fl p = resolve (fs w) fl 40 (start_of w p) (cs @ [path_base p])"
    "\<And>w fl e. proper e \<Longrightarrow>
       kernel_path w fl (child_name (path_dir p) e) = resolve (fs w) fl 40 (start_of w p) (cs @ [e])"
proof -
  obtain cs d where form: "climb_form (is_abs p) cs" and d: "proper d"
    and abs: "is_abs p \<Longrightarrow> p = abs_path (cs @ [d])" and rel: "\<not> is_abs p \<Longrightarrow> p = join_with ''/'' (cs @ [d])"
    using file_path_shape [OF assms] by blast
  have ne: "p \<noteq> []" using abs rel d by (cases "is_abs p") (auto simp: abs_path_def join_with_snoc proper_def)
  show ?thesis
  proof (cases "is_abs p")
    case True
    then have cs: "propers cs" using form by (auto simp: climb_form_def)
    have dir: "path_dir p = abs_path cs"
      using abs [OF True] cs d by (simp add: path_dir_abs_path)
    have base: "path_base p = d"
      using path_base_last [OF d, of False "if cs = [] then [] else abs_path cs"] abs [OF True]
      by (simp add: abs_path_snoc)
    have child: "child_name (path_dir p) e = abs_path (cs @ [e])" if "proper e" for e
      using last_join_form [OF form] dir
      by (cases "cs = []") (simp_all add: child_name_def has_suffix_slash abs_path_snoc, simp_all add: abs_path_def)
    have k: "kernel_path w fl (abs_path es) = resolve (fs w) fl 40 [] es" if "propers es" for w fl es
      using that by (cases "es = []") (simp_all add: kernel_path_def split_abs_path abs_path_ne)
    show ?thesis
      using that [of cs] d cs k [OF cs] k [of "cs @ [d]"] k [of "cs @ [_]"] child abs [OF True] dir base True
      by (simp add: start_of_def)
  next
    case False
    note p = rel [OF False]
    have f: "climb_form False cs" using form False by simp
    have dir: "path_dir p = (if cs = [] then ''.'' else join_with ''/'' cs)"
      using p path_dir_rel [OF f d] by simp
    have base: "path_base p = d"
      using path_base_last [OF d, of "cs = []" "join_with ''/'' cs"] p
      by (cases "cs = []") (simp_all add: join_with_snoc)
    have kdir: "kernel_path w True (path_dir p) = resolve (fs w) True 40 (cwd w) cs" for w
    proof (cases "cs = []")
      case True
      then show ?thesis by (simp add: dir kernel_path_def)
    next
      case ne: False
      have "\<not> is_abs (join_with ''/'' cs)" using join_form_not_abs [OF f ne, of "[]"] by simp
      then show ?thesis
        using ne last_join_form [OF f ne] by (simp add: dir kernel_path_def split_join_form [OF f ne])
    qed
    have kchild: "kernel_path w fl (child_name (path_dir p) e) = resolve (fs w) fl 40 (cwd w) (cs @ [e])"
      if e: "proper e" for w fl e
    proof (cases "cs = []")
      case True
      have "split_on (CHR ''/'') (CHR ''.'' # CHR ''/'' # e) = [''.'', e]"
        using e by (simp add: properD)
      then show ?thesis
        using True by (simp add: dir child_name_def has_suffix_slash kernel_path_def)
    next
      case ne: False
      have "split_on (CHR ''/'') (join_with ''/'' cs @ CHR ''/'' # e) = cs @ [e]"
        using split_join_app [OF f ne, of e] e by (simp add: properD)
      then show ?thesis
        using ne last_join_form [OF f ne] join_form_not_abs [OF f ne]
        by (simp add: dir child_name_def has_suffix_slash kernel_path_def)
    qed
    have kp: "kernel_path w fl p = resolve (fs w) fl 40 (cwd w) (cs @ [d])" for w fl
    proof (cases "cs = []")
      case True
      then show ?thesis using d ne False p by (simp add: kernel_path_def properD)
    next
      case nc: False
      have "split_on (CHR ''/'') p = cs @ [d]"
        using split_join_app [OF f nc, of d] d p nc by (simp add: join_with_snoc properD)
      then show ?thesis using ne False by (simp add: kernel_path_def)
    qed
    show ?thesis
      using that [of cs] d base kdir kp kchild False by (simp add: start_of_def)
  qed
qed

section \<open>Runs of the single calls\<close>

lemma sys_call_cases:
  "sys_call op w = (r, w') \<Longrightarrow>
     (\<exists>e. fault w (sysno w) = Some e \<and> r = Inl (SysErr e) \<and> w' = tick_sys w)
     \<or> (fault w (sysno w) = None \<and> op (tick_sys w) = (r, w'))"
  by (auto simp: sys_call_def split: option.splits)

lemma node_at_Inr: "node_at w fl p = Inr n \<longleftrightarrow> (\<exists>q. kernel_path w fl p = Inr q \<and> fs w q = Some n)"
  by (auto simp: node_at_def split: sum.splits option.splits)

lemma os_stat_Inr: "os_stat p w = (Inr n, w') \<Longrightarrow> node_at w True p = Inr n"
  by (auto simp: os_stat_def sys_result_def dest!: sys_call_cases split: sum.splits)

lemma os_lstat_Inr: "os_lstat p w = (Inr n, w') \<Longrightarrow> node_at w False p = Inr n"
  by (auto simp: os_lstat_def sys_result_def dest!: sys_call_cases split: sum.splits)

text \<open>Only directories have been added.\<close>

definition dirs_added :: "file_system \<Rightarrow> file_system \<Rightarrow> bool" where
  "dirs_added f g \<longleftrightarrow> (\<forall>p. g p = f p \<or> (f p = None \<and> (\<exists>m. g p = Some (NDir m))))"

lemma dirs_added_refl [simp]: "dirs_added f f"
  by (simp add: dirs_added_def)

lemma dirs_added_trans: "dirs_added f g \<Longrightarrow> dirs_added g h \<Longrightarrow> dirs_added f h"
  unfolding dirs_added_def by (metis option.distinct(1))

lemma dirs_added_put: "f q = None \<Longrightarrow> dirs_added f (f(q \<mapsto> NDir m))"
  by (simp add: dirs_added_def)

lemma is_dir_iff: "is_dir n \<longleftrightarrow> (\<exists>m. n = NDir m)"
  by (cases n) simp_all

text \<open>A path that leads to a directory.\<close>

definition leads_to_dir :: "world \<Rightarrow> string \<Rightarrow> bool" where
  "leads_to_dir w p \<longleftrightarrow> (\<exists>q m. kernel_path w True p = Inr q \<and> fs w q = Some (NDir m))"

lemma leads_to_dir_stat: "node_at w True p = Inr n \<Longrightarrow> is_dir n \<Longrightarrow> leads_to_dir w p"
  by (auto simp: leads_to_dir_def node_at_Inr is_dir_iff)

lemma leads_to_dir_lstat: "node_at w False p = Inr n \<Longrightarrow> is_dir n \<Longrightarrow> leads_to_dir w p"
  unfolding leads_to_dir_def node_at_Inr is_dir_iff kernel_path_def
  by (cases "p = []") (auto dest: resolve_nofollow_dir)

lemma leads_to_dir_same: "same_files w w' \<Longrightarrow> leads_to_dir w' p = leads_to_dir w p"
  by (simp add: leads_to_dir_def same_files_simps)

lemma os_mkdir_run:
  assumes "os_mkdir p perm w = (r, w')"
  shows "dirs_added (fs w) (fs w') \<and> cwd w' = cwd w \<and> (r = Inr () \<longrightarrow> leads_to_dir w' p)
    \<and> (r \<noteq> Inr () \<longrightarrow> fs w' = fs w)"
proof -
  from sys_call_cases [OF assms [unfolded os_mkdir_def]] consider
      "r \<noteq> Inr ()" "fs w' = fs w" "cwd w' = cwd w"
    | q where "kernel_path w False p = Inr q" "fs w q = None" "r = Inr ()"
        "w' = put_node q (NDir (masked perm (tick_sys w))) (tick_sys w)"
    by (auto split: sum.splits if_splits)
  then show ?thesis
  proof cases
    case 2
    then have "kernel_path w' True p = Inr q"
      by (auto simp: kernel_path_def resolve_made_dir split: if_splits)
    with 2 show ?thesis by (auto simp: leads_to_dir_def dirs_added_put)
  qed auto
qed

lemma mkdir_all_run:
  "mkdir_all perm p w = (r, w') \<Longrightarrow>
     dirs_added (fs w) (fs w') \<and> cwd w' = cwd w \<and> (r = Inr () \<longrightarrow> leads_to_dir w' p)"
proof (induction perm p arbitrary: w r w' rule: mkdir_all.induct)
  case (1 perm p)
  from "1.prems" consider
      n w1 where "os_stat p w = (Inr n, w1)" "(if is_dir n then ret_io () else fail_io (SysErr ENOTDIR)) w1 = (r, w')"
    | e w1 where "os_stat p w = (Inl e, w1)"
      "bind_io (case mkdir_parent p of None \<Rightarrow> ret_io () | Some q \<Rightarrow> mkdir_all perm q) (\<lambda>_.
            catch_io (os_mkdir p perm)
              (\<lambda>e. catch_io (os_lstat p) (\<lambda>_. fail_io e)
                     (\<lambda>n. if is_dir n then ret_io () else fail_io e))
              ret_io) w1 = (r, w')"
    by (subst (asm) mkdir_all.simps) (auto simp: catch_io_eq)
  then show ?case
  proof cases
    case 1
    have "same_files w w1" using 1(1) by (rule readsD [OF reads_calls(3)])
    then show ?thesis
      using 1 leads_to_dir_stat [OF os_stat_Inr [OF 1(1)]]
      by (auto simp: io_inv same_files_simps leads_to_dir_same split: if_splits)
  next
    case 2
    have s1: "same_files w w1" using 2(1) by (rule readsD [OF reads_calls(3)])
    let ?parent = "case mkdir_parent p of None \<Rightarrow> ret_io () | Some q \<Rightarrow> mkdir_all perm q"
    have parent: "dirs_added (fs w1) (fs w2) \<and> cwd w2 = cwd w1" if "?parent w1 = (r2, w2)" for r2 w2
      using that "1.IH" by (auto simp: io_inv split: option.splits)
    from 2(2) consider e where "?parent w1 = (Inl e, w')" "r = Inl e"
      | u w2 where "?parent w1 = (Inr u, w2)"
        "catch_io (os_mkdir p perm)
              (\<lambda>e. catch_io (os_lstat p) (\<lambda>_. fail_io e)
                     (\<lambda>n. if is_dir n then ret_io () else fail_io e))
              ret_io w2 = (r, w')"
      by (cases r) (auto simp: io_inv)
    then show ?thesis
    proof cases
      case 1
      then show ?thesis using parent s1 by (auto simp: same_files_simps)
    next
      case mk: 2
      have d12: "dirs_added (fs w) (fs w2)" "cwd w2 = cwd w"
        using parent [OF mk(1)] s1 by (auto simp: same_files_simps)
      let ?check = "\<lambda>e. catch_io (os_lstat p) (\<lambda>_. fail_io e) (\<lambda>n. if is_dir n then ret_io () else fail_io e)"
      from mk(2) consider "os_mkdir p perm w2 = (Inr (), w')" "r = Inr ()"
        | e w3 where "os_mkdir p perm w2 = (Inl e, w3)" "?check e w3 = (r, w')"
        by (auto simp: catch_io_eq ret_io_eq)
      then show ?thesis
      proof cases
        case 1
        with os_mkdir_run [OF 1(1)] d12 show ?thesis by (auto intro: dirs_added_trans)
      next
        case 2
        have "reads (?check e)" by (intro reads_catch) auto
        then have s3: "same_files w3 w'" using 2(2) by (rule readsD)
        have "leads_to_dir w3 p" if "r = Inr ()"
        proof -
          from 2(2) that obtain n w4 where "os_lstat p w3 = (Inr n, w4)" "is_dir n"
            by (auto simp: catch_io_eq fail_io_eq split: if_splits)
          then show ?thesis using leads_to_dir_lstat os_lstat_Inr by blast
        qed
        with os_mkdir_run [OF 2(1)] d12 s3 show ?thesis
          by (auto simp: same_files_simps leads_to_dir_same)
      qed
    qed
  qed
qed

lemma open_excl_run:
  "open_excl name k w = (r, w') \<Longrightarrow> cwd w' = cwd w \<and> (case r of Inl _ \<Rightarrow> fs w' = fs w
     | Inr q \<Rightarrow> \<exists>m. kernel_path w False name = Inr q \<and> fs w q = None \<and> fs w' = (fs w)(q \<mapsto> NFile m ''''))"
  unfolding open_excl_def by (drule sys_call_cases) (auto split: sum.splits if_splits)

lemma create_temp_cases:
  assumes "create_temp_try n pre suf w = (r, w')"
  defines "name \<equiv> pre @ nat_digits (fastrand w (rands w) mod 2 ^ 32) @ suf"
    and "w1 \<equiv> w\<lparr>rands := Suc (rands w)\<rparr>"
  shows "(\<exists>e w2. open_excl name 384 w1 = (Inl e, w2)
        \<and> ((\<exists>e'. r = Inl e') \<and> w' = w2 \<or> (\<exists>m. n = Suc m \<and> create_temp_try m pre suf w2 = (r, w'))))
    \<or> (\<exists>q. open_excl name 384 w1 = (Inr q, w') \<and> r = Inr (name, q))"
  using assms(1) unfolding name_def w1_def
  by (subst (asm) create_temp_try.simps)
    (auto simp: bind_io_def catch_io_eq fail_io_eq ret_io_eq next_random_def Let_def split: if_splits nat.splits)

lemma create_temp_run:
  "create_temp_try n pre suf w = (r, w') \<Longrightarrow>
     cwd w' = cwd w \<and> (case r of Inl _ \<Rightarrow> fs w' = fs w
       | Inr (name, q) \<Rightarrow> \<exists>x m. name = pre @ nat_digits x @ suf \<and> kernel_path w False name = Inr q
           \<and> fs w q = None \<and> fs w' = (fs w)(q \<mapsto> NFile m ''''))"
proof (induction n arbitrary: w rule: less_induct)
  case (less n)
  let ?name = "pre @ nat_digits (fastrand w (rands w) mod 2 ^ 32) @ suf"
  let ?w1 = "w\<lparr>rands := Suc (rands w)\<rparr>"
  have kp: "kernel_path ?w1 = kernel_path w"
    by (intro ext) (simp add: kernel_path_def)
  from create_temp_cases [OF less.prems] consider
      e w2 e' where "open_excl ?name 384 ?w1 = (Inl e, w2)" "r = Inl e'" "w' = w2"
    | e w2 m where "open_excl ?name 384 ?w1 = (Inl e, w2)" "n = Suc m" "create_temp_try m pre suf w2 = (r, w')"
    | q where "open_excl ?name 384 ?w1 = (Inr q, w')" "r = Inr (?name, q)"
    by blast
  then show ?case
  proof cases
    case 1
    then show ?thesis using open_excl_run [OF 1(1)] by simp
  next
    case 2
    then have w2: "fs w2 = fs w" "cwd w2 = cwd w" using open_excl_run [OF 2(1)] by simp_all
    then have k2: "kernel_path w2 = kernel_path w"
      by (intro ext) (simp add: kernel_path_def)
    have "m < n" using 2 by simp
    from less.IH [OF this 2(3)] show ?thesis unfolding w2 k2 .
  next
    case 3
    then show ?thesis using open_excl_run [OF 3(1)] kp by auto
  qed
qed

text \<open>What the calls on the open temporary file leave behind.\<close>

lemma file_write_run:
  assumes "file_write q data w = (r, w')" "fs w q = Some (NFile m b)"
  shows "cwd w' = cwd w \<and> (\<exists>c. fs w' = (fs w)(q \<mapsto> NFile m (b @ c)) \<and> (r = Inr () \<longrightarrow> c = data))"
  using assms by (auto simp: file_write_def Let_def split: option.splits)

lemma file_chmod_run:
  assumes "file_chmod q mode w = (r, w')" "fs w q = Some (NFile m b)"
  shows "cwd w' = cwd w \<and> (\<exists>m'. fs w' = (fs w)(q \<mapsto> NFile m' b) \<and> (r = Inr () \<longrightarrow> m' = mode))"
proof -
  have "fs w = (fs w)(q \<mapsto> NFile m b)" using assms(2) by auto
  with sys_call_cases [OF assms(1) [unfolded file_chmod_def]] assms(2) show ?thesis by auto
qed

lemma reads_file_calls [simp]: "reads (file_sync q)" "reads (file_close q)" "reads (os_open p)"
  unfolding file_sync_def file_close_def os_open_def
  by (auto intro!: reads_sys simp: ret_io_def split: sum.split)

lemma reads_ignoring [intro]: "reads m \<Longrightarrow> reads k \<Longrightarrow> reads (ignoring m k)"
  unfolding ignoring_def by (intro reads_catch)

lemma reads_sync_dir [simp]: "reads (sync_dir dir)"
  unfolding sync_dir_def by (intro reads_bind reads_catch reads_ignoring) auto

text \<open>Renaming a file either does all of it or nothing.\<close>

lemma sys_rename_file:
  assumes "sys_rename old new w = (r, w')" "kernel_path w False old = Inr a" "kernel_path w False new = Inr b"
    "fs w a = Some (NFile m c)" "a \<noteq> b"
  shows "cwd w' = cwd w \<and> (r = Inr () \<and> fs w' = (fs w)(a := None, b \<mapsto> NFile m c) \<and> (\<forall>k. fs w b \<noteq> Some (NDir k))
     \<or> r \<noteq> Inr () \<and> fs w' = fs w)"
  using sys_call_cases [OF assms(1) [unfolded sys_rename_def]] assms(2-)
  by (auto simp: rename_check_def rename_node_def fun_upd_twist split: option.splits if_splits node.splits)

lemma os_rename_run:
  assumes "os_rename old new w = (r, w')"
  shows "(r \<noteq> Inr () \<and> same_files w w') \<or> (\<exists>w1. same_files w w1 \<and> sys_rename old new w1 = (r, w'))"
proof -
  from assms consider e w1 where "os_lstat new w = (Inl e, w1)" "sys_rename old new w1 = (r, w')"
    | n w1 where "os_lstat new w = (Inr n, w1)" "\<not> is_dir n" "sys_rename old new w1 = (r, w')"
    | n w1 e where "os_lstat new w = (Inr n, w1)" "os_lstat old w1 = (Inl e, w')" "r = Inl e"
    | n w1 n2 w2 where "os_lstat new w = (Inr n, w1)" "os_lstat old w1 = (Inr n2, w2)"
        "(r = Inl (SysErr EEXIST) \<and> w' = w2) \<or> sys_rename old new w2 = (r, w')"
    unfolding os_rename_def by (auto simp: io_inv split: if_splits)
  then show ?thesis
    by cases (auto dest!: readsD [OF reads_calls(2)] intro: same_files_trans)
qed

text \<open>Removing a file: what is left is the old state, or the state without it.\<close>

lemma os_remove_file:
  assumes "os_remove p w = (r, w')" "kernel_path w False p = Inr q" "fs w q = Some (NFile m b)"
  shows "cwd w' = cwd w \<and> (fs w' = fs w \<or> fs w' = (fs w)(q := None))"
proof -
  have unlink: "(\<exists>e. r1 = Inl e \<and> w1 = tick_sys w) \<or> (r1 = Inr () \<and> w1 = drop_node q (tick_sys w))"
    if "sys_unlink p w = (r1, w1)" for r1 w1
    using sys_call_cases [OF that [unfolded sys_unlink_def]] assms(2,3) by auto
  have rmdir: "\<exists>e. r2 = Inl e \<and> w2 = tick_sys v"
    if "sys_rmdir p v = (r2, w2)" "v = tick_sys w" for v r2 w2
    using sys_call_cases [OF that(1) [unfolded sys_rmdir_def]] assms(2,3) that(2) by auto
  from assms(1) show ?thesis
    unfolding os_remove_def
    by (auto simp: catch_io_eq ret_io_eq fail_io_eq dest!: unlink dest: rmdir)
qed

section \<open>The outcome of an atomic write\<close>

lemma ignoring_fail: "reads m \<Longrightarrow> ignoring m (fail_io e) w = (r, w') \<Longrightarrow> r = Inl e \<and> same_files w w'"
  by (auto simp: ignoring_def io_inv dest: readsD)

lemma fill_and_rename_run:
  assumes run: "fill_and_rename tq tmpName fileName data mode w = (r, w')"
    and w: "fs w = F(tq \<mapsto> NFile m0 '''')" and F: "F tq = None" and ne: "q \<noteq> tq"
    and paths: "\<And>v m b. cwd v = cwd w \<Longrightarrow> fs v = F(tq \<mapsto> NFile m b) \<Longrightarrow>
        kernel_path v False tmpName = Inr tq \<and> kernel_path v False fileName = Inr q"
  shows "cwd w' = cwd w
    \<and> (r = Inr () \<and> fs w' = F(q \<mapsto> NFile mode data) \<and> (\<forall>k. F q \<noteq> Some (NDir k))
       \<or> r \<noteq> Inr () \<and> (\<exists>m b. fs w' = F(tq \<mapsto> NFile m b)))"
proof -
  let ?tmp = "\<lambda>v. cwd v = cwd w \<and> (\<exists>m b. fs v = F(tq \<mapsto> NFile m b))"
  have same: "?tmp v \<Longrightarrow> same_files v v' \<Longrightarrow> ?tmp v'" for v v'
    by (auto simp: same_files_simps)
  have failed: "?thesis" if "?tmp v" "ignoring (file_close tq) (fail_io e) v = (r, w')" for v e
    using ignoring_fail [OF _ that(2)] same [OF that(1), of w'] by auto
  obtain r1 w1 where wr: "file_write tq data w = (r1, w1)" by (cases "file_write tq data w")
  then have t1: "?tmp w1" "r1 = Inr () \<Longrightarrow> \<exists>m. fs w1 = F(tq \<mapsto> NFile m data)"
    using file_write_run [OF wr] w by auto
  show ?thesis
  proof (cases r1)
    case (Inl e)
    with run wr failed [OF t1(1)] show ?thesis
      by (simp add: fill_and_rename_def catch_io_def)
  next
    case (Inr u)
    then obtain m1 where f1: "fs w1 = F(tq \<mapsto> NFile m1 data)" using t1(2) by auto
    obtain r2 w2 where ch: "file_chmod tq mode w1 = (r2, w2)" by (cases "file_chmod tq mode w1")
    then have t2: "?tmp w2" "r2 = Inr () \<Longrightarrow> fs w2 = F(tq \<mapsto> NFile mode data)"
      using file_chmod_run [OF ch] f1 t1(1) by auto
    show ?thesis
    proof (cases r2)
      case (Inl e)
      with run wr \<open>r1 = Inr u\<close> ch failed [OF t2(1)] show ?thesis
        by (simp add: fill_and_rename_def catch_io_def)
    next
      case (Inr u2)
      then have f2: "fs w2 = F(tq \<mapsto> NFile mode data)" using t2(2) by simp
      from run wr \<open>r1 = Inr u\<close> ch \<open>r2 = Inr u2\<close>
      consider e w3 where "file_sync tq w2 = (Inl e, w3)" "ignoring (file_close tq) (fail_io e) w3 = (r, w')"
        | w3 e where "file_sync tq w2 = (Inr (), w3)" "file_close tq w3 = (Inl e, w')" "r = Inl e"
        | w3 w4 where "file_sync tq w2 = (Inr (), w3)" "file_close tq w3 = (Inr (), w4)"
            "os_rename tmpName fileName w4 = (r, w')"
        by (cases r) (auto simp: fill_and_rename_def catch_io_eq bind_io_Inr bind_io_Inl)
      then show ?thesis
      proof cases
        case 1
        then show ?thesis
          using failed same [OF t2(1) readsD [OF reads_file_calls(1) 1(1)]] by blast
      next
        case 2
        have "same_files w2 w'"
          using readsD [OF reads_file_calls(1) 2(1)] readsD [OF reads_file_calls(2) 2(2)] by (rule same_files_trans)
        then show ?thesis using same [OF t2(1)] 2(3) by auto
      next
        case 3
        have s4: "same_files w2 w4"
          using readsD [OF reads_file_calls(1) 3(1)] readsD [OF reads_file_calls(2) 3(2)] by (rule same_files_trans)
        from os_rename_run [OF 3(3)] show ?thesis
        proof
          assume "r \<noteq> Inr () \<and> same_files w4 w'"
          then show ?thesis using same [OF same [OF t2(1) s4]] by auto
        next
          assume "\<exists>w5. same_files w4 w5 \<and> sys_rename tmpName fileName w5 = (r, w')"
          then obtain w5 where s5: "same_files w4 w5" and rn: "sys_rename tmpName fileName w5 = (r, w')" by blast
          have w5: "fs w5 = F(tq \<mapsto> NFile mode data)" "cwd w5 = cwd w"
            using f2 t2(1) s4 s5 by (simp_all add: same_files_simps)
          have "kernel_path w5 False tmpName = Inr tq" "kernel_path w5 False fileName = Inr q"
            using paths [OF w5(2,1)] by simp_all
          from sys_rename_file [OF rn this, of mode data] w5 ne F
          have "cwd w' = cwd w" and c: "r = Inr () \<and> fs w' = (F(tq \<mapsto> NFile mode data))(tq := None, q \<mapsto> NFile mode data)
              \<and> (\<forall>k. F q \<noteq> Some (NDir k)) \<or> r \<noteq> Inr () \<and> fs w' = F(tq \<mapsto> NFile mode data)"
            by auto
          moreover have "F(tq := None) = F" using F by auto
          ultimately show ?thesis by auto
        qed
      qed
    qed
  qed
qed

text \<open>Where a file name is located in a file system, with the working directory \<open>d\<close>.\<close>

definition located :: "file_system \<Rightarrow> path \<Rightarrow> string \<Rightarrow> errno + path" where
  "located f d p =
     (if p = '''' then Inl ENOENT
      else resolve f False 40 (if is_abs p then [] else d) (split_on (CHR ''/'') p))"

lemma kernel_path_located: "kernel_path w False p = located (fs w) (cwd w) p"
  by (simp add: kernel_path_def located_def)

definition temp_name :: "string \<Rightarrow> nat \<Rightarrow> string" where
  "temp_name base x = (''.'' @ base @ ''.'') @ nat_digits x @ ''.tmp''"

lemma temp_name_proper: "proper base \<Longrightarrow> proper (temp_name base x) \<and> temp_name base x \<noteq> base"
proof -
  assume base: "proper base"
  have "length (temp_name base x) > length base + 2" by (simp add: temp_name_def)
  then have "temp_name base x \<noteq> base" "length (temp_name base x) > 2" by auto
  moreover have "CHR ''/'' \<notin> set (nat_digits x)"
    using nat_digits_all [of x] by (auto simp: list_all_iff is_digit_byte_def byte_def)
  then have "CHR ''/'' \<notin> set (temp_name base x)" using base by (auto simp: temp_name_def)
  ultimately show ?thesis by (auto simp: proper_def)
qed

text \<open>
  In a directory that exists, the names of the file and of its temporary file lead to entries of
  that directory, whatever files the entries are.
\<close>

lemma file_entries:
  assumes p: "file_path fileName" and dir: "kernel_path w True (path_dir fileName) = Inr d" "fs w d = Some (NDir k)"
    and e: "proper e" and v: "cwd v = cwd w" "fs v = (fs w)(q := x)" "end_node (fs w q)"
  shows "kernel_path v False (child_name (path_dir fileName) e) = Inr (d @ [e])"
    and "kernel_path v False fileName = Inr (d @ [path_base fileName])"
    and "kernel_path v True (path_dir fileName) = Inr d"
proof -
  obtain cs where base: "proper (path_base fileName)"
    and kd: "\<And>w. kernel_path w True (path_dir fileName) = resolve (fs w) True 40 (start_of w fileName) cs"
    and kf: "\<And>w fl. kernel_path w fl fileName = resolve (fs w) fl 40 (start_of w fileName) (cs @ [path_base fileName])"
    and kc: "\<And>w fl e. proper e \<Longrightarrow>
       kernel_path w fl (child_name (path_dir fileName) e) = resolve (fs w) fl 40 (start_of w fileName) (cs @ [e])"
    using file_path_resolve [OF p] by metis
  have start: "start_of v fileName = start_of w fileName" using v(1) by (simp add: start_of_def)
  have "q \<noteq> d" using dir(2) v(3) by auto
  have "resolve (fs v) True 40 (start_of w fileName) cs = Inr d"
    using resolve_dir_stable [of "fs w" 40 "start_of w fileName" cs d k q x] dir v(2,3) kd by simp
  moreover have "fs v d = Some (NDir k)" using \<open>q \<noteq> d\<close> dir(2) v(2) by simp
  ultimately show "kernel_path v False (child_name (path_dir fileName) e) = Inr (d @ [e])"
    and "kernel_path v False fileName = Inr (d @ [path_base fileName])"
    and "kernel_path v True (path_dir fileName) = Inr d"
    using resolve_snoc e base kd kf kc start by auto
qed

lemma kernel_path_follow:
  "kernel_path w False p = Inr q \<Longrightarrow> (\<And>t. fs w q \<noteq> Some (NLink t)) \<Longrightarrow> kernel_path w True p = Inr q"
  by (auto simp: kernel_path_def intro: resolve_nofollow split: if_splits)

text \<open>What \<open>MkdirAll\<close> makes of the file system, and the names of the entries that are written.\<close>

definition dirs_made :: "world \<Rightarrow> string \<Rightarrow> file_system \<Rightarrow> bool" where
  "dirs_made w dir F \<longleftrightarrow> (\<exists>r w1. os_mkdir_all dir 493 w = (r, w1) \<and> fs w1 = F)"

lemma atomic_write_run:
  assumes "file_path fileName" and "atomic_write_file fileName data mode w = (r, w')"
  shows "\<exists>F. dirs_added (fs w) F \<and> dirs_made w (path_dir fileName) F
    \<and> (fs w' = F \<and> r \<noteq> Inr ()
       \<or> (\<exists>q. located F (cwd w) fileName = Inr q \<and> last q = path_base fileName \<and> (\<forall>k. F q \<noteq> Some (NDir k)) \<and> fs w' = F(q \<mapsto> NFile mode data)
            \<and> ((\<forall>t. fs w q \<noteq> Some (NLink t)) \<longrightarrow> node_at w' True fileName = Inr (NFile mode data)))
       \<or> (\<exists>x q m b. located F (cwd w) (child_name (path_dir fileName) (temp_name (path_base fileName) x)) = Inr q
            \<and> last q = temp_name (path_base fileName) x \<and> F q = None \<and> fs w' = F(q \<mapsto> NFile m b) \<and> r \<noteq> Inr ()))"
proof -
  let ?dir = "path_dir fileName" and ?base = "path_base fileName"
  have base: "proper ?base" using file_path_resolve [OF assms(1)] by metis
  from assms(2) consider
      (mkdir) e where "os_mkdir_all ?dir 493 w = (Inl e, w')" "r = Inl e"
    | (temp) w1 e where "os_mkdir_all ?dir 493 w = (Inr (), w1)"
        "os_create_temp ?dir (''.'' @ ?base @ ''.'') ''.tmp'' w1 = (Inl e, w')" "r = Inl e"
    | (fill) w1 tmp tq w2 where "os_mkdir_all ?dir 493 w = (Inr (), w1)"
        "os_create_temp ?dir (''.'' @ ?base @ ''.'') ''.tmp'' w1 = (Inr (tmp, tq), w2)"
        "catch_io (fill_and_rename tq tmp fileName data mode)
           (\<lambda>err. ignoring (os_remove tmp) (fail_io err)) (\<lambda>_. sync_dir ?dir) w2 = (r, w')"
    unfolding atomic_write_file_def by (cases r) (auto simp: bind_io_Inl bind_io_Inr split: prod.splits)
  then show ?thesis
  proof cases
    case mkdir
    then have "dirs_made w ?dir (fs w')" by (auto simp: dirs_made_def)
    then show ?thesis using mkdir mkdir_all_run [of 493 ?dir w r w'] by (auto simp: os_mkdir_all_def)
  next
    case temp
    have "dirs_made w ?dir (fs w1)" using temp(1) by (auto simp: dirs_made_def)
    then show ?thesis
      using temp mkdir_all_run [of 493 ?dir w "Inr ()" w1]
        create_temp_run [OF temp(2) [unfolded os_create_temp_def]]
      by (auto simp: os_mkdir_all_def)
  next
    case fill
    let ?F = "fs w1"
    have made: "dirs_made w ?dir ?F" using fill(1) by (auto simp: dirs_made_def)
    have F: "dirs_added (fs w) ?F" and cwd1: "cwd w1 = cwd w" and "leads_to_dir w1 ?dir"
      using mkdir_all_run [of 493 ?dir w "Inr ()" w1] fill(1) by (auto simp: os_mkdir_all_def)
    then obtain d k where d: "kernel_path w1 True ?dir = Inr d" "?F d = Some (NDir k)"
      by (auto simp: leads_to_dir_def)
    obtain x m where tmp: "tmp = child_name ?dir (temp_name ?base x)" and kt: "kernel_path w1 False tmp = Inr tq"
      and tq: "?F tq = None" and w2: "fs w2 = ?F(tq \<mapsto> NFile m '''')" "cwd w2 = cwd w1"
      using create_temp_run [OF fill(2) [unfolded os_create_temp_def]]
      by (auto simp: child_name_def temp_name_def)
    note temp = temp_name_proper [OF base, of x]
    note entries = file_entries [OF assms(1) d conjunct1 [OF temp]]
    have tq': "tq = d @ [temp_name ?base x]"
      using entries(1) [OF refl fun_upd_triv [symmetric], of tq] kt tmp tq by simp
    define q where "q = d @ [?base]"
    have ne: "q \<noteq> tq" using temp by (auto simp: q_def tq')
    have loc_q: "located ?F (cwd w) fileName = Inr q"
      using entries(2) [OF refl fun_upd_triv [symmetric], of tq] tq kernel_path_located [of w1 fileName]
      by (simp add: q_def cwd1)
    have loc_t: "located ?F (cwd w) tmp = Inr tq"
      using kt kernel_path_located [of w1 tmp] by (simp add: cwd1)
    obtain r3 w3 where f3: "fill_and_rename tq tmp fileName data mode w2 = (r3, w3)"
      by (cases "fill_and_rename tq tmp fileName data mode w2")
    have run3: "cwd w3 = cwd w2
      \<and> (r3 = Inr () \<and> fs w3 = ?F(q \<mapsto> NFile mode data) \<and> (\<forall>k. ?F q \<noteq> Some (NDir k))
         \<or> r3 \<noteq> Inr () \<and> (\<exists>m b. fs w3 = ?F(tq \<mapsto> NFile m b)))"
    proof (rule fill_and_rename_run [OF f3 w2(1) tq ne])
      fix v m b assume "cwd v = cwd w2" "fs v = ?F(tq \<mapsto> NFile m b)"
      then show "kernel_path v False tmp = Inr tq \<and> kernel_path v False fileName = Inr q"
        using entries(1,2) [of v tq "Some (NFile m b)"] tq w2(2) by (simp add: tmp tq' q_def)
    qed
    show ?thesis
    proof (cases r3)
      case (Inr u)
      then have new: "fs w3 = ?F(q \<mapsto> NFile mode data)" and nd: "\<forall>k. ?F q \<noteq> Some (NDir k)" using run3 by auto
      have "sync_dir ?dir w3 = (r, w')" using fill(3) f3 Inr by (simp add: catch_io_def)
      then have same: "same_files w3 w'" by (rule readsD [OF reads_sync_dir])
      have "node_at w' True fileName = Inr (NFile mode data)" if nl: "\<forall>t. fs w q \<noteq> Some (NLink t)"
      proof -
        have "end_node (?F q)"
        proof (cases "?F q")
          case (Some n)
          then have "fs w q = Some n \<or> (\<exists>m. n = NDir m)"
            using F unfolding dirs_added_def by (metis option.inject)
          then show ?thesis using Some nd nl by (cases n) auto
        qed simp
        then have "kernel_path w3 False fileName = Inr q"
          using entries(2) [of w3 q "Some (NFile mode data)"] new run3 w2(2) by (simp add: q_def)
        then have "kernel_path w3 True fileName = Inr q"
          by (rule kernel_path_follow) (simp add: new)
        then show ?thesis
          using new same by (simp add: node_at_Inr same_files_simps)
      qed
      then show ?thesis
        using F made loc_q new nd same by (intro exI [of _ ?F]) (auto simp: same_files_simps q_def)
    next
      case (Inl e)
      then obtain m b where left: "fs w3 = ?F(tq \<mapsto> NFile m b)" using run3 by auto
      obtain r4 where rm: "os_remove tmp w3 = (r4, w')" and r: "r = Inl e"
        using fill(3) f3 Inl by (auto simp: catch_io_def ignoring_def fail_io_def split: prod.splits sum.splits)
      have "kernel_path w3 False tmp = Inr tq"
        using entries(1) [of w3 tq "Some (NFile m b)"] left tq run3 w2(2) by (simp add: tmp tq')
      from os_remove_file [OF rm this] left
      have "fs w' = ?F(tq \<mapsto> NFile m b) \<or> fs w' = (?F(tq \<mapsto> NFile m b))(tq := None)" by auto
      moreover have "(?F(tq \<mapsto> NFile m b))(tq := None) = ?F" using tq by auto
      ultimately have "fs w' = ?F \<or> fs w' = ?F(tq \<mapsto> NFile m b)" by argo
      moreover have "r \<noteq> Inr ()" using r by simp
      moreover have "last tq = temp_name ?base x" by (simp add: tq')
      ultimately show ?thesis using F made loc_t [unfolded tmp] tq by (intro exI [of _ ?F] conjI) blast+
    qed
  qed
qed


text \<open>A crash-free run on the demo site, for the witness.\<close>

lemma demo_atomic_write:
  "fst (atomic_write_file ''/site/docs/a.html'' ''new'' 420 demo_world) = Inr ()"
  by code_simp


end
