(* ===== verification/Crypto.thy ===== *)
theory Crypto
  imports GoStrings "HOL-Library.Word"
begin

unbundle bit_operations_syntax

text \<open>
  The parts of Go's crypto and encoding packages that the code calls: SHA-256 (FIPS 180-4) on
  32-bit words, HMAC (RFC 2104), the raw URL alphabet of base64 (RFC 4648) the way Go's decoder
  reads it, and hexadecimal encoding. Bytes are characters.
\<close>

section \<open>SHA-256\<close>

definition sha256_init :: "32 word list" where
  "sha256_init =
     [
      0x6A09E667, 0xBB67AE85, 0x3C6EF372, 0xA54FF53A, 0x510E527F, 0x9B05688C, 0x1F83D9AB,
      0x5BE0CD19]"

definition sha256_k :: "32 word list" where
  "sha256_k =
     [
      0x428A2F98, 0x71374491, 0xB5C0FBCF, 0xE9B5DBA5, 0x3956C25B, 0x59F111F1, 0x923F82A4,
      0xAB1C5ED5, 0xD807AA98, 0x12835B01, 0x243185BE, 0x550C7DC3, 0x72BE5D74, 0x80DEB1FE,
      0x9BDC06A7, 0xC19BF174, 0xE49B69C1, 0xEFBE4786, 0x0FC19DC6, 0x240CA1CC, 0x2DE92C6F,
      0x4A7484AA, 0x5CB0A9DC, 0x76F988DA, 0x983E5152, 0xA831C66D, 0xB00327C8, 0xBF597FC7,
      0xC6E00BF3, 0xD5A79147, 0x06CA6351, 0x14292967, 0x27B70A85, 0x2E1B2138, 0x4D2C6DFC,
      0x53380D13, 0x650A7354, 0x766A0ABB, 0x81C2C92E, 0x92722C85, 0xA2BFE8A1, 0xA81A664B,
      0xC24B8B70, 0xC76C51A3, 0xD192E819, 0xD6990624, 0xF40E3585, 0x106AA070, 0x19A4C116,
      0x1E376C08, 0x2748774C, 0x34B0BCB5, 0x391C0CB3, 0x4ED8AA4A, 0x5B9CCA4F, 0x682E6FF3,
      0x748F82EE, 0x78A5636F, 0x84C87814, 0x8CC70208, 0x90BEFFFA, 0xA4506CEB, 0xBEF9A3F7,
      0xC67178F2]"

definition rotr32 :: "nat \<Rightarrow> 32 word \<Rightarrow> 32 word" where
  "rotr32 n x = drop_bit n x OR push_bit (32 - n) x"

definition byte_word :: "char \<Rightarrow> 32 word" where
  "byte_word c = word_of_nat (byte c)"

definition word_byte :: "32 word \<Rightarrow> char" where
  "word_byte x = of_byte (unat x mod 256)"

definition be32 :: "char \<Rightarrow> char \<Rightarrow> char \<Rightarrow> char \<Rightarrow> 32 word" where
  "be32 a b c d = push_bit 24 (byte_word a) OR push_bit 16 (byte_word b) OR push_bit 8 (byte_word c) OR byte_word d"

definition put_be32 :: "32 word \<Rightarrow> string" where
  "put_be32 x = [word_byte (drop_bit 24 x), word_byte (drop_bit 16 x), word_byte (drop_bit 8 x), word_byte x]"

fun be_words :: "string \<Rightarrow> 32 word list" where
  "be_words (a # b # c # d # rest) = be32 a b c d # be_words rest"
| "be_words _ = []"

text \<open>The message schedule: \<open>extend_schedule n ws\<close> adds \<open>n\<close> words to the words so far, last one first.\<close>

fun extend_schedule :: "nat \<Rightarrow> 32 word list \<Rightarrow> 32 word list" where
  "extend_schedule 0 ws = ws"
| "extend_schedule (Suc n) ws =
     (let w2 = ws ! 1; w7 = ws ! 6; w15 = ws ! 14; w16 = ws ! 15;
          s0 = rotr32 7 w15 XOR rotr32 18 w15 XOR drop_bit 3 w15;
          s1 = rotr32 17 w2 XOR rotr32 19 w2 XOR drop_bit 10 w2
      in extend_schedule n ((w16 + s0 + w7 + s1) # ws))"

text \<open>One round on the working variables \<open>a\<close> to \<open>h\<close>.\<close>

definition sha256_round :: "32 word list \<Rightarrow> 32 word \<times> 32 word \<Rightarrow> 32 word list" where
  "sha256_round v kw =
     (case (v, kw) of
        ([a, b, c, d, e, f, g, h], (k, w)) \<Rightarrow>
          (let t1 = h + (rotr32 6 e XOR rotr32 11 e XOR rotr32 25 e) + ((e AND f) XOR (NOT e AND g)) + k + w;
               t2 = (rotr32 2 a XOR rotr32 13 a XOR rotr32 22 a) + ((a AND b) XOR (a AND c) XOR (b AND c))
           in [t1 + t2, a, b, c, d + t1, e, f, g])
      | _ \<Rightarrow> v)"

definition sha256_block :: "32 word list \<Rightarrow> string \<Rightarrow> 32 word list" where
  "sha256_block hs block =
     map2 (+) hs (foldl sha256_round hs (zip sha256_k (rev (extend_schedule 48 (rev (be_words block))))))"

fun sha256_blocks :: "nat \<Rightarrow> 32 word list \<Rightarrow> string \<Rightarrow> 32 word list" where
  "sha256_blocks 0 hs msg = hs"
| "sha256_blocks (Suc n) hs msg = sha256_blocks n (sha256_block hs (take 64 msg)) (drop 64 msg)"

fun be_bytes :: "nat \<Rightarrow> nat \<Rightarrow> string" where
  "be_bytes 0 n = []"
| "be_bytes (Suc k) n = be_bytes k (n div 256) @ [of_byte (n mod 256)]"

definition sha256_pad :: "string \<Rightarrow> string" where
  "sha256_pad msg =
     msg @ [of_byte 128] @ replicate ((119 - length msg mod 64) mod 64) (of_byte 0) @ be_bytes 8 (8 * length msg)"

text \<open>\<open>sha256.Sum256\<close>.\<close>

definition sha256 :: "string \<Rightarrow> string" where
  "sha256 msg =
     (let p = sha256_pad msg in
      concat (map put_be32 (sha256_blocks (length p div 64) sha256_init p)))"

lemma length_map2_min: "length (map2 f xs ys) = min (length xs) (length ys)"
  by simp

lemma length_sha256_round: "length (sha256_round v kw) = length v"
  by (auto simp: sha256_round_def Let_def split: list.splits prod.splits)

lemma length_foldl_round: "length (foldl sha256_round v ks) = length v"
  by (induction ks arbitrary: v) (simp_all add: length_sha256_round)

lemma length_sha256_block [simp]: "length (sha256_block hs b) = length hs"
  by (simp add: sha256_block_def length_foldl_round)

lemma length_sha256_blocks [simp]: "length (sha256_blocks n hs msg) = length hs"
  by (induction n arbitrary: hs msg) simp_all

lemma length_sha256 [simp]: "length (sha256 msg) = 32"
proof -
  have "length (concat (map put_be32 ws)) = 4 * length ws" for ws
    by (induction ws) (simp_all add: put_be32_def)
  then show ?thesis by (simp add: sha256_def Let_def sha256_init_def)
qed

section \<open>HMAC with SHA-256\<close>

definition xor_byte :: "nat \<Rightarrow> char \<Rightarrow> char" where
  "xor_byte n c = of_byte (xor n (byte c) mod 256)"

definition hmac_sha256 :: "string \<Rightarrow> string \<Rightarrow> string" where
  "hmac_sha256 key msg =
     (let k = (if length key > 64 then sha256 key else key);
          k = k @ replicate (64 - length k) (of_byte 0) in
      sha256 (map (xor_byte 0x5C) k @ sha256 (map (xor_byte 0x36) k @ msg)))"

lemma length_hmac [simp]: "length (hmac_sha256 key msg) = 32"
  by (simp add: hmac_sha256_def Let_def)

section \<open>Hexadecimal\<close>

definition hex_lower :: "nat \<Rightarrow> char" where
  "hex_lower n = of_byte (if n < 10 then 48 + n else 87 + n)"

text \<open>\<open>hex.EncodeToString\<close>.\<close>

definition hex_encode :: "string \<Rightarrow> string" where
  "hex_encode bs = concat (map (\<lambda>c. [hex_lower (byte c div 16), hex_lower (byte c mod 16)]) bs)"

lemma length_hex_encode [simp]: "length (hex_encode bs) = 2 * length bs"
  by (induction bs) (simp_all add: hex_encode_def)

definition lower_hex_char :: "char \<Rightarrow> bool" where
  "lower_hex_char c \<longleftrightarrow> (48 \<le> byte c \<and> byte c \<le> 57) \<or> (97 \<le> byte c \<and> byte c \<le> 102)"

lemma hex_encode_chars: "c \<in> set (hex_encode bs) \<Longrightarrow> lower_hex_char c"
proof -
  have d: "n < 16 \<Longrightarrow> lower_hex_char (hex_lower n)" for n
    by (auto simp: hex_lower_def lower_hex_char_def)
  have "byte b div 16 < 16" for b
    using byte_less [of b] by (simp add: div_less_iff_less_mult del: byte_less)
  then show "c \<in> set (hex_encode bs) \<Longrightarrow> lower_hex_char c"
    by (auto simp: hex_encode_def intro: d)
qed

lemma byte_hex_lower: "n < 16 \<Longrightarrow> byte (hex_lower n) = (if n < 10 then 48 + n else 87 + n)"
  by (simp add: hex_lower_def)

lemma hex_lower_inject: "m < 16 \<Longrightarrow> n < 16 \<Longrightarrow> hex_lower m = hex_lower n \<longleftrightarrow> m = n"
  unfolding byte_inject [symmetric] by (simp add: byte_hex_lower)

lemma hex_encode_inject [simp]: "hex_encode a = hex_encode b \<longleftrightarrow> a = b"
proof (induction a arbitrary: b)
  case Nil
  then show ?case by (cases b) (simp_all add: hex_encode_def)
next
  case (Cons c cs)
  show ?case
  proof (cases b)
    case Nil
    then show ?thesis by (simp add: hex_encode_def)
  next
    case (Cons d ds)
    have "byte c div 16 < 16" "byte d div 16 < 16"
      using byte_less [of c] byte_less [of d] by (simp_all add: div_less_iff_less_mult del: byte_less)
    then have "hex_lower (byte c div 16) = hex_lower (byte d div 16) \<and> hex_lower (byte c mod 16) = hex_lower (byte d mod 16)
        \<longleftrightarrow> byte c = byte d"
      by (simp add: hex_lower_inject del: byte_inject) (metis div_mult_mod_eq)
    with Cons.IH [of ds] Cons show ?thesis by (auto simp: hex_encode_def)
  qed
qed

section \<open>Base64, raw URL alphabet\<close>

definition b64_char :: "nat \<Rightarrow> char" where
  "b64_char n =
     of_byte (if n < 26 then 65 + n else if n < 52 then 71 + n else if n < 62 then n - 4
       else if n = 62 then 45 else 95)"

definition b64_value :: "char \<Rightarrow> nat option" where
  "b64_value c =
     (let b = byte c in
      if 65 \<le> b \<and> b \<le> 90 then Some (b - 65)
      else if 97 \<le> b \<and> b \<le> 122 then Some (b - 71)
      else if 48 \<le> b \<and> b \<le> 57 then Some (b + 4)
      else if b = 45 then Some 62
      else if b = 95 then Some 63
      else None)"

fun b64_encode :: "string \<Rightarrow> string" where
  "b64_encode (a # b # c # rest) =
     (let v = byte a * 65536 + byte b * 256 + byte c in
      [b64_char (v div 262144), b64_char (v div 4096 mod 64), b64_char (v div 64 mod 64), b64_char (v mod 64)])
     @ b64_encode rest"
| "b64_encode [a, b] =
     (let v = byte a * 65536 + byte b * 256 in
      [b64_char (v div 262144), b64_char (v div 4096 mod 64), b64_char (v div 64 mod 64)])"
| "b64_encode [a] =
     (let v = byte a * 65536 in [b64_char (v div 262144), b64_char (v div 4096 mod 64)])"
| "b64_encode [] = []"

text \<open>The decoder skips carriage returns and line feeds, and does not look at the bits that are left
  over in the last character.\<close>

fun b64_values :: "string \<Rightarrow> nat list option" where
  "b64_values [] = Some []"
| "b64_values (c # cs) =
     (if c = CHR 0x0D \<or> c = CHR 0x0A then b64_values cs
      else case b64_value c of
             None \<Rightarrow> None
           | Some v \<Rightarrow> (case b64_values cs of None \<Rightarrow> None | Some vs \<Rightarrow> Some (v # vs)))"

fun b64_bytes :: "nat list \<Rightarrow> string option" where
  "b64_bytes (a # b # c # d # rest) =
     (case b64_bytes rest of
        None \<Rightarrow> None
      | Some bs \<Rightarrow>
          let v = a * 262144 + b * 4096 + c * 64 + d in
          Some (of_byte (v div 65536) # of_byte (v div 256 mod 256) # of_byte (v mod 256) # bs))"
| "b64_bytes [a, b, c] =
     (let v = a * 262144 + b * 4096 + c * 64 in Some [of_byte (v div 65536), of_byte (v div 256 mod 256)])"
| "b64_bytes [a, b] = (let v = a * 262144 + b * 4096 in Some [of_byte (v div 65536)])"
| "b64_bytes [a] = None"
| "b64_bytes [] = Some []"

definition b64_decode :: "string \<Rightarrow> string option" where
  "b64_decode s = (case b64_values s of None \<Rightarrow> None | Some vs \<Rightarrow> b64_bytes vs)"

lemma b64_value_char [simp]: "n < 64 \<Longrightarrow> b64_value (b64_char n) = Some n"
proof -
  assume n: "n < 64"
  consider "n < 26" | "26 \<le> n" "n < 52" | "52 \<le> n" "n < 62" | "n = 62" | "n = 63" using n by linarith
  then show ?thesis by cases (auto simp: b64_value_def b64_char_def Let_def)
qed

lemma b64_char_no_newline [simp]:
  "n < 64 \<Longrightarrow> b64_char n \<noteq> CHR 0x0D" "n < 64 \<Longrightarrow> b64_char n \<noteq> CHR 0x0A"
proof -
  have "b64_value (CHR 0x0D) = None" "b64_value (CHR 0x0A) = None"
    by (simp_all add: b64_value_def byte_def)
  then show "n < 64 \<Longrightarrow> b64_char n \<noteq> CHR 0x0D" "n < 64 \<Longrightarrow> b64_char n \<noteq> CHR 0x0A"
    using b64_value_char [of n] by (metis option.distinct(1))+
qed

lemma b64_values_Cons: "n < 64 \<Longrightarrow>
  b64_values (b64_char n # cs) = (case b64_values cs of None \<Rightarrow> None | Some vs \<Rightarrow> Some (n # vs))"
  by (simp add: b64_value_char)

fun b64_digits :: "string \<Rightarrow> nat list" where
  "b64_digits (a # b # c # rest) =
     (let v = byte a * 65536 + byte b * 256 + byte c in
      [v div 262144, v div 4096 mod 64, v div 64 mod 64, v mod 64]) @ b64_digits rest"
| "b64_digits [a, b] =
     (let v = byte a * 65536 + byte b * 256 in [v div 262144, v div 4096 mod 64, v div 64 mod 64])"
| "b64_digits [a] = (let v = byte a * 65536 in [v div 262144, v div 4096 mod 64])"
| "b64_digits [] = []"

lemma b64_encode_digits: "b64_encode s = map b64_char (b64_digits s)"
  by (induction s rule: b64_encode.induct) (simp_all add: Let_def)

lemma b64_digits_small: "v \<in> set (b64_digits s) \<Longrightarrow> v < 64"
proof (induction s rule: b64_digits.induct)
  case (1 a b c rest)
  have "byte a * 65536 + byte b * 256 + byte c < 16777216"
    using byte_less [of a] byte_less [of b] byte_less [of c] by linarith
  with 1 show ?case by (auto simp: Let_def div_less_iff_less_mult)
next
  case (2 a b)
  have "byte a * 65536 + byte b * 256 < 16777216"
    using byte_less [of a] byte_less [of b] by linarith
  with 2 show ?case by (auto simp: Let_def div_less_iff_less_mult)
next
  case (3 a)
  have "byte a * 65536 < 16777216" using byte_less [of a] by linarith
  with 3 show ?case by (auto simp: Let_def div_less_iff_less_mult)
qed simp

lemma b64_values_map: "(\<forall>v\<in>set vs. v < 64) \<Longrightarrow> b64_values (map b64_char vs) = Some vs"
  by (induction vs) (simp_all add: b64_values_Cons del: b64_values.simps(2))

lemma regroup3: "(v::nat) div 262144 * 262144 + v div 4096 mod 64 * 4096 + v div 64 mod 64 * 64 + v mod 64 = v"
proof -
  have q: "v div 4096 = v div 64 div 64" "v div 262144 = v div 64 div 64 div 64"
    by (simp_all add: div_mult2_eq [symmetric])
  have "v = v div 64 * 64 + v mod 64" "v div 64 = v div 64 div 64 * 64 + v div 64 mod 64"
    "v div 64 div 64 = v div 64 div 64 div 64 * 64 + v div 64 div 64 mod 64"
    by simp_all
  then show ?thesis unfolding q by linarith
qed

lemma bytes_of_group:
  assumes "y < 256" "z < (256::nat)"
  shows "(x * 65536 + y * 256 + z) div 65536 = x" "(x * 65536 + y * 256 + z) div 256 mod 256 = y"
    "(x * 65536 + y * 256 + z) mod 256 = z"
proof -
  have e: "x * 65536 + y * 256 + z = z + (y + x * 256) * 256" by simp
  have d: "(x * 65536 + y * 256 + z) div 256 = y + x * 256"
    unfolding e using assms by simp
  show "(x * 65536 + y * 256 + z) mod 256 = z"
    unfolding e mod_mult_self1 using assms by simp
  show "(x * 65536 + y * 256 + z) div 256 mod 256 = y" unfolding d using assms by simp
  have "(x * 65536 + y * 256 + z) div 65536 = (x * 65536 + y * 256 + z) div 256 div 256"
    by (simp add: div_mult2_eq [symmetric])
  then show "(x * 65536 + y * 256 + z) div 65536 = x" unfolding d using assms by simp
qed

lemma b64_bytes_digits: "b64_bytes (b64_digits s) = Some s"
proof (induction s rule: b64_digits.induct)
  case (1 a b c rest)
  have "byte a * 65536 + byte b * 256 + byte c = x \<Longrightarrow>
    of_byte (x div 65536) = a \<and> of_byte (x div 256 mod 256) = b \<and> of_byte (x mod 256) = c" for x
    using bytes_of_group [of "byte b" "byte c" "byte a"] by auto
  then show ?case using 1 by (simp add: Let_def regroup3)
next
  case (2 a b)
  let ?v = "byte a * 65536 + byte b * 256"
  have e: "?v = (byte a * 1024 + byte b * 4) * 64" by simp
  have "?v mod 64 = 0" unfolding e by simp
  then have r: "?v div 262144 * 262144 + ?v div 4096 mod 64 * 4096 + ?v div 64 mod 64 * 64 = ?v"
    using regroup3 [of ?v] by linarith
  show ?case
    unfolding b64_digits.simps Let_def b64_bytes.simps r
    using bytes_of_group [of "byte b" 0 "byte a"] by simp
next
  case (3 a)
  let ?v = "byte a * 65536"
  have e: "?v = (byte a * 1024) * 64" "byte a * 1024 = (byte a * 16) * 64" by simp_all
  have "?v mod 64 = 0" unfolding e(1) by (rule mod_mult_self2_is_0)
  moreover have "?v div 64 = byte a * 1024" unfolding e(1) by (rule nonzero_mult_div_cancel_right) simp
  then have "?v div 64 mod 64 = 0" unfolding e(2) by (simp only: mod_mult_self2_is_0)
  ultimately have r: "?v div 262144 * 262144 + ?v div 4096 mod 64 * 4096 = ?v"
    using regroup3 [of ?v] by linarith
  show ?case
    unfolding b64_digits.simps Let_def b64_bytes.simps r
    using bytes_of_group [of 0 0 "byte a"] by simp
qed simp

lemma b64_roundtrip [simp]: "b64_decode (b64_encode s) = Some s"
  using b64_values_map [of "b64_digits s"] b64_digits_small
  by (simp add: b64_decode_def b64_encode_digits b64_bytes_digits)

definition b64_alphabet :: "char \<Rightarrow> bool" where
  "b64_alphabet c \<longleftrightarrow> b64_value c \<noteq> None"

lemma b64_encode_alphabet: "c \<in> set (b64_encode s) \<Longrightarrow> b64_alphabet c"
  by (auto simp: b64_encode_digits b64_alphabet_def dest: b64_digits_small)

lemma b64_encode_inject [simp]: "b64_encode a = b64_encode b \<longleftrightarrow> a = b"
  by (metis b64_roundtrip option.inject)

end
