(* ===== verification/Password.thy ===== *)
theory Password
  imports Crypto World
begin

text \<open>
  Passwords and tokens: \<open>hashPassword\<close>, \<open>verifyPassword\<close>, its parsers and \<open>pbkdf2HMACSHA256\<close> of
  \<open>pkg/webserver/auth_store.go\<close>; \<open>randomToken\<close>, \<open>hashToken\<close> and the checks against the environment of
  \<open>pkg/webserver/functions.go\<close>.
\<close>

section \<open>Key derivation\<close>

definition passwordHashAlgorithm :: string where
  "passwordHashAlgorithm = ''sb-pbkdf2-sha256''"

definition passwordHashVersion :: int where
  "passwordHashVersion = 1"

definition passwordHashIterations :: int where
  "passwordHashIterations = 120000"

definition passwordHashMaxIterations :: int where
  "passwordHashMaxIterations = 600000"

definition passwordSaltBytes :: nat where
  "passwordSaltBytes = 16"

definition passwordKeyBytes :: nat where
  "passwordKeyBytes = 32"

lemmas password_constants = passwordHashAlgorithm_def passwordHashVersion_def
  passwordHashIterations_def passwordHashMaxIterations_def passwordSaltBytes_def passwordKeyBytes_def

definition xor_bytes :: "string \<Rightarrow> string \<Rightarrow> string" where
  "xor_bytes t u = map2 (\<lambda>a b. of_byte (xor (byte a) (byte b))) t u"

text \<open>The inner loop: \<open>n\<close> more rounds from \<open>u\<close>, folded into \<open>t\<close>.\<close>

fun pbkdf2_rounds :: "nat \<Rightarrow> string \<Rightarrow> string \<Rightarrow> string \<Rightarrow> string" where
  "pbkdf2_rounds 0 password u t = t"
| "pbkdf2_rounds (Suc n) password u t =
     (let u' = hmac_sha256 password u in pbkdf2_rounds n password u' (xor_bytes t u'))"

definition pbkdf2_block :: "string \<Rightarrow> string \<Rightarrow> int \<Rightarrow> nat \<Rightarrow> string" where
  "pbkdf2_block password salt iterations block =
     (let u = hmac_sha256 password (salt @ be_bytes 4 (block mod 2 ^ 32)) in
      pbkdf2_rounds (nat (iterations - 1)) password u u)"

definition pbkdf2_hmac_sha256 :: "string \<Rightarrow> string \<Rightarrow> int \<Rightarrow> nat \<Rightarrow> string" where
  "pbkdf2_hmac_sha256 password salt iterations keyLen =
     (let hashLen = 32; blocks = (keyLen + hashLen - 1) div hashLen in
      take keyLen (concat (map (pbkdf2_block password salt iterations) [1..<Suc blocks])))"

lemma length_xor_bytes [simp]: "length (xor_bytes t u) = min (length t) (length u)"
  by (simp add: xor_bytes_def)

lemma length_pbkdf2_rounds: "length t = 32 \<Longrightarrow> length (pbkdf2_rounds n password u t) = 32"
  by (induction n arbitrary: u t) (simp_all add: Let_def)

lemma length_pbkdf2_block [simp]: "length (pbkdf2_block password salt iterations block) = 32"
  by (simp add: pbkdf2_block_def Let_def length_pbkdf2_rounds)

lemma length_pbkdf2 [simp]: "length (pbkdf2_hmac_sha256 password salt iterations keyLen) = keyLen"
proof -
  have l: "length (concat (map (pbkdf2_block password salt iterations) bs)) = 32 * length bs" for bs
    by (induction bs) simp_all
  have "keyLen \<le> 32 * ((keyLen + 32 - 1) div 32)" by presburger
  then show ?thesis by (simp add: pbkdf2_hmac_sha256_def Let_def l)
qed

section \<open>Encoded password hashes\<close>

definition password_field :: "string \<Rightarrow> string \<Rightarrow> string" where
  "password_field key value = key @ ''='' @ value"

text \<open>The format of the last statement of \<open>hashPassword\<close>.\<close>

definition encode_password_hash :: "string \<Rightarrow> string \<Rightarrow> string" where
  "encode_password_hash salt derived =
     passwordHashAlgorithm @ ''$v='' @ int_digits passwordHashVersion @ ''$i='' @ int_digits passwordHashIterations
     @ ''$s='' @ b64_encode salt @ ''$h='' @ b64_encode derived"

definition hash_password :: "string \<Rightarrow> string io" where
  "hash_password password =
     bind_io (rand_read passwordSaltBytes) (\<lambda>salt.
       let derived = pbkdf2_hmac_sha256 password salt passwordHashIterations passwordKeyBytes in
       ret_io (encode_password_hash salt derived))"

definition parse_password_hash_int :: "string \<Rightarrow> string \<Rightarrow> int result" where
  "parse_password_hash_int part key =
     (let pre = key @ ''='' in
      if \<not> has_prefix part pre then Inl (ErrText ''invalid password hash field'')
      else case atoi (trim_prefix part pre) of
             None \<Rightarrow> Inl (ErrText ''strconv.Atoi'')
           | Some i \<Rightarrow> Inr i)"

definition parse_password_hash_bytes :: "string \<Rightarrow> string \<Rightarrow> string result" where
  "parse_password_hash_bytes part key =
     (let pre = key @ ''='' in
      if \<not> has_prefix part pre then Inl (ErrText ''invalid password hash field'')
      else case b64_decode (trim_prefix part pre) of
             None \<Rightarrow> Inl (ErrText ''illegal base64 data'')
           | Some bs \<Rightarrow> Inr bs)"

text \<open>\<open>x, err := f; if err != nil || bad(x) { return errors.New(m) }\<close>\<close>

definition require :: "'a result \<Rightarrow> ('a \<Rightarrow> bool) \<Rightarrow> string \<Rightarrow> ('a \<Rightarrow> 'b result) \<Rightarrow> 'b result" where
  "require r bad m k = (case r of Inl _ \<Rightarrow> Inl (ErrText m) | Inr x \<Rightarrow> if bad x then Inl (ErrText m) else k x)"

definition verify_password :: "string \<Rightarrow> string \<Rightarrow> bool result" where
  "verify_password password encoded =
     (let parts = split_on (CHR ''$'') encoded in
      if length parts \<noteq> 5 \<or> parts ! 0 \<noteq> passwordHashAlgorithm
      then Inl (ErrText ''unsupported password hash'')
      else
        require (parse_password_hash_int (parts ! 1) ''v'') (\<lambda>version. version \<noteq> passwordHashVersion)
          ''unsupported password hash version'' (\<lambda>_.
        require (parse_password_hash_int (parts ! 2) ''i'')
          (\<lambda>iterations. iterations < 10000 \<or> iterations > passwordHashMaxIterations)
          ''invalid password hash iterations'' (\<lambda>iterations.
        require (parse_password_hash_bytes (parts ! 3) ''s'') (\<lambda>salt. length salt < passwordSaltBytes)
          ''invalid password hash salt'' (\<lambda>salt.
        require (parse_password_hash_bytes (parts ! 4) ''h'') (\<lambda>want. length want = 0)
          ''invalid password hash'' (\<lambda>want.
        Inr (pbkdf2_hmac_sha256 password salt iterations (length want) = want))))))"

section \<open>Tokens\<close>

definition random_token :: "nat \<Rightarrow> string io" where
  "random_token bytesCount = bind_io (rand_read bytesCount) (\<lambda>buffer. ret_io (b64_encode buffer))"

definition hash_token :: "string \<Rightarrow> string" where
  "hash_token token = hex_encode (sha256 token)"

definition admin_password_configured :: "world \<Rightarrow> bool" where
  "admin_password_configured w \<longleftrightarrow>
     environ w ''SITEBRUSH_ADMIN_PASSWORD_SHA256'' \<noteq> '''' \<or> environ w ''SITEBRUSH_ADMIN_PASSWORD'' \<noteq> ''''"

definition bootstrap_token_configured :: "world \<Rightarrow> bool" where
  "bootstrap_token_configured w \<longleftrightarrow> environ w ''SITEBRUSH_BOOTSTRAP_TOKEN'' \<noteq> ''''"

definition validate_bootstrap_token :: "world \<Rightarrow> string \<Rightarrow> bool" where
  "validate_bootstrap_token w token =
     (let configured = environ w ''SITEBRUSH_BOOTSTRAP_TOKEN'' in
      if configured = '''' \<or> token = '''' then False
      else sha256 configured = sha256 token)"

definition validate_admin_password :: "world \<Rightarrow> string \<Rightarrow> bool" where
  "validate_admin_password w password =
     (let hash = environ w ''SITEBRUSH_ADMIN_PASSWORD_SHA256'';
          configured = environ w ''SITEBRUSH_ADMIN_PASSWORD'' in
      if hash \<noteq> '''' then to_lower hash = hex_encode (sha256 password)
      else if configured \<noteq> '''' then sha256 configured = sha256 password
      else False)"

section \<open>What they guarantee\<close>

lemma take_pad: "length (take n (bs @ replicate n c)) = n"
  by simp

lemma rand_read_Inr: "rand_read n w = (Inr bs, w') \<Longrightarrow> length bs = n"
  by (auto simp: rand_read_def Let_def split: option.splits)

text \<open>No byte of the alphabets of the fields is the separator.\<close>

lemma b64_encode_no_dollar: "CHR ''$'' \<notin> set (b64_encode s)"
proof
  assume "CHR ''$'' \<in> set (b64_encode s)"
  then have "b64_alphabet (CHR ''$'')" by (rule b64_encode_alphabet)
  then show False by (simp add: b64_alphabet_def b64_value_def byte_def)
qed

lemma int_digits_numeral: "int_digits passwordHashVersion = ''1''" "int_digits passwordHashIterations = ''120000''"
  by code_simp+

lemma encoded_parts:
  "split_on (CHR ''$'') (encode_password_hash salt derived) =
     [passwordHashAlgorithm, ''v=1'', ''i=120000'', ''s='' @ b64_encode salt, ''h='' @ b64_encode derived]"
proof -
  have s: "CHR ''$'' \<notin> set (''s='' @ b64_encode salt)" and h: "CHR ''$'' \<notin> set (''h='' @ b64_encode derived)"
    using b64_encode_no_dollar by simp_all
  have "encode_password_hash salt derived =
      passwordHashAlgorithm @ CHR ''$'' # (''v=1'' @ CHR ''$'' # (''i=120000'' @ CHR ''$''
        # ((''s='' @ b64_encode salt) @ CHR ''$'' # (''h='' @ b64_encode derived))))"
    by (simp add: encode_password_hash_def int_digits_numeral)
  then show ?thesis
    using split_on_append_sep [OF s, of "''h='' @ b64_encode derived"] split_on_nosep [OF h]
    by (simp add: split_on_append_sep passwordHashAlgorithm_def)
qed

lemma parse_fields:
  "parse_password_hash_int ''v=1'' ''v'' = Inr 1"
  "parse_password_hash_int ''i=120000'' ''i'' = Inr 120000"
  "parse_password_hash_bytes (''s='' @ b64_encode bs) ''s'' = Inr bs"
  "parse_password_hash_bytes (''h='' @ b64_encode bs) ''h'' = Inr bs"
  by (simp_all add: parse_password_hash_int_def parse_password_hash_bytes_def trim_prefix_def atoi_def
      is_digit_byte_def byte_def Let_def)

lemma require_simps [simp]:
  "require (Inl e) bad m k = Inl (ErrText m)"
  "require (Inr x) bad m k = (if bad x then Inl (ErrText m) else k x)"
  by (simp_all add: require_def)

lemma require_Inr: "require r bad m k = Inr y \<longleftrightarrow> (\<exists>x. r = Inr x \<and> \<not> bad x \<and> k x = Inr y)"
  by (cases r) auto

lemma verify_encoded:
  "length salt = passwordSaltBytes \<Longrightarrow> derived \<noteq> '''' \<Longrightarrow>
     verify_password password (encode_password_hash salt derived) =
       Inr (pbkdf2_hmac_sha256 password salt passwordHashIterations (length derived) = derived)"
  by (simp add: verify_password_def encoded_parts parse_fields [simplified] password_constants)

text \<open>
  Property C23. Passwords round trip: the hash that \<open>hashPassword\<close> makes, whatever the salt, is one
  that \<open>verifyPassword\<close> reads without an error; it accepts the password itself, and another one
  only if the key derived from it with the same salt is the same.
\<close>

theorem hash_then_verify:
  assumes "hash_password password w = (Inr encoded, w')"
  shows "\<exists>salt. length salt = passwordSaltBytes
    \<and> (\<forall>candidate. verify_password candidate encoded =
          Inr (pbkdf2_hmac_sha256 candidate salt passwordHashIterations passwordKeyBytes
             = pbkdf2_hmac_sha256 password salt passwordHashIterations passwordKeyBytes))"
proof -
  from assms obtain salt where salt: "length salt = passwordSaltBytes"
    and enc: "encoded = encode_password_hash salt
      (pbkdf2_hmac_sha256 password salt passwordHashIterations passwordKeyBytes)"
    by (auto simp: hash_password_def io_inv Let_def dest: rand_read_Inr)
  let ?key = "pbkdf2_hmac_sha256 password salt passwordHashIterations passwordKeyBytes"
  have "length ?key = 32" by (simp add: passwordKeyBytes_def)
  then have "?key \<noteq> ''''" by (metis list.size(3) zero_neq_numeral)
  then show ?thesis
    using salt verify_encoded [OF salt, of ?key] by (auto simp: enc)
qed

text \<open>
  What \<open>verifyPassword\<close> accepts: a hash of five fields with the algorithm's name, version
  1, between 10000 and 600000 iterations, a salt of at least 16 bytes and a non-empty key that is
  the key derived from the password. Nothing else passes, so a damaged or truncated hash never
  lets a password in.
\<close>

lemma verify_password_accepts_iff:
  "verify_password password encoded = Inr True \<longleftrightarrow>
     (\<exists>v i s h iterations salt want.
        split_on (CHR ''$'') encoded = [passwordHashAlgorithm, v, i, s, h]
        \<and> parse_password_hash_int v ''v'' = Inr passwordHashVersion
        \<and> parse_password_hash_int i ''i'' = Inr iterations
        \<and> 10000 \<le> iterations \<and> iterations \<le> passwordHashMaxIterations
        \<and> parse_password_hash_bytes s ''s'' = Inr salt \<and> passwordSaltBytes \<le> length salt
        \<and> parse_password_hash_bytes h ''h'' = Inr want \<and> want \<noteq> ''''
        \<and> pbkdf2_hmac_sha256 password salt iterations (length want) = want)"
proof (cases "length (split_on (CHR ''$'') encoded) = 5")
  case True
  then obtain a v i s h where parts: "split_on (CHR ''$'') encoded = [a, v, i, s, h]"
    by (auto simp: length_Suc_conv numeral_eq_Suc)
  show ?thesis
    by (auto simp: verify_password_def parts Let_def require_Inr)
next
  case False
  then have "verify_password password encoded = Inl (ErrText ''unsupported password hash'')"
    by (simp add: verify_password_def Let_def)
  moreover have "split_on (CHR ''$'') encoded \<noteq> [passwordHashAlgorithm, v, i, s, h]" for v i s h
    using False by auto
  ultimately show ?thesis by simp
qed

theorem hash_then_verify_witness:
  "\<exists>encoded. fst (hash_password ''secret'' demo_world) = Inr encoded
     \<and> verify_password ''secret'' encoded = Inr True"
proof -
  have "\<exists>encoded w'. hash_password ''secret'' demo_world = (Inr encoded, w')"
    by (simp add: hash_password_def bind_io_def rand_read_def demo_world_def ret_io_def Let_def)
  then obtain encoded w' where run: "hash_password ''secret'' demo_world = (Inr encoded, w')" by blast
  from hash_then_verify [OF run] obtain salt where salt: "length salt = passwordSaltBytes"
    and v: "\<forall>candidate. verify_password candidate encoded =
          Inr (pbkdf2_hmac_sha256 candidate salt passwordHashIterations passwordKeyBytes
             = pbkdf2_hmac_sha256 ''secret'' salt passwordHashIterations passwordKeyBytes)"
    by blast
  have "verify_password ''secret'' encoded = Inr True"
    using spec [OF v, of "''secret''"] by simp
  then show ?thesis by (intro exI [of _ encoded]) (simp add: run)
qed

end
