(* ===== verification/Http.thy ===== *)
theory Http
  imports Password
begin

text \<open>
  Requests and responses, the state of the server, and the session store of
  \<open>pkg/webserver/functions.go\<close>. A request is what package \<open>net/http\<close> has parsed; a response is the
  list of calls that the handler makes on the response writer, in order.
\<close>

section \<open>Requests, responses, state\<close>

record request =
  Method :: string
  URL_Path :: string              \<comment> \<open>\<open>request.URL.Path\<close>, already unescaped\<close>
  RawQuery :: string
  Host :: string
  Cookies :: "(string \<times> string) list"
  Header_Get :: "string \<Rightarrow> string"
  Form_Error :: bool              \<comment> \<open>whether \<open>ParseForm\<close> fails\<close>
  Form_Value :: "string \<Rightarrow> string"
  TLS :: bool
  RemoteAddr :: string

record cookie =
  Cookie_Name :: string
  Cookie_Value :: string
  Cookie_Path :: string
  Cookie_Expires :: int
  Cookie_MaxAge :: int
  HttpOnly :: bool
  Secure :: bool
  SameSiteLax :: bool

text \<open>The values that a template is rendered with.\<close>

datatype html =
    HStr string
  | HInt int
  | HBool bool
  | HTime int
  | HStruct "(string \<times> html) list"
  | HList "html list"

datatype call =
    SetHeader string string
  | WriteHeader nat
  | Fprint string
  | HttpError string nat
  | HttpRedirect string nat
  | ServeFile string
  | SetCookie cookie
  | RenderHTML string string "(string \<times> html) list"   \<comment> \<open>title, template, values\<close>
  | EncodeJSON "(string \<times> html) list"

record operator_session =
  Session_User :: string
  Session_Email :: string
  Session_UserID :: int
  AuthSource :: string
  CSRFToken :: string
  ExpiresAt :: int

type_synonym sessions = "string \<rightharpoonup> operator_session"

record server =
  machine :: world
  sessions :: sessions
  response :: "call list"

type_synonym 'a srv = "server \<Rightarrow> 'a \<times> server"

definition ret_srv :: "'a \<Rightarrow> 'a srv" where
  "ret_srv v s = (v, s)"

definition bind_srv :: "'a srv \<Rightarrow> ('a \<Rightarrow> 'b srv) \<Rightarrow> 'b srv" where
  "bind_srv m f s = (case m s of (v, s') \<Rightarrow> f v s')"

definition lift_srv :: "'a io \<Rightarrow> 'a result srv" where
  "lift_srv m s = (case m (machine s) of (r, w) \<Rightarrow> (r, s\<lparr>machine := w\<rparr>))"

definition respond :: "call list \<Rightarrow> unit srv" where
  "respond cs s = ((), s\<lparr>response := response s @ cs\<rparr>)"

text \<open>\<open>v, err := m; if err != nil { h; return }; f\<close> in a handler.\<close>

definition try_srv :: "'a io \<Rightarrow> (go_error \<Rightarrow> 'b srv) \<Rightarrow> ('a \<Rightarrow> 'b srv) \<Rightarrow> 'b srv" where
  "try_srv m h f = bind_srv (lift_srv m) (\<lambda>r. case r of Inl err \<Rightarrow> h err | Inr v \<Rightarrow> f v)"

text \<open>The server's world, as \<open>os.Getenv\<close> reads it.\<close>

definition with_world :: "(world \<Rightarrow> 'a srv) \<Rightarrow> 'a srv" where
  "with_world f s = f (machine s) s"

lemma srv_simps [simp]:
  "bind_srv (ret_srv v) f = f v"
  "bind_srv m ret_srv = m"
  "bind_srv (bind_srv m f) g = bind_srv m (\<lambda>v. bind_srv (f v) g)"
  by (auto simp: fun_eq_iff bind_srv_def ret_srv_def split: prod.split)

section \<open>Sessions\<close>

definition sessionCookieName :: string where
  "sessionCookieName = ''sitebrush_session''"

text \<open>Twelve hours, in nanoseconds.\<close>

definition sessionDuration :: int where
  "sessionDuration = 12 * 3600 * 1000000000"

text \<open>\<open>request.Cookie(name)\<close>: the first cookie with the name.\<close>

definition request_cookie :: "request \<Rightarrow> string \<Rightarrow> string option" where
  "request_cookie r name = map_option snd (find_first (\<lambda>c. fst c = name) (Cookies r))"

definition session_create_for_user ::
  "request \<Rightarrow> string \<Rightarrow> string \<Rightarrow> int \<Rightarrow> string \<Rightarrow> operator_session result srv" where
  "session_create_for_user request user email userID authSource =
     bind_srv (lift_srv (random_token 32)) (\<lambda>r1. case r1 of Inl err \<Rightarrow> ret_srv (Inl err) | Inr token \<Rightarrow>
     bind_srv (lift_srv (random_token 32)) (\<lambda>r2. case r2 of Inl err \<Rightarrow> ret_srv (Inl err) | Inr csrfToken \<Rightarrow>
     bind_srv (lift_srv time_now) (\<lambda>r3. case r3 of Inl err \<Rightarrow> ret_srv (Inl err) | Inr now \<Rightarrow>
       let session = \<lparr>Session_User = user, Session_Email = email, Session_UserID = userID,
             AuthSource = authSource, CSRFToken = csrfToken, ExpiresAt = now + sessionDuration\<rparr> in
       bind_srv (\<lambda>s. ((), s\<lparr>sessions := (sessions s)(hash_token token \<mapsto> session)\<rparr>)) (\<lambda>_.
       bind_srv (respond [SetCookie \<lparr>Cookie_Name = sessionCookieName, Cookie_Value = token, Cookie_Path = ''/'',
             Cookie_Expires = ExpiresAt session, Cookie_MaxAge = sessionDuration div 1000000000,
             HttpOnly = True, Secure = TLS request, SameSiteLax = True\<rparr>]) (\<lambda>_.
       ret_srv (Inr session))))))"

definition session_create :: "request \<Rightarrow> string \<Rightarrow> operator_session result srv" where
  "session_create request user = session_create_for_user request user '''' 0 ''env''"

text \<open>The critical section of \<open>get\<close>: an expired session is deleted.\<close>

definition find_session :: "string \<Rightarrow> int \<Rightarrow> sessions \<Rightarrow> operator_session option \<times> sessions" where
  "find_session key now m =
     (case m key of
        None \<Rightarrow> (None, m)
      | Some session \<Rightarrow> if now > ExpiresAt session then (None, m(key := None)) else (Some session, m))"

definition session_get :: "request \<Rightarrow> operator_session option srv" where
  "session_get request s =
     (case request_cookie request sessionCookieName of
        None \<Rightarrow> (None, s)
      | Some value \<Rightarrow>
          if value = '''' then (None, s)
          else case time_now (machine s) of
                 (Inl _, w) \<Rightarrow> (None, s\<lparr>machine := w\<rparr>)
               | (Inr now, w) \<Rightarrow>
                   (case find_session (hash_token value) now (sessions s) of
                      (r, m) \<Rightarrow> (r, s\<lparr>machine := w, sessions := m\<rparr>)))"

definition session_destroy :: "request \<Rightarrow> unit srv" where
  "session_destroy request =
     bind_srv (\<lambda>s. ((), case request_cookie request sessionCookieName of
                         None \<Rightarrow> s
                       | Some value \<Rightarrow> s\<lparr>sessions := (sessions s)(hash_token value := None)\<rparr>)) (\<lambda>_.
     respond [SetCookie \<lparr>Cookie_Name = sessionCookieName, Cookie_Value = '''', Cookie_Path = ''/'',
        Cookie_Expires = 0, Cookie_MaxAge = -1, HttpOnly = True, Secure = TLS request, SameSiteLax = True\<rparr>])"

definition require_auth :: "request \<Rightarrow> operator_session option srv" where
  "require_auth request =
     bind_srv (session_get request) (\<lambda>r.
       case r of
         Some session \<Rightarrow> ret_srv (Some session)
       | None \<Rightarrow>
           bind_srv (respond [SetHeader ''Content-Type'' ''text/plain; charset=utf-8'',
               SetHeader ''WWW-Authenticate'' ''SiteBrush'', WriteHeader 401,
               Fprint ''Authentication required. Visit /?login.'']) (\<lambda>_.
           ret_srv None))"

definition valid_csrf :: "request \<Rightarrow> operator_session \<Rightarrow> bool" where
  "valid_csrf request session =
     (let token = Header_Get request ''X-CSRF-Token'' in
      if token = '''' \<and> Form_Error request then False
      else let token = (if token = '''' then Form_Value request ''csrf'' else token) in
           token \<noteq> '''' \<and> token = CSRFToken session)"

section \<open>The contract of a session store\<close>

text \<open>
  What the handlers rely on. A token names a session by its key; \<open>revoked\<close> says that no moment in
  time lets the token in.
\<close>

definition revoked :: "(string \<Rightarrow> int \<Rightarrow> 's \<Rightarrow> 'v option \<times> 's) \<Rightarrow> string \<Rightarrow> 's \<Rightarrow> bool" where
  "revoked seek tok s \<longleftrightarrow> (\<forall>now. fst (seek tok now s) = None)"

locale session_store =
  fixes key_of :: "string \<Rightarrow> 'k"
    and enter :: "string \<Rightarrow> 'v \<Rightarrow> 's \<Rightarrow> 's"
    and seek :: "string \<Rightarrow> int \<Rightarrow> 's \<Rightarrow> 'v option \<times> 's"
    and forget :: "string \<Rightarrow> 's \<Rightarrow> 's"
    and expiry :: "'v \<Rightarrow> int"
  assumes seek_enter: "fst (seek tok now (enter tok v s)) = (if now > expiry v then None else Some v)"
    and seek_enter_other: "key_of tok \<noteq> key_of tok' \<Longrightarrow> fst (seek tok' now (enter tok v s)) = fst (seek tok' now s)"
    and seek_forget: "fst (seek tok now (forget tok s)) = None"
    and seek_forget_other: "key_of tok \<noteq> key_of tok' \<Longrightarrow> fst (seek tok' now (forget tok s)) = fst (seek tok' now s)"
    and seek_seek: "now \<le> now' \<Longrightarrow> fst (seek tok' now' (snd (seek tok now s))) = fst (seek tok' now' s)"
    and seek_only_removes: "fst (seek tok' now' (snd (seek tok now s))) \<in> {None, fst (seek tok' now' s)}"
    and same_key: "key_of tok = key_of tok' \<Longrightarrow> seek tok = seek tok'"

text \<open>Operations on a store, one after the other, as requests of any clients make them.\<close>

datatype 'v session_op = Add string 'v | Find string int | Delete string

fun run_session_op ::
  "(string \<Rightarrow> 'v \<Rightarrow> 's \<Rightarrow> 's) \<Rightarrow> (string \<Rightarrow> int \<Rightarrow> 's \<Rightarrow> 'v option \<times> 's) \<Rightarrow> (string \<Rightarrow> 's \<Rightarrow> 's)
     \<Rightarrow> 'v session_op \<Rightarrow> 's \<Rightarrow> 's" where
  "run_session_op enter seek forget (Add tok v) s = enter tok v s"
| "run_session_op enter seek forget (Find tok now) s = snd (seek tok now s)"
| "run_session_op enter seek forget (Delete tok) s = forget tok s"

context session_store
begin

lemma revoked_step:
  assumes "revoked seek tok s" and "\<And>u v. op = Add u v \<Longrightarrow> key_of u \<noteq> key_of tok"
  shows "revoked seek tok (run_session_op enter seek forget op s)"
proof (cases op)
  case (Add u v)
  with assms show ?thesis by (simp add: revoked_def seek_enter_other)
next
  case (Find u now)
  then show ?thesis
    using assms(1) seek_only_removes unfolding revoked_def by (metis insertE run_session_op.simps(2) singletonD)
next
  case (Delete u)
  show ?thesis
  proof (cases "key_of u = key_of tok")
    case True
    then show ?thesis using Delete seek_forget same_key unfolding revoked_def by (metis run_session_op.simps(3))
  next
    case False
    with Delete assms(1) show ?thesis by (simp add: revoked_def seek_forget_other)
  qed
qed

text \<open>A deleted session stays out until one with the same key is entered.\<close>

lemma deleted_stays_out:
  "(\<forall>u v. Add u v \<in> set ops \<longrightarrow> key_of u \<noteq> key_of tok) \<Longrightarrow>
     revoked seek tok (foldl (\<lambda>s op. run_session_op enter seek forget op s) (forget tok s) ops)"
proof (induction ops rule: rev_induct)
  case Nil
  show ?case using seek_forget by (simp add: revoked_def)
next
  case (snoc op ops)
  have "\<forall>u v. Add u v \<in> set ops \<longrightarrow> key_of u \<noteq> key_of tok" using snoc.prems by auto
  then have "revoked seek tok (foldl (\<lambda>s op. run_session_op enter seek forget op s) (forget tok s) ops)"
    by (rule snoc.IH)
  then have "revoked seek tok (run_session_op enter seek forget op
      (foldl (\<lambda>s op. run_session_op enter seek forget op s) (forget tok s) ops))"
    by (rule revoked_step) (use snoc.prems in auto)
  then show ?case by simp
qed

end

text \<open>The store of the server keeps the contract.\<close>

definition store_add :: "string \<Rightarrow> operator_session \<Rightarrow> sessions \<Rightarrow> sessions" where
  "store_add tok v m = m(hash_token tok \<mapsto> v)"

definition store_find :: "string \<Rightarrow> int \<Rightarrow> sessions \<Rightarrow> operator_session option \<times> sessions" where
  "store_find tok now m = find_session (hash_token tok) now m"

definition store_delete :: "string \<Rightarrow> sessions \<Rightarrow> sessions" where
  "store_delete tok m = m(hash_token tok := None)"

lemma hash_token_inject_sha: "hash_token a = hash_token b \<longleftrightarrow> sha256 a = sha256 b"
  by (simp add: hash_token_def)

lemma store_find_same_key: "hash_token tok = hash_token tok' \<Longrightarrow> store_find tok = store_find tok'"
  by (intro ext) (simp only: store_find_def)

interpretation store: session_store hash_token store_add store_find store_delete ExpiresAt
  by unfold_locales
    (auto simp: store_add_def store_find_def store_delete_def find_session_def
      intro: store_find_same_key split: option.splits)

section \<open>Properties\<close>

lemma time_now_run: "time_now w = (Inr (clock w (ticks w)), w\<lparr>ticks := Suc (ticks w)\<rparr>)"
  by (simp add: time_now_def)

lemma create_session_run:
  assumes "session_create_for_user request user email userID authSource s = (Inr session, s')"
  shows "\<exists>token. sessions s' = store_add token session (sessions s)
    \<and> response s' = response s @ [SetCookie \<lparr>Cookie_Name = sessionCookieName, Cookie_Value = token,
         Cookie_Path = ''/'', Cookie_Expires = ExpiresAt session, Cookie_MaxAge = 43200, HttpOnly = True,
         Secure = TLS request, SameSiteLax = True\<rparr>]
    \<and> Session_User session = user \<and> Session_Email session = email \<and> Session_UserID session = userID
    \<and> AuthSource session = authSource"
  using assms
  by (auto simp: session_create_for_user_def bind_srv_def lift_srv_def respond_def ret_srv_def time_now_run
      Let_def store_add_def sessionDuration_def split: prod.splits sum.splits)

lemma session_get_run:
  "fst (session_get request s) =
     (case request_cookie request sessionCookieName of
        None \<Rightarrow> None
      | Some value \<Rightarrow> if value = '''' then None
          else fst (store_find value (clock (machine s) (ticks (machine s))) (sessions s)))"
  by (simp add: session_get_def time_now_run store_find_def split: option.split prod.split)

text \<open>
  Property C21. A login's session is the one that the next request gets: the cookie that creating
  a session sets leads to it until it expires, never later, and is sent only over HTTP and, when
  the login used TLS, only over TLS. The store keeps the hash of the token, not the token.
\<close>

theorem session_lifecycle:
  assumes "session_create_for_user request user email userID authSource s = (Inr session, s')"
  shows "\<exists>c. response s' = response s @ [SetCookie c] \<and> HttpOnly c \<and> (Secure c \<longleftrightarrow> TLS request)
    \<and> sessions s' = (sessions s)(hash_token (Cookie_Value c) \<mapsto> session)
    \<and> (\<forall>next t. request_cookie next sessionCookieName = Some (Cookie_Value c) \<longrightarrow> Cookie_Value c \<noteq> ''''
         \<longrightarrow> sessions t = sessions s' \<longrightarrow>
         fst (session_get next t) =
           (if clock (machine t) (ticks (machine t)) > ExpiresAt session then None else Some session))"
proof -
  obtain token where run: "sessions s' = store_add token session (sessions s)"
    and resp: "response s' = response s @ [SetCookie \<lparr>Cookie_Name = sessionCookieName, Cookie_Value = token,
         Cookie_Path = ''/'', Cookie_Expires = ExpiresAt session, Cookie_MaxAge = 43200, HttpOnly = True,
         Secure = TLS request, SameSiteLax = True\<rparr>]"
    using create_session_run [OF assms] by blast
  show ?thesis
    unfolding resp by (simp add: run session_get_run store.seek_enter) (simp add: store_add_def)
qed

text \<open>
  Property C22. Logging out is final: after \<open>destroy\<close> the cookie's token is refused whatever other
  clients do and however much time passes, unless a later login draws a token with the same hash.
\<close>

theorem logged_out_stays_out:
  assumes "request_cookie request sessionCookieName = Some tok"
    and "\<forall>u v. Add u v \<in> set ops \<longrightarrow> hash_token u \<noteq> hash_token tok"
  shows "fst (store_find tok now (foldl (\<lambda>m op. run_session_op store_add store_find store_delete op m)
            (sessions (snd (session_destroy request s))) ops)) = None"
proof -
  have "sessions (snd (session_destroy request s)) = store_delete tok (sessions s)"
    using assms(1) by (simp add: session_destroy_def bind_srv_def respond_def store_delete_def)
  then show ?thesis
    using store.deleted_stays_out [OF assms(2), of "sessions s"] by (simp add: revoked_def)
qed

lemma require_auth_run:
  "require_auth request s =
     (case session_get request s of
        (Some session, s') \<Rightarrow> (Some session, s')
      | (None, s') \<Rightarrow> (None, s'\<lparr>response := response s' @ [SetHeader ''Content-Type'' ''text/plain; charset=utf-8'',
            SetHeader ''WWW-Authenticate'' ''SiteBrush'', WriteHeader 401,
            Fprint ''Authentication required. Visit /?login.'']\<rparr>))"
  by (simp add: require_auth_def bind_srv_def respond_def ret_srv_def split: prod.split option.split)

lemma session_get_same:
  "session_get request s = (r, s') \<Longrightarrow> response s' = response s \<and> same_files (machine s) (machine s')
     \<and> (\<forall>k v. sessions s' k = Some v \<longrightarrow> sessions s k = Some v)"
  by (auto simp: session_get_def time_now_run find_session_def same_files_def split: option.splits if_splits)

text \<open>
  Property C34. Who is let in: \<open>requireAuth\<close> returns a session exactly when the request's session
  cookie is not empty and its hash is in the store with a session that has not expired; otherwise
  it answers 401 and nothing else. It changes no file and adds nothing to the store.
\<close>

theorem require_auth_exact:
  "(fst (require_auth request s) = Some session \<longleftrightarrow>
      (\<exists>tok. request_cookie request sessionCookieName = Some tok \<and> tok \<noteq> ''''
         \<and> sessions s (hash_token tok) = Some session
         \<and> clock (machine s) (ticks (machine s)) \<le> ExpiresAt session))
   \<and> response (snd (require_auth request s)) = response s @
       (if fst (require_auth request s) = None
        then [SetHeader ''Content-Type'' ''text/plain; charset=utf-8'', SetHeader ''WWW-Authenticate'' ''SiteBrush'',
              WriteHeader 401, Fprint ''Authentication required. Visit /?login.''] else [])
   \<and> files (machine (snd (require_auth request s))) = files (machine s)
   \<and> sessions (snd (require_auth request s)) \<subseteq>\<^sub>m sessions s"
proof -
  obtain r s' where g: "session_get request s = (r, s')" by (cases "session_get request s")
  note same = session_get_same [OF g]
  have "sessions s' \<subseteq>\<^sub>m sessions s" using same by (auto simp: map_le_def)
  moreover have "r = Some session \<longleftrightarrow> (\<exists>tok. request_cookie request sessionCookieName = Some tok \<and> tok \<noteq> ''''
         \<and> sessions s (hash_token tok) = Some session
         \<and> clock (machine s) (ticks (machine s)) \<le> ExpiresAt session)"
    using session_get_run [of request s] g
    by (auto simp: store_find_def find_session_def not_less split: option.splits if_splits)
  ultimately show ?thesis
    using same by (auto simp: require_auth_run g same_files_def split: option.split)
qed

text \<open>The token that the check against forged requests accepts.\<close>

lemma valid_csrf_iff:
  "valid_csrf request session \<longleftrightarrow>
     CSRFToken session \<noteq> ''''
     \<and> (Header_Get request ''X-CSRF-Token'' = CSRFToken session
        \<or> Header_Get request ''X-CSRF-Token'' = '''' \<and> \<not> Form_Error request
          \<and> Form_Value request ''csrf'' = CSRFToken session)"
  by (auto simp: valid_csrf_def Let_def)

section \<open>Witnesses\<close>

definition demo_request :: request where
  "demo_request =
     \<lparr>Method = ''POST'', URL_Path = ''/'', RawQuery = ''login'', Host = ''localhost'',
      Cookies = [(''sitebrush_session'', ''t'')], Header_Get = (\<lambda>_. ''''), Form_Error = False,
      Form_Value = (\<lambda>_. ''''), TLS = True, RemoteAddr = ''127.0.0.1:1''\<rparr>"

definition demo_server :: server where
  "demo_server = \<lparr>machine = demo_world, sessions = Map.empty, response = []\<rparr>"

theorem session_lifecycle_witness:
  "\<exists>session s' c. session_create_for_user demo_request ''admin'' '''' 0 ''env'' demo_server = (Inr session, s')
     \<and> response s' = [SetCookie c] \<and> Secure c \<and> sessions s' = [hash_token (Cookie_Value c) \<mapsto> session]"
proof -
  have "\<exists>session s'. session_create_for_user demo_request ''admin'' '''' 0 ''env'' demo_server = (Inr session, s')"
    by (simp add: session_create_for_user_def bind_srv_def lift_srv_def random_token_def bind_io_def rand_read_def
        demo_server_def demo_world_def ret_io_def time_now_def ret_srv_def respond_def Let_def)
  then obtain session s' where run:
    "session_create_for_user demo_request ''admin'' '''' 0 ''env'' demo_server = (Inr session, s')" by blast
  from session_lifecycle [OF run] obtain c where "response s' = response demo_server @ [SetCookie c]"
    "Secure c \<longleftrightarrow> TLS demo_request" "sessions s' = (sessions demo_server)(hash_token (Cookie_Value c) \<mapsto> session)"
    by blast
  with run show ?thesis by (auto simp: demo_server_def demo_request_def)
qed

theorem logged_out_stays_out_witness:
  "fst (store_find ''t'' 7 (foldl (\<lambda>m op. run_session_op store_add store_find store_delete op m)
     (sessions (snd (session_destroy demo_request demo_server))) [Find ''t'' 5, Delete ''u''])) = None"
proof -
  have "request_cookie demo_request sessionCookieName = Some ''t''"
    by (simp add: request_cookie_def demo_request_def sessionCookieName_def)
  from logged_out_stays_out [OF this, of "[Find ''t'' 5, Delete ''u'']" 7 demo_server]
  show ?thesis by simp
qed

end
