(* ===== verification/GoTime.thy ===== *)
theory GoTime
  imports GoStrings
begin

text \<open>
  Times of Go's package \<open>time\<close>: a \<open>Time\<close> is the number of nanoseconds since the Unix epoch. Dates of
  the Gregorian calendar, the format \<open>RFC3339Nano\<close> in which times are written to JSON, and the
  parser that reads them.
\<close>

section \<open>Times\<close>

type_synonym time = int

definition second :: int where
  "second = 1000000000"

text \<open>The zero \<open>Time\<close>, the start of year 1.\<close>

definition zero_time :: time where
  "zero_time = - 62135596800 * second"

definition unix :: "time \<Rightarrow> int" where
  "unix t = t div second"

definition unix_milli :: "time \<Rightarrow> int" where
  "unix_milli t = t div 1000000"

section \<open>Dates\<close>

definition is_leap :: "int \<Rightarrow> bool" where
  "is_leap y \<longleftrightarrow> y mod 4 = 0 \<and> (y mod 100 \<noteq> 0 \<or> y mod 400 = 0)"

text \<open>The days from the start of year 1 to the start of year \<open>y\<close>.\<close>

definition year_start :: "int \<Rightarrow> int" where
  "year_start y = 365 * (y - 1) + (y - 1) div 4 - (y - 1) div 100 + (y - 1) div 400"

lemma div_step:
  assumes "0 < k"
  shows "y div k = (y - 1) div k + (if y mod k = (0::int) then 1 else 0)"
proof -
  define q r where "q = (y - 1) div k" and "r = (y - 1) mod k"
  have y: "y = q * k + (r + 1)" using div_mult_mod_eq [of "y - 1" k] by (simp add: q_def r_def)
  have r: "0 \<le> r" "r < k" using assms by (simp_all add: r_def)
  show ?thesis
  proof (cases "r + 1 = k")
    case True
    then have "y = (q + 1) * k" using y by (simp add: algebra_simps)
    then have "y div k = q + 1" "y mod k = 0" using assms by simp_all
    then show ?thesis by (simp add: q_def)
  next
    case False
    then have "(r + 1) div k = 0" "(r + 1) mod k = r + 1" using r by simp_all
    then have "y div k = q" "y mod k = r + 1" using assms by (simp_all add: y)
    then show ?thesis using r by (simp add: q_def)
  qed
qed

lemma is_leap_cases:
  obtains "y mod 400 = 0" "y mod 100 = 0" "y mod 4 = 0" "is_leap y"
  | "y mod 400 \<noteq> 0" "y mod 100 = 0" "y mod 4 = 0" "\<not> is_leap y"
  | "y mod 400 \<noteq> 0" "y mod 100 \<noteq> 0" "y mod 4 = 0" "is_leap y"
  | "y mod 400 \<noteq> 0" "y mod 100 \<noteq> 0" "y mod 4 \<noteq> 0" "\<not> is_leap y"
proof -
  have "y mod 400 mod 100 = y mod 100" "y mod 100 mod 4 = y mod 4"
    by (rule mod_mod_cancel, simp)+
  then have 1: "y mod 400 = 0 \<Longrightarrow> y mod 100 = 0" and 2: "y mod 100 = 0 \<Longrightarrow> y mod 4 = 0"
    by simp_all
  show thesis
  proof (cases "y mod 400 = 0")
    case True
    with 1 2 show thesis by (intro that(1)) (simp_all add: is_leap_def)
  next
    case n400: False
    show thesis
    proof (cases "y mod 100 = 0")
      case True
      with n400 2 show thesis by (intro that(2)) (simp_all add: is_leap_def)
    next
      case False
      with n400 show thesis by (cases "y mod 4 = 0") (rule that(3) that(4), simp_all add: is_leap_def)+
    qed
  qed
qed

lemma year_length: "year_start (y + 1) = year_start y + 365 + (if is_leap y then 1 else 0)"
proof -
  have next_year: "year_start (y + 1) = 365 * y + y div 4 - y div 100 + y div 400"
    by (simp only: year_start_def add_diff_cancel_right')
  have d: "y div 4 = (y - 1) div 4 + (if y mod 4 = 0 then 1 else 0)"
    "y div 100 = (y - 1) div 100 + (if y mod 100 = 0 then 1 else 0)"
    "y div 400 = (y - 1) div 400 + (if y mod 400 = 0 then 1 else 0)"
    by (rule div_step, simp)+
  obtain p q r where pqr: "p = (y - 1) div 4" "q = (y - 1) div 100" "r = (y - 1) div 400" by blast
  show ?thesis
    unfolding next_year unfolding d year_start_def pqr [symmetric]
    by (rule is_leap_cases [of y]) (simp_all only: if_True if_False simp_thms, simp_all)
qed

text \<open>The year of a day: the mean length of a year gives it up to one.\<close>

definition year_of :: "int \<Rightarrow> int" where
  "year_of n =
     (let y = 400 * n div 146097 + 1 in
      if n < year_start y then y - 1 else if year_start (y + 1) \<le> n then y + 1 else y)"

lemma div_bounds: "0 < k \<Longrightarrow> k * (a div k) \<le> a" "0 < k \<Longrightarrow> (a::int) < k * (a div k) + k"
  using mult_div_mod_eq [of k a] pos_mod_bound [of k a] pos_mod_sign [of k a] by linarith+

lemma year_start_bounds:
  "146097 * y - 146897 \<le> 400 * year_start y" "400 * year_start y \<le> 146097 * y - 145697"
proof -
  obtain a p q r where e: "a = y - 1" "p = a div 4" "q = a div 100" "r = a div 400" by blast
  have b: "4 * p \<le> a" "a < 4 * p + 4" "100 * q \<le> a" "a < 100 * q + 100" "400 * r \<le> a" "a < 400 * r + 400"
    unfolding e(2-) by (rule div_bounds, simp)+
  have s: "400 * year_start y = 146000 * a + 400 * p - 400 * q + 400 * r"
    unfolding year_start_def e by simp
  have y: "y = a + 1" by (simp add: e)
  show "146097 * y - 146897 \<le> 400 * year_start y" "400 * year_start y \<le> 146097 * y - 145697"
    using b s y by linarith+
qed

lemma year_of_bounds: "year_start (year_of n) \<le> n \<and> n < year_start (year_of n + 1)"
proof -
  obtain q where q_def: "q = 400 * n div 146097" by blast
  have q: "146097 * q \<le> 400 * n" "400 * n < 146097 * q + 146097"
    unfolding q_def by (rule div_bounds, simp)+
  have prev: "year_start q \<le> n" using year_start_bounds(2) [of q] q by linarith
  have succ: "n < year_start (q + 3)" using year_start_bounds(1) [of "q + 3"] q unfolding distrib_left by linarith
  have y: "year_of n = (if n < year_start (q + 1) then q else if year_start (q + 2) \<le> n then q + 2 else q + 1)"
  proof -
    have e: "q + 1 - 1 = q" "q + 1 + 1 = q + 2" by simp_all
    show ?thesis unfolding year_of_def Let_def q_def [symmetric] e by (rule refl)
  qed
  consider "n < year_start (q + 1)" | "year_start (q + 2) \<le> n" "\<not> n < year_start (q + 1)"
    | "\<not> n < year_start (q + 1)" "n < year_start (q + 2)" by linarith
  then show ?thesis
  proof cases
    case 1
    then show ?thesis using prev by (simp add: y)
  next
    case 2
    then have "year_of n = q + 2" by (simp add: y)
    moreover have "q + 2 + 1 = q + 3" by simp
    ultimately show ?thesis using 2(1) succ by (simp only: simp_thms)
  next
    case 3
    then have "year_of n = q + 1" by (simp add: y)
    moreover have "q + 1 + 1 = q + 2" by simp
    ultimately show ?thesis using 3 by (simp only: not_less simp_thms)
  qed
qed

text \<open>The days of the year before each month, from 1.\<close>

definition month_start :: "bool \<Rightarrow> nat \<Rightarrow> int" where
  "month_start leap m =
     [0, 31, 59, 90, 120, 151, 181, 212, 243, 273, 304, 334, 365] ! (m - 1) + (if leap \<and> m > 2 then 1 else 0)"

fun month_from :: "bool \<Rightarrow> int \<Rightarrow> nat \<Rightarrow> nat \<Rightarrow> nat" where
  "month_from leap yd m 0 = m"
| "month_from leap yd m (Suc k) =
     (if yd < month_start leap (Suc m) then m else month_from leap yd (Suc m) k)"

definition month_of :: "bool \<Rightarrow> int \<Rightarrow> nat" where
  "month_of leap yd = month_from leap yd 1 12"

definition days_in :: "bool \<Rightarrow> nat \<Rightarrow> int" where
  "days_in leap m = month_start leap (Suc m) - month_start leap m"

lemma month_from_bounds:
  "month_start leap m \<le> yd \<Longrightarrow> yd < month_start leap (m + k) \<Longrightarrow>
    m \<le> month_from leap yd m k \<and> month_from leap yd m k < m + k
    \<and> month_start leap (month_from leap yd m k) \<le> yd \<and> yd < month_start leap (Suc (month_from leap yd m k))"
proof (induction k arbitrary: m)
  case (Suc k)
  show ?case
  proof (cases "yd < month_start leap (Suc m)")
    case True
    then show ?thesis using Suc.prems by simp
  next
    case False
    then show ?thesis using Suc.IH [of "Suc m"] Suc.prems by simp
  qed
qed simp

lemma month_of_bounds:
  assumes "0 \<le> yd" "yd < 365 + (if leap then 1 else 0)"
  shows "1 \<le> month_of leap yd \<and> month_of leap yd \<le> 12
    \<and> month_start leap (month_of leap yd) \<le> yd \<and> yd < month_start leap (Suc (month_of leap yd))"
  using month_from_bounds [of leap 1 yd 12] assms
  by (simp add: month_of_def month_start_def split: if_splits)

text \<open>The date of the day \<open>n\<close> days after the Unix epoch, and back.\<close>

definition unix_epoch_day :: int where
  "unix_epoch_day = 719162"

definition date_of :: "int \<Rightarrow> int \<times> nat \<times> int" where
  "date_of n =
     (let d = n + unix_epoch_day; y = year_of d; yd = d - year_start y; m = month_of (is_leap y) yd in
      (y, m, yd - month_start (is_leap y) m + 1))"

definition day_of_date :: "int \<Rightarrow> nat \<Rightarrow> int \<Rightarrow> int" where
  "day_of_date y m d = year_start y + month_start (is_leap y) m + (d - 1) - unix_epoch_day"

lemma day_of_date_of: "date_of n = (y, m, d) \<Longrightarrow> day_of_date y m d = n"
  by (auto simp: date_of_def day_of_date_def Let_def)

lemma date_of_bounds: "date_of n = (y, m, d) \<Longrightarrow> 1 \<le> m \<and> m \<le> 12 \<and> 1 \<le> d \<and> d \<le> days_in (is_leap y) m"
proof -
  assume date: "date_of n = (y, m, d)"
  then have y: "y = year_of (n + unix_epoch_day)" by (simp add: date_of_def Let_def)
  let ?yd = "n + unix_epoch_day - year_start y"
  have "0 \<le> ?yd" "?yd < 365 + (if is_leap y then 1 else 0)"
    using year_of_bounds [of "n + unix_epoch_day"] year_length [of y] by (simp_all add: y)
  from month_of_bounds [OF this] date show ?thesis
    by (auto simp: date_of_def Let_def y [symmetric] days_in_def)
qed

lemma days_in_le: "1 \<le> m \<Longrightarrow> m \<le> 12 \<Longrightarrow> days_in leap m \<le> 31"
proof -
  assume "1 \<le> m" "m \<le> 12"
  then have "m - 1 \<in> set [0..<12]" by simp
  then have "m \<in> Suc ` set [0..<12]" using \<open>1 \<le> m\<close> by force
  moreover have "\<forall>n\<in>set [0..<12]. days_in leap (Suc n) \<le> 31"
    by (cases leap) (simp_all add: days_in_def month_start_def upt_rec)
  ultimately show ?thesis by blast
qed

section \<open>Format\<close>

text \<open>Decimal digits at a fixed width.\<close>

fun dec_fixed :: "nat \<Rightarrow> nat \<Rightarrow> string" where
  "dec_fixed 0 n = []"
| "dec_fixed (Suc k) n = dec_fixed k (n div 10) @ [of_byte (48 + n mod 10)]"

lemma length_dec_fixed [simp]: "length (dec_fixed k n) = k"
  by (induction k arbitrary: n) simp_all

lemma dec_fixed_digits: "list_all is_digit_byte (dec_fixed k n)"
  by (induction k arbitrary: n) (simp_all add: is_digit_byte_def)

lemma dec_fixed_value: "n < 10 ^ k \<Longrightarrow> digits_value 0 (dec_fixed k n) = n"
proof (induction k arbitrary: n)
  case (Suc k)
  have "n div 10 < 10 ^ k" using Suc.prems by (simp add: less_mult_imp_div_less mult.commute)
  then show ?case using Suc.IH [of "n div 10"] by (simp add: digits_value_append)
qed simp

text \<open>The fraction of a second: nothing, or a point and the digits up to the last that is not 0.\<close>

definition frac_digits :: "nat \<Rightarrow> string" where
  "frac_digits ns = rev (dropWhile (\<lambda>c. c = CHR ''0'') (rev (dec_fixed 9 ns)))"

definition format_frac :: "nat \<Rightarrow> string" where
  "format_frac ns = (if frac_digits ns = [] then [] else CHR ''.'' # frac_digits ns)"

definition day_ns :: int where
  "day_ns = 86400 * second"

definition time_of_day :: "time \<Rightarrow> nat \<times> nat \<times> nat \<times> nat" where
  "time_of_day t =
     (let r = nat (t mod day_ns); s = r div 1000000000 in
      (s div 3600, s div 60 mod 60, s mod 60, r mod 1000000000))"

text \<open>\<open>t.Format(time.RFC3339Nano)\<close> of a time in UTC, for a year that has four digits.\<close>

definition format_rfc3339nano :: "time \<Rightarrow> string" where
  "format_rfc3339nano t =
     (case (date_of (t div day_ns), time_of_day t) of
        ((y, m, d), (h, mi, se, ns)) \<Rightarrow>
          dec_fixed 4 (nat y) @ CHR ''-'' # dec_fixed 2 m @ CHR ''-'' # dec_fixed 2 (nat d) @ CHR ''T'' #
          dec_fixed 2 h @ CHR '':'' # dec_fixed 2 mi @ CHR '':'' # dec_fixed 2 se @ format_frac ns @ ''Z'')"

definition time_year :: "time \<Rightarrow> int" where
  "time_year t = fst (date_of (t div day_ns))"

text \<open>\<open>MarshalJSON\<close> refuses a year outside 0 to 9999.\<close>

definition marshal_time :: "time \<Rightarrow> string option" where
  "marshal_time t = (if 0 \<le> time_year t \<and> time_year t \<le> 9999 then Some (format_rfc3339nano t) else None)"

section \<open>Parser\<close>

text \<open>
  \<open>time.Parse\<close> with the layout \<open>2006-01-02T15:04:05Z07:00\<close> (Go 1.19): the hour may have one digit,
  a fraction may follow the seconds with a point or a comma and counts nine digits.
\<close>

definition digit_of :: "char \<Rightarrow> nat" where
  "digit_of c = byte c - 48"

fun getnum :: "bool \<Rightarrow> string \<Rightarrow> (nat \<times> string) option" where
  "getnum fixed [] = None"
| "getnum fixed [a] = (if is_digit_byte a \<and> \<not> fixed then Some (digit_of a, []) else None)"
| "getnum fixed (a # b # s) =
     (if \<not> is_digit_byte a then None
      else if is_digit_byte b then Some (10 * digit_of a + digit_of b, s)
      else if fixed then None
      else Some (digit_of a, b # s))"

definition get_year :: "string \<Rightarrow> (nat \<times> string) option" where
  "get_year s =
     (if length s \<ge> 4 \<and> list_all is_digit_byte (take 4 s) then Some (digits_value 0 (take 4 s), drop 4 s)
      else None)"

fun get_literal :: "char \<Rightarrow> string \<Rightarrow> string option" where
  "get_literal c [] = None"
| "get_literal c (x # s) = (if x = c then Some s else None)"

definition get_frac :: "string \<Rightarrow> nat \<times> string" where
  "get_frac s =
     (case s of
        p # a # r \<Rightarrow>
          if (p = CHR ''.'' \<or> p = CHR '','') \<and> is_digit_byte a then
            (let ds = takeWhile is_digit_byte (a # r); u = take 9 ds in
             (digits_value 0 u * 10 ^ (9 - length u), drop (length ds) (a # r)))
          else (0, s)
      | _ \<Rightarrow> (0, s))"

text \<open>The offset from UTC in seconds.\<close>

fun get_zone :: "string \<Rightarrow> (int \<times> string) option" where
  "get_zone (z # s) =
     (if z = CHR ''Z'' then Some (0, s)
      else case s of
        h1 # h2 # c # m1 # m2 # r \<Rightarrow>
          if c \<noteq> CHR '':'' then None
          else (case (atoi [h1, h2], atoi [m1, m2]) of
                  (Some hr, Some mm) \<Rightarrow>
                    if z = CHR ''+'' then Some ((hr * 60 + mm) * 60, r)
                    else if z = CHR ''-'' then Some (- ((hr * 60 + mm) * 60), r)
                    else None
                | _ \<Rightarrow> None)
      | _ \<Rightarrow> None)"
| "get_zone [] = None"

definition parse_time :: "string \<Rightarrow> time option" where
  "parse_time s =
     Option.bind (get_year s) (\<lambda>(y, s).
     Option.bind (get_literal (CHR ''-'') s) (\<lambda>s.
     Option.bind (getnum True s) (\<lambda>(m, s).
     if m = 0 \<or> m > 12 then None else
     Option.bind (get_literal (CHR ''-'') s) (\<lambda>s.
     Option.bind (getnum True s) (\<lambda>(d, s).
     Option.bind (get_literal (CHR ''T'') s) (\<lambda>s.
     Option.bind (getnum False s) (\<lambda>(h, s).
     if h \<ge> 24 then None else
     Option.bind (get_literal (CHR '':'') s) (\<lambda>s.
     Option.bind (getnum True s) (\<lambda>(mi, s).
     if mi \<ge> 60 then None else
     Option.bind (get_literal (CHR '':'') s) (\<lambda>s.
     Option.bind (getnum True s) (\<lambda>(se, s).
     if se \<ge> 60 then None else
     (case get_frac s of (ns, s) \<Rightarrow>
     Option.bind (get_zone s) (\<lambda>(off, s).
     if s \<noteq> [] \<or> d < 1 \<or> int d > days_in (is_leap (int y)) m then None
     else Some ((day_of_date (int y) m (int d) * 86400 + int (h * 3600 + mi * 60 + se) - off) * second + int ns))))))))))))))"

section \<open>Round trip\<close>

lemma dec_fixed_2: "dec_fixed 2 n = [of_byte (48 + n div 10 mod 10), of_byte (48 + n mod 10)]"
  by (simp add: numeral_2_eq_2)

lemma getnum_dec_fixed: "n < 100 \<Longrightarrow> getnum b (dec_fixed 2 n @ s) = Some (n, s)"
proof -
  assume n: "n < 100"
  have "n div 10 mod 10 = n div 10" using n by simp
  moreover have "10 * (n div 10) + n mod 10 = n" by simp
  moreover have "n mod 10 < 10" "n div 10 < 10" using n by (simp_all add: less_mult_imp_div_less)
  ultimately show ?thesis
    using n by (simp add: dec_fixed_2 is_digit_byte_def digit_of_def)
qed

lemma get_year_dec_fixed: "n < 10000 \<Longrightarrow> get_year (dec_fixed 4 n @ s) = Some (n, s)"
  using dec_fixed_value [of n 4] dec_fixed_digits [of 4 n] by (simp add: get_year_def)

lemma digits_value_zeros: "digits_value a (replicate k (CHR ''0'')) = a * 10 ^ k"
proof (induction k arbitrary: a)
  case (Suc k)
  have "byte (CHR ''0'') = 48" by (simp add: byte_def)
  then show ?case using Suc by (simp add: algebra_simps)
qed simp

lemma frac_digits_split:
  "\<exists>k. dec_fixed 9 ns = frac_digits ns @ replicate k (CHR ''0'')"
proof -
  let ?z = "\<lambda>c. c = CHR ''0''"
  have "rev (dec_fixed 9 ns) = takeWhile ?z (rev (dec_fixed 9 ns)) @ dropWhile ?z (rev (dec_fixed 9 ns))"
    by simp
  then have "dec_fixed 9 ns = frac_digits ns @ rev (takeWhile ?z (rev (dec_fixed 9 ns)))"
    unfolding frac_digits_def by (metis rev_append rev_rev_ident)
  moreover have "takeWhile ?z xs = replicate (length (takeWhile ?z xs)) (CHR ''0'')" for xs
    by (induction xs) simp_all
  ultimately show ?thesis by (metis rev_replicate)
qed

lemma frac_digits_facts:
  assumes "ns < 10 ^ 9"
  shows "length (frac_digits ns) \<le> 9" "list_all is_digit_byte (frac_digits ns)"
    "digits_value 0 (frac_digits ns) * 10 ^ (9 - length (frac_digits ns)) = ns"
proof -
  obtain k where k: "dec_fixed 9 ns = frac_digits ns @ replicate k (CHR ''0'')"
    using frac_digits_split by blast
  have len: "length (frac_digits ns) + k = 9"
    using arg_cong [OF k, of length] by simp
  then show "length (frac_digits ns) \<le> 9" by simp
  show "list_all is_digit_byte (frac_digits ns)"
    using dec_fixed_digits [of 9 ns] unfolding k by simp
  have "9 - length (frac_digits ns) = k" using len by simp
  moreover have "digits_value (digits_value 0 (frac_digits ns)) (replicate k (CHR ''0'')) = ns"
    using dec_fixed_value [OF assms] unfolding k digits_value_append .
  ultimately show "digits_value 0 (frac_digits ns) * 10 ^ (9 - length (frac_digits ns)) = ns"
    by (simp add: digits_value_zeros)
qed

lemma not_digit_Z: "\<not> is_digit_byte (CHR ''Z'')"
  by (simp add: is_digit_byte_def byte_def)

lemma get_frac_format:
  assumes "ns < 10 ^ 9"
  shows "get_frac (format_frac ns @ ''Z'') = (ns, ''Z'')"
proof (cases "frac_digits ns")
  case Nil
  with frac_digits_facts(3) [OF assms] show ?thesis by (simp add: format_frac_def get_frac_def)
next
  case (Cons a r)
  note facts = frac_digits_facts [OF assms]
  have "takeWhile is_digit_byte (frac_digits ns @ ''Z'') = frac_digits ns"
    using facts(2) not_digit_Z by (simp add: takeWhile_append2 list_all_iff)
  then have tw: "takeWhile is_digit_byte (a # r @ ''Z'') = a # r" by (simp add: Cons)
  have a: "is_digit_byte a" using facts(2) by (simp add: Cons)
  have "get_frac (format_frac ns @ ''Z'') =
      (digits_value 0 (a # r) * 10 ^ (9 - length (a # r)), ''Z'')"
    using tw a facts(1) by (simp add: format_frac_def get_frac_def Cons Let_def)
  then show ?thesis using facts(3) by (simp add: Cons)
qed

lemma time_of_day_bounds:
  assumes "time_of_day t = (h, mi, se, ns)"
  shows "h < 24" "mi < 60" "se < 60" "ns < 10 ^ 9"
    "int (h * 3600 + mi * 60 + se) * second + int ns = t mod day_ns"
proof -
  define r where "r = nat (t mod day_ns)"
  have r: "int r = t mod day_ns" by (simp add: r_def day_ns_def second_def)
  have lt: "r < 86400000000000"
    using pos_mod_bound [of day_ns t] by (simp add: r_def day_ns_def second_def)
  define s where "s = r div 1000000000"
  have eqs: "h = s div 3600" "mi = s div 60 mod 60" "se = s mod 60" "ns = r mod 1000000000"
    using assms by (simp_all add: time_of_day_def Let_def r_def s_def)
  have s: "s < 86400" using lt by (simp add: s_def less_mult_imp_div_less)
  show "h < 24" using s by (simp add: eqs less_mult_imp_div_less)
  show "mi < 60" "se < 60" "ns < 10 ^ 9" by (simp_all add: eqs)
  have "s div 60 = 60 * (s div 3600) + s div 60 mod 60"
    using mult_div_mod_eq [of 60 "s div 60"] by (simp add: div_mult2_eq [symmetric])
  moreover have "s = 60 * (s div 60) + s mod 60" by simp
  ultimately have "h * 3600 + mi * 60 + se = s" unfolding eqs by linarith
  moreover have "s * 1000000000 + ns = r" by (simp add: s_def eqs)
  ultimately have "(h * 3600 + mi * 60 + se) * 1000000000 + ns = r" by simp
  then have "int ((h * 3600 + mi * 60 + se) * 1000000000 + ns) = t mod day_ns" by (simp only: r)
  then show "int (h * 3600 + mi * 60 + se) * second + int ns = t mod day_ns"
    by (simp add: second_def)
qed

text \<open>Reading back what has been written.\<close>

lemma parse_marshal_time:
  assumes "marshal_time t = Some s"
  shows "parse_time s = Some t"
proof -
  obtain y m d where date: "date_of (t div day_ns) = (y, m, d)" by (cases "date_of (t div day_ns)")
  obtain h mi se ns where tod: "time_of_day t = (h, mi, se, ns)" by (cases "time_of_day t")
  have y: "0 \<le> y" "y \<le> 9999" and s: "s = format_rfc3339nano t"
    using assms by (auto simp: marshal_time_def time_year_def date split: if_splits)
  note day = date_of_bounds [OF date]
  have d31: "d \<le> 31" using day days_in_le [of m "is_leap y"] by simp
  note clock = time_of_day_bounds [OF tod]
  have inverse: "(day_of_date y m d * 86400 + (int h * 3600 + int mi * 60 + int se)) * second + int ns = t"
    using day_of_date_of [OF date] clock(5) mult_div_mod_eq [of day_ns t]
    by (simp add: day_ns_def algebra_simps)
  have bounds: "nat y < 10000" "m < 100" "nat d < 100" "h < 100" "mi < 100" "se < 100"
    using y day d31 clock by simp_all
  show ?thesis
    unfolding s format_rfc3339nano_def date tod prod.case parse_time_def
    using bounds y day clock inverse
    by (simp add: get_year_dec_fixed getnum_dec_fixed get_frac_format)
qed

end
