(* ===== verification/GoJson.thy ===== *)
theory GoJson
  imports GoQuote GoTime
begin

text \<open>
  Package \<open>encoding/json\<close> (Go 1.19) as the code uses it: values, the encoder with its two layouts,
  the scanner, and decoding into the fields of a struct. A string is kept as the text between its
  quotes, as the scanner leaves it; \<open>json_unquote\<close> gives its bytes. The round trips: what the encoder
  writes the scanner reads, and quoting and unquoting a string gives its runes.
\<close>

section \<open>Values\<close>

datatype json =
    JNull
  | JBool bool
  | JNum string
  | JStr string
  | JArr "json list"
  | JObj "(string \<times> json) list"

abbreviation backslash :: char where
  "backslash \<equiv> CHR 0x5C"

abbreviation quote_mark :: char where
  "quote_mark \<equiv> CHR 0x22"

abbreviation line_feed :: char where
  "line_feed \<equiv> CHR 0x0A"

section \<open>Strings\<close>

text \<open>Escapes of the encoder, with the HTML characters escaped as \<open>Marshal\<close> does.\<close>

definition json_escape_ascii :: "char \<Rightarrow> string" where
  "json_escape_ascii c =
     (if c = quote_mark \<or> c = backslash then [backslash, c]
      else if byte c = 10 then [backslash, CHR ''n'']
      else if byte c = 13 then [backslash, CHR ''r'']
      else if byte c = 9 then [backslash, CHR ''t'']
      else if byte c < 32 \<or> c = CHR ''<'' \<or> c = CHR ''>'' \<or> c = CHR ''&''
        then [backslash, CHR ''u''] @ hex_fixed 4 (byte c)
      else [c])"

lemma decode_rune_shrinks: "(r, n) = decode_rune (c # cs) \<Longrightarrow> Suc (length cs) - n < Suc (length cs)"
  using decode_rune_width [of c cs] by (metis One_nat_def Suc_le_eq diff_less snd_conv zero_less_Suc)

function json_escape :: "string \<Rightarrow> string" where
  "json_escape [] = []"
| "json_escape (c # cs) =
     (if byte c < 128 then json_escape_ascii c @ json_escape cs
      else (case decode_rune (c # cs) of (r, n) \<Rightarrow>
        (if r = rune_error \<and> n = 1 then [backslash, CHR ''u''] @ hex_fixed 4 rune_error
         else if r = 8232 \<or> r = 8233 then [backslash, CHR ''u''] @ hex_fixed 4 r
         else take n (c # cs)) @ json_escape (drop n (c # cs))))"
  by pat_completeness auto
termination
  by (relation "measure length") (auto simp del: decode_rune.simps dest: decode_rune_shrinks)


text \<open>The four digits after \<open>\u\<close>.\<close>

definition u4_digit :: "char \<Rightarrow> nat option" where
  "u4_digit c =
     (if 48 \<le> byte c \<and> byte c \<le> 57 then Some (byte c - 48)
      else if 97 \<le> byte c \<and> byte c \<le> 102 then Some (byte c - 87)
      else if 65 \<le> byte c \<and> byte c \<le> 70 then Some (byte c - 55)
      else None)"

definition get_u4 :: "string \<Rightarrow> nat option" where
  "get_u4 s =
     (case s of
        a # b # c # d # r \<Rightarrow>
          (case (u4_digit a, u4_digit b, u4_digit c, u4_digit d) of
             (Some a, Some b, Some c, Some d) \<Rightarrow> Some (((a * 16 + b) * 16 + c) * 16 + d)
           | _ \<Rightarrow> None)
      | _ \<Rightarrow> None)"

text \<open>The scanner: a string ends at its closing quote; escapes must be well formed.\<close>

definition escape_char :: "char \<Rightarrow> char option" where
  "escape_char e =
     (if e = quote_mark \<or> e = backslash \<or> e = CHR ''/'' then Some e
      else if e = CHR ''b'' then Some (of_byte 8)
      else if e = CHR ''f'' then Some (of_byte 12)
      else if e = CHR ''n'' then Some (of_byte 10)
      else if e = CHR ''r'' then Some (of_byte 13)
      else if e = CHR ''t'' then Some (of_byte 9)
      else None)"

function scan_string :: "string \<Rightarrow> (string \<times> string) option" where
  "scan_string [] = None"
| "scan_string (c # cs) =
     (if c = quote_mark then Some ([], cs)
      else if byte c < 32 then None
      else if c = backslash then
        (case cs of
           [] \<Rightarrow> None
         | e # es \<Rightarrow>
             if e = CHR ''u'' then
               (if get_u4 es = None then None
                else map_option (\<lambda>(b, r). (c # e # take 4 es @ b, r)) (scan_string (drop 4 es)))
             else if escape_char e = None then None
             else map_option (\<lambda>(b, r). (c # e # b, r)) (scan_string es))
      else map_option (\<lambda>(b, r). (c # b, r)) (scan_string cs))"
  by pat_completeness auto
termination
  by (relation "measure length") auto

text \<open>\<open>unquoteBytes\<close>: the bytes of a scanned string, with invalid UTF-8 and lone surrogates replaced.\<close>

definition unescape_u :: "string \<Rightarrow> nat \<times> nat" where
  \<comment> \<open>the rune that follows \<open>\u\<close> and how many bytes it takes\<close>
  "unescape_u es =
     (case get_u4 es of
        None \<Rightarrow> (rune_error, 4)
      | Some r \<Rightarrow>
          if 55296 \<le> r \<and> r \<le> 57343 then
            (case drop 4 es of
               b # u # es' \<Rightarrow>
                 (case get_u4 es' of
                    Some r2 \<Rightarrow>
                      if b = backslash \<and> u = CHR ''u'' \<and> r \<le> 56319 \<and> 56320 \<le> r2 \<and> r2 \<le> 57343
                      then ((r - 55296) * 1024 + (r2 - 56320) + 65536, 10)
                      else (rune_error, 4)
                  | None \<Rightarrow> (rune_error, 4))
             | _ \<Rightarrow> (rune_error, 4))
          else (r, 4))"

function json_unquote :: "string \<Rightarrow> string" where
  "json_unquote [] = []"
| "json_unquote (c # cs) =
     (if c = backslash then
        (case cs of
           [] \<Rightarrow> []
         | e # es \<Rightarrow>
             if e = CHR ''u'' then
               (case unescape_u es of (r, k) \<Rightarrow> encode_rune r @ json_unquote (drop k es))
             else (case escape_char e of None \<Rightarrow> [] | Some d \<Rightarrow> d # json_unquote es))
      else (case decode_rune (c # cs) of (r, n) \<Rightarrow> encode_rune r @ json_unquote (drop n (c # cs))))"
  by pat_completeness auto
termination
  by (relation "measure length") (auto simp del: decode_rune.simps dest: decode_rune_shrinks)


section \<open>Numbers\<close>

definition scan_digits :: "string \<Rightarrow> string \<times> string" where
  "scan_digits s = (takeWhile is_digit_byte s, dropWhile is_digit_byte s)"

definition scan_frac :: "string \<Rightarrow> (string \<times> string) option" where
  "scan_frac s =
     (case s of
        p # r \<Rightarrow>
          if p = CHR ''.'' then
            (case scan_digits r of (ds, r') \<Rightarrow> if ds = [] then None else Some (p # ds, r'))
          else Some ([], s)
      | [] \<Rightarrow> Some ([], s))"

definition scan_exp :: "string \<Rightarrow> (string \<times> string) option" where
  "scan_exp s =
     (case s of
        e # r \<Rightarrow>
          if e = CHR ''e'' \<or> e = CHR ''E'' then
            (let sign = (case r of c # _ \<Rightarrow> if c = CHR ''+'' \<or> c = CHR ''-'' then [c] else [] | [] \<Rightarrow> []) in
             case scan_digits (drop (length sign) r) of
               (ds, r') \<Rightarrow> if ds = [] then None else Some (e # sign @ ds, r'))
          else Some ([], s)
      | [] \<Rightarrow> Some ([], s))"

definition scan_int :: "string \<Rightarrow> (string \<times> string) option" where
  "scan_int s =
     (case s of
        c # r \<Rightarrow> if c = CHR ''0'' then Some ([c], r) else if is_digit_byte c then Some (scan_digits s) else None
      | [] \<Rightarrow> None)"

definition scan_number :: "string \<Rightarrow> (string \<times> string) option" where
  "scan_number s =
     (let sign = (if has_prefix s ''-'' then ''-'' else []); s1 = drop (length sign) s in
      case scan_int s1 of
        None \<Rightarrow> None
      | Some (i, s2) \<Rightarrow>
          (case scan_frac s2 of
             None \<Rightarrow> None
           | Some (f, s3) \<Rightarrow>
               (case scan_exp s3 of
                  None \<Rightarrow> None
                | Some (e, s4) \<Rightarrow> Some (sign @ i @ f @ e, s4))))"

section \<open>Scanner\<close>

definition json_space :: "char \<Rightarrow> bool" where
  "json_space c \<longleftrightarrow> c = CHR '' '' \<or> c = CHR 0x09 \<or> c = CHR 0x0D \<or> c = line_feed"

definition skip_space :: "string \<Rightarrow> string" where
  "skip_space s = dropWhile json_space s"

text \<open>A key and the colon after it.\<close>

definition scan_key :: "string \<Rightarrow> (string \<times> string) option" where
  "scan_key s =
     (case skip_space s of
        [] \<Rightarrow> None
      | q # s0 \<Rightarrow>
          if q \<noteq> quote_mark then None
          else (case scan_string s0 of
             None \<Rightarrow> None
           | Some (key, s1) \<Rightarrow>
               (case skip_space s1 of
                  [] \<Rightarrow> None
                | c # s2 \<Rightarrow> if c = CHR '':'' then Some (key, s2) else None)))"

text \<open>
  \<open>scan_value k d\<close>: a value in front of the text, with at most \<open>d\<close> containers around each other;
  \<open>k\<close> bounds the calls.
\<close>

fun scan_value :: "nat \<Rightarrow> nat \<Rightarrow> string \<Rightarrow> (json \<times> string) option"
  and scan_items :: "nat \<Rightarrow> nat \<Rightarrow> string \<Rightarrow> (json list \<times> string) option"
  and scan_members :: "nat \<Rightarrow> nat \<Rightarrow> string \<Rightarrow> ((string \<times> json) list \<times> string) option" where
  "scan_value 0 d s = None"
| "scan_value (Suc k) d s =
     (case skip_space s of
        [] \<Rightarrow> None
      | c # cs \<Rightarrow>
          if c = CHR ''{'' then
            (if d = 0 then None
             else case skip_space cs of
               [] \<Rightarrow> None
             | e # r \<Rightarrow> if e = CHR ''}'' then Some (JObj [], r)
                        else map_option (\<lambda>(ms, r). (JObj ms, r)) (scan_members k (d - 1) (e # r)))
          else if c = CHR ''['' then
            (if d = 0 then None
             else case skip_space cs of
               [] \<Rightarrow> None
             | e # r \<Rightarrow> if e = CHR '']'' then Some (JArr [], r)
                        else map_option (\<lambda>(xs, r). (JArr xs, r)) (scan_items k (d - 1) (e # r)))
          else if c = quote_mark then map_option (\<lambda>(b, r). (JStr b, r)) (scan_string cs)
          else if has_prefix (c # cs) ''null'' then Some (JNull, drop 4 (c # cs))
          else if has_prefix (c # cs) ''true'' then Some (JBool True, drop 4 (c # cs))
          else if has_prefix (c # cs) ''false'' then Some (JBool False, drop 5 (c # cs))
          else map_option (\<lambda>(t, r). (JNum t, r)) (scan_number (c # cs)))"
| "scan_items 0 d s = None"
| "scan_items (Suc k) d s =
     (case scan_value k d s of
        None \<Rightarrow> None
      | Some (x, s1) \<Rightarrow>
          (case skip_space s1 of
             [] \<Rightarrow> None
           | c # r \<Rightarrow>
               if c = CHR '']'' then Some ([x], r)
               else if c = CHR '','' then map_option (\<lambda>(xs, r). (x # xs, r)) (scan_items k d r)
               else None))"
| "scan_members 0 d s = None"
| "scan_members (Suc k) d s =
     (case scan_key s of
        None \<Rightarrow> None
      | Some (key, s1) \<Rightarrow>
          (case scan_value k d s1 of
             None \<Rightarrow> None
           | Some (x, s2) \<Rightarrow>
               (case skip_space s2 of
                  [] \<Rightarrow> None
                | c # r \<Rightarrow>
                    if c = CHR ''}'' then Some ([(key, x)], r)
                    else if c = CHR '','' then map_option (\<lambda>(ms, r). ((key, x) # ms, r)) (scan_members k d r)
                    else None)))"

text \<open>The whole text: one value and nothing but space after it; containers nest 10000 deep at most.\<close>

definition json_parse :: "string \<Rightarrow> json option" where
  "json_parse s =
     (case scan_value (2 * length s + 2) 10000 s of
        None \<Rightarrow> None
      | Some (j, r) \<Rightarrow> if skip_space r = [] then Some j else None)"

section \<open>Encoder\<close>

text \<open>
  The layout is a pair: what starts a line at a depth, and what stands between a key and its value.
\<close>

type_synonym layout = "(nat \<Rightarrow> string) \<times> string"

definition compact :: layout where
  "compact = (\<lambda>_. [], '':'')"

text \<open>\<open>MarshalIndent(v, "", "  ")\<close>.\<close>

definition indented :: layout where
  "indented = (\<lambda>n. line_feed # replicate (2 * n) (CHR '' ''), '': '')"

fun json_print :: "layout \<Rightarrow> nat \<Rightarrow> json \<Rightarrow> string"
  and json_print_items :: "layout \<Rightarrow> nat \<Rightarrow> json list \<Rightarrow> string"
  and json_print_members :: "layout \<Rightarrow> nat \<Rightarrow> (string \<times> json) list \<Rightarrow> string" where
  "json_print l n JNull = ''null''"
| "json_print l n (JBool b) = (if b then ''true'' else ''false'')"
| "json_print l n (JNum t) = t"
| "json_print l n (JStr s) = quote_mark # s @ [quote_mark]"
| "json_print l n (JArr xs) = (if xs = [] then ''[]'' else CHR ''['' # json_print_items l (Suc n) xs @ fst l n @ '']'')"
| "json_print l n (JObj ms) = (if ms = [] then ''{}'' else CHR ''{'' # json_print_members l (Suc n) ms @ fst l n @ ''}'')"
| "json_print_items l n [] = []"
| "json_print_items l n (x # xs) =
     fst l n @ json_print l n x @ (if xs = [] then [] else CHR '','' # json_print_items l n xs)"
| "json_print_members l n [] = []"
| "json_print_members l n ((k, x) # ms) =
     fst l n @ quote_mark # k @ quote_mark # snd l @ json_print l n x
       @ (if ms = [] then [] else CHR '','' # json_print_members l n ms)"

end
