(* ===== verification/JsonTrip.thy ===== *)
theory JsonTrip
  imports GoJson
begin

text \<open>
  Facts on \<open>encoding/json\<close>: quoting a string and unquoting it gives its runes back, the scanner reads
  every document that the encoder writes, in either layout, and its bound on the number of calls is
  never what stops it.
\<close>

section \<open>Strings\<close>

text \<open>A decoded rune of several bytes is determined by its bytes; the only failure has width 1.\<close>

definition decodes_within :: "nat \<Rightarrow> nat list \<Rightarrow> bool" where
  "decodes_within b bs \<longleftrightarrow> decode_multi b bs = (rune_error, 1) \<or>
     (snd (decode_multi b bs) - 1 \<le> length bs \<and> snd (decode_multi b bs) \<noteq> 1
      \<and> (\<forall>t. decode_multi b (take (snd (decode_multi b bs) - 1) bs @ t) = decode_multi b bs))"

lemma decode_multi_within: "decodes_within b bs"
proof -
  consider "194 \<le> b \<and> b \<le> 223" | "\<not> (194 \<le> b \<and> b \<le> 223)" "224 \<le> b \<and> b \<le> 239"
    | "\<not> (194 \<le> b \<and> b \<le> 223)" "\<not> (224 \<le> b \<and> b \<le> 239)" by blast
  then show ?thesis
  proof cases
    case 1
    then show ?thesis
      unfolding decodes_within_def decode_multi_def if_P [OF 1] by (cases bs) simp_all
  next
    case 2
    show ?thesis
      unfolding decodes_within_def decode_multi_def if_not_P [OF 2(1)] if_P [OF 2(2)]
      by (cases bs; cases "tl bs") simp_all
  next
    case 3
    show ?thesis
      unfolding decodes_within_def decode_multi_def if_not_P [OF 3(1)] if_not_P [OF 3(2)]
      by (cases bs; cases "tl bs"; cases "tl (tl bs)") simp_all
  qed
qed

lemma decode_rune_take:
  assumes "128 \<le> byte c" "decode_rune (c # cs) = (r, n)" "\<not> (r = rune_error \<and> n = 1)"
  shows "decode_rune (take n (c # cs) @ t) = (r, n) \<and> 1 \<le> n \<and> n \<le> length (c # cs)"
proof -
  have m: "decode_multi (byte c) (map byte cs) = (r, n)" using assms(1,2) by simp
  have n: "1 \<le> n" using decode_rune_width [of c cs] assms(2) by simp
  then have "take n (c # cs) = c # take (n - 1) cs" by (cases n) simp_all
  moreover have "n - 1 \<le> length cs" "decode_multi (byte c) (take (n - 1) (map byte cs) @ map byte t) = (r, n)"
    using decode_multi_within [of "byte c" "map byte cs"] assms(3) by (auto simp: decodes_within_def m)
  ultimately show ?thesis
    using assms(1) n by (auto simp: take_map)
qed

lemma u4_digit_digit: "n < 16 \<Longrightarrow> u4_digit (hex_digit n) = Some n"
  by (simp add: u4_digit_def hex_digit_def)

lemma hex_fixed_4:
  "hex_fixed 4 n =
     [hex_digit (n div 16 div 16 div 16 mod 16), hex_digit (n div 16 div 16 mod 16), hex_digit (n div 16 mod 16),
      hex_digit (n mod 16)]"
proof -
  have 4: "4 = Suc (Suc (Suc (Suc 0)))" by simp
  show ?thesis unfolding 4 by (simp only: hex_fixed.simps append_Nil append_Cons)
qed

lemma get_u4_hex: "n < 65536 \<Longrightarrow> get_u4 (hex_fixed 4 n @ s) = Some n"
proof -
  assume n: "n < 65536"
  have "n div 16 div 16 div 16 < 16" using n by (simp add: less_mult_imp_div_less)
  then have "n div 16 div 16 div 16 mod 16 * 16 + n div 16 div 16 mod 16 = n div 16 div 16" by simp
  moreover have "n div 16 div 16 * 16 + n div 16 mod 16 = n div 16" by (rule div_mult_mod_eq)
  moreover have "n div 16 * 16 + n mod 16 = n" by (rule div_mult_mod_eq)
  ultimately have "((n div 16 div 16 div 16 mod 16 * 16 + n div 16 div 16 mod 16) * 16 + n div 16 mod 16) * 16 + n mod 16 = n"
    by (simp only:)
  moreover have "u4_digit (hex_digit (m mod 16)) = Some (m mod 16)" for m
    by (rule u4_digit_digit) simp
  ultimately show ?thesis
    unfolding hex_fixed_4 get_u4_def by (simp only: append_Cons append_Nil list.case prod.case option.case)
qed

lemma unescape_hex: "n < 65536 \<Longrightarrow> \<not> (55296 \<le> n \<and> n \<le> 57343) \<Longrightarrow> unescape_u (hex_fixed 4 n @ s) = (n, 4)"
  by (auto simp: unescape_u_def get_u4_hex)

lemma unquote_u:
  "n < 65536 \<Longrightarrow> \<not> (55296 \<le> n \<and> n \<le> 57343) \<Longrightarrow>
    json_unquote (backslash # CHR ''u'' # hex_fixed 4 n @ s) = encode_rune n @ json_unquote s"
  by (simp add: unescape_hex)

lemma decode_ascii [simp]: "byte c < 128 \<Longrightarrow> decode_rune (c # cs) = (byte c, 1)"
  by simp

lemma byte_eq: "byte c = n \<Longrightarrow> n < 256 \<Longrightarrow> c = of_byte n"
  by (metis of_byte_byte)

lemma unquote_escape_ascii:
  assumes "byte c < 128"
  shows "json_unquote (json_escape_ascii c @ s) = c # json_unquote s"
proof -
  have enc: "encode_rune (byte c) = [c]" by (rule encode_rune_ascii [OF assms])
  consider "c = quote_mark \<or> c = backslash" | "byte c = 10" | "byte c = 13" | "byte c = 9"
    | "\<not> (c = quote_mark \<or> c = backslash)" "byte c \<noteq> 10" "byte c \<noteq> 13" "byte c \<noteq> 9" by blast
  then show ?thesis
  proof cases
    case 5
    show ?thesis
    proof (cases "byte c < 32 \<or> c = CHR ''<'' \<or> c = CHR ''>'' \<or> c = CHR ''&''")
      case True
      then show ?thesis
        using 5 assms enc unquote_u [of "byte c" s] by (simp add: json_escape_ascii_def)
    next
      case False
      with 5 assms enc show ?thesis by (simp add: json_escape_ascii_def)
    qed
  next
    case 1
    then show ?thesis by (auto simp: json_escape_ascii_def escape_char_def)
  qed (drule byte_eq, simp, simp add: json_escape_ascii_def escape_char_def)+
qed

text \<open>The bytes that a string has after being written and read: its runes.\<close>

definition utf8_valid_form :: "string \<Rightarrow> string" where
  "utf8_valid_form s = concat (map encode_rune (runes s))"

definition utf8_valid :: "string \<Rightarrow> bool" where
  "utf8_valid s \<longleftrightarrow> utf8_valid_form s = s"

lemma runes_Cons: "runes (c # cs) = fst (decode_rune (c # cs)) # runes (drop (snd (decode_rune (c # cs))) (c # cs))"
  by (simp add: runes_def)

lemma utf8_valid_ascii [simp]: "is_ascii s \<Longrightarrow> utf8_valid s"
  by (induction s) (simp_all add: utf8_valid_def utf8_valid_form_def encode_rune_ascii)

lemma unquote_escape: "json_unquote (json_escape s) = utf8_valid_form s"
proof (induction s rule: json_escape.induct)
  case 1
  show ?case by (simp add: utf8_valid_form_def)
next
  case (2 c cs)
  show ?case
  proof (cases "byte c < 128")
    case True
    with 2 show ?thesis
      by (simp add: unquote_escape_ascii utf8_valid_form_def encode_rune_ascii)
  next
    case False
    obtain r n where d: "decode_rune (c # cs) = (r, n)" by (cases "decode_rune (c # cs)")
    have ih: "json_unquote (json_escape (drop n (c # cs))) = utf8_valid_form (drop n (c # cs))"
      using "2.IH"(2) [OF False d [symmetric]] by simp
    have form: "utf8_valid_form (c # cs) = encode_rune r @ utf8_valid_form (drop n (c # cs))"
      unfolding utf8_valid_form_def runes_Cons [of c cs] d by simp
    note unfold = json_escape.simps(2) [of c cs] d prod.case if_not_P [OF False]
    show ?thesis
    proof (cases "r = rune_error \<and> n = 1 \<or> r = 8232 \<or> r = 8233")
      case True
      then show ?thesis
        unfolding unfold form ih [symmetric]
        using unquote_u [of r "json_escape (drop n (c # cs))"] by (auto simp: rune_error_def simp del: json_unquote.simps)
    next
      case plain: False
      have not: "128 \<le> byte c" using False by simp
      have ne: "\<not> (r = rune_error \<and> n = 1)" "\<not> (r = 8232 \<or> r = 8233)" using plain by blast+
      note t = decode_rune_take [OF not d ne(1), of "json_escape (drop n (c # cs))"]
      have n: "take n (c # cs) = c # take (n - 1) cs" using t by (cases n) simp_all
      have "c \<noteq> backslash" using False by (auto simp: byte_def)
      with t have "json_unquote (take n (c # cs) @ json_escape (drop n (c # cs)))
          = encode_rune r @ json_unquote (drop n (take n (c # cs) @ json_escape (drop n (c # cs))))"
        unfolding n append_Cons by (subst json_unquote.simps) simp
      moreover have "drop n (take n (c # cs) @ json_escape (drop n (c # cs))) = json_escape (drop n (c # cs))"
        using t by simp
      ultimately show ?thesis
        unfolding unfold form ih [symmetric] if_not_P [OF ne(1)] if_not_P [OF ne(2)] by (simp only:)
    qed
  qed
qed

section \<open>The scanner reads what the encoder writes\<close>

text \<open>Text that may stand between quotes.\<close>

definition json_body :: "string \<Rightarrow> bool" where
  "json_body b \<longleftrightarrow> (\<forall>s. scan_string (b @ quote_mark # s) = Some (b, s))"

lemma json_bodyD: "json_body b \<Longrightarrow> scan_string (b @ quote_mark # s) = Some (b, s)"
  by (simp add: json_body_def)

lemma json_body_Nil [simp]: "json_body []"
  by (simp add: json_body_def)

lemma json_body_plain: "c \<noteq> quote_mark \<Longrightarrow> c \<noteq> backslash \<Longrightarrow> 32 \<le> byte c \<Longrightarrow> json_body b \<Longrightarrow> json_body (c # b)"
  by (simp add: json_body_def)

lemma json_body_escape: "escape_char e \<noteq> None \<Longrightarrow> e \<noteq> CHR ''u'' \<Longrightarrow> json_body b \<Longrightarrow> json_body (backslash # e # b)"
  by (auto simp: json_body_def byte_def)

lemma json_body_u: "n < 65536 \<Longrightarrow> json_body b \<Longrightarrow> json_body (backslash # CHR ''u'' # hex_fixed 4 n @ b)"
  by (simp add: json_body_def get_u4_hex byte_def)

lemma json_body_high: "list_all (\<lambda>c. 128 \<le> byte c) a \<Longrightarrow> json_body b \<Longrightarrow> json_body (a @ b)"
proof (induction a)
  case (Cons c a)
  then have "c \<noteq> quote_mark" "c \<noteq> backslash" by (auto simp: byte_def)
  with Cons show ?case by (simp add: json_body_plain)
qed simp

lemma decode_rune_high:
  assumes "128 \<le> byte c" "decode_rune (c # cs) = (r, n)"
  shows "list_all (\<lambda>x. 128 \<le> byte x) (take n (c # cs))"
proof -
  have w: "n = snd (decode_multi (byte c) (map byte cs))" using assms by simp
  have "128 \<le> byte x" if "x \<in> set (take (n - 1) cs)" for x
    using that decode_multi_cont unfolding w by blast
  then show ?thesis
    using assms(1) by (cases n) (auto simp: list_all_iff)
qed

lemma json_body_ascii:
  assumes "byte c < 128" "json_body b"
  shows "json_body (json_escape_ascii c @ b)"
proof -
  consider "c = quote_mark \<or> c = backslash" | "byte c = 10" | "byte c = 13" | "byte c = 9"
    | "\<not> (c = quote_mark \<or> c = backslash)" "byte c \<noteq> 10" "byte c \<noteq> 13" "byte c \<noteq> 9" by blast
  then show ?thesis
  proof cases
    case 1
    then show ?thesis
      using assms(2) json_body_escape [of c b] by (auto simp: json_escape_ascii_def escape_char_def)
  next
    case 5
    then show ?thesis
      using assms json_body_u [of "byte c" b] json_body_plain [of c b]
      by (simp add: json_escape_ascii_def)
  qed (drule byte_eq, simp, insert assms(2), simp add: json_escape_ascii_def escape_char_def json_body_escape)+
qed

lemma json_body_escaped [simp]: "json_body (json_escape s)"
proof (induction s rule: json_escape.induct)
  case (2 c cs)
  show ?case
  proof (cases "byte c < 128")
    case True
    with 2 show ?thesis by (simp add: json_body_ascii)
  next
    case False
    obtain r n where d: "decode_rune (c # cs) = (r, n)" by (cases "decode_rune (c # cs)")
    note ih = "2.IH"(2) [OF False d [symmetric]]
    have "128 \<le> byte c" using False by simp
    note high = decode_rune_high [OF this d]
    show ?thesis
      unfolding json_escape.simps(2) [of c cs] d prod.case if_not_P [OF False]
      using json_body_u [OF _ ih, of rune_error] json_body_u [OF _ ih, of r] json_body_high [OF high ih]
      by (auto simp: rune_error_def)
  qed
qed simp

text \<open>What may follow a number.\<close>

definition number_end :: "string \<Rightarrow> bool" where
  "number_end s \<longleftrightarrow> (case s of [] \<Rightarrow> True | c # _ \<Rightarrow> \<not> is_digit_byte c \<and> c \<notin> {CHR ''.'', CHR ''e'', CHR ''E''})"

lemma number_end_Nil [simp]: "number_end []"
  by (simp add: number_end_def)

lemma scan_digits_append:
  "list_all is_digit_byte ds \<Longrightarrow> number_end s \<Longrightarrow> scan_digits (ds @ s) = (ds, s)"
  by (cases s) (simp_all add: scan_digits_def number_end_def list_all_iff takeWhile_append2 dropWhile_append2)

lemma scan_rest_end: "number_end s \<Longrightarrow> scan_frac s = Some ([], s) \<and> scan_exp s = Some ([], s)"
  by (cases s) (auto simp: scan_frac_def scan_exp_def number_end_def)

lemma zero_char: "CHR ''0'' = of_byte 48"
proof -
  have "byte (CHR ''0'') = 48" by (simp add: byte_def)
  then show ?thesis by (metis of_byte_byte)
qed

lemma of_byte_inject: "m < 256 \<Longrightarrow> n < 256 \<Longrightarrow> of_byte m = of_byte n \<longleftrightarrow> m = n"
  by (metis byte_of_byte)

lemma nat_digits_lead: "0 < n \<Longrightarrow> hd (nat_digits n) \<noteq> CHR ''0''"
proof (induction n rule: nat_digits.induct)
  case (1 n)
  show ?case
  proof (cases "n < 10")
    case True
    have "of_byte (48 + n) \<noteq> of_byte 48" using True 1(2) by (simp add: of_byte_inject)
    with True show ?thesis by (subst nat_digits.simps) (simp add: zero_char)
  next
    case False
    then have "hd (nat_digits (n div 10)) \<noteq> CHR ''0''" using 1 by simp
    with False show ?thesis by (subst nat_digits.simps) (simp add: hd_append)
  qed
qed

lemma scan_int_nat:
  assumes "number_end s"
  shows "scan_int (nat_digits n @ s) = Some (nat_digits n, s)"
proof (cases "n = 0")
  case True
  have "nat_digits 0 = ''0''" by (subst nat_digits.simps) (simp add: zero_char)
  with True show ?thesis by (simp add: scan_int_def)
next
  case False
  obtain c r where c: "nat_digits n = c # r" by (cases "nat_digits n") auto
  have "c \<noteq> CHR ''0''" using nat_digits_lead [of n] False by (simp add: c)
  moreover have "is_digit_byte c" using hd_nat_digits [of n] by (simp add: c)
  moreover have "scan_digits (nat_digits n @ s) = (nat_digits n, s)"
    by (rule scan_digits_append [OF nat_digits_all assms])
  ultimately show ?thesis by (simp add: c scan_int_def)
qed

lemma hd_digits_not_minus: "\<not> has_prefix (nat_digits n @ s) ''-''"
  using hd_nat_digits [of n] by (cases "nat_digits n") (auto simp: is_digit_byte_def byte_def)

lemma scan_number_int: "number_end s \<Longrightarrow> scan_number (int_digits i @ s) = Some (int_digits i, s)"
  using scan_int_nat [of s "nat (- i)"] scan_int_nat [of s "nat i"] scan_rest_end [of s]
    hd_digits_not_minus [of "nat i" s]
  by (cases "i < 0") (simp_all add: scan_number_def int_digits_def del: nat_digits.simps)

text \<open>Documents of the encoder: integers, scannable strings, at most \<open>d\<close> containers deep.\<close>

fun json_ok :: "nat \<Rightarrow> json \<Rightarrow> bool" where
  "json_ok d JNull = True"
| "json_ok d (JBool b) = True"
| "json_ok d (JNum t) = (\<exists>i. t = int_digits i)"
| "json_ok d (JStr b) = json_body b"
| "json_ok d (JArr xs) = (0 < d \<and> (\<forall>x\<in>set xs. json_ok (d - 1) x))"
| "json_ok d (JObj ms) = (0 < d \<and> (\<forall>m\<in>set ms. json_body (fst m) \<and> json_ok (d - 1) (snd m)))"

definition layout_ok :: "layout \<Rightarrow> bool" where
  "layout_ok l \<longleftrightarrow> (\<forall>n. list_all json_space (fst l n)) \<and> hd (snd l) = CHR '':'' \<and> snd l \<noteq> []
     \<and> list_all json_space (tl (snd l))"

lemma layouts_ok [simp]: "layout_ok compact" "layout_ok indented"
  by (simp_all add: layout_ok_def compact_def indented_def json_space_def list_all_iff)

fun json_cost :: "json \<Rightarrow> nat"
  and json_cost_items :: "json list \<Rightarrow> nat"
  and json_cost_members :: "(string \<times> json) list \<Rightarrow> nat" where
  "json_cost (JArr xs) = Suc (json_cost_items xs)"
| "json_cost (JObj ms) = Suc (json_cost_members ms)"
| "json_cost j = 1"
| "json_cost_items [] = 0"
| "json_cost_items (x # xs) = Suc (json_cost x + json_cost_items xs)"
| "json_cost_members [] = 0"
| "json_cost_members ((k, x) # ms) = Suc (json_cost x + json_cost_members ms)"

lemma int_digits_head:
  obtains c r where "int_digits i = c # r" "c = CHR ''-'' \<or> is_digit_byte c"
proof -
  obtain c r where c: "nat_digits (nat i) = c # r" by (cases "nat_digits (nat i)") auto
  have "is_digit_byte c" using hd_nat_digits [of "nat i"] by (simp add: c)
  then show thesis using that c by (cases "i < 0") (simp_all add: int_digits_def)
qed

lemma json_cost_le:
  "json_ok d x \<Longrightarrow> json_cost x \<le> 2 * length (json_print l n x)"
  "(\<forall>x\<in>set xs. json_ok d x) \<Longrightarrow> json_cost_items xs \<le> 2 * length (json_print_items l n xs) + 1"
  "(\<forall>m\<in>set ms. json_ok d (snd m)) \<Longrightarrow> json_cost_members ms \<le> 2 * length (json_print_members l n ms)"
proof (induction l n x and l n xs and l n ms arbitrary: d and d and d
    rule: json_print_json_print_items_json_print_members.induct)
  case (3 l n t)
  then obtain i where "t = int_digits i" by auto
  then show ?case by (metis int_digits_head json_cost.simps(5) json_print.simps(3) le_add1 length_Cons mult_2 order_trans plus_1_eq_Suc)
next
  case (5 l n xs)
  then show ?case by (cases xs) fastforce+
next
  case (6 l n ms)
  then show ?case by (cases ms) fastforce+
next
  case (8 l n x xs)
  then have "json_cost x \<le> 2 * length (json_print l n x)"
    "xs \<noteq> [] \<Longrightarrow> json_cost_items xs \<le> 2 * length (json_print_items l n xs) + 1" by auto
  then show ?case by (cases xs) auto
next
  case (10 l n k x ms)
  then have "json_cost x \<le> 2 * length (json_print l n x)"
    "ms \<noteq> [] \<Longrightarrow> json_cost_members ms \<le> 2 * length (json_print_members l n ms)" by auto
  then show ?case by (cases ms) auto
qed auto

lemma skip_space_ws [simp]: "list_all json_space ws \<Longrightarrow> skip_space (ws @ s) = skip_space s"
  by (simp add: skip_space_def dropWhile_append2 list_all_iff)

lemma skip_space_Cons: "skip_space (c # s) = (if json_space c then skip_space s else c # s)"
  by (simp add: skip_space_def)

lemma skip_space_idem [simp]: "skip_space (skip_space s) = skip_space s"
  by (simp add: skip_space_def dropWhile_idem)

lemma scan_skip [simp]:
  "scan_value k d (skip_space s) = scan_value k d s"
  "scan_items k d (skip_space s) = scan_items k d s"
  "scan_members k d (skip_space s) = scan_members k d s"
proof -
  show 1: "scan_value k d (skip_space s) = scan_value k d s" for k by (cases k) simp_all
  show "scan_items k d (skip_space s) = scan_items k d s" by (cases k) (simp_all add: 1)
  show "scan_members k d (skip_space s) = scan_members k d s" by (cases k) (simp_all add: scan_key_def)
qed

text \<open>How a value begins.\<close>

definition value_head :: "string \<Rightarrow> bool" where
  "value_head s \<longleftrightarrow> (case s of [] \<Rightarrow> False | c # _ \<Rightarrow> \<not> json_space c \<and> c \<noteq> CHR '']'')"

lemma value_head_print: "json_ok d x \<Longrightarrow> value_head (json_print l n x @ s)"
proof (cases x)
  case (JNum t)
  assume "json_ok d x"
  then obtain i where t: "t = int_digits i" using JNum by auto
  obtain c r where c: "int_digits i = c # r" "c = CHR ''-'' \<or> is_digit_byte c" by (rule int_digits_head)
  have "\<not> json_space c \<and> c \<noteq> CHR '']''"
    using c(2) by (auto simp: is_digit_byte_def json_space_def byte_def)
  then show ?thesis by (simp add: JNum t c(1) value_head_def)
qed (auto simp: value_head_def json_space_def)

lemma number_end_Cons: "number_end (c # s) \<longleftrightarrow> \<not> is_digit_byte c \<and> c \<notin> {CHR ''.'', CHR ''e'', CHR ''E''}"
  by (simp add: number_end_def)

lemma number_end_ws: "list_all json_space ws \<Longrightarrow> number_end s \<Longrightarrow> number_end (ws @ s)"
  by (cases ws) (auto simp: number_end_Cons json_space_def is_digit_byte_def byte_def)

lemma number_end_close [simp]:
  "number_end (CHR '']'' # s)" "number_end (CHR ''}'' # s)" "number_end (CHR '','' # s)"
  by (simp_all add: number_end_Cons is_digit_byte_def byte_def)

lemma scan_number_lead:
  "scan_number (c # s) = Some (t, r) \<Longrightarrow> c \<notin> set ''{[''
     \<and> c \<noteq> quote_mark \<and> \<not> has_prefix (c # s) ''null'' \<and> \<not> has_prefix (c # s) ''true'' \<and> \<not> has_prefix (c # s) ''false''"
  by (auto simp: scan_number_def scan_int_def is_digit_byte_def byte_def Let_def split: if_splits)

text \<open>One step of the scanner in front of each kind of value.\<close>

lemma scan_value_number:
  "scan_number s = Some (t, r) \<Longrightarrow> value_head s \<Longrightarrow> scan_value (Suc k) d s = Some (JNum t, r)"
proof -
  assume n: "scan_number s = Some (t, r)" and "value_head s"
  then obtain c s' where s: "s = c # s'" "\<not> json_space c" by (cases s) (simp_all add: value_head_def)
  then have "skip_space s = s" by (simp add: skip_space_Cons)
  moreover have "c \<noteq> CHR ''{''" "c \<noteq> CHR ''[''" "c \<noteq> quote_mark" "\<not> has_prefix s ''null''" "\<not> has_prefix s ''true''"
    "\<not> has_prefix s ''false''"
    using scan_number_lead [OF n [unfolded s(1)]] unfolding s(1) by simp_all
  ultimately show ?thesis using n unfolding s(1) scan_value.simps by (simp only: list.case if_False) simp
qed

lemma scan_value_array:
  "value_head s \<Longrightarrow> list_all json_space ws \<Longrightarrow>
    scan_value (Suc k) (Suc d) (CHR ''['' # ws @ s) = map_option (\<lambda>(xs, r). (JArr xs, r)) (scan_items k d s)"
proof -
  assume h: "value_head s" and ws: "list_all json_space ws"
  then obtain c r where s: "s = c # r" "\<not> json_space c" "c \<noteq> CHR '']''"
    by (cases s) (simp_all add: value_head_def)
  have "skip_space (CHR ''['' # t) = CHR ''['' # t" for t by (simp add: skip_space_Cons json_space_def)
  moreover have "skip_space (ws @ s) = s" using ws s by (simp add: skip_space_Cons)
  ultimately show ?thesis using s by (simp only: scan_value.simps list.case) simp
qed

lemma scan_value_object:
  "list_all json_space ws \<Longrightarrow>
    scan_value (Suc k) (Suc d) (CHR ''{'' # ws @ quote_mark # s) =
      map_option (\<lambda>(ms, r). (JObj ms, r)) (scan_members k d (quote_mark # s))"
  by (simp add: skip_space_Cons json_space_def)

lemma scan_items_step:
  assumes "scan_value k d s = Some (x, ws @ c # r)" "list_all json_space ws" "\<not> json_space c"
  shows "scan_items (Suc k) d s =
    (if c = CHR '']'' then Some ([x], r)
     else if c = CHR '','' then map_option (\<lambda>(xs, r). (x # xs, r)) (scan_items k d r) else None)"
  using assms by (simp add: skip_space_Cons)

lemma scan_members_step:
  assumes "json_body key" "colon = CHR '':'' # ws'" "list_all json_space ws" "\<not> json_space c"
    and "scan_value k d (ws' @ s) = Some (x, ws @ c # r)"
  shows "scan_members (Suc k) d (quote_mark # key @ quote_mark # colon @ s) =
    (if c = CHR ''}'' then Some ([(key, x)], r)
     else if c = CHR '','' then map_option (\<lambda>(ms, r). ((key, x) # ms, r)) (scan_members k d r) else None)"
proof -
  have "skip_space (quote_mark # t) = quote_mark # t" "skip_space (CHR '':'' # t) = CHR '':'' # t" for t
    by (simp_all add: skip_space_Cons json_space_def)
  then have "scan_key (quote_mark # key @ quote_mark # colon @ s) = Some (key, ws' @ s)"
    using assms(1,2) by (simp add: scan_key_def json_bodyD)
  then show ?thesis using assms(3-) by (simp add: skip_space_Cons)
qed

lemma not_space [simp]: "\<not> json_space (CHR '','')" "\<not> json_space (CHR '']'')" "\<not> json_space (CHR ''}'')"
  by (simp_all add: json_space_def)

lemma scan_skip_ws: "list_all json_space ws \<Longrightarrow> scan_value k d (ws @ s) = scan_value k d s"
  "list_all json_space ws \<Longrightarrow> scan_items k d (ws @ s) = scan_items k d s"
  "list_all json_space ws \<Longrightarrow> scan_members k d (ws @ s) = scan_members k d s"
  by (metis scan_skip skip_space_ws)+

lemma scan_print:
  assumes l: "layout_ok l"
  shows "json_ok d x \<Longrightarrow> json_cost x \<le> k \<Longrightarrow> number_end rest \<Longrightarrow>
      scan_value k d (json_print l n x @ rest) = Some (x, rest)"
    and "xs \<noteq> [] \<Longrightarrow> (\<forall>x\<in>set xs. json_ok d x) \<Longrightarrow> json_cost_items xs \<le> k \<Longrightarrow> list_all json_space ws \<Longrightarrow>
      scan_items k d (json_print_items l n xs @ ws @ CHR '']'' # rest) = Some (xs, rest)"
    and "ms \<noteq> [] \<Longrightarrow> (\<forall>m\<in>set ms. json_body (fst m) \<and> json_ok d (snd m)) \<Longrightarrow> json_cost_members ms \<le> k \<Longrightarrow>
      list_all json_space ws \<Longrightarrow>
      scan_members k d (json_print_members l n ms @ ws @ CHR ''}'' # rest) = Some (ms, rest)"
  using l
proof (induction l n x and l n xs and l n ms arbitrary: d k rest and d k ws rest and d k ws rest
    rule: json_print_json_print_items_json_print_members.induct)
  case (1 l n)
  then obtain k' where "k = Suc k'" by (cases k) auto
  then show ?case by (simp add: skip_space_Cons json_space_def)
next
  case (2 l n b)
  then obtain k' where "k = Suc k'" by (cases k) auto
  then show ?case by (cases b) (simp_all add: skip_space_Cons json_space_def)
next
  case (3 l n t)
  then obtain k' where k: "k = Suc k'" by (cases k) auto
  have "value_head (json_print l n (JNum t) @ rest)" by (rule value_head_print [OF 3(1)])
  moreover have "scan_number (json_print l n (JNum t) @ rest) = Some (t, rest)"
    using 3 by (auto intro: scan_number_int)
  ultimately show ?case unfolding k by (intro scan_value_number)
next
  case (4 l n b)
  then obtain k' where "k = Suc k'" by (cases k) auto
  with 4 show ?case by (simp add: skip_space_Cons json_space_def json_bodyD)
next
  case (5 l n xs)
  then obtain k' d' where kd: "k = Suc k'" "d = Suc d'" by (cases k; cases d) auto
  have ws: "list_all json_space (fst l m)" for m using "5.prems"(4) by (simp add: layout_ok_def)
  show ?case
  proof (cases xs)
    case Nil
    then show ?thesis unfolding kd by (simp add: skip_space_Cons json_space_def)
  next
    case (Cons x xs')
    have h: "value_head (json_print l (Suc n) x @ t)" for t
      by (rule value_head_print [of d']) (use "5.prems"(1) in \<open>simp add: Cons kd\<close>)
    have "scan_value k d (json_print l n (JArr xs) @ rest) =
        map_option (\<lambda>(xs, r). (JArr xs, r)) (scan_items k' d' (json_print_items l (Suc n) xs @ fst l n @ CHR '']'' # rest))"
      using ws unfolding kd Cons by (simp add: scan_value_array [OF h] scan_skip_ws del: scan_value.simps)
    also have "scan_items k' d' (json_print_items l (Suc n) xs @ fst l n @ CHR '']'' # rest) = Some (xs, rest)"
      by (rule "5.IH") (use "5.prems" ws in \<open>simp_all add: Cons kd\<close>)
    finally show ?thesis by simp
  qed
next
  case (6 l n ms)
  then obtain k' d' where kd: "k = Suc k'" "d = Suc d'" by (cases k; cases d) auto
  have ws: "list_all json_space (fst l m)" for m using "6.prems"(4) by (simp add: layout_ok_def)
  show ?case
  proof (cases ms)
    case Nil
    then show ?thesis unfolding kd by (simp add: skip_space_Cons json_space_def)
  next
    case (Cons m ms')
    obtain key x where m: "m = (key, x)" by (cases m)
    have "scan_value k d (json_print l n (JObj ms) @ rest) =
        map_option (\<lambda>(ms, r). (JObj ms, r)) (scan_members k' d' (json_print_members l (Suc n) ms @ fst l n @ CHR ''}'' # rest))"
      using ws unfolding kd Cons m by (simp add: scan_value_object scan_skip_ws del: scan_value.simps)
    also have "scan_members k' d' (json_print_members l (Suc n) ms @ fst l n @ CHR ''}'' # rest) = Some (ms, rest)"
      by (rule "6.IH") (use "6.prems" ws in \<open>simp_all add: Cons kd\<close>)
    finally show ?thesis by simp
  qed
next
  case (8 l n x xs)
  then obtain k' where k: "k = Suc k'" by (cases k) auto
  have ws0: "list_all json_space (fst l n)" using "8.prems" by (simp add: layout_ok_def)
  let ?tail = "if xs = [] then ws @ CHR '']'' # rest else CHR '','' # json_print_items l n xs @ ws @ CHR '']'' # rest"
  have "scan_value k' d (json_print l n x @ ?tail) = Some (x, ?tail)"
    by (rule "8.IH"(1)) (use "8.prems" number_end_ws in \<open>simp_all add: k\<close>)
  then have v: "scan_value k' d (fst l n @ json_print l n x @ ?tail) = Some (x, ?tail)"
    by (simp add: scan_skip_ws [OF ws0])
  show ?case
  proof (cases "xs = []")
    case True
    with v "8.prems" show ?thesis
      unfolding k by (simp add: scan_items_step [where ws = ws and c = "CHR '']''"] del: scan_items.simps)
  next
    case False
    have "scan_items k' d (json_print_items l n xs @ ws @ CHR '']'' # rest) = Some (xs, rest)"
      by (rule "8.IH"(2)) (use "8.prems" False in \<open>simp_all add: k\<close>)
    with v False show ?thesis
      unfolding k by (simp add: scan_items_step [where ws = "[]" and c = "CHR '',''"] del: scan_items.simps)
  qed
next
  case (10 l n key x ms)
  then obtain k' where k: "k = Suc k'" by (cases k) auto
  have ws0: "list_all json_space (fst l n)" using "10.prems" by (simp add: layout_ok_def)
  obtain ws' where colon: "snd l = CHR '':'' # ws'" "list_all json_space ws'"
    using "10.prems" by (cases "snd l") (auto simp: layout_ok_def)
  let ?tail = "if ms = [] then ws @ CHR ''}'' # rest else CHR '','' # json_print_members l n ms @ ws @ CHR ''}'' # rest"
  have "scan_value k' d (json_print l n x @ ?tail) = Some (x, ?tail)"
    by (rule "10.IH"(1)) (use "10.prems" number_end_ws in \<open>simp_all add: k\<close>)
  then have v: "scan_value k' d (ws' @ json_print l n x @ ?tail) = Some (x, ?tail)"
    by (simp add: scan_skip_ws [OF colon(2)])
  have key: "json_body key" using "10.prems" by simp
  show ?case
  proof (cases "ms = []")
    case True
    with v "10.prems" scan_members_step [OF key colon(1), of ws "CHR ''}''" k' d "json_print l n x @ ?tail" x rest] show ?thesis
      unfolding k by (simp add: scan_skip_ws [OF ws0] del: scan_members.simps)
  next
    case False
    have "scan_members k' d (json_print_members l n ms @ ws @ CHR ''}'' # rest) = Some (ms, rest)"
      by (rule "10.IH"(2)) (use "10.prems" False in \<open>simp_all add: k\<close>)
    with v False scan_members_step [OF key colon(1), of "[]" "CHR '',''" k' d "json_print l n x @ ?tail" x] show ?thesis
      unfolding k by (simp add: scan_skip_ws [OF ws0] del: scan_members.simps)
  qed
qed simp_all

text \<open>The scanner reads every document of the encoder, in either layout.\<close>

lemma json_parse_print:
  assumes "layout_ok l" "json_ok 10000 j"
  shows "json_parse (json_print l 0 j) = Some j"
proof -
  have "json_cost j \<le> 2 * length (json_print l 0 j) + 2"
    using json_cost_le(1) [OF assms(2), of l 0] by simp
  from scan_print(1) [OF assms(1,2) this, of "[]" 0] show ?thesis
    by (simp add: json_parse_def skip_space_def)
qed

section \<open>The bound on the number of calls\<close>

lemma scan_string_shorter: "scan_string s = Some (b, r) \<Longrightarrow> length r < length s"
proof (induction s arbitrary: b r rule: scan_string.induct)
  case (2 c cs)
  show ?case
  proof (cases "c = backslash")
    case True
    show ?thesis
    proof (cases cs)
      case Nil
      with 2 True show ?thesis by (simp add: byte_def)
    next
      case (Cons e es)
      have "\<not> byte backslash < 32" by (simp add: byte_def)
      with "2.prems" "2.IH"(1) [OF _ _ True Cons] "2.IH"(2) [OF _ _ True Cons] True Cons show ?thesis
        by (fastforce split: if_splits)
    qed
  next
    case False
    with "2.prems" "2.IH"(3) show ?thesis by (fastforce split: if_splits)
  qed
qed simp

lemma scan_digits_length: "scan_digits s = (ds, r) \<Longrightarrow> length s = length ds + length r"
  unfolding scan_digits_def by (metis length_append prod.inject takeWhile_dropWhile_id)

lemma scan_frac_length: "scan_frac s = Some (t, r) \<Longrightarrow> length r \<le> length s"
  by (auto simp: scan_frac_def split: list.splits if_splits prod.splits dest!: scan_digits_length)

lemma scan_exp_length: "scan_exp s = Some (t, r) \<Longrightarrow> length r \<le> length s"
  by (auto simp: scan_exp_def Let_def split: list.splits if_splits prod.splits dest!: scan_digits_length)

lemma scan_int_length: "scan_int s = Some (t, r) \<Longrightarrow> length r < length s"
proof -
  assume i: "scan_int s = Some (t, r)"
  then obtain c cs where s: "s = c # cs" by (cases s) (auto simp: scan_int_def)
  show ?thesis
  proof (cases "c = CHR ''0''")
    case True
    with i s show ?thesis by (simp add: scan_int_def)
  next
    case False
    with i s have "is_digit_byte c" "scan_digits s = (t, r)" by (auto simp: scan_int_def split: if_splits)
    then show ?thesis using scan_digits_length [of s t r] s by (auto simp: scan_digits_def)
  qed
qed

lemma scan_number_shorter: "scan_number s = Some (t, r) \<Longrightarrow> length r < length s"
  by (auto simp: scan_number_def Let_def split: option.splits if_splits
      dest!: scan_int_length scan_frac_length scan_exp_length) arith

lemma skip_space_length: "length (skip_space s) \<le> length s"
  by (simp add: skip_space_def length_dropWhile_le)

lemma skip_space_tail: "skip_space s = c # r \<Longrightarrow> length r < length s"
  using skip_space_length [of s] by simp

lemma scan_key_shorter: "scan_key s = Some (key, r) \<Longrightarrow> length r < length s"
  by (auto simp: scan_key_def split: list.splits if_splits option.splits
      dest!: skip_space_tail scan_string_shorter)

lemma scan_shorter:
  "scan_value k d s = Some (x, r) \<Longrightarrow> length r < length s"
  "scan_items k d s = Some (xs, r) \<Longrightarrow> length r < length s"
  "scan_members k d s = Some (ms, r) \<Longrightarrow> length r < length s"
proof (induction k d s and k d s and k d s arbitrary: x r and xs r and ms r
    rule: scan_value_scan_items_scan_members.induct)
  case (2 k d s)
  then obtain c cs where c: "skip_space s = c # cs" by (cases "skip_space s") simp_all
  note le = skip_space_tail [OF c]
  have drop: "length (drop n (c # cs)) < length s" if "0 < n" for n using le that by (cases n) auto
  show ?case
  proof (cases "c = CHR ''{'' \<or> c = CHR ''[''")
    case True
    with "2.prems" c obtain e t where e: "skip_space cs = e # t" and d: "d \<noteq> 0"
      by (cases "skip_space cs") (auto split: if_splits)
    have t: "length t < length cs" by (rule skip_space_tail [OF e])
    show ?thesis
      using "2.prems" "2.IH" [OF c] e c d t le True by (fastforce split: if_splits)
  next
    case False
    then show ?thesis
      using "2.prems" c le drop [of 4] drop [of 5] scan_string_shorter [of cs]
        scan_number_shorter [of "c # cs"] skip_space_length [of s]
      by (fastforce split: if_splits)
  qed
next
  case (4 k d s)
  from "4.prems" obtain x s1 where v: "scan_value k d s = Some (x, s1)"
    by (auto split: option.splits)
  from "4.prems" v obtain c t where c: "skip_space s1 = c # t" by (cases "skip_space s1") simp_all
  have "length t < length s" using "4.IH"(1) [OF v] skip_space_tail [OF c] by simp
  with "4.prems" v c "4.IH"(2) [OF v refl c] show ?case by (fastforce split: if_splits)
next
  case (6 k d s)
  from "6.prems" obtain key s1 where key: "scan_key s = Some (key, s1)"
    by (cases "scan_key s") auto
  from "6.prems" key obtain x s2 where x: "scan_value k d s1 = Some (x, s2)"
    by (cases "scan_value k d s1") auto
  from "6.prems" key x obtain e t where e: "skip_space s2 = e # t" by (cases "skip_space s2") simp_all
  have "length t < length s"
    using scan_key_shorter [OF key] "6.IH"(1) [OF key refl x] skip_space_tail [OF e] by simp
  with "6.prems" key x e "6.IH"(2) [OF key refl x refl e] show ?case
    by (fastforce split: if_splits)
qed simp_all

text \<open>More calls than the bound allows change nothing, so the bound never cuts a document off.\<close>

lemma skip_space_le: "skip_space s = t \<Longrightarrow> length t \<le> length s"
  using skip_space_length by blast

lemma scan_enough:
  "2 * length s + 1 \<le> k \<Longrightarrow> 2 * length s + 1 \<le> k' \<Longrightarrow> scan_value k d s = scan_value k' d s"
  "2 * length s + 2 \<le> k \<Longrightarrow> 2 * length s + 2 \<le> k' \<Longrightarrow> scan_items k d s = scan_items k' d s"
  "2 * length s + 2 \<le> k \<Longrightarrow> 2 * length s + 2 \<le> k' \<Longrightarrow> scan_members k d s = scan_members k' d s"
proof (induction k d s and k d s and k d s arbitrary: k' and k' and k'
    rule: scan_value_scan_items_scan_members.induct)
  case (2 k d s)
  from "2.prems" obtain j where k': "k' = Suc j" by (cases k') simp_all
  show ?case
  proof (cases "skip_space s")
    case (Cons c cs)
    note le = skip_space_tail [OF Cons]
    show ?thesis
    proof (cases "skip_space cs")
      case Nil
      with Cons show ?thesis by (simp add: k')
    next
      case C: (Cons e r)
      have len: "2 * length (e # r) + 2 \<le> k" "2 * length (e # r) + 2 \<le> j"
        using skip_space_le [OF C] le "2.prems" k' by simp_all
      have m: "c = CHR ''{'' \<Longrightarrow> d \<noteq> 0 \<Longrightarrow> e \<noteq> CHR ''}'' \<Longrightarrow>
          scan_members k (d - 1) (e # r) = scan_members j (d - 1) (e # r)"
        by (rule "2.IH"(1) [OF Cons _ _ C]) (use len in simp_all)
      have i: "c \<noteq> CHR ''{'' \<Longrightarrow> c = CHR ''['' \<Longrightarrow> d \<noteq> 0 \<Longrightarrow> e \<noteq> CHR '']'' \<Longrightarrow>
          scan_items k (d - 1) (e # r) = scan_items j (d - 1) (e # r)"
        by (rule "2.IH"(2) [OF Cons _ _ _ C]) (use len in simp_all)
      show ?thesis
        unfolding k' scan_value.simps Cons list.case C by (intro if_cong refl arg_cong [of _ _ "map_option _"] m i)
    qed
  qed (simp add: k')
next
  case (4 k d s)
  from "4.prems" obtain j where k': "k' = Suc j" by (cases k') simp_all
  have v: "scan_value k d s = scan_value j d s" using "4.IH"(1) [of j] "4.prems" k' by simp
  show ?case
  proof (cases "scan_value k d s")
    case None
    then show ?thesis using v by (simp add: k')
  next
    case (Some xs1)
    obtain x s1 where xs1: "xs1 = (x, s1)" by (cases xs1)
    note vk = Some [unfolded xs1]
    have vj: "scan_value j d s = Some (x, s1)" using v vk by simp
    show ?thesis
    proof (cases "skip_space s1")
      case Nil
      then show ?thesis using vk vj by (simp add: k')
    next
      case (Cons c r)
      have "length r < length s" using scan_shorter(1) [OF vk] skip_space_tail [OF Cons] by simp
      with "4.IH"(2) [OF vk refl Cons, of j] "4.prems" k' vk vj Cons show ?thesis
        by simp
    qed
  qed
next
  case (6 k d s)
  from "6.prems" obtain j where k': "k' = Suc j" by (cases k') simp_all
  show ?case
  proof (cases "scan_key s")
    case None
    then show ?thesis by (simp add: k')
  next
    case (Some key1)
    obtain key s1 where key1: "key1 = (key, s1)" by (cases key1)
    note key = Some [unfolded key1]
    note len = scan_key_shorter [OF key]
    have v: "scan_value k d s1 = scan_value j d s1"
      using "6.IH"(1) [OF key refl, of j] len "6.prems" k' by simp
    show ?thesis
    proof (cases "scan_value k d s1")
      case None
      then show ?thesis using v key by (simp add: k')
    next
      case (Some xs2)
      obtain x s2 where xs2: "xs2 = (x, s2)" by (cases xs2)
      note x = Some [unfolded xs2]
      have xj: "scan_value j d s1 = Some (x, s2)" using v x by simp
      show ?thesis
      proof (cases "skip_space s2")
        case Nil
        then show ?thesis using key x xj by (simp add: k')
      next
        case (Cons e r)
        have "length r < length s" using scan_shorter(1) [OF x] skip_space_tail [OF Cons] len by simp
        with "6.IH"(2) [OF key refl x refl Cons, of j] "6.prems" k' xj x key Cons show ?thesis
          by simp
      qed
    qed
  qed
qed simp_all

end
