(* ===== verification/JsonCodec.thy ===== *)
theory JsonCodec
  imports JsonTrip
begin

text \<open>
  Between JSON values and Go's values, as \<open>json.Unmarshal\<close> and \<open>json.MarshalIndent\<close> go by the types: a
  codec has an encoder, which may fail, and a decoder, which stores into a value that is there already.
  The codec of a struct is built from its fields. The locale is the contract that the storage of the
  program relies on: what is written is what is read.
\<close>

section \<open>Codecs of basic types\<close>

type_synonym 'a codec = "('a \<Rightarrow> json option) \<times> (json \<Rightarrow> 'a \<Rightarrow> 'a option)"

definition string_codec :: "string codec" where
  "string_codec =
     (\<lambda>s. Some (JStr (json_escape s)),
      \<lambda>j old. case j of JNull \<Rightarrow> Some old | JStr b \<Rightarrow> Some (json_unquote b) | _ \<Rightarrow> None)"

text \<open>\<open>int\<close> and \<open>int64\<close>: a number with a fraction, an exponent or out of range is an error.\<close>

definition int_codec :: "int codec" where
  "int_codec =
     (\<lambda>i. Some (JNum (int_digits i)),
      \<lambda>j old. case j of JNull \<Rightarrow> Some old | JNum t \<Rightarrow> atoi t | _ \<Rightarrow> None)"

definition bool_codec :: "bool codec" where
  "bool_codec =
     (\<lambda>b. Some (JBool b), \<lambda>j old. case j of JNull \<Rightarrow> Some old | JBool b \<Rightarrow> Some b | _ \<Rightarrow> None)"

text \<open>A time is read from the text between the quotes as it stands, escapes included.\<close>

definition time_codec :: "time codec" where
  "time_codec =
     (\<lambda>t. map_option JStr (marshal_time t),
      \<lambda>j old. case j of JNull \<Rightarrow> Some old | JStr b \<Rightarrow> parse_time b | _ \<Rightarrow> None)"

section \<open>Slices\<close>

text \<open>A slice is nil or has elements; both print differently and behave alike.\<close>

type_synonym 'a slice = "'a list option"

definition elems :: "'a slice \<Rightarrow> 'a list" where
  "elems s = (case s of None \<Rightarrow> [] | Some xs \<Rightarrow> xs)"

definition append_slice :: "'a slice \<Rightarrow> 'a \<Rightarrow> 'a slice" where
  "append_slice s x = Some (elems s @ [x])"

lemma elems_simps [simp]:
  "elems None = []" "elems (Some xs) = xs" "elems (append_slice s x) = elems s @ [x]"
  by (simp_all add: elems_def append_slice_def)

fun encode_items :: "('a \<Rightarrow> json option) \<Rightarrow> 'a list \<Rightarrow> json list option" where
  "encode_items enc [] = Some []"
| "encode_items enc (x # xs) =
     (case enc x of None \<Rightarrow> None | Some j \<Rightarrow> map_option (\<lambda>js. j # js) (encode_items enc xs))"

text \<open>An element is decoded into the one that stands at its index, or into the zero value.\<close>

fun decode_items :: "(json \<Rightarrow> 'a \<Rightarrow> 'a option) \<Rightarrow> 'a \<Rightarrow> 'a list \<Rightarrow> json list \<Rightarrow> 'a list option" where
  "decode_items dec z olds [] = Some []"
| "decode_items dec z olds (j # js) =
     (case dec j (case olds of [] \<Rightarrow> z | x # _ \<Rightarrow> x) of
        None \<Rightarrow> None
      | Some v \<Rightarrow> map_option (\<lambda>vs. v # vs) (decode_items dec z (tl olds) js))"

definition slice_codec :: "'a codec \<Rightarrow> 'a \<Rightarrow> 'a slice codec" where
  "slice_codec c z =
     (\<lambda>s. case s of None \<Rightarrow> Some JNull | Some xs \<Rightarrow> map_option JArr (encode_items (fst c) xs),
      \<lambda>j old. case j of
         JNull \<Rightarrow> Some None
       | JArr js \<Rightarrow> map_option Some (decode_items (snd c) z (elems old) js)
       | _ \<Rightarrow> None)"

section \<open>Structs\<close>

text \<open>
  A key names the field with exactly that name or else the first one with the name up to the case of
  letters, for which the Kelvin sign is a K and the long s an S.
\<close>

fun key_matches :: "string \<Rightarrow> string \<Rightarrow> bool" where
  "key_matches [] key = (key = [])"
| "key_matches (c # cs) [] = False"
| "key_matches (c # cs) (k # ks) =
     (if byte k < 128 then lower_byte c = lower_byte k \<and> key_matches cs ks
      else if lower_byte c = CHR ''s'' \<and> take 2 (k # ks) = [CHR 0xC5, CHR 0xBF] then key_matches cs (drop 1 ks)
      else if lower_byte c = CHR ''k'' \<and> take 3 (k # ks) = [CHR 0xE2, CHR 0x84, CHR 0xAA] then key_matches cs (drop 2 ks)
      else False)"

type_synonym 'r field = "string \<times> ('r \<Rightarrow> json option) \<times> (json \<Rightarrow> 'r \<Rightarrow> 'r option)"

definition field :: "string \<Rightarrow> ('r \<Rightarrow> 'a) \<Rightarrow> (('a \<Rightarrow> 'a) \<Rightarrow> 'r \<Rightarrow> 'r) \<Rightarrow> 'a codec \<Rightarrow> 'r field" where
  "field name get upd c =
     (name, \<lambda>r. fst c (get r), \<lambda>j r. map_option (\<lambda>v. upd (\<lambda>_. v) r) (snd c j (get r)))"

definition find_field :: "'r field list \<Rightarrow> string \<Rightarrow> (json \<Rightarrow> 'r \<Rightarrow> 'r option) option" where
  "find_field fs key =
     (case find_first (\<lambda>f. fst f = key) fs of
        Some f \<Rightarrow> Some (snd (snd f))
      | None \<Rightarrow> map_option (\<lambda>f. snd (snd f)) (find_first (\<lambda>f. key_matches (fst f) key) fs))"

fun encode_fields :: "'r field list \<Rightarrow> 'r \<Rightarrow> (string \<times> json) list option" where
  "encode_fields [] r = Some []"
| "encode_fields ((n, e, d) # fs) r =
     (case e r of None \<Rightarrow> None | Some j \<Rightarrow> map_option (\<lambda>ms. (n, j) # ms) (encode_fields fs r))"

fun decode_members :: "'r field list \<Rightarrow> (string \<times> json) list \<Rightarrow> 'r \<Rightarrow> 'r option" where
  "decode_members fs [] r = Some r"
| "decode_members fs ((k, j) # ms) r =
     (case find_field fs (json_unquote k) of
        None \<Rightarrow> decode_members fs ms r
      | Some d \<Rightarrow> (case d j r of None \<Rightarrow> None | Some r' \<Rightarrow> decode_members fs ms r'))"

definition struct_codec :: "'r field list \<Rightarrow> 'r codec" where
  "struct_codec fs =
     (\<lambda>r. map_option JObj (encode_fields fs r),
      \<lambda>j r. case j of JNull \<Rightarrow> Some r | JObj ms \<Rightarrow> decode_members fs ms r | _ \<Rightarrow> None)"

section \<open>Documents\<close>

definition marshal_indent :: "'a codec \<Rightarrow> 'a \<Rightarrow> string option" where
  "marshal_indent c v = map_option (json_print indented 0) (fst c v)"

definition marshal :: "'a codec \<Rightarrow> 'a \<Rightarrow> string option" where
  "marshal c v = map_option (json_print compact 0) (fst c v)"

definition unmarshal :: "'a codec \<Rightarrow> string \<Rightarrow> 'a \<Rightarrow> 'a option" where
  "unmarshal c s old = (case json_parse s of None \<Rightarrow> None | Some j \<Rightarrow> snd c j old)"

section \<open>The contract\<close>

lemma json_ok_mono: "d \<le> e \<Longrightarrow> json_ok d j \<Longrightarrow> json_ok e j"
proof (induction d j arbitrary: e rule: json_ok.induct)
  case (5 d xs)
  have "d - 1 \<le> e - 1" using "5.prems" by simp
  with 5 show ?case by auto
next
  case (6 d ms)
  have "d - 1 \<le> e - 1" using "6.prems" by simp
  with 6 show ?case by auto
qed auto

locale json_codec =
  fixes c :: "'a codec" and fits :: "'a \<Rightarrow> bool" and depth :: nat
  assumes trip: "fits v \<Longrightarrow> fst c v = Some j \<Longrightarrow> json_ok depth j \<and> snd c j old = Some v"
begin

lemma encode_items_trip:
  "\<forall>x\<in>set xs. fits x \<Longrightarrow> encode_items (fst c) xs = Some js \<Longrightarrow>
     (\<forall>j\<in>set js. json_ok depth j) \<and> decode_items (snd c) z olds js = Some xs"
proof (induction xs arbitrary: js olds)
  case (Cons x xs)
  then obtain j js' where js: "fst c x = Some j" "encode_items (fst c) xs = Some js'" "js = j # js'"
    by (auto split: option.splits)
  with Cons trip [of x j] show ?case by simp
qed simp

text \<open>A slice of such values is stored as faithfully.\<close>

lemma slice_trip:
  "\<forall>x\<in>set (elems s). fits x \<Longrightarrow> fst (slice_codec c z) s = Some j \<Longrightarrow>
     json_ok (Suc depth) j \<and> snd (slice_codec c z) j old = Some s"
  using encode_items_trip [of "elems s"]
  by (cases s) (auto simp: slice_codec_def)

text \<open>What has been written is what is read, whatever is read into.\<close>

lemma document_trip:
  assumes "depth \<le> 10000" "fits v" "marshal_indent c v = Some s"
  shows "unmarshal c s old = Some v"
proof -
  obtain j where j: "fst c v = Some j" "s = json_print indented 0 j"
    using assms(3) by (auto simp: marshal_indent_def)
  have "json_ok 10000 j" using trip [OF assms(2) j(1)] json_ok_mono [OF assms(1)] by blast
  then show ?thesis
    using trip [OF assms(2) j(1)] by (simp add: unmarshal_def j(2) json_parse_print)
qed

end

section \<open>The codecs keep the contract\<close>

lemma atoi_int_digits: "- (2 ^ 63) \<le> i \<Longrightarrow> i < 2 ^ 63 \<Longrightarrow> atoi (int_digits i) = Some i"
proof (cases "i < 0")
  case True
  assume "- (2 ^ 63) \<le> i" "i < 2 ^ 63"
  with True show ?thesis
    by (simp add: int_digits_def atoi_def nat_digits_all del: nat_digits.simps)
next
  case False
  assume "i < 2 ^ 63"
  with False show ?thesis by (simp add: int_digits_def atoi_nat_digits nat_less_iff del: nat_digits.simps)
qed

lemma json_ok_simple [simp]: "json_ok d (JStr (json_escape s))" "json_ok d (JNum (int_digits i))"
  by auto

definition int64 :: "int \<Rightarrow> bool" where
  "int64 i \<longleftrightarrow> - (2 ^ 63) \<le> i \<and> i < 2 ^ 63"

interpretation string_json: json_codec string_codec utf8_valid 0
  by unfold_locales (auto simp: string_codec_def unquote_escape utf8_valid_def)

interpretation int_json: json_codec int_codec int64 0
  by unfold_locales (auto simp: int_codec_def int64_def atoi_int_digits)

interpretation bool_json: json_codec bool_codec "\<lambda>_. True" 0
  by unfold_locales (auto simp: bool_codec_def)

lemma json_body_safe:
  "list_all (\<lambda>c. 32 \<le> byte c \<and> c \<noteq> quote_mark \<and> c \<noteq> backslash) b \<Longrightarrow> json_body b"
  by (induction b) (auto intro: json_body_plain)

lemma digits_safe: "list_all is_digit_byte ds \<Longrightarrow> list_all (\<lambda>c. 32 \<le> byte c \<and> c \<noteq> quote_mark \<and> c \<noteq> backslash) ds"
  by (induction ds) (auto simp: is_digit_byte_def byte_def)

lemma format_time_safe: "json_body (format_rfc3339nano t)"
proof (rule json_body_safe)
  obtain y m d where date: "date_of (t div day_ns) = (y, m, d)" by (cases "date_of (t div day_ns)")
  obtain h mi se ns where tod: "time_of_day t = (h, mi, se, ns)" by (cases "time_of_day t")
  have "ns < 10 ^ 9" by (rule time_of_day_bounds(4) [OF tod])
  note frac = frac_digits_facts(2) [OF this]
  show "list_all (\<lambda>c. 32 \<le> byte c \<and> c \<noteq> quote_mark \<and> c \<noteq> backslash) (format_rfc3339nano t)"
    using digits_safe [OF dec_fixed_digits] digits_safe [OF frac]
    by (simp add: format_rfc3339nano_def date tod format_frac_def byte_def)
qed

interpretation time_json: json_codec time_codec "\<lambda>_. True" 0
  by unfold_locales (auto simp: time_codec_def parse_marshal_time marshal_time_def format_time_safe split: if_splits)

text \<open>
  A struct: every field reads back what it has written. \<open>field_trip P f\<close> says so of the field \<open>f\<close>, up to
  the other fields.
\<close>

definition plain_name :: "string \<Rightarrow> bool" where
  "plain_name n \<longleftrightarrow> list_all (\<lambda>c. 32 \<le> byte c \<and> byte c < 128 \<and> c \<noteq> quote_mark \<and> c \<noteq> backslash) n"

lemma plain_name_facts: "plain_name n \<Longrightarrow> json_unquote n = n \<and> json_body n"
proof (induction n)
  case (Cons c n)
  then have "json_unquote n = n" "json_body n" by (simp_all add: plain_name_def)
  with Cons.prems show ?case
    by (auto simp: plain_name_def encode_rune_ascii intro: json_body_plain)
qed simp

lemma find_field_exact:
  "distinct (map fst fs) \<Longrightarrow> (n, e, d) \<in> set fs \<Longrightarrow> find_field fs n = Some d"
proof -
  assume "distinct (map fst fs)" "(n, e, d) \<in> set fs"
  then have "find_first (\<lambda>f. fst f = n) fs = Some (n, e, d)"
    by (induction fs) force+
  then show ?thesis by (simp add: find_field_def)
qed

definition field_ok :: "nat \<Rightarrow> 'r \<Rightarrow> ('r \<Rightarrow> 'r) \<Rightarrow> 'r field \<Rightarrow> bool" where
  "field_ok depth r store f \<longleftrightarrow> plain_name (fst f) \<and>
     (\<forall>j. fst (snd f) r = Some j \<longrightarrow> json_ok depth j \<and> (\<forall>acc. snd (snd f) j acc = Some (store acc)))"

lemma decode_encode_fields:
  assumes "distinct (map fst all)" "set fs \<subseteq> set all" "list_all2 (field_ok depth r) stores fs"
    and "encode_fields fs r = Some ms"
  shows "(\<forall>m\<in>set ms. json_body (fst m) \<and> json_ok depth (snd m)) \<and>
    decode_members all ms acc = Some (fold (\<lambda>g. g) stores acc)"
  using assms(3,2,4)
proof (induction stores fs arbitrary: ms acc rule: list_all2_induct)
  case (Cons st sts f fs)
  obtain n e d where f: "f = (n, e, d)" by (cases f)
  obtain j ms' where ms: "e r = Some j" "encode_fields fs r = Some ms'" "ms = (n, j) # ms'"
    using Cons.prems(2) by (auto simp: f split: option.splits)
  have ok: "json_body n" "json_unquote n = n" "json_ok depth j" "d j acc = Some (st acc)"
    using Cons.hyps(1) ms(1) plain_name_facts by (auto simp: field_ok_def f)
  have "find_field all n = Some d"
    by (rule find_field_exact [OF assms(1)]) (use Cons.prems(1) in \<open>auto simp: f\<close>)
  with ok Cons.IH [OF _ ms(2), of "st acc"] Cons.prems(1) show ?case by (simp add: ms(3))
qed simp

lemma struct_trip:
  assumes "distinct (map fst fs)" "list_all2 (field_ok depth r) stores fs"
    and "fst (struct_codec fs) r = Some j"
  shows "json_ok (Suc depth) j \<and> snd (struct_codec fs) j acc = Some (fold (\<lambda>g. g) stores acc)"
proof -
  obtain ms where "encode_fields fs r = Some ms" "j = JObj ms"
    using assms(3) by (auto simp: struct_codec_def)
  with decode_encode_fields [OF assms(1) subset_refl assms(2), of ms acc] show ?thesis
    by (simp add: struct_codec_def)
qed

lemma field_ok_field:
  assumes "plain_name n" "\<And>j old. fst c (get r) = Some j \<Longrightarrow> json_ok depth j \<and> snd c j old = Some (get r)"
  shows "field_ok depth r (upd (\<lambda>_. get r)) (field n get upd c)"
  using assms by (simp add: field_ok_def field_def)

end
