(* ===== verification/Database.thy ===== *)
theory Database
  imports World Config Data GoTime
begin

text \<open>
  The database layer, \<open>pkg/database\<close>: connecting and creating the tables, storing and loading post
  revisions, redirects, media and templates, and the worker that saves queued posts. Every call that
  package \<open>database/sql\<close> sends to its driver is an entry of the world's log, with the text of the
  statement; the driver's answers come from the world.
\<close>

section \<open>Calls on the driver\<close>

definition sql_do :: "sql_call \<Rightarrow> world \<Rightarrow> sql_reply \<times> world" where
  "sql_do c w = (driver w (sql_log w) c, w\<lparr>sql_log := sql_log w @ [c]\<rparr>)"

definition sql_result :: "sql_reply \<Rightarrow> sql_reply result" where
  "sql_result r = (case r of SqlFail m \<Rightarrow> Inl (ErrText m) | _ \<Rightarrow> Inr r)"

definition sql_io :: "sql_call \<Rightarrow> sql_reply io" where
  "sql_io c w = (case sql_do c w of (r, w') \<Rightarrow> (sql_result r, w'))"

definition reply_id :: "sql_reply \<Rightarrow> int" where
  "reply_id r = (case r of SqlDone i \<Rightarrow> i | _ \<Rightarrow> 0)"

definition reply_rows :: "sql_reply \<Rightarrow> sql_value list list" where
  "reply_rows r = (case r of SqlRows rs \<Rightarrow> rs | _ \<Rightarrow> [])"

definition db_exec :: "string \<Rightarrow> sql_value list \<Rightarrow> int io" where
  "db_exec s args = bind_io (sql_io (SqlExec s args)) (\<lambda>r. ret_io (reply_id r))"

definition db_query :: "string \<Rightarrow> sql_value list \<Rightarrow> sql_value list list io" where
  "db_query s args = bind_io (sql_io (SqlQuery s args)) (\<lambda>r. ret_io (reply_rows r))"

text \<open>\<open>QueryRow\<close>: the first row, or \<open>ErrNoRows\<close>.\<close>

definition db_query_row :: "string \<Rightarrow> sql_value list \<Rightarrow> sql_value list io" where
  "db_query_row s args =
     bind_io (db_query s args) (\<lambda>rs. case rs of [] \<Rightarrow> fail_io SqlErrNoRows | row # _ \<Rightarrow> ret_io row)"

text \<open>
  \<open>Begin\<close> ... \<open>Commit\<close> with a deferred \<open>Rollback\<close>: an error rolls back; once \<open>Commit\<close> has been called
  the deferred call does nothing.
\<close>

definition in_tx :: "'a io \<Rightarrow> 'a io" where
  "in_tx body =
     bind_io (sql_io SqlBegin) (\<lambda>_ w.
       case body w of
         (Inl e, w') \<Rightarrow> (Inl e, snd (sql_do SqlRollback w'))
       | (Inr v, w') \<Rightarrow> bind_io (sql_io SqlCommit) (\<lambda>_. ret_io v) w')"

text \<open>
  \<open>Rows.Scan\<close> into a Go variable; a row with another number of columns is an error too. No column that
  the program reads is of type \<open>REAL\<close>.
\<close>

definition scan_int :: "sql_value \<Rightarrow> int option" where
  "scan_int v = (case v of SqlInt i \<Rightarrow> Some i | SqlText t \<Rightarrow> atoi t | _ \<Rightarrow> None)"

definition scan_text :: "sql_value \<Rightarrow> string option" where
  "scan_text v =
     (case v of SqlText t \<Rightarrow> Some t | SqlInt i \<Rightarrow> Some (int_digits i)
      | SqlBool b \<Rightarrow> Some (if b then ''true'' else ''false'') | _ \<Rightarrow> None)"

definition parse_bool :: "string \<Rightarrow> bool option" where
  "parse_bool t =
     (if t \<in> {''1'', ''t'', ''T'', ''true'', ''TRUE'', ''True''} then Some True
      else if t \<in> {''0'', ''f'', ''F'', ''false'', ''FALSE'', ''False''} then Some False
      else None)"

definition scan_bool :: "sql_value \<Rightarrow> bool option" where
  "scan_bool v =
     (case v of SqlBool b \<Rightarrow> Some b | SqlInt i \<Rightarrow> (if i = 0 then Some False else if i = 1 then Some True else None)
      | SqlText t \<Rightarrow> parse_bool t | _ \<Rightarrow> None)"

definition scanned :: "'a option \<Rightarrow> 'a io" where
  "scanned r = (case r of None \<Rightarrow> fail_io (ErrText ''sql: Scan error'') | Some v \<Rightarrow> ret_io v)"

section \<open>SQL text\<close>

definition int64_column_type :: "string \<Rightarrow> string" where
  "int64_column_type dbType = (if dbType = ''postgres'' then ''BIGINT'' else ''INTEGER'')"

definition bool_column_type :: "string \<Rightarrow> string" where
  "bool_column_type dbType = (if dbType = ''postgres'' then ''BOOLEAN'' else ''INTEGER'')"

definition primary_key_column_type :: "string \<Rightarrow> string" where
  "primary_key_column_type dbType = int64_column_type dbType @ '' PRIMARY KEY''"

definition sql_placeholder :: "string \<Rightarrow> nat \<Rightarrow> string" where
  "sql_placeholder dbType index = (if dbType = ''postgres'' then CHR ''$'' # nat_digits index else ''?'')"

definition sql_placeholders :: "string \<Rightarrow> nat \<Rightarrow> string" where
  "sql_placeholders dbType count = join_with '', '' (map (\<lambda>i. sql_placeholder dbType (i + 1)) [0..<count])"

text \<open>A list of column definitions, and an \<open>INSERT\<close> with a placeholder for each column.\<close>

definition column_list :: "(string \<times> string) list \<Rightarrow> string" where
  "column_list cols = join_with '', '' (map (\<lambda>(n, t). n @ '' '' @ t) cols)"

definition insert_into :: "string \<Rightarrow> string \<Rightarrow> string list \<Rightarrow> nat \<Rightarrow> string" where
  "insert_into dbType table cols count =
     ''INSERT INTO '' @ table @ '' ('' @ join_with '', '' cols @ '') VALUES ('' @ sql_placeholders dbType count @ '')''"

definition post_columns :: "string \<Rightarrow> (string \<times> string) list" where
  "post_columns dbType =
     [(''OwnerId'', ''INTEGER''), (''EditorId'', ''INTEGER''), (''DeleterId'', ''INTEGER''), (''RequestUri'', ''TEXT''),
      (''Type'', ''TEXT''), (''Date'', int64_column_type dbType), (''Title'', ''TEXT''), (''Body'', ''TEXT''),
      (''Header'', ''TEXT''), (''Summary'', ''TEXT''), (''ShortText'', ''TEXT''), (''Tags'', ''TEXT''),
      (''Revision'', ''INTEGER''), (''Domain'', ''TEXT''), (''Status'', ''TEXT''), (''Published'', ''TEXT'')]"

definition backup_columns :: "string \<Rightarrow> (string \<times> string) list" where
  "backup_columns dbType =
     (let i = int64_column_type dbType in
      [(''Domain'', ''TEXT''), (''Path'', ''TEXT''), (''Checksum'', ''TEXT''), (''Size'', i), (''Format'', ''TEXT''),
       (''DownloadToken'', ''TEXT''), (''CreatedAt'', i), (''CompletedAt'', i), (''Status'', ''TEXT''), (''Error'', ''TEXT'')])"

definition foundation_tables :: "string \<Rightarrow> string list" where
  "foundation_tables dbType =
     (let i = int64_column_type dbType; b = bool_column_type dbType; k = primary_key_column_type dbType;
          table = (\<lambda>name cols. ''CREATE TABLE IF NOT EXISTS '' @ name @ '' ( '' @ column_list cols @ '' )'') in
      [table ''Domain'' [(''Id'', k), (''Name'', ''TEXT''), (''DNSZoneData'', ''TEXT''), (''CNAMESecret'', ''TEXT''),
         (''EmailSecretHash'', ''TEXT''), (''Status'', ''TEXT''), (''Frozen'', b)],
       table ''UserAccount'' [(''Id'', k), (''SessionId'', ''TEXT''), (''OldId'', i), (''AvatarId'', i), (''Email'', ''TEXT''),
         (''PasswordHash'', ''TEXT''), (''Nickname'', ''TEXT''), (''FirstName'', ''TEXT''), (''LastName'', ''TEXT''),
         (''Gender'', ''TEXT''), (''Phone'', ''TEXT''), (''DateOfRegistration'', i), (''DateOfBirth'', i),
         (''LastVisitTime'', i), (''GreenwichOffset'', ''INTEGER''), (''Activated'', ''TEXT''),
         (''VerificationCode'', ''TEXT''), (''Domain'', ''TEXT''), (''Status'', ''TEXT''), (''Language'', ''TEXT''),
         (''CurrentIP'', ''TEXT''), (''Profile'', ''TEXT''), (''Preferences'', ''TEXT''), (''SecurityLog'', ''TEXT''),
         (''InvitedBy'', ''TEXT''), (''InvitesAmount'', ''INTEGER''), (''QuotaBytes'', ''TEXT''),
         (''QuotaOriginals'', ''TEXT''), (''QuotaBytesUsed'', i), (''QuotaOriginalsUsed'', i), (''AutoGrab'', ''TEXT''),
         (''DomainToGrab'', ''TEXT'')],
       table ''GroupRole'' [(''Id'', k), (''OwnerId'', i), (''Name'', ''TEXT''), (''Title'', ''TEXT''), (''Comment'', ''TEXT''),
         (''Date'', i), (''Status'', ''TEXT''), (''Domain'', ''TEXT'')],
       table ''UserGroupRole'' [(''UserId'', i), (''GroupId'', i), (''Status'', ''TEXT''), (''Domain'', ''TEXT'')],
       table ''Redirect'' [(''Id'', k), (''OldUri'', ''TEXT''), (''NewUri'', ''TEXT''), (''Date'', i), (''Status'', ''TEXT''),
         (''Domain'', ''TEXT'')],
       table ''Media'' [(''Id'', k), (''Type'', ''TEXT''), (''Hash'', ''TEXT''), (''OriginalHash'', ''TEXT''),
         (''Format'', ''TEXT''), (''MimeType'', ''TEXT''), (''StoragePath'', ''TEXT''), (''Width'', ''INTEGER''),
         (''Height'', ''INTEGER''), (''Status'', ''TEXT''), (''Domain'', ''TEXT''), (''Day'', ''INTEGER''), (''Date'', i),
         (''SizesArray'', ''TEXT''), (''Rating'', ''REAL''), (''RatingCount'', ''INTEGER''), (''RatingIP'', ''TEXT''),
         (''Views'', ''INTEGER''), (''BytesUsed'', i)],
       table ''Template'' [(''Id'', k), (''Name'', ''TEXT''), (''Data'', ''TEXT''), (''Status'', ''TEXT''), (''Domain'', ''TEXT'')],
       table ''PostTemplate'' [(''PostId'', i), (''TemplateId'', i), (''Status'', ''TEXT''), (''Domain'', ''TEXT'')]])"

section \<open>Creating the tables\<close>

definition error_message :: "go_error \<Rightarrow> string" where
  "error_message e = (case e of ErrText m \<Rightarrow> m | _ \<Rightarrow> '''')"

definition is_duplicate_column_error :: "go_error \<Rightarrow> bool" where
  "is_duplicate_column_error err =
     (let message = to_lower (error_message err) in
      contains message ''duplicate column''
      \<or> contains message ''column'' \<and> contains message ''already exists''
      \<or> contains message ''duplicate_column'')"

definition add_columns :: "string \<Rightarrow> (string \<times> string) list \<Rightarrow> unit io" where
  "add_columns table cols =
     bind_io (each_io (\<lambda>(name, def).
         catch_io (db_exec (''ALTER TABLE '' @ table @ '' ADD COLUMN '' @ name @ '' '' @ def) [])
           (\<lambda>err. if is_duplicate_column_error err then ret_io () else fail_io err)
           (\<lambda>_. ret_io ())) cols)
       (\<lambda>_. ret_io ())"

definition ensure_post_columns :: "string \<Rightarrow> unit io" where
  "ensure_post_columns dbType =
     (if dbType = ''genji'' then ret_io () else add_columns ''Post'' (post_columns dbType))"

definition ensure_post_revision_index :: "string \<Rightarrow> unit io" where
  "ensure_post_revision_index dbType =
     (if dbType = ''genji'' then ret_io ()
      else bind_io (db_exec ''CREATE UNIQUE INDEX IF NOT EXISTS idx_post_domain_requesturi_revision ON Post (Domain, RequestUri, Revision)'' [])
             (\<lambda>_. ret_io ()))"

definition ensure_backup_columns :: "string \<Rightarrow> unit io" where
  "ensure_backup_columns dbType =
     (if dbType = ''genji'' then ret_io () else add_columns ''Backup'' (backup_columns dbType))"

definition create_foundation_tables :: "string \<Rightarrow> unit io" where
  "create_foundation_tables dbType =
     bind_io (each_io (\<lambda>s. db_exec s []) (foundation_tables dbType)) (\<lambda>_. ret_io ())"

text \<open>The one row of the watchdog's table; an error of the query counts as a missing row.\<close>

definition ensure_watchdog_row :: "string \<Rightarrow> unit io" where
  "ensure_watchdog_row dbType =
     catch_io (bind_io (db_query_row ''SELECT Id FROM DBWatchDog'' [])
                 (\<lambda>row. scanned (case row of [v] \<Rightarrow> scan_int v | _ \<Rightarrow> None)))
       (\<lambda>_. bind_io time_now (\<lambda>now.
            bind_io (db_exec (''INSERT INTO DBWatchDog (Id,UnixTime) VALUES ('' @ sql_placeholders dbType 2 @ '')'') [SqlInt 1, SqlInt (unix_milli now)])
              (\<lambda>_. ret_io ())))
       (\<lambda>_. ret_io ())"

definition create_tables :: "string \<Rightarrow> unit io" where
  "create_tables dbType =
     (let i = int64_column_type dbType; k = primary_key_column_type dbType in
      bind_io (db_exec (''CREATE TABLE if not exists DBWatchDog( '' @ column_list [(''Id'', k), (''UnixTime'', i)] @ '' )'') []) (\<lambda>_.
      bind_io (ensure_watchdog_row dbType) (\<lambda>_.
      bind_io (db_exec (''CREATE TABLE IF NOT EXISTS Post ( '' @ column_list ((''Id'', k) # post_columns dbType) @ '' )'') []) (\<lambda>_.
      bind_io (ensure_post_columns dbType) (\<lambda>_.
      bind_io (ensure_post_revision_index dbType) (\<lambda>_.
      bind_io (create_foundation_tables dbType) (\<lambda>_.
      bind_io (db_exec (''CREATE TABLE IF NOT EXISTS SiteState ( '' @
          column_list [(''StateKey'', ''TEXT PRIMARY KEY''), (''StateValue'', ''TEXT''), (''UpdatedAt'', i)] @ '' )'') []) (\<lambda>_.
      bind_io (db_exec (''CREATE TABLE IF NOT EXISTS Backup ( '' @ column_list ((''Id'', k) # backup_columns dbType) @ '' )'') []) (\<lambda>_.
      ensure_backup_columns dbType)))))))))"

section \<open>Connecting\<close>

text \<open>
  \<open>connectToDb\<close> returns a handle and an error; with an error the handle may be there or not. When the
  driver of one embedded database does not open, the other one is tried.
\<close>

type_synonym opened = "bool \<times> go_error option"

definition finish_open :: "string \<Rightarrow> world \<Rightarrow> opened \<times> world" where
  "finish_open dbType w =
     (case create_tables dbType w of
        (Inl e, w') \<Rightarrow> ((True, Some (ErrText (''Database create tables error: '' @ error_message e))), w')
      | (Inr _, w') \<Rightarrow> ((True, None), w'))"

definition open_with_fallback :: "string \<Rightarrow> string \<Rightarrow> string \<Rightarrow> world \<Rightarrow> opened \<times> world" where
  "open_with_fallback dbType other path w =
     (case sql_io (SqlOpen dbType path) w of
        (Inr _, w') \<Rightarrow> finish_open dbType w'
      | (Inl _, w') \<Rightarrow>
          (case sql_io (SqlOpen other path) w' of
             (Inr _, w'') \<Rightarrow> finish_open other w''
           | (Inl e, w'') \<Rightarrow> ((False, Some (ErrText (''Database file error: '' @ error_message e))), w'')))"

definition postgres_dsn :: "settings \<Rightarrow> string" where
  "postgres_dsn config =
     ''host='' @ PG_HOST config @ '' port='' @ int_digits (PG_PORT config) @ '' user='' @ PG_USER config
       @ '' password='' @ PG_PASS config @ '' dbname='' @ PG_DB_NAME config @ '' sslmode='' @ PG_SSL config
       @ '' pool_max_conns=10''"

definition connect_to_db :: "settings \<Rightarrow> world \<Rightarrow> opened \<times> world" where
  "connect_to_db config w =
     (if DB_TYPE config = ''genji'' then open_with_fallback ''genji'' ''sqlite'' (DB_FULL_FILE_PATH config) w
      else if DB_TYPE config = ''sqlite'' then open_with_fallback ''sqlite'' ''genji'' (DB_FULL_FILE_PATH config) w
      else if DB_TYPE config = ''postgres'' then
        (case sql_io (SqlOpen ''pgx'' (postgres_dsn config)) w of
           (Inl e, w') \<Rightarrow> ((False, Some (ErrText (''Database config error: '' @ error_message e))), w')
         | (Inr _, w') \<Rightarrow>
             (case sql_io SqlPing w' of
                (Inl e, w'') \<Rightarrow> ((True, Some (ErrText (''Database connect error: '' @ error_message e))), w'')
              | (Inr _, w'') \<Rightarrow> finish_open ''postgres'' w''))
      else ((False, Some (ErrText ''Please define valid dbtype (genji / sqlite)'')), w))"

text \<open>The frame of every \<open>...FromConfig\<close> function: connect, act, close. An error closes nothing.\<close>

definition with_db :: "settings \<Rightarrow> 'a io \<Rightarrow> 'a io" where
  "with_db config action w =
     (case connect_to_db config w of
        ((db, Some err), w') \<Rightarrow> (Inl err, w')
      | ((db, None), w') \<Rightarrow>
          if \<not> db then (Inl (ErrText ''database connection is nil''), w')
          else (case action w' of (r, w'') \<Rightarrow> (r, snd (sql_do SqlClose w''))))"

section \<open>Post revisions\<close>

text \<open>\<open>rand.Int(rand.Reader, 1<<62)\<close> reads eight bytes and keeps the low 62 bits.\<close>

fun be_value :: "string \<Rightarrow> nat" where
  "be_value [] = 0"
| "be_value (c # cs) = byte c * 256 ^ length cs + be_value cs"

definition random_post_id :: "int io" where
  "random_post_id = bind_io (rand_read 8) (\<lambda>bs. ret_io (int (be_value bs mod 2 ^ 62) + 1))"

text \<open>The id to insert: a given one, the database's own choice, or a random one.\<close>

definition insert_id :: "int \<Rightarrow> string \<Rightarrow> (sql_value \<times> int) io" where
  "insert_id i dbType =
     (if i \<noteq> 0 then ret_io (SqlInt i, i)
      else if dbType = ''sqlite'' then ret_io (SqlNull, 0)
      else bind_io random_post_id (\<lambda>r. ret_io (SqlInt r, r)))"

definition inserted_id :: "int \<Rightarrow> string \<Rightarrow> int \<Rightarrow> int" where
  "inserted_id i dbType lastID = (if i = 0 \<and> dbType = ''sqlite'' then lastID else i)"

definition max_revision_query :: "string \<Rightarrow> string" where
  "max_revision_query dbType =
     ''SELECT COALESCE(MAX(Revision), 0) + 1 FROM Post WHERE RequestUri = '' @ sql_placeholder dbType 1
       @ '' and Domain = '' @ sql_placeholder dbType 2"

definition post_insert :: "string \<Rightarrow> string" where
  "post_insert dbType =
     insert_into dbType ''Post''
       [''Id'', ''OwnerId'', ''EditorId'', ''DeleterId'', ''RequestUri'', ''Type'', ''Date'', ''Title'', ''Body'', ''Header'',
        ''Summary'', ''ShortText'', ''Tags'', ''Revision'', ''Domain'', ''Status'', ''Published''] 17"

definition post_args :: "sql_value \<Rightarrow> post \<Rightarrow> sql_value list" where
  "post_args insertID p =
     [insertID, SqlInt (Post_OwnerId p), SqlInt (Post_EditorId p), SqlInt (Post_DeleterId p),
      SqlText (Post_RequestUri p), SqlText (Post_Type p), SqlInt (Post_Date p), SqlText (Post_Title p),
      SqlText (Post_Body p), SqlText (Post_Header p), SqlText (Post_Summary p), SqlText (Post_ShortText p),
      SqlText (Post_Tags p), SqlInt (Post_Revision p), SqlText (Post_Domain p), SqlText (Post_Status p),
      SqlBool (Post_Published p)]"

text \<open>It runs under the keyed mutex for the page's domain and URI.\<close>

definition save_post_data_in_db :: "post \<Rightarrow> string \<Rightarrow> post io" where
  "save_post_data_in_db post dbType =
     in_tx
       (bind_io (bind_io (db_query_row (max_revision_query dbType) [SqlText (Post_RequestUri post), SqlText (Post_Domain post)])
                   (\<lambda>row. scanned (case row of [v] \<Rightarrow> scan_int v | _ \<Rightarrow> None))) (\<lambda>revision.
        let post = post\<lparr>Post_Revision := revision\<rparr> in
        bind_io (insert_id (Post_Id post) dbType) (\<lambda>(insertID, id).
        let post = post\<lparr>Post_Id := id\<rparr> in
        bind_io (db_exec (post_insert dbType) (post_args insertID post)) (\<lambda>lastID.
        ret_io (post\<lparr>Post_Id := inserted_id (Post_Id post) dbType lastID\<rparr>)))))"

definition save_post_revision_from_config :: "settings \<Rightarrow> post \<Rightarrow> post io" where
  "save_post_revision_from_config config post = with_db config (save_post_data_in_db post (DB_TYPE config))"

definition posts_query :: "string \<Rightarrow> string" where
  "posts_query dbType =
     ''SELECT COALESCE(Id, 0), COALESCE(OwnerId, 0), COALESCE(EditorId, 0), COALESCE(DeleterId, 0), COALESCE(RequestUri, ''
     @ [CHR 0x27, CHR 0x27] @ ''), COALESCE(Type, '' @ [CHR 0x27, CHR 0x27] @ ''), COALESCE(Date, 0), COALESCE(Title, ''
     @ [CHR 0x27, CHR 0x27] @ ''), COALESCE(Body, '' @ [CHR 0x27, CHR 0x27] @ ''), COALESCE(Header, ''
     @ [CHR 0x27, CHR 0x27] @ ''), COALESCE(Summary, '' @ [CHR 0x27, CHR 0x27] @ ''), COALESCE(ShortText, ''
     @ [CHR 0x27, CHR 0x27] @ ''), COALESCE(Tags, '' @ [CHR 0x27, CHR 0x27] @ ''), COALESCE(Revision, 0), COALESCE(Domain, ''
     @ [CHR 0x27, CHR 0x27] @ ''), COALESCE(Status, '' @ [CHR 0x27, CHR 0x27]
     @ ''), COALESCE(Published, false) FROM Post WHERE RequestUri = '' @ sql_placeholder dbType 1
     @ '' AND Domain = '' @ sql_placeholder dbType 2 @ '' ORDER BY Revision''"

definition scan_post :: "sql_value list \<Rightarrow> post option" where
  "scan_post row =
     (case row of
        [a, b, c, d, e, f, g, h, i, j, k, l, m, n, p, q, r] \<Rightarrow>
          Option.bind (scan_int a) (\<lambda>a. Option.bind (scan_int b) (\<lambda>b. Option.bind (scan_int c) (\<lambda>c.
          Option.bind (scan_int d) (\<lambda>d. Option.bind (scan_text e) (\<lambda>e. Option.bind (scan_text f) (\<lambda>f.
          Option.bind (scan_int g) (\<lambda>g. Option.bind (scan_text h) (\<lambda>h. Option.bind (scan_text i) (\<lambda>i.
          Option.bind (scan_text j) (\<lambda>j. Option.bind (scan_text k) (\<lambda>k. Option.bind (scan_text l) (\<lambda>l.
          Option.bind (scan_text m) (\<lambda>m. Option.bind (scan_int n) (\<lambda>n. Option.bind (scan_text p) (\<lambda>p.
          Option.bind (scan_text q) (\<lambda>q. Option.bind (scan_bool r) (\<lambda>r.
          Some \<lparr>Post_Id = a, Post_OwnerId = b, Post_EditorId = c, Post_DeleterId = d, Post_RequestUri = e,
             Post_Type = f, Post_Date = g, Post_Title = h, Post_Body = i, Post_Header = j, Post_Summary = k,
             Post_ShortText = l, Post_Tags = m, Post_Revision = n, Post_Domain = p, Post_Status = q,
             Post_Published = r\<rparr>)))))))))))))))))
      | _ \<Rightarrow> None)"

definition load_post_revisions_from_config :: "settings \<Rightarrow> string \<Rightarrow> string \<Rightarrow> post list io" where
  "load_post_revisions_from_config config requestURI domain =
     with_db config
       (bind_io (db_query (posts_query (DB_TYPE config)) [SqlText requestURI, SqlText domain])
          (each_io (\<lambda>row. scanned (scan_post row))))"

section \<open>Redirects\<close>

definition redirect_delete :: "string \<Rightarrow> string" where
  "redirect_delete dbType =
     ''DELETE FROM Redirect WHERE OldUri = '' @ sql_placeholder dbType 1 @ '' AND Domain = '' @ sql_placeholder dbType 2"

definition redirect_insert :: "string \<Rightarrow> string" where
  "redirect_insert dbType =
     insert_into dbType ''Redirect'' [''Id'', ''OldUri'', ''NewUri'', ''Date'', ''Status'', ''Domain''] 6"

definition redirect_args :: "sql_value \<Rightarrow> redirect \<Rightarrow> sql_value list" where
  "redirect_args insertID r =
     [insertID, SqlText (Redirect_OldUri r), SqlText (Redirect_NewUri r), SqlInt (Redirect_Date r),
      SqlText (Redirect_Status r), SqlText (Redirect_Domain r)]"

definition default_status :: "string \<Rightarrow> string" where
  "default_status s = (if s = '''' then ''active'' else s)"

text \<open>A date of 0 stands for now.\<close>

definition default_date :: "int \<Rightarrow> int io" where
  "default_date d = (if d = 0 then bind_io time_now (\<lambda>now. ret_io (unix_milli now)) else ret_io d)"

definition save_redirect_in_db :: "redirect \<Rightarrow> string \<Rightarrow> redirect io" where
  "save_redirect_in_db redirect dbType =
     (let redirect = redirect\<lparr>Redirect_Status := default_status (Redirect_Status redirect)\<rparr> in
      bind_io (default_date (Redirect_Date redirect)) (\<lambda>date.
      let redirect = redirect\<lparr>Redirect_Date := date\<rparr> in
      in_tx
        (bind_io (db_exec (redirect_delete dbType) [SqlText (Redirect_OldUri redirect), SqlText (Redirect_Domain redirect)]) (\<lambda>_.
         bind_io (insert_id (Redirect_Id redirect) dbType) (\<lambda>(insertID, id).
         let redirect = redirect\<lparr>Redirect_Id := id\<rparr> in
         bind_io (db_exec (redirect_insert dbType) (redirect_args insertID redirect)) (\<lambda>lastID.
         ret_io (redirect\<lparr>Redirect_Id := inserted_id (Redirect_Id redirect) dbType lastID\<rparr>)))))))"

definition save_redirect_from_config :: "settings \<Rightarrow> redirect \<Rightarrow> redirect io" where
  "save_redirect_from_config config redirect = with_db config (save_redirect_in_db redirect (DB_TYPE config))"

definition redirect_query :: "string \<Rightarrow> string" where
  "redirect_query dbType =
     ''SELECT COALESCE(Id, 0), COALESCE(OldUri, '' @ [CHR 0x27, CHR 0x27] @ ''), COALESCE(NewUri, ''
     @ [CHR 0x27, CHR 0x27] @ ''), COALESCE(Date, 0), COALESCE(Status, '' @ [CHR 0x27, CHR 0x27]
     @ ''), COALESCE(Domain, '' @ [CHR 0x27, CHR 0x27] @ '') FROM Redirect WHERE OldUri = '' @ sql_placeholder dbType 1
     @ '' AND Domain = '' @ sql_placeholder dbType 2 @ '' AND Status = '' @ CHR 0x27 # ''active''
     @ CHR 0x27 # '' ORDER BY Date DESC''"

definition scan_redirect :: "sql_value list \<Rightarrow> redirect option" where
  "scan_redirect row =
     (case row of
        [a, b, c, d, e, f] \<Rightarrow>
          Option.bind (scan_int a) (\<lambda>a. Option.bind (scan_text b) (\<lambda>b. Option.bind (scan_text c) (\<lambda>c.
          Option.bind (scan_int d) (\<lambda>d. Option.bind (scan_text e) (\<lambda>e. Option.bind (scan_text f) (\<lambda>f.
          Some \<lparr>Redirect_Id = a, Redirect_OldUri = b, Redirect_NewUri = c, Redirect_Date = d, Redirect_Status = e,
             Redirect_Domain = f\<rparr>))))))
      | _ \<Rightarrow> None)"

definition load_redirect_from_config :: "settings \<Rightarrow> string \<Rightarrow> string \<Rightarrow> redirect option io" where
  "load_redirect_from_config config oldURI domain =
     with_db config
       (catch_io (bind_io (db_query_row (redirect_query (DB_TYPE config)) [SqlText oldURI, SqlText domain])
                    (\<lambda>row. scanned (scan_redirect row)))
          (\<lambda>err. if errors_is err SqlErrNoRows then ret_io None else fail_io err)
          (\<lambda>redirect. ret_io (Some redirect)))"

section \<open>Media and templates\<close>

definition media_insert :: "string \<Rightarrow> string" where
  "media_insert dbType =
     insert_into dbType ''Media''
       [''Id'', ''Type'', ''Hash'', ''OriginalHash'', ''Format'', ''MimeType'', ''StoragePath'', ''Width'', ''Height'',
        ''Status'', ''Domain'', ''Day'', ''Date'', ''SizesArray'', ''Rating'', ''RatingCount'', ''RatingIP'', ''Views'',
        ''BytesUsed''] 19"

definition media_args :: "sql_value \<Rightarrow> media \<Rightarrow> sql_value list" where
  "media_args insertID m =
     [insertID, SqlText (Media_Type m), SqlText (Media_Hash m), SqlText (Media_OriginalHash m), SqlText (Media_Format m),
      SqlText (Media_MimeType m), SqlText (Media_StoragePath m), SqlInt (Media_Width m), SqlInt (Media_Height m),
      SqlText (Media_Status m), SqlText (Media_Domain m), SqlInt (Media_Day m), SqlInt (Media_Date m),
      SqlText (Media_SizesArray m), SqlReal (Media_Rating m), SqlInt (Media_RatingCount m), SqlText (Media_RatingIP m),
      SqlInt (Media_Views m), SqlInt (Media_BytesUsed m)]"

text \<open>\<open>YearDay\<close>: the day of the year, from 1.\<close>

definition day_from_unix_millis :: "int \<Rightarrow> int" where
  "day_from_unix_millis unixMillis =
     (let d = unixMillis div 86400000 + unix_epoch_day in d - year_start (year_of d) + 1)"

definition save_media_in_db :: "media \<Rightarrow> string \<Rightarrow> media io" where
  "save_media_in_db media dbType =
     (let media = media\<lparr>Media_Status := default_status (Media_Status media)\<rparr> in
      bind_io (default_date (Media_Date media)) (\<lambda>date.
      let media = media\<lparr>Media_Date := date,
            Media_Day := if Media_Day media = 0 then day_from_unix_millis date else Media_Day media\<rparr> in
      bind_io (insert_id (Media_Id media) dbType) (\<lambda>(insertID, id).
      let media = media\<lparr>Media_Id := id\<rparr> in
      bind_io (db_exec (media_insert dbType) (media_args insertID media)) (\<lambda>lastID.
      ret_io (media\<lparr>Media_Id := inserted_id (Media_Id media) dbType lastID\<rparr>)))))"

definition save_media_from_config :: "settings \<Rightarrow> media \<Rightarrow> media io" where
  "save_media_from_config config media = with_db config (save_media_in_db media (DB_TYPE config))"

definition template_insert :: "string \<Rightarrow> string" where
  "template_insert dbType = insert_into dbType ''Template'' [''Id'', ''Name'', ''Data'', ''Status'', ''Domain''] 5"

definition template_args :: "sql_value \<Rightarrow> template \<Rightarrow> sql_value list" where
  "template_args insertID t =
     [insertID, SqlText (Template_Name t), SqlText (Template_Data t), SqlText (Template_Status t), SqlText (Template_Domain t)]"

definition save_template_in_db :: "template \<Rightarrow> string \<Rightarrow> template io" where
  "save_template_in_db template dbType =
     (let template = template\<lparr>Template_Status := default_status (Template_Status template)\<rparr> in
      bind_io (insert_id (Template_Id template) dbType) (\<lambda>(insertID, id).
      let template = template\<lparr>Template_Id := id\<rparr> in
      bind_io (db_exec (template_insert dbType) (template_args insertID template)) (\<lambda>lastID.
      ret_io (template\<lparr>Template_Id := inserted_id (Template_Id template) dbType lastID\<rparr>))))"

definition save_template_from_config :: "settings \<Rightarrow> template \<Rightarrow> template io" where
  "save_template_from_config config template = with_db config (save_template_in_db template (DB_TYPE config))"

end
