(* ===== verification/PostStore.thy ===== *)
theory PostStore
  imports Database
begin

text \<open>
  What storing a post revision does to the database. The contract \<open>post_driver\<close> says what the code
  relies on of a transactional SQL database: only a successful commit changes the table, by the row of
  the insert, and the query for the next revision sees the table. Under it \<open>savePostDataInDB\<close> is an
  append of the next revision of the page, or nothing.
\<close>

section \<open>The contract of the driver\<close>

definition same_page :: "string \<Rightarrow> string \<Rightarrow> post \<Rightarrow> bool" where
  "same_page uri site p \<longleftrightarrow> Post_RequestUri p = uri \<and> Post_Domain p = site"

definition next_revision_in :: "post list \<Rightarrow> string \<Rightarrow> string \<Rightarrow> int" where
  "next_revision_in rows uri site =
     (case map Post_Revision (filter (same_page uri site) rows) of [] \<Rightarrow> 1 | r # rs \<Rightarrow> Max (set (r # rs)) + 1)"

definition reply_fails :: "sql_reply \<Rightarrow> bool" where
  "reply_fails r \<longleftrightarrow> (case r of SqlFail _ \<Rightarrow> True | _ \<Rightarrow> False)"

definition with_id :: "sql_value \<Rightarrow> int \<Rightarrow> post \<Rightarrow> post" where
  "with_id v lastID p = p\<lparr>Post_Id := (case v of SqlInt i \<Rightarrow> i | _ \<Rightarrow> lastID)\<rparr>"

definition open_tx :: "sql_call list \<Rightarrow> bool" where
  "open_tx h \<longleftrightarrow> find_first (\<lambda>c. c \<in> {SqlBegin, SqlCommit, SqlRollback}) (rev h) = Some SqlBegin"

lemma open_tx_simps [simp]:
  "open_tx (h @ [SqlBegin])" "\<not> open_tx (h @ [SqlCommit])" "\<not> open_tx (h @ [SqlRollback])"
  "open_tx (h @ [SqlQuery s a]) = open_tx h" "open_tx (h @ [SqlExec s a]) = open_tx h"
  by (simp_all add: open_tx_def)

definition post_driver :: "(sql_call list \<Rightarrow> sql_call \<Rightarrow> sql_reply) \<Rightarrow> (sql_call list \<Rightarrow> post list) \<Rightarrow> bool" where
  "post_driver eng rows \<longleftrightarrow>
     (\<forall>h. rows (h @ [SqlBegin]) = rows h \<and> rows (h @ [SqlRollback]) = rows h
       \<and> (\<forall>s a. rows (h @ [SqlQuery s a]) = rows h)
       \<and> (\<forall>s a. open_tx h \<longrightarrow> rows (h @ [SqlExec s a]) = rows h)
       \<and> (reply_fails (eng h SqlCommit) \<longrightarrow> rows (h @ [SqlCommit]) = rows h))
     \<and> (\<forall>h t uri site. let r = eng h (SqlQuery (max_revision_query t) [SqlText uri, SqlText site]) in
          reply_fails r \<or> r = SqlRows [[SqlInt (next_revision_in (rows h) uri site)]])
     \<and> (\<forall>h s a t v p lastID.
          let h1 = h @ [SqlBegin, SqlQuery s a]; ins = SqlExec (post_insert t) (post_args v p) in
          eng h1 ins = SqlDone lastID \<longrightarrow> \<not> reply_fails (eng (h1 @ [ins]) SqlCommit) \<longrightarrow>
          rows (h1 @ [ins, SqlCommit]) = rows h @ [with_id v lastID p])
     \<and> (\<forall>h t v p. let r = eng h (SqlExec (post_insert t) (post_args v p)) in reply_fails r \<or> (\<exists>i. r = SqlDone i))"

section \<open>Runs\<close>

lemma sql_io_run [simp]: "sql_io c w = (sql_result (driver w (sql_log w) c), w\<lparr>sql_log := sql_log w @ [c]\<rparr>)"
  by (simp add: sql_io_def sql_do_def)

lemma sql_result_cases:
  "reply_fails r \<Longrightarrow> \<exists>m. sql_result r = Inl (ErrText m)" "\<not> reply_fails r \<Longrightarrow> sql_result r = Inr r"
  by (auto simp: sql_result_def reply_fails_def split: sql_reply.splits)

text \<open>Operations that leave the log and the driver alone.\<close>

definition quiet :: "'a io \<Rightarrow> bool" where
  "quiet m \<longleftrightarrow> (\<forall>w. sql_log (snd (m w)) = sql_log w \<and> driver (snd (m w)) = driver w)"

lemma quietD: "quiet m \<Longrightarrow> m w = (r, w') \<Longrightarrow> sql_log w' = sql_log w \<and> driver w' = driver w"
  unfolding quiet_def by (metis snd_conv)

lemma quiet_ret [simp]: "quiet (ret_io v)" and quiet_fail [simp]: "quiet (fail_io e)"
  by (simp_all add: quiet_def ret_io_def fail_io_def)

lemma quiet_bind [intro]: "quiet m \<Longrightarrow> (\<And>v. quiet (f v)) \<Longrightarrow> quiet (bind_io m f)"
  unfolding quiet_def bind_io_def by (auto split: prod.split sum.split) (metis snd_conv)+

lemma quiet_rand [simp]: "quiet (rand_read n)"
  by (simp add: quiet_def rand_read_def Let_def split: option.split)

lemma quiet_time [simp]: "quiet time_now"
  by (simp add: quiet_def time_now_def)

lemma quiet_scanned [simp]: "quiet (scanned r)"
  by (simp add: scanned_def split: option.split)

lemma quiet_insert_id [simp]: "quiet (insert_id i t)"
  by (auto simp: insert_id_def random_post_id_def intro!: quiet_bind)

lemma random_post_id_range: "random_post_id w = (Inr i, w') \<Longrightarrow> 0 < i \<and> i \<le> 2 ^ 62"
proof -
  assume "random_post_id w = (Inr i, w')"
  then obtain bs where "i = int (be_value bs mod 2 ^ 62) + 1"
    by (auto simp: random_post_id_def bind_io_def ret_io_def split: prod.splits sum.splits)
  moreover have "be_value bs mod 2 ^ 62 < 2 ^ 62" by (rule mod_less_divisor) simp
  then have "int (be_value bs mod 2 ^ 62) < 2 ^ 62" by (metis of_nat_less_numeral_power_cancel_iff)
  ultimately show ?thesis by linarith
qed

text \<open>The id that is inserted is the id that is returned, unless the database chooses it.\<close>

lemma insert_id_run:
  "insert_id i t w = (Inr (v, k), w') \<Longrightarrow>
     (v = SqlInt k \<and> k \<noteq> 0) \<or> (v = SqlNull \<and> k = 0 \<and> t = ''sqlite'')"
  using random_post_id_range
  by (fastforce simp: insert_id_def bind_io_def ret_io_def split: if_splits prod.splits sum.splits)

definition post_body :: "post \<Rightarrow> string \<Rightarrow> post io" where
  "post_body post dbType =
     bind_io (bind_io (db_query_row (max_revision_query dbType) [SqlText (Post_RequestUri post), SqlText (Post_Domain post)])
                   (\<lambda>row. scanned (case row of [v] \<Rightarrow> scan_int v | _ \<Rightarrow> None))) (\<lambda>revision.
        let post = post\<lparr>Post_Revision := revision\<rparr> in
        bind_io (insert_id (Post_Id post) dbType) (\<lambda>(insertID, k).
        let post = post\<lparr>Post_Id := k\<rparr> in
        bind_io (db_exec (post_insert dbType) (post_args insertID post)) (\<lambda>lastID.
        ret_io (post\<lparr>Post_Id := inserted_id (Post_Id post) dbType lastID\<rparr>))))"

lemma save_post_body: "save_post_data_in_db post t = in_tx (post_body post t)"
  by (simp add: save_post_data_in_db_def post_body_def)

lemma driver_rows:
  assumes "post_driver eng rows"
  shows "rows (h @ [SqlBegin]) = rows h" "rows (h @ [SqlRollback]) = rows h" "rows (h @ [SqlQuery s a]) = rows h"
    "open_tx h \<Longrightarrow> rows (h @ [SqlExec s a]) = rows h"
    "reply_fails (eng h SqlCommit) \<Longrightarrow> rows (h @ [SqlCommit]) = rows h"
  using assms by (simp_all add: post_driver_def)

lemma driver_insert:
  "post_driver eng rows \<Longrightarrow> reply_fails (eng h (SqlExec (post_insert t) (post_args v p)))
     \<or> (\<exists>i. eng h (SqlExec (post_insert t) (post_args v p)) = SqlDone i)"
  by (simp add: post_driver_def Let_def)

lemma post_query_run:
  assumes "post_driver (driver w) rows"
    and "bind_io (db_query_row (max_revision_query t) [SqlText uri, SqlText site])
           (\<lambda>row. scanned (case row of [v] \<Rightarrow> scan_int v | _ \<Rightarrow> None)) w = (r, w')"
  shows "sql_log w' = sql_log w @ [SqlQuery (max_revision_query t) [SqlText uri, SqlText site]] \<and> driver w' = driver w
    \<and> (\<forall>n. r = Inr n \<longrightarrow> n = next_revision_in (rows (sql_log w)) uri site)"
proof -
  let ?q = "SqlQuery (max_revision_query t) [SqlText uri, SqlText site]"
  have "reply_fails (driver w (sql_log w) ?q) \<or>
      driver w (sql_log w) ?q = SqlRows [[SqlInt (next_revision_in (rows (sql_log w)) uri site)]]"
    using assms(1) by (simp add: post_driver_def Let_def)
  then show ?thesis
  proof
    assume "reply_fails (driver w (sql_log w) ?q)"
    from sql_result_cases(1) [OF this] assms(2) show ?thesis
      by (auto simp: db_query_row_def db_query_def bind_io_def)
  next
    assume "driver w (sql_log w) ?q = SqlRows [[SqlInt (next_revision_in (rows (sql_log w)) uri site)]]"
    with assms(2) show ?thesis
      by (auto simp: db_query_row_def db_query_def bind_io_def ret_io_def sql_result_def reply_rows_def scanned_def
          scan_int_def)
  qed
qed

text \<open>The transaction's body: it fails without changing the table, or ends with the insert.\<close>

definition inserted :: "string \<Rightarrow> world \<Rightarrow> world \<Rightarrow> int \<Rightarrow> post \<Rightarrow> post \<Rightarrow> bool" where
  "inserted t w w' n post p \<longleftrightarrow>
     (\<exists>s a v k lastID. let ins = SqlExec (post_insert t) (post_args v (post\<lparr>Post_Revision := n, Post_Id := k\<rparr>)) in
        sql_log w' = sql_log w @ [SqlQuery s a, ins] \<and> driver w (sql_log w @ [SqlQuery s a]) ins = SqlDone lastID
        \<and> p = with_id v lastID (post\<lparr>Post_Revision := n, Post_Id := k\<rparr>))"

lemma post_body_run:
  assumes contract: "post_driver (driver w) rows" and tx: "open_tx (sql_log w)"
    and run: "post_body post t w = (r, w')"
  shows "driver w' = driver w \<and> (case r of
      Inl e \<Rightarrow> rows (sql_log w') = rows (sql_log w)
    | Inr p \<Rightarrow> inserted t w w' (next_revision_in (rows (sql_log w)) (Post_RequestUri post) (Post_Domain post)) post p)"
proof -
  let ?n = "next_revision_in (rows (sql_log w)) (Post_RequestUri post) (Post_Domain post)"
  let ?args = "[SqlText (Post_RequestUri post), SqlText (Post_Domain post)]"
  let ?query = "bind_io (db_query_row (max_revision_query t) ?args)
      (\<lambda>row. scanned (case row of [v] \<Rightarrow> scan_int v | _ \<Rightarrow> None))"
  obtain r1 w1 where q: "?query w = (r1, w1)" by (cases "?query w")
  note q1 = post_query_run [OF contract q]
  have rows1: "rows (sql_log w1) = rows (sql_log w)" using q1 driver_rows(3) [OF contract] by simp
  show ?thesis
  proof (cases r1)
    case (Inl e)
    with run q rows1 q1 show ?thesis by (auto simp: post_body_def bind_io_def [of "?query"])
  next
    case (Inr n)
    then have n: "n = ?n" using q1 by simp
    let ?post1 = "post\<lparr>Post_Revision := n\<rparr>"
    obtain r2 w2 where i: "insert_id (Post_Id post) t w1 = (r2, w2)" by (cases "insert_id (Post_Id post) t w1")
    have w2: "sql_log w2 = sql_log w1" "driver w2 = driver w1" using quietD [OF quiet_insert_id i] by auto
    show ?thesis
    proof (cases r2)
      case E: (Inl e)
      with run q i Inr w2 rows1 q1 show ?thesis
        by (auto simp: post_body_def Let_def bind_io_def [of "?query"] bind_io_def [of "insert_id _ _"])
    next
      case V: (Inr vi)
      obtain v k where vi: "vi = (v, k)" by (cases vi)
      let ?post2 = "?post1\<lparr>Post_Id := k\<rparr>"
      let ?ins = "SqlExec (post_insert t) (post_args v ?post2)"
      have rest: "post_body post t w = bind_io (db_exec (post_insert t) (post_args v ?post2))
          (\<lambda>lastID. ret_io (?post2\<lparr>Post_Id := inserted_id k t lastID\<rparr>)) w2"
        using q Inr i V by (simp add: post_body_def Let_def bind_io_def [of "?query"] bind_io_def [of "insert_id _ _"] vi)
      have log2: "sql_log w2 = sql_log w @ [SqlQuery (max_revision_query t) ?args]" using w2 q1 by simp
      have drv: "driver w2 = driver w" using w2 q1 by simp
      consider "reply_fails (driver w (sql_log w2) ?ins)" | lastID where "driver w (sql_log w2) ?ins = SqlDone lastID"
        using driver_insert [OF contract] by blast
      then show ?thesis
      proof cases
        case 1
        have "open_tx (sql_log w2)" using tx by (simp add: log2)
        then have "rows (sql_log w2 @ [?ins]) = rows (sql_log w)"
          using driver_rows(4) [OF contract] w2 rows1 by simp
        with 1 sql_result_cases(1) [OF 1] run drv show ?thesis
          unfolding rest by (auto simp: db_exec_def bind_io_def)
      next
        case (2 lastID)
        have "inserted_id k t lastID = (case v of SqlInt i \<Rightarrow> i | _ \<Rightarrow> lastID)"
          using insert_id_run [OF i [unfolded V vi]] by (auto simp: inserted_id_def)
        then have "r = Inr (with_id v lastID ?post2) \<and> w' = w2\<lparr>sql_log := sql_log w2 @ [?ins]\<rparr>"
          using run 2 drv unfolding rest
          by (simp add: db_exec_def bind_io_def ret_io_def sql_result_def reply_id_def with_id_def)
        with 2 log2 drv show ?thesis
          by (auto simp: inserted_def Let_def n)
      qed
    qed
  qed
qed

lemma save_post_run:
  assumes contract: "post_driver (driver w) rows"
    and run: "save_post_data_in_db post t w = (r, w')"
  shows "case r of
      Inl e \<Rightarrow> rows (sql_log w') = rows (sql_log w)
    | Inr p \<Rightarrow> rows (sql_log w') = rows (sql_log w) @ [p]
        \<and> p = post\<lparr>Post_Id := Post_Id p,
             Post_Revision := next_revision_in (rows (sql_log w)) (Post_RequestUri post) (Post_Domain post)\<rparr>"
proof -
  let ?n = "next_revision_in (rows (sql_log w)) (Post_RequestUri post) (Post_Domain post)"
  let ?w1 = "w\<lparr>sql_log := sql_log w @ [SqlBegin]\<rparr>"
  note keep = driver_rows [OF contract]
  show ?thesis
  proof (cases "reply_fails (driver w (sql_log w) SqlBegin)")
    case True
    with sql_result_cases(1) [OF True] run keep show ?thesis
      by (auto simp: save_post_body in_tx_def bind_io_def)
  next
    case False
    obtain r1 w2 where body: "post_body post t ?w1 = (r1, w2)" by (cases "post_body post t ?w1")
    have c1: "post_driver (driver ?w1) rows" using contract by simp
    note b = post_body_run [OF c1 _ body]
    have rows1: "rows (sql_log ?w1) = rows (sql_log w)" using keep by simp
    have tail: "save_post_data_in_db post t w =
        (case r1 of Inl e \<Rightarrow> (Inl e, snd (sql_do SqlRollback w2)) | Inr v \<Rightarrow> bind_io (sql_io SqlCommit) (\<lambda>_. ret_io v) w2)"
      using False body sql_result_cases(2) [OF False]
      by (simp add: save_post_body in_tx_def bind_io_def split: sum.split)
    show ?thesis
    proof (cases r1)
      case (Inl e)
      with b run tail keep rows1 show ?thesis by (auto simp: sql_do_def)
    next
      case (Inr p)
      then have ins: "inserted t ?w1 w2 ?n post p" and drv: "driver w2 = driver w" using b rows1 by auto
      from ins obtain s a v k lastID where
        log: "sql_log w2 = sql_log w @ [SqlBegin, SqlQuery s a, SqlExec (post_insert t) (post_args v (post\<lparr>Post_Revision := ?n, Post_Id := k\<rparr>))]"
        and reply: "driver w (sql_log w @ [SqlBegin, SqlQuery s a]) (SqlExec (post_insert t) (post_args v (post\<lparr>Post_Revision := ?n, Post_Id := k\<rparr>))) = SqlDone lastID"
        and p: "p = with_id v lastID (post\<lparr>Post_Revision := ?n, Post_Id := k\<rparr>)"
        by (auto simp: inserted_def Let_def)
      show ?thesis
      proof (cases "reply_fails (driver w (sql_log w2) SqlCommit)")
        case True
        have "rows (sql_log w2) = rows (sql_log w)"
          using keep(4) [of "sql_log w @ [SqlBegin, SqlQuery s a]"] keep(1,3) unfolding log by (metis append.assoc append_Cons append_Nil open_tx_simps(1,4))
        with True sql_result_cases(1) [OF True] run tail Inr keep(5) drv show ?thesis
          by (auto simp: bind_io_def)
      next
        case C: False
        have "rows (sql_log w2 @ [SqlCommit]) = rows (sql_log w) @ [p]"
          using contract reply C unfolding post_driver_def Let_def log p by simp
        moreover have "p = post\<lparr>Post_Id := Post_Id p, Post_Revision := ?n\<rparr>" by (simp add: p with_id_def)
        ultimately show ?thesis
          using C sql_result_cases(2) [OF C] run tail Inr drv by (auto simp: bind_io_def ret_io_def)
      qed
    qed
  qed
qed


section \<open>Revision numbers\<close>

text \<open>The revisions of every page are 1, 2, 3, ... in the order in which they were stored.\<close>

definition revisions_numbered :: "post list \<Rightarrow> bool" where
  "revisions_numbered rows \<longleftrightarrow>
     (\<forall>uri site. let rs = map Post_Revision (filter (same_page uri site) rows) in rs = map int [1..<Suc (length rs)])"

lemma Max_upto: "Max (set (map int [1..<Suc (Suc n)])) = int (Suc n)"
  by (rule Max_eqI) auto

lemma next_revision_numbered:
  assumes "revisions_numbered rows"
  shows "next_revision_in rows uri site = int (length (filter (same_page uri site) rows)) + 1"
proof -
  define rs where "rs = map Post_Revision (filter (same_page uri site) rows)"
  have rs: "rs = map int [1..<Suc (length rs)]"
    using assms unfolding revisions_numbered_def Let_def rs_def by blast
  show ?thesis
  proof (cases "length rs")
    case 0
    then show ?thesis by (simp add: next_revision_in_def rs_def)
  next
    case (Suc n)
    then obtain r rs' where c: "rs = r # rs'" by (cases rs) auto
    have "Max (set rs) = int (length rs)"
      by (subst rs, simp only: Suc Max_upto)
    then show ?thesis
      unfolding next_revision_in_def rs_def [symmetric] c by (simp add: c rs_def [symmetric] flip: length_map [of Post_Revision])
  qed
qed


section \<open>A driver that keeps the contract\<close>

text \<open>A table in memory: its contents after a sequence of calls, and its answers.\<close>

definition post_of_args :: "sql_value list \<Rightarrow> int \<Rightarrow> post option" where
  "post_of_args args lastID =
     (case args of
        [v, SqlInt b, SqlInt c, SqlInt d, SqlText e, SqlText f, SqlInt g, SqlText h, SqlText i, SqlText j, SqlText k,
         SqlText l, SqlText m, SqlInt n, SqlText p, SqlText q, SqlBool r] \<Rightarrow>
          Some \<lparr>Post_Id = (case v of SqlInt a \<Rightarrow> a | _ \<Rightarrow> lastID), Post_OwnerId = b, Post_EditorId = c, Post_DeleterId = d,
            Post_RequestUri = e, Post_Type = f, Post_Date = g, Post_Title = h, Post_Body = i, Post_Header = j,
            Post_Summary = k, Post_ShortText = l, Post_Tags = m, Post_Revision = n, Post_Domain = p, Post_Status = q,
            Post_Published = r\<rparr>
      | _ \<Rightarrow> None)"

definition table_step :: "post list \<times> post list \<Rightarrow> sql_call \<Rightarrow> post list \<times> post list" where
  "table_step s c =
     (case c of
        SqlBegin \<Rightarrow> (fst s, [])
      | SqlExec q args \<Rightarrow>
          (case post_of_args args (int (length (fst s)) + 1) of None \<Rightarrow> s | Some p \<Rightarrow> (fst s, snd s @ [p]))
      | SqlCommit \<Rightarrow> (fst s @ snd s, [])
      | _ \<Rightarrow> s)"

definition table_rows :: "sql_call list \<Rightarrow> post list" where
  "table_rows h = fst (foldl table_step ([], []) h)"

definition table_driver :: "sql_call list \<Rightarrow> sql_call \<Rightarrow> sql_reply" where
  "table_driver h c =
     (case c of
        SqlQuery s args \<Rightarrow>
          (case args of
             [SqlText uri, SqlText site] \<Rightarrow> SqlRows [[SqlInt (next_revision_in (table_rows h) uri site)]]
           | _ \<Rightarrow> SqlRows [])
      | _ \<Rightarrow> SqlDone (int (length (table_rows h)) + 1))"

lemma table_rows_snoc:
  "table_rows (h @ [SqlBegin]) = table_rows h" "table_rows (h @ [SqlRollback]) = table_rows h"
  "table_rows (h @ [SqlQuery s a]) = table_rows h" "table_rows (h @ [SqlExec s a]) = table_rows h"
  by (simp_all add: table_rows_def table_step_def split: option.split)

lemma post_of_post_args: "post_of_args (post_args v p) lastID = Some (with_id v lastID p)"
  by (cases p) (simp add: post_of_args_def post_args_def with_id_def)

lemma table_driver_keeps: "post_driver table_driver table_rows"
proof -
  have "table_rows ((h @ [SqlBegin, SqlQuery s a]) @ [SqlExec q (post_args v p), SqlCommit])
      = table_rows h @ [with_id v (int (length (table_rows h)) + 1) p]" for h s a q v p
    by (cases "foldl table_step ([], []) h") (simp add: table_rows_def table_step_def post_of_post_args)
  moreover have "table_rows (h @ [SqlBegin, SqlQuery s a]) = table_rows h" for h s a
    using table_rows_snoc(3) [of "h @ [SqlBegin]"] table_rows_snoc(1) by simp
  ultimately show ?thesis
    by (simp add: post_driver_def Let_def table_rows_snoc table_driver_def reply_fails_def)
qed

definition demo_post :: post where
  "demo_post =
     \<lparr>Post_Id = 0, Post_OwnerId = 1, Post_EditorId = 1, Post_DeleterId = 0, Post_RequestUri = ''/a'', Post_Type = ''Wiki'',
      Post_Date = 0, Post_Title = ''A'', Post_Body = ''text'', Post_Header = '''', Post_Summary = '''',
      Post_ShortText = '''', Post_Tags = '''', Post_Revision = 0, Post_Domain = ''default'', Post_Status = ''active'',
      Post_Published = True\<rparr>"

definition table_world :: world where
  "table_world = demo_world\<lparr>driver := table_driver\<rparr>"



end
