(* ===== verification/DbWorker.thy ===== *)
theory DbWorker
  imports Database "HOL-Library.Multiset"
begin

text \<open>
  The background worker of \<open>pkg/database/database.go\<close>, which stores queued posts, as a step relation over
  the queue, the goroutines that wait to send and the worker's place; the start of the worker; and the
  log worker of \<open>pkg/mylog\<close>, which it reports to.
\<close>

section \<open>The start of the worker\<close>

text \<open>
  \<open>databaseWorkerRun\<close> defers the closing of the handle before it looks at the error; closing a handle that
  was never opened is a nil dereference, which ends the program.
\<close>

datatype worker_start = Connected | Unreachable | NilPanic

definition database_worker_start :: "settings \<Rightarrow> world \<Rightarrow> worker_start \<times> world" where
  "database_worker_start config w =
     (case connect_to_db config w of
        ((db, None), w') \<Rightarrow> (Connected, w')
      | ((db, Some err), w') \<Rightarrow> if db then (Unreachable, snd (sql_do SqlClose w')) else (NilPanic, w'))"

section \<open>The queue\<close>

text \<open>\<open>Submitted\<close> and \<open>Stored\<close> are ghosts: every post that was ever sent, every post that was saved.\<close>

datatype worker_place = Idle | Saving post | Down

record task_state =
  Queue :: "post list"
  Waiting :: "post list"
  Place :: worker_place
  Stored :: "post list"
  Submitted :: "post list"

definition queueCapacity :: nat where
  "queueCapacity = 1000000"

text \<open>A send that does not block, or a goroutine that waits to send.\<close>

definition requeue_task :: "post \<Rightarrow> task_state \<Rightarrow> task_state" where
  "requeue_task task s =
     (if length (Queue s) < queueCapacity then s\<lparr>Queue := Queue s @ [task]\<rparr>
      else s\<lparr>Waiting := Waiting s @ [task]\<rparr>)"

definition sqlite_busy :: "go_error \<Rightarrow> bool" where
  "sqlite_busy err = contains (error_message err) ''database is locked (5) (SQLITE_BUSY)''"

text \<open>\<open>saved\<close> is what the call of \<open>save\<close> has returned; the result is what the worker gets.\<close>

definition process_save_task :: "go_error option \<Rightarrow> post \<Rightarrow> task_state \<Rightarrow> go_error option \<times> task_state" where
  "process_save_task saved task s =
     (case saved of
        None \<Rightarrow> (None, s\<lparr>Stored := Stored s @ [task]\<rparr>)
      | Some err \<Rightarrow> if sqlite_busy err then (None, requeue_task task s) else (Some err, requeue_task task s))"

text \<open>
  One round of the watchdog, which it makes when it sees the queue empty: an error that is not a busy
  database is sent to the worker, which ends when it comes to receive it.
\<close>

definition watchdog_round :: "settings \<Rightarrow> unit io" where
  "watchdog_round config =
     bind_io time_now (\<lambda>now.
     catch_io (db_exec (''UPDATE DBWatchDog SET UnixTime = '' @ sql_placeholder (DB_TYPE config) 1 @ '' WHERE ID = 1'')
                 [SqlInt (unix_milli now)])
       (\<lambda>err. if \<not> sqlite_busy err then fail_io err else ret_io ())
       (\<lambda>_. ret_io ()))"

definition new_task_state :: task_state where
  "new_task_state = \<lparr>Queue = [], Waiting = [], Place = Down, Stored = [], Submitted = []\<rparr>"

inductive worker_step :: "task_state \<Rightarrow> task_state \<Rightarrow> bool" where
  submit: "worker_step s (requeue_task p (s\<lparr>Submitted := Submitted s @ [p]\<rparr>))"
| deliver: "Waiting s = p # ps \<Longrightarrow> length (Queue s) < queueCapacity \<Longrightarrow>
    worker_step s (s\<lparr>Queue := Queue s @ [p], Waiting := ps\<rparr>)"
| receive: "Place s = Idle \<Longrightarrow> Queue s = p # q \<Longrightarrow> worker_step s (s\<lparr>Queue := q, Place := Saving p\<rparr>)"
| process: "Place s = Saving p \<Longrightarrow> process_save_task saved p s = (err, s') \<Longrightarrow>
    worker_step s (s'\<lparr>Place := if err = None then Idle else Down\<rparr>)"
| watchdog: "Place s = Idle \<Longrightarrow> watchdog_round config w = (Inl err, w') \<Longrightarrow> worker_step s (s\<lparr>Place := Down\<rparr>)"
| respawn: "Place s = Down \<Longrightarrow> worker_step s (s\<lparr>Place := Idle\<rparr>)"

inductive_cases worker_stepE: "worker_step s s'"

inductive worker_run :: "task_state \<Rightarrow> bool" where
  start: "worker_run new_task_state"
| step: "worker_run s \<Longrightarrow> worker_step s s' \<Longrightarrow> worker_run s'"

definition in_hand :: "task_state \<Rightarrow> post list" where
  "in_hand s = (case Place s of Saving p \<Rightarrow> [p] | _ \<Rightarrow> [])"

definition all_tasks :: "task_state \<Rightarrow> post multiset" where
  "all_tasks s = mset (Queue s) + mset (Waiting s) + mset (in_hand s) + mset (Stored s)"

definition queue_inv :: "task_state \<Rightarrow> bool" where
  "queue_inv s \<longleftrightarrow> all_tasks s = mset (Submitted s) \<and> length (Queue s) \<le> queueCapacity"

lemma requeue_facts [simp]:
  "Place (requeue_task p s) = Place s" "Stored (requeue_task p s) = Stored s"
  "Submitted (requeue_task p s) = Submitted s"
  "mset (Queue (requeue_task p s)) + mset (Waiting (requeue_task p s)) = add_mset p (mset (Queue s) + mset (Waiting s))"
  "length (Queue s) \<le> queueCapacity \<Longrightarrow> length (Queue (requeue_task p s)) \<le> queueCapacity"
  by (auto simp: requeue_task_def)

lemma queue_inv_step: "worker_step s s' \<Longrightarrow> queue_inv s \<Longrightarrow> queue_inv s'"
proof (induction rule: worker_step.induct)
  case (submit s p)
  then show ?case by (simp add: queue_inv_def all_tasks_def in_hand_def)
next
  case (process s p saved err s')
  then show ?case
    by (cases saved) (auto simp: queue_inv_def all_tasks_def in_hand_def process_save_task_def split: if_splits)
qed (auto simp: queue_inv_def all_tasks_def in_hand_def)

text \<open>
  Property C24. The worker loses no post and invents none: at every moment every post that was sent is, as often as
  it was sent, in the channel, in a goroutine that waits to send, in the worker's hand or stored,
  however saving fails and however often the worker dies; and the channel never holds more than its
  capacity.
\<close>

theorem worker_loses_nothing:
  assumes "worker_run s"
  shows "mset (Submitted s) = mset (Queue s) + mset (Waiting s) + mset (in_hand s) + mset (Stored s)
    \<and> length (Queue s) \<le> queueCapacity"
proof -
  from assms have "queue_inv s"
  proof induction
    case start
    show ?case by (simp add: queue_inv_def all_tasks_def in_hand_def new_task_state_def)
  next
    case (step s s')
    then show ?case by (blast intro: queue_inv_step)
  qed
  then show ?thesis by (simp add: queue_inv_def all_tasks_def)
qed

section \<open>The log worker\<close>

text \<open>A message and whether it may repeat; what the worker prints, given the message printed last.\<close>

record log_data =
  logMessage :: string
  canRepeat :: bool

fun error_log_worker :: "string \<Rightarrow> log_data list \<Rightarrow> string list" where
  "error_log_worker previous [] = []"
| "error_log_worker previous (task # tasks) =
     (if \<not> canRepeat task \<and> previous = logMessage task then error_log_worker previous tasks
      else logMessage task # error_log_worker (logMessage task) tasks)"

definition print_once :: "string \<Rightarrow> log_data" where
  "print_once message = \<lparr>logMessage = message, canRepeat = False\<rparr>"

definition println :: "string \<Rightarrow> log_data" where
  "println message = \<lparr>logMessage = message, canRepeat = True\<rparr>"

text \<open>
  \<open>Printonce\<close> squeezes runs of the same message to one line: the lines of a sequence of such messages
  are the sequence without adjacent duplicates, of the messages after the line that was printed last.
  Messages of \<open>Println\<close> are all printed.
\<close>

theorem log_lines:
  "previous # error_log_worker previous (map print_once ms) = remdups_adj (previous # ms)
   \<and> error_log_worker previous (map println ms) = ms"
proof
  show "previous # error_log_worker previous (map print_once ms) = remdups_adj (previous # ms)"
  proof (induction ms arbitrary: previous)
    case (Cons m ms)
    from Cons [of previous] Cons [of m] show ?case by (simp add: print_once_def)
  qed simp
  show "error_log_worker previous (map println ms) = ms"
    by (induction ms arbitrary: previous) (simp_all add: println_def)
qed

section \<open>Failing connections\<close>

text \<open>
  An unknown database type ends the whole program: the worker panics on the handle that was never opened,
  although connecting returns an error that asks for a valid type.
\<close>

theorem unknown_db_type_panics:
  "fst (database_worker_start (flag_defaults\<lparr>DB_TYPE := ''mysql''\<rparr>) w) = NilPanic"
  by (simp add: database_worker_start_def connect_to_db_def flag_defaults_def)

text \<open>A driver that opens and refuses every statement.\<close>

definition refusing_driver :: "sql_call list \<Rightarrow> sql_call \<Rightarrow> sql_reply" where
  "refusing_driver h c = (case c of SqlExec s a \<Rightarrow> SqlFail ''disk full'' | _ \<Rightarrow> SqlDone 0)"

text \<open>
  A failure to create the tables leaks the connection: every operation opens the database, returns the
  error and never closes the handle.
\<close>

theorem failed_create_leaks:
  "\<exists>w e w'. load_post_revisions_from_config flag_defaults uri site w = (Inl e, w')
     \<and> sql_log w = [] \<and> SqlOpen ''genji'' '''' \<in> set (sql_log w') \<and> SqlClose \<notin> set (sql_log w')"
proof -
  let ?w = "demo_world\<lparr>driver := refusing_driver\<rparr>"
  have "\<exists>e w'. load_post_revisions_from_config flag_defaults uri site ?w = (Inl e, w')
     \<and> SqlOpen ''genji'' '''' \<in> set (sql_log w') \<and> SqlClose \<notin> set (sql_log w')"
    by (simp add: load_post_revisions_from_config_def with_db_def connect_to_db_def flag_defaults_def
        open_with_fallback_def sql_io_def sql_do_def demo_world_def refusing_driver_def sql_result_def finish_open_def
        create_tables_def Let_def db_exec_def bind_io_def)
  moreover have "sql_log ?w = []" by (simp add: demo_world_def)
  ultimately show ?thesis by blast
qed

section \<open>Witness\<close>

definition tiny_post :: post where
  "tiny_post =
     \<lparr>Post_Id = 0, Post_OwnerId = 1, Post_EditorId = 1, Post_DeleterId = 0, Post_RequestUri = ''/a'', Post_Type = ''Wiki'',
      Post_Date = 0, Post_Title = ''A'', Post_Body = ''text'', Post_Header = '''', Post_Summary = '''',
      Post_ShortText = '''', Post_Tags = '''', Post_Revision = 0, Post_Domain = ''default'', Post_Status = ''active'',
      Post_Published = True\<rparr>"

text \<open>One post is sent, received, and put back because saving fails.\<close>

definition retried_state :: task_state where
  "retried_state = \<lparr>Queue = [tiny_post], Waiting = [], Place = Down, Stored = [], Submitted = [tiny_post]\<rparr>"

lemma retried_run: "worker_run retried_state"
proof -
  let ?s1 = "new_task_state\<lparr>Place := Idle\<rparr>"
  let ?s2 = "requeue_task tiny_post (?s1\<lparr>Submitted := Submitted ?s1 @ [tiny_post]\<rparr>)"
  let ?s3 = "?s2\<lparr>Queue := [], Place := Saving tiny_post\<rparr>"
  have "worker_run ?s1" by (rule step [OF start respawn]) (simp add: new_task_state_def)
  then have 2: "worker_run ?s2" by (rule step [OF _ submit])
  have "Place ?s2 = Idle" "Queue ?s2 = [tiny_post]"
    by (simp_all add: requeue_task_def new_task_state_def queueCapacity_def)
  then have "worker_run ?s3" by (rule step [OF 2 receive])
  moreover have "Place ?s3 = Saving tiny_post" by simp
  ultimately have "worker_run ((snd (process_save_task (Some (ErrText ''io'')) tiny_post ?s3))\<lparr>Place := Down\<rparr>)"
    by (rule step [OF _ process [where saved = "Some (ErrText ''io'')" and err = "Some (ErrText ''io'')", simplified]])
      (simp add: process_save_task_def sqlite_busy_def error_message_def has_prefix_def)
  moreover have "(snd (process_save_task (Some (ErrText ''io'')) tiny_post ?s3))\<lparr>Place := Down\<rparr> = retried_state"
    by (simp add: process_save_task_def requeue_task_def new_task_state_def queueCapacity_def retried_state_def)
  ultimately show ?thesis by simp
qed

theorem worker_loses_nothing_witness: "mset (Submitted retried_state) = {#tiny_post#}"
  using worker_loses_nothing [OF retried_run] by (simp add: retried_state_def in_hand_def)

end
