(* ===== verification/FileFrame.thy ===== *)
theory FileFrame
  imports AtomicFile
begin

text \<open>
  What calls leave alone. The setting of a world is everything that no call changes; the clock and the random
  source only move on. A file system extends
  another when all that was there is still there, of the same kind: then every path that led
  somewhere leads there still. An atomic write extends the file system, and changes what was there
  only under the name that it writes.
\<close>

section \<open>The setting of a world\<close>

definition same_setting :: "world \<Rightarrow> world \<Rightarrow> bool" where
  "same_setting w w' \<longleftrightarrow> cwd w' = cwd w \<and> fault w' = fault w \<and> torn w' = torn w \<and> entropy w' = entropy w
     \<and> clock w' = clock w \<and> umask w' = umask w \<and> fastrand w' = fastrand w \<and> environ w' = environ w
     \<and> driver w' = driver w \<and> error_words w' = error_words w \<and> rands w \<le> rands w' \<and> ticks w \<le> ticks w'"

lemma same_setting_refl [simp]: "same_setting w w"
  by (simp add: same_setting_def)

lemma same_setting_trans: "same_setting a b \<Longrightarrow> same_setting b c \<Longrightarrow> same_setting a c"
  by (simp add: same_setting_def)

lemma same_setting_updates [simp]:
  "same_setting w (tick_sys w)" "same_setting w (put_node q n w)" "same_setting w (drop_node q w)"
  "same_setting w (w\<lparr>ticks := Suc (ticks w)\<rparr>)" "same_setting w (w\<lparr>rands := Suc (rands w)\<rparr>)"
  "same_setting w (w\<lparr>files := l\<rparr>)"
  "same_setting w (w\<lparr>sysno := t\<rparr>)" "same_setting w (w\<lparr>sql_log := log\<rparr>)"
  by (simp_all add: same_setting_def)

definition keeps :: "'a io \<Rightarrow> bool" where
  "keeps m \<longleftrightarrow> (\<forall>w. same_setting w (snd (m w)))"

lemma keepsD: "keeps m \<Longrightarrow> m w = (r, w') \<Longrightarrow> same_setting w w'"
  unfolding keeps_def by (metis snd_conv)

lemma keeps_basic [simp]: "keeps (ret_io v)" "keeps (fail_io e)" "keeps (lift_io r)"
  by (simp_all add: keeps_def ret_io_def fail_io_def lift_io_def)

lemma bind_io_simps [simp]: "bind_io (ret_io v) f = f v" "bind_io (fail_io e) f = fail_io e"
  by (simp_all add: fun_eq_iff bind_io_def ret_io_def fail_io_def)

lemma keeps_bind [intro]: "keeps m \<Longrightarrow> (\<And>v. keeps (f v)) \<Longrightarrow> keeps (bind_io m f)"
  unfolding keeps_def bind_io_def
  by (auto split: prod.split sum.split) (metis same_setting_trans snd_conv)+

lemma keeps_catch [intro]:
  "keeps m \<Longrightarrow> (\<And>e. keeps (h e)) \<Longrightarrow> (\<And>v. keeps (f v)) \<Longrightarrow> keeps (catch_io m h f)"
  unfolding keeps_def catch_io_def
  by (auto split: prod.split sum.split) (metis same_setting_trans snd_conv)+

lemma keeps_ignoring [intro]: "keeps m \<Longrightarrow> keeps k \<Longrightarrow> keeps (ignoring m k)"
  unfolding ignoring_def by (intro keeps_catch)

lemma keeps_sys [intro]: "(\<And>w. same_setting w (snd (op w))) \<Longrightarrow> keeps (sys_call op)"
  unfolding keeps_def sys_call_def
  by (auto split: option.split) (metis same_setting_trans same_setting_updates(1) snd_conv)

lemma keeps_pure [simp]: "keeps time_now" "keeps (rand_read n)" "keeps next_random"
  by (simp_all add: keeps_def time_now_def rand_read_def next_random_def Let_def split: option.split)

lemma same_setting_result [simp]: "same_setting w (snd (sys_result r w))" "same_setting w (snd (ret_io v w))"
  by (simp_all add: ret_io_def)

lemma keeps_calls [simp]:
  "keeps os_getwd" "keeps (os_lstat p)" "keeps (os_stat p)" "keeps (os_read_file p)" "keeps (eval_symlinks p)"
  "keeps (os_mkdir p perm)" "keeps (open_excl p perm)" "keeps (file_chmod q perm)"
  "keeps (file_sync q)" "keeps (file_close q)" "keeps (os_open p)" "keeps (os_chmod p perm)"
  "keeps (sys_unlink p)" "keeps (sys_rmdir p)"
  unfolding os_getwd_def os_lstat_def os_stat_def os_read_file_def eval_symlinks_def os_mkdir_def open_excl_def
    file_chmod_def file_sync_def file_close_def os_open_def os_chmod_def sys_unlink_def sys_rmdir_def
  by (rule keeps_sys; simp split: sum.split option.split node.split)+

lemma reads_pure [simp]: "reads time_now" "reads (rand_read n)" "reads next_random"
  by (simp_all add: reads_def same_files_def time_now_def rand_read_def next_random_def Let_def split: option.split)

lemma keeps_file_write [simp]: "keeps (file_write q data)"
  by (simp add: keeps_def file_write_def Let_def same_setting_def split: option.split node.split)

lemma keeps_rename [simp]: "keeps (sys_rename p q)" "keeps (os_rename p q)"
proof -
  show a: "keeps (sys_rename p q)"
    unfolding sys_rename_def
    by (rule keeps_sys) (auto split: sum.split option.split node.split
        simp: rename_node_def move_node_def Let_def same_setting_def)
  show "keeps (os_rename p q)"
    unfolding os_rename_def
  proof (intro keeps_catch keeps_calls a)
    fix n
    let ?k = "\<lambda>_ w. if q = p \<or> \<not> same_file w q p then (Inl (SysErr EEXIST), w) else sys_rename p q w"
    have "keeps (?k v)" for v :: node
      using a by (simp add: keeps_def)
    then show "keeps (if is_dir n then catch_io (os_lstat p) fail_io ?k else sys_rename p q)"
      by (auto intro!: keeps_catch a)
  qed
qed

lemma keeps_mkdir_all [simp]: "keeps (os_mkdir_all p perm)"
proof -
  have "keeps (mkdir_all perm p)"
  proof (induction perm p rule: mkdir_all.induct)
    case (1 perm p)
    show ?case
      by (subst mkdir_all.simps) (auto intro!: keeps_catch keeps_bind intro: "1.IH" split: option.split)
  qed
  then show ?thesis by (simp add: os_mkdir_all_def)
qed

lemma keeps_create_temp_try: "keeps (create_temp_try n pre suf)"
proof (induction n)
  case 0
  show ?case by (subst create_temp_try.simps) (auto intro!: keeps_catch keeps_bind simp: Let_def)
next
  case (Suc n)
  then show ?case by (subst create_temp_try.simps) (auto intro!: keeps_catch keeps_bind simp: Let_def)
qed

lemma keeps_create_temp [simp]: "keeps (os_create_temp d a b)"
  by (simp add: os_create_temp_def keeps_create_temp_try)

lemma keeps_remove [simp]: "keeps (os_remove p)"
  unfolding os_remove_def by (intro keeps_catch) (auto intro!: keeps_catch)

lemma keeps_sync_dir [simp]: "keeps (sync_dir d)"
  unfolding sync_dir_def by (intro keeps_bind keeps_catch keeps_ignoring) auto

lemma keeps_atomic_write [simp]: "keeps (atomic_write_file p data mode)"
  unfolding atomic_write_file_def fill_and_rename_def
  by (auto intro!: keeps_bind keeps_catch keeps_ignoring split: prod.split)

section \<open>Extensions of a file system\<close>

fun alike :: "node \<Rightarrow> node \<Rightarrow> bool" where
  "alike (NDir m) n = is_dir n"
| "alike (NFile m b) n = (\<exists>m' b'. n = NFile m' b')"
| "alike (NLink t) n = (n = NLink t)"

lemma alike_refl [simp]: "alike n n"
  by (cases n) simp_all

definition extends :: "file_system \<Rightarrow> file_system \<Rightarrow> bool" where
  "extends f g \<longleftrightarrow> (\<forall>p n. f p = Some n \<longrightarrow> (\<exists>n'. g p = Some n' \<and> alike n n'))"

lemma extends_refl [simp]: "extends f f"
  by (auto simp: extends_def)

lemma extendsD: "extends f g \<Longrightarrow> f p = Some n \<Longrightarrow> \<exists>n'. g p = Some n' \<and> alike n n'"
  by (simp add: extends_def)

lemma alike_trans: "alike a b \<Longrightarrow> alike b c \<Longrightarrow> alike a c"
  by (cases a; cases b) (auto simp: is_dir_iff)

lemma extends_trans: "extends f g \<Longrightarrow> extends g h \<Longrightarrow> extends f h"
  unfolding extends_def using alike_trans by metis

lemma extends_dirs: "dirs_added f g \<Longrightarrow> extends f g"
  unfolding extends_def dirs_added_def by (metis alike_refl option.distinct(1))

lemma extends_put: "(\<And>n. f q = Some n \<Longrightarrow> alike n x) \<Longrightarrow> extends f (f(q \<mapsto> x))"
  by (auto simp: extends_def)

text \<open>A path that leads to something leads there in every extension.\<close>

lemma resolve_extends:
  "extends f g \<Longrightarrow> resolve f fl k cur cs = Inr q \<Longrightarrow> f q \<noteq> None \<Longrightarrow> resolve g fl k cur cs = Inr q"
proof (induction f fl k cur cs rule: resolve.induct)
  case (1 f follow links cur)
  then show ?case by simp
next
  case (2 f follow links cur c cs)
  show ?case
  proof (cases "c = [] \<or> c = ''.'' \<or> c = ''..''")
    case True
    with 2 show ?thesis by (auto simp: resolve.simps(2) split: if_splits)
  next
    case False
    then have ne: "\<not> (c = [] \<or> c = ''.'')" "c \<noteq> ''..''" by auto
    obtain n where n: "f (cur @ [c]) = Some n"
      using "2.prems" ne by (cases "f (cur @ [c])") (auto simp: resolve.simps(2) split: if_splits)
    with "2.prems"(1) obtain n' where n': "g (cur @ [c]) = Some n'" "alike n n'" by (auto dest: extendsD)
    show ?thesis
    proof (cases n)
      case (NDir m)
      with n' obtain m' where "n' = NDir m'" by (auto simp: is_dir_iff)
      with "2.IH"(3) [OF ne n] NDir "2.prems" ne n n' show ?thesis by (simp add: resolve.simps(2))
    next
      case (NFile m b)
      with "2.prems" ne n n' show ?thesis by (auto simp: resolve.simps(2) split: if_splits)
    next
      case (NLink t)
      with n' have "n' = NLink t" by simp
      show ?thesis
      proof (cases "cs = [] \<and> \<not> follow")
        case True
        with NLink \<open>n' = NLink t\<close> "2.prems" ne n n' show ?thesis by (simp add: resolve.simps(2))
      next
        case False
        then obtain l where l: "links = Suc l"
          using "2.prems"(2) ne n NLink by (cases links) (auto simp: resolve.simps(2))
        have "resolve f follow l (if is_abs t then [] else cur) (split_on (CHR ''/'') t @ cs) = Inr q"
          using "2.prems"(2) ne n NLink False l by (simp add: resolve.simps(2) cong: if_cong)
        from "2.IH"(4) [OF ne n NLink False l "2.prems"(1) this "2.prems"(3)] show ?thesis
          using ne n' \<open>n' = NLink t\<close> False l by (auto simp: resolve.simps(2))
      qed
    qed
  qed
qed

lemma kernel_path_extends:
  "extends (fs w) (fs w') \<Longrightarrow> cwd w' = cwd w \<Longrightarrow> kernel_path w fl p = Inr q \<Longrightarrow> fs w q \<noteq> None \<Longrightarrow>
     kernel_path w' fl p = Inr q"
  by (auto simp: kernel_path_def intro: resolve_extends split: if_splits)

text \<open>What the name of a file reads as.\<close>

definition reads_as :: "world \<Rightarrow> string \<Rightarrow> string \<Rightarrow> bool" where
  "reads_as w p b \<longleftrightarrow> (\<exists>m. node_at w True p = Inr (NFile m b))"

lemma read_file_iff:
  "os_read_file p w = (Inr b, w') \<longleftrightarrow> fault w (sysno w) = None \<and> reads_as w p b \<and> w' = tick_sys w"
  by (auto simp: os_read_file_def sys_call_def sys_result_def reads_as_def split: option.splits sum.splits node.splits)

text \<open>A name that no symbolic link has.\<close>

definition no_link_named :: "string \<Rightarrow> world \<Rightarrow> bool" where
  "no_link_named n w \<longleftrightarrow> (\<forall>q t. fs w q = Some (NLink t) \<longrightarrow> last q \<noteq> n)"

text \<open>
  The outcome of an atomic write, from the outside: the file system has been extended, what was there under
  other names is as it was, and no link has come to be.
\<close>

lemma atomic_write_cases:
  assumes p: "file_path p" and run: "atomic_write_file p data mode w = (r, w')" and nl: "no_link_named (path_base p) w"
  obtains (undone) "dirs_added (fs w) (fs w')" "r \<noteq> Inr ()"
    | (written) F q where "dirs_added (fs w) F" "last q = path_base p" "fs w' = F(q \<mapsto> NFile mode data)"
        "reads_as w' p data" "\<And>n. F q = Some n \<Longrightarrow> \<exists>m b. n = NFile m b" "located F (cwd w) p = Inr q"
    | (left) F q m b where "dirs_added (fs w) F" "F q = None" "fs w' = F(q \<mapsto> NFile m b)" "r \<noteq> Inr ()"
proof -
  from atomic_write_run [OF p run] obtain F where F: "dirs_added (fs w) F"
    and c: "(fs w' = F \<and> r \<noteq> Inr ())
       \<or> (\<exists>q. located F (cwd w) p = Inr q \<and> last q = path_base p \<and> (\<forall>k. F q \<noteq> Some (NDir k)) \<and> fs w' = F(q \<mapsto> NFile mode data)
            \<and> ((\<forall>t. fs w q \<noteq> Some (NLink t)) \<longrightarrow> node_at w' True p = Inr (NFile mode data)))
       \<or> (\<exists>q m b. F q = None \<and> fs w' = F(q \<mapsto> NFile m b) \<and> r \<noteq> Inr ())"
    by blast
  from c consider "fs w' = F" "r \<noteq> Inr ()"
    | q where "located F (cwd w) p = Inr q" "last q = path_base p" "fs w' = F(q \<mapsto> NFile mode data)" "reads_as w' p data"
        "\<And>k. F q \<noteq> Some (NDir k)" "\<And>t. fs w q \<noteq> Some (NLink t)"
    | q m b where "F q = None" "fs w' = F(q \<mapsto> NFile m b)" "r \<noteq> Inr ()"
    using nl unfolding no_link_named_def reads_as_def by metis
  then show thesis
  proof cases
    case 1
    with F show thesis by (intro undone) simp_all
  next
    case 2
    have "\<exists>m b. n = NFile m b" if "F q = Some n" for n
      using F that 2(5,6) unfolding dirs_added_def by (cases n) (metis node.distinct(3) option.inject)+
    then show thesis by (intro written [OF F 2(2-4) _ 2(1)]) auto
  next
    case 3
    with F show thesis by (blast intro: left)
  qed
qed

lemma dirs_addedD: "dirs_added f g \<Longrightarrow> f q = Some n \<Longrightarrow> g q = Some n"
  unfolding dirs_added_def by (metis option.distinct(1))

lemma dirs_added_link: "dirs_added f g \<Longrightarrow> g q = Some (NLink t) \<Longrightarrow> f q = Some (NLink t)"
  unfolding dirs_added_def by (metis node.distinct(3) option.inject)

lemma atomic_write_frame:
  assumes p: "file_path p" and run: "atomic_write_file p data mode w = (r, w')" and nl: "no_link_named (path_base p) w"
  shows "extends (fs w) (fs w')"
    and "\<And>q n. fs w q = Some n \<Longrightarrow> last q \<noteq> path_base p \<Longrightarrow> fs w' q = Some n"
    and "\<And>q t. fs w' q = Some (NLink t) \<Longrightarrow> fs w q = Some (NLink t)"
    and "r = Inr () \<Longrightarrow> reads_as w' p data"
    and "\<And>q n. fs w q = Some n \<Longrightarrow> fs w' q = Some n \<or> fs w' q = Some (NFile mode data)"
proof -
  have step: "extends (fs w) (fs w') \<and> (\<forall>q n. fs w q = Some n \<longrightarrow> last q \<noteq> path_base p \<longrightarrow> fs w' q = Some n)
      \<and> (\<forall>q t. fs w' q = Some (NLink t) \<longrightarrow> fs w q = Some (NLink t)) \<and> (r = Inr () \<longrightarrow> reads_as w' p data)
      \<and> (\<forall>q n. fs w q = Some n \<longrightarrow> fs w' q = Some n \<or> fs w' q = Some (NFile mode data))"
    using p run nl
  proof (cases rule: atomic_write_cases)
    case undone
    then show ?thesis
      using extends_dirs [OF undone(1)] dirs_addedD [OF undone(1)] dirs_added_link [OF undone(1)] by blast
  next
    case (written F q)
    have "extends F (fs w')"
      unfolding written(3) by (rule extends_put) (use written(5) in fastforce)
    with extends_dirs [OF written(1)] have ext: "extends (fs w) (fs w')" by (rule extends_trans)
    have old: "fs w' u = Some n" if "fs w u = Some n" "u \<noteq> q" for u n
      using that written(3) dirs_addedD [OF written(1)] by simp
    have link: "fs w u = Some (NLink t)" if "fs w' u = Some (NLink t)" for u t
      using that written(3) by (intro dirs_added_link [OF written(1)]) (auto split: if_splits)
    have other: "fs w' u = Some n" if "fs w u = Some n" "last u \<noteq> path_base p" for u n
      using that written(2) by (intro old) auto
    have either: "fs w' u = Some n \<or> fs w' u = Some (NFile mode data)" if "fs w u = Some n" for u n
      using that written(3) old by (cases "u = q") auto
    show ?thesis using ext other link either written(4) by blast
  next
    case (left F q m b)
    have old: "fs w' u = Some n" if "fs w u = Some n" for u n
      using dirs_addedD [OF left(1) that] left(2,3) by auto
    then have "extends (fs w) (fs w')" unfolding extends_def using alike_refl by blast
    moreover have "fs w u = Some (NLink t)" if "fs w' u = Some (NLink t)" for u t
      using that left(3) by (intro dirs_added_link [OF left(1)]) (auto split: if_splits)
    ultimately show ?thesis using old left(4) by blast
  qed
  show "extends (fs w) (fs w')" using step by blast
  show "\<And>q n. fs w q = Some n \<Longrightarrow> last q \<noteq> path_base p \<Longrightarrow> fs w' q = Some n" using step by blast
  show "\<And>q t. fs w' q = Some (NLink t) \<Longrightarrow> fs w q = Some (NLink t)" using step by blast
  show "r = Inr () \<Longrightarrow> reads_as w' p data" using step by blast
  show "\<And>q n. fs w q = Some n \<Longrightarrow> fs w' q = Some n \<or> fs w' q = Some (NFile mode data)" using step by blast
qed

text \<open>So a file that could be read can be read, and reads as before or as what was written.\<close>

lemma atomic_write_reads:
  assumes "file_path p" "atomic_write_file p data mode w = (r, w')" "no_link_named (path_base p) w" "reads_as w u b"
  shows "reads_as w' u b \<or> reads_as w' u data"
proof -
  obtain q m where q: "kernel_path w True u = Inr q" "fs w q = Some (NFile m b)"
    using assms(4) by (auto simp: reads_as_def node_at_Inr)
  have "cwd w' = cwd w" using keepsD [OF keeps_atomic_write assms(2)] by (simp add: same_setting_def)
  then have "kernel_path w' True u = Inr q"
    using kernel_path_extends [OF atomic_write_frame(1) [OF assms(1-3)]] q by simp
  then show ?thesis
    using atomic_write_frame(5) [OF assms(1-3) q(2)] by (auto simp: reads_as_def node_at_Inr)
qed

lemma no_link_named_kept:
  "file_path p \<Longrightarrow> atomic_write_file p data mode w = (r, w') \<Longrightarrow> no_link_named (path_base p) w \<Longrightarrow>
     no_link_named n w \<Longrightarrow> no_link_named n w'"
  unfolding no_link_named_def [of n] using atomic_write_frame(3) by blast

section \<open>Harmless calls\<close>

text \<open>Calls that change no file's contents and no link: reading, making directories, setting permissions.\<close>

definition same_contents :: "world \<Rightarrow> world \<Rightarrow> bool" where
  "same_contents w w' \<longleftrightarrow> same_setting w w' \<and> extends (fs w) (fs w')
     \<and> (\<forall>q m b. fs w q = Some (NFile m b) \<longrightarrow> (\<exists>m'. fs w' q = Some (NFile m' b)))
     \<and> (\<forall>q t. fs w' q = Some (NLink t) \<longrightarrow> fs w q = Some (NLink t))"

lemma same_contents_refl [simp]: "same_contents w w"
  by (simp add: same_contents_def)

lemma same_contents_trans: "same_contents a b \<Longrightarrow> same_contents b c \<Longrightarrow> same_contents a c"
  unfolding same_contents_def using same_setting_trans extends_trans by blast

lemma same_contents_files: "same_setting w w' \<Longrightarrow> same_files w w' \<Longrightarrow> same_contents w w'"
  by (auto simp: same_contents_def same_files_simps)

definition harmless :: "'a io \<Rightarrow> bool" where
  "harmless m \<longleftrightarrow> (\<forall>w. same_contents w (snd (m w)))"

lemma harmlessD: "harmless m \<Longrightarrow> m w = (r, w') \<Longrightarrow> same_contents w w'"
  unfolding harmless_def by (metis snd_conv)

lemma harmless_reads: "keeps m \<Longrightarrow> reads m \<Longrightarrow> harmless m"
  by (simp add: harmless_def keeps_def reads_def same_contents_files)

lemma harmless_bind [intro]: "harmless m \<Longrightarrow> (\<And>v. harmless (f v)) \<Longrightarrow> harmless (bind_io m f)"
  unfolding harmless_def bind_io_def
  by (auto split: prod.split sum.split) (metis same_contents_trans snd_conv)+

lemma harmless_catch [intro]:
  "harmless m \<Longrightarrow> (\<And>e. harmless (h e)) \<Longrightarrow> (\<And>v. harmless (f v)) \<Longrightarrow> harmless (catch_io m h f)"
  unfolding harmless_def catch_io_def
  by (auto split: prod.split sum.split) (metis same_contents_trans snd_conv)+

lemma harmless_mkdir_all [simp]: "harmless (os_mkdir_all p perm)"
  unfolding harmless_def
proof
  fix w
  obtain r w' where run: "os_mkdir_all p perm w = (r, w')" by (cases "os_mkdir_all p perm w")
  then have d: "dirs_added (fs w) (fs w')"
    using mkdir_all_run [of perm p w r w'] by (simp add: os_mkdir_all_def)
  have "same_contents w w'"
    unfolding same_contents_def
    using keepsD [OF keeps_mkdir_all run] extends_dirs [OF d] dirs_addedD [OF d] dirs_added_link [OF d] by blast
  then show "same_contents w (snd (os_mkdir_all p perm w))" by (simp add: run)
qed

lemma harmless_chmod [simp]: "harmless (os_chmod p perm)"
  unfolding harmless_def
proof
  fix w
  obtain r w' where run: "os_chmod p perm w = (r, w')" by (cases "os_chmod p perm w")
  from sys_call_cases [OF run [unfolded os_chmod_def]]
  consider "fs w' = fs w" | q m b where "fs w q = Some (NFile m b)" "fs w' = (fs w)(q \<mapsto> NFile perm b)"
    | q m where "fs w q = Some (NDir m)" "fs w' = (fs w)(q \<mapsto> NDir perm)"
    by (auto split: sum.splits option.splits node.splits)
  then have "same_contents w w'"
    using keepsD [OF keeps_calls(12) run]
    by cases (auto simp: same_contents_def extends_def split: if_splits)
  then show "same_contents w (snd (os_chmod p perm w))" by (simp add: run)
qed

lemma same_contents_reads: "same_contents w w' \<Longrightarrow> reads_as w p b \<Longrightarrow> reads_as w' p b"
proof -
  assume s: "same_contents w w'" and "reads_as w p b"
  then obtain q m where q: "kernel_path w True p = Inr q" "fs w q = Some (NFile m b)"
    by (auto simp: reads_as_def node_at_Inr)
  then have "kernel_path w' True p = Inr q"
    using kernel_path_extends [of w w' True p q] s by (simp add: same_contents_def same_setting_def)
  with s q(2) show ?thesis by (auto simp: reads_as_def node_at_Inr same_contents_def)
qed

lemma same_contents_no_link: "same_contents w w' \<Longrightarrow> no_link_named n w \<Longrightarrow> no_link_named n w'"
  unfolding same_contents_def no_link_named_def by blast

end
