(* ===== verification/Archive.thy ===== *)
theory Archive
  imports FileFrame Config Crypto
begin

text \<open>
  Where the server keeps its own files: the archive of a site, which is beside the database and outside of the
  site, and the names in it (\<open>pkg/webserver/functions.go\<close>, \<open>auth_store.go\<close>). Every file in it is
  written by \<open>atomicWriteFile\<close>; the lemmas here say that its names are cleaned ones.
\<close>

section \<open>Paths\<close>

definition site_hash :: "string \<Rightarrow> string" where
  "site_hash sitePath = take 16 (hex_encode (sha256 sitePath))"

definition archive_root :: "settings \<Rightarrow> string" where
  "archive_root c =
     (let dbPath = DB_FILE_PATH c;
          dbPath = (if dbPath = '''' \<and> DB_FULL_FILE_PATH c \<noteq> '''' then path_dir (DB_FULL_FILE_PATH c) else dbPath);
          dbPath = (if dbPath = '''' then ''.'' else dbPath)
      in path_join [dbPath, ''sitebrush-archives'', site_hash (WEB_FILE_PATH c)])"

definition content_checksum :: "string \<Rightarrow> string" where
  "content_checksum content = hex_encode (sha256 content)"

definition safe_archive_name :: "string \<Rightarrow> string" where
  "safe_archive_name requestURI =
     (let cleaned = path_clean (''/'' @ trim_prefix requestURI ''/'');
          safeName = trim_bytes (replace_byte cleaned (CHR ''/'') (CHR ''_'')) ''_'';
          safeName = (if safeName = '''' then ''index'' else safeName)
      in safeName @ ''-'' @ take 12 (hex_encode (sha256 cleaned)))"

definition revision_dir :: "settings \<Rightarrow> string \<Rightarrow> string" where
  "revision_dir c requestURI =
     (let safeName = trim_bytes (replace_byte (path_clean (''/'' @ trim_prefix requestURI ''/'')) (CHR ''/'') (CHR ''_'')) ''_'';
          safeName = (if safeName = '''' then ''index'' else safeName)
      in path_join [archive_root c, ''revisions'', safeName])"

definition revision_lock_key :: "settings \<Rightarrow> string \<Rightarrow> string" where
  "revision_lock_key c requestURI = path_clean (revision_dir c requestURI)"

definition metadata_path :: "settings \<Rightarrow> string \<Rightarrow> string" where
  "metadata_path c requestURI = path_join [archive_root c, ''metadata'', safe_archive_name requestURI @ ''.json'']"

definition redirects_path :: "settings \<Rightarrow> string" where
  "redirects_path c = path_join [archive_root c, ''redirects.json'']"

definition state_path :: "settings \<Rightarrow> string" where
  "state_path c = path_join [archive_root c, ''site-state.json'']"

definition published_root :: "settings \<Rightarrow> string" where
  "published_root c = path_join [archive_root c, ''published'']"

definition published_media_root :: "settings \<Rightarrow> string \<Rightarrow> string" where
  "published_media_root c host = path_join [published_root c, ''.sitebrush-media'', ''domains'', host, ''media'']"

definition auth_store_path :: "settings \<Rightarrow> string" where
  "auth_store_path c = path_join [archive_root c, ''auth'', ''users.json'']"

section \<open>Joined paths are cleaned\<close>

lemma clean_comps_snoc: "proper n \<Longrightarrow> clean_comps r (cs @ [n]) = clean_comps r cs @ [n]"
  by (simp add: clean_comps_def)

lemma path_clean_snoc:
  assumes n: "proper n" and s: "split_on (CHR ''/'') s = cs @ [n]"
  shows "file_path (path_clean s) \<and> path_base (path_clean s) = n"
proof -
  define ds where "ds = clean_comps (is_abs s) cs"
  have es: "clean_comps (is_abs s) (split_on (CHR ''/'') s) = ds @ [n]"
    by (simp add: s clean_comps_snoc n ds_def)
  then have form: "climb_form (is_abs s) (ds @ [n])" using clean_comps_form by metis
  show ?thesis
  proof (cases "is_abs s")
    case True
    then have props: "propers (ds @ [n])" using form by (auto simp: climb_form_def)
    have p: "path_clean s = abs_path (ds @ [n])" using es True by (simp add: path_clean_def)
    have "split_on (CHR ''/'') (abs_path (ds @ [n])) = [] # ds @ [n]"
      using split_join_form [OF form] by (simp add: abs_path_def)
    then have "file_path (abs_path (ds @ [n]))" using props n by (simp add: file_path_def)
    moreover have "path_base (abs_path (ds @ [n])) = n"
      using path_base_last [OF n, of False "if ds = [] then [] else abs_path ds"] by (simp add: abs_path_snoc)
    ultimately show ?thesis by (simp add: p)
  next
    case False
    then have form': "climb_form False (ds @ [n])" using form by simp
    let ?p = "join_with ''/'' (ds @ [n])"
    have p: "path_clean s = ?p" using es False by (simp add: path_clean_def)
    have split: "split_on (CHR ''/'') ?p = ds @ [n]" using split_join_form [OF form'] by simp
    have "\<not> is_abs ?p" using join_form_not_abs [OF form', of "[]"] by simp
    then have "path_clean ?p = ?p" using clean_of_form [OF form'] by (simp add: path_clean_def split)
    then have "file_path ?p" using split n by (simp add: file_path_def)
    moreover have "path_base ?p = n"
      using path_base_last [OF n, of "ds = []" "join_with ''/'' ds"] by (simp add: join_with_snoc split: if_splits)
    ultimately show ?thesis by (simp add: p)
  qed
qed

lemma path_join_file: "proper n \<Longrightarrow> file_path (path_join (xs @ [n])) \<and> path_base (path_join (xs @ [n])) = n"
proof -
  assume n: "proper n"
  define ys where "ys = dropWhile (\<lambda>e. e = []) xs"
  have "dropWhile (\<lambda>e. e = []) (xs @ [n]) = ys @ [n]"
    unfolding ys_def using n by (induction xs) (auto simp: proper_def)
  then have p: "path_join (xs @ [n]) = path_clean (join_with ''/'' (ys @ [n]))"
    by (cases ys) (simp_all add: path_join_def)
  have "\<exists>cs. split_on (CHR ''/'') (join_with ''/'' (ys @ [n])) = cs @ [n]"
  proof (cases "ys = []")
    case True
    then show ?thesis using n by (simp add: properD)
  next
    case False
    then have "join_with ''/'' (ys @ [n]) = join_with ''/'' ys @ CHR ''/'' # n" by (simp add: join_with_snoc)
    then show ?thesis using split_on_append [of "CHR ''/''" "join_with ''/'' ys" n] n by (auto simp: properD)
  qed
  then show ?thesis using path_clean_snoc [OF n] p by metis
qed

lemma archive_files:
  "file_path (auth_store_path c)" "path_base (auth_store_path c) = ''users.json''"
  "file_path (redirects_path c)" "path_base (redirects_path c) = ''redirects.json''"
  "file_path (state_path c)" "path_base (state_path c) = ''site-state.json''"
  using path_join_file [of "''users.json''" "[archive_root c, ''auth'']"]
    path_join_file [of "''redirects.json''" "[archive_root c]"]
    path_join_file [of "''site-state.json''" "[archive_root c]"]
  by (simp_all add: auth_store_path_def redirects_path_def state_path_def proper_def)

end
