(* ===== verification/JsonFile.thy ===== *)
theory JsonFile
  imports Archive JsonCodec
begin

text \<open>
  Values kept in JSON files. The server's own data are read by \<open>os.ReadFile\<close> and \<open>json.Unmarshal\<close>, a missing
  file counting as the zero value, and written by \<open>json.MarshalIndent\<close> and \<open>atomicWriteFile\<close>. The locale
  says once what that keeps: what was saved is what is loaded, and a save that fails, or that a crash cuts off,
  leaves the old value or the new one.
\<close>

section \<open>Codecs of structs and slices\<close>

context json_codec
begin

text \<open>The encoding and decoding of a value in one fact, as the codecs of structs need it.\<close>

lemma trip_at: "fits v \<Longrightarrow> depth \<le> d \<Longrightarrow> fst c v = Some j \<Longrightarrow> json_ok d j \<and> snd c j old = Some v"
  using trip json_ok_mono by blast

lemma next_field:
  "list_all2 (field_ok d r) stores xs \<Longrightarrow> depth \<le> d \<Longrightarrow> plain_name n \<Longrightarrow> fits (get r) \<Longrightarrow>
     list_all2 (field_ok d r) (upd (\<lambda>_. get r) # stores) (field n get upd c # xs)"
  using trip_at by (auto intro!: field_ok_field)

end

lemma slice_json:
  "json_codec c P d \<Longrightarrow> json_codec (slice_codec c z) (\<lambda>s. \<forall>x\<in>set (elems s). P x) (Suc d)"
  by (rule json_codec.intro) (rule json_codec.slice_trip)

lemma no_field: "list_all2 (field_ok d r) [] []"
  by simp

lemmas next_fields = string_json.next_field int_json.next_field bool_json.next_field time_json.next_field

lemma struct_json:
  assumes "distinct (map fst xs)"
    and "\<And>v. fits v \<Longrightarrow> \<exists>stores. list_all2 (field_ok d v) stores xs \<and> (\<forall>acc. fold (\<lambda>g. g) stores acc = v)"
  shows "json_codec (struct_codec xs) fits (Suc d)"
proof
  fix v j old assume v: "fits v" "fst (struct_codec xs) v = Some j"
  obtain stores where "list_all2 (field_ok d v) stores xs" "\<forall>acc. fold (\<lambda>g. g) stores acc = v"
    using assms(2) [OF v(1)] by blast
  with struct_trip [OF assms(1) this(1) v(2), of old]
  show "json_ok (Suc d) j \<and> snd (struct_codec xs) j old = Some v" by simp
qed

section \<open>Loading and saving\<close>

definition load_json :: "string \<Rightarrow> 'a codec \<Rightarrow> 'a \<Rightarrow> 'a io" where
  "load_json p c zero =
     catch_io (os_read_file p)
       (\<lambda>err. if errors_is err OsErrNotExist then ret_io zero else fail_io err)
       (\<lambda>data. case unmarshal c data zero of None \<Rightarrow> fail_io ErrJson | Some v \<Rightarrow> ret_io v)"

definition json_data :: "'a codec \<Rightarrow> 'a \<Rightarrow> string io" where
  "json_data c v = (case marshal_indent c v of None \<Rightarrow> fail_io ErrJson | Some data \<Rightarrow> ret_io data)"

definition save_json :: "string \<Rightarrow> 'a codec \<Rightarrow> nat \<Rightarrow> 'a \<Rightarrow> unit io" where
  "save_json p c mode v = bind_io (json_data c v) (\<lambda>data. atomic_write_file p data mode)"

lemma reads_load_json [simp]: "reads (load_json p c zero)"
  unfolding load_json_def by (auto intro!: reads_catch split: option.split)

lemma keeps_load_json [simp]: "keeps (load_json p c zero)"
  unfolding load_json_def by (auto intro!: keeps_catch split: option.split)

lemma keeps_json_data [simp]: "keeps (json_data c v)" "reads (json_data c v)"
  by (simp_all add: json_data_def split: option.split)

lemma keeps_save_json [simp]: "keeps (save_json p c mode v)"
  unfolding save_json_def by (auto intro!: keeps_bind)

text \<open>The value that a file holds, if any.\<close>

definition holds_json :: "string \<Rightarrow> 'a codec \<Rightarrow> 'a \<Rightarrow> world \<Rightarrow> 'a \<Rightarrow> bool" where
  "holds_json p c zero w v \<longleftrightarrow> (\<exists>b. reads_as w p b \<and> unmarshal c b zero = Some v)"

lemma reads_as_unique: "reads_as w p a \<Longrightarrow> reads_as w p b \<Longrightarrow> a = b"
  by (auto simp: reads_as_def)

lemma reads_as_same: "same_files w w' \<Longrightarrow> reads_as w' p = reads_as w p"
  by (simp add: reads_as_def fun_eq_iff same_files_simps)

lemma holds_json_same: "same_files w w' \<Longrightarrow> holds_json p c z w' = holds_json p c z w"
  by (simp add: holds_json_def fun_eq_iff reads_as_same)

lemma load_json_holds: "holds_json p c z w v \<Longrightarrow> fault w (sysno w) = None \<Longrightarrow> load_json p c z w = (Inr v, tick_sys w)"
  unfolding holds_json_def load_json_def catch_io_eq by (auto simp: read_file_iff ret_io_def)

text \<open>
  A load that fails neither finds the value, or there is none. (An operating system that says of a file that
  is there that it is not would be believed.)
\<close>

lemma load_json_Inr:
  assumes "load_json p c z w = (Inr v, w')" "fault w (sysno w) \<noteq> Some ENOENT"
  shows "holds_json p c z w v \<or> (v = z \<and> (\<forall>u. \<not> holds_json p c z w u))"
proof -
  from assms(1) consider err where "os_read_file p w = (Inl err, w')" "errors_is err OsErrNotExist" "v = z"
    | b where "os_read_file p w = (Inr b, w')" "unmarshal c b z = Some v"
    by (auto simp: load_json_def io_inv split: if_splits option.splits)
  then show ?thesis
  proof cases
    case 1
    have "fault w (sysno w) = None"
    proof (cases "fault w (sysno w)")
      case (Some e)
      with 1(1,2) have "errno_is e OsErrNotExist" by (auto simp: os_read_file_def sys_call_def)
      with Some assms(2) show ?thesis by (cases e) simp_all
    qed
    with 1(1) have "\<not> reads_as w p b" for b using read_file_iff [of p w b "tick_sys w"] by auto
    with 1(3) show ?thesis by (auto simp: holds_json_def)
  next
    case 2
    then show ?thesis by (auto simp: holds_json_def read_file_iff)
  qed
qed

section \<open>A file of a fixed type\<close>

locale json_file = json_codec c fits depth for c :: "'a codec" and fits depth +
  fixes p :: string and zero :: 'a
  assumes shallow: "depth \<le> 10000" and named: "file_path p"
begin

text \<open>What has been written is what is loaded.\<close>

lemma written_holds:
  assumes "marshal_indent c v = Some data" "atomic_write_file p data mode w = (Inr (), w')" "fits v"
    and "no_link_named (path_base p) w"
  shows "holds_json p c zero w' v"
proof -
  have "reads_as w' p data"
    by (rule atomic_write_frame(4) [OF named assms(2,4) refl])
  moreover have "unmarshal c data zero = Some v"
    by (rule document_trip [OF shallow assms(3,1)])
  ultimately show ?thesis by (auto simp: holds_json_def)
qed

text \<open>Whatever fails in between, the file holds the old value or the new one.\<close>

lemma written_old_or_new:
  assumes "marshal_indent c v = Some data" "atomic_write_file p data mode w = (r, w')" "fits v"
    and "no_link_named (path_base p) w" "holds_json p c zero w u"
  shows "holds_json p c zero w' u \<or> holds_json p c zero w' v"
proof -
  obtain b where "reads_as w p b" "unmarshal c b zero = Some u" using assms(5) by (auto simp: holds_json_def)
  with atomic_write_reads [OF named assms(2,4)] document_trip [OF shallow assms(3,1)] show ?thesis
    unfolding holds_json_def by blast
qed

lemma save_run:
  assumes "save_json p c mode v w = (r, w')" "fits v" "no_link_named (path_base p) w"
  shows "(r = Inr () \<longrightarrow> holds_json p c zero w' v)
    \<and> (\<forall>u. holds_json p c zero w u \<longrightarrow> holds_json p c zero w' u \<or> holds_json p c zero w' v)"
proof (cases "marshal_indent c v")
  case None
  then show ?thesis using assms(1) by (auto simp: save_json_def json_data_def bind_io_def fail_io_def)
next
  case (Some data)
  then have run: "atomic_write_file p data mode w = (r, w')"
    using assms(1) by (simp add: save_json_def json_data_def bind_io_def ret_io_def)
  show ?thesis
    using written_holds [OF Some] written_old_or_new [OF Some run] run assms(2,3) by blast
qed

end

lemma save_no_link: "file_path p \<Longrightarrow> save_json p c mode v w = (r, w') \<Longrightarrow> no_link_named (path_base p) w \<Longrightarrow>
    no_link_named n w \<Longrightarrow> no_link_named n w'"
  by (cases "marshal_indent c v")
    (auto simp: save_json_def json_data_def bind_io_def fail_io_def ret_io_def dest: no_link_named_kept)

end
