(* ===== verification/AuthRows.thy ===== *)
theory AuthRows
  imports JsonFile Data GoTime
begin

text \<open>
  The JSON form of the user store of \<open>pkg/webserver/auth_store.go\<close>: the store and its recovery tokens, and the
  rows of \<open>pkg/data/data.go\<close> in it, whose fields have no tags and so go by their Go names. A value fits when its
  strings are valid UTF-8 and its numbers have 64 bits; then it is read back as it was written.
\<close>

section \<open>Rows\<close>

definition user_fields :: "user field list" where
  "user_fields =
    [field ''Id'' User_Id User_Id_update int_codec,
     field ''SessionId'' User_SessionId User_SessionId_update string_codec,
     field ''OldId'' User_OldId User_OldId_update int_codec,
     field ''AvatarId'' User_AvatarId User_AvatarId_update int_codec,
     field ''Email'' User_Email User_Email_update string_codec,
     field ''PasswordHash'' User_PasswordHash User_PasswordHash_update string_codec,
     field ''Nickname'' User_Nickname User_Nickname_update string_codec,
     field ''FirstName'' User_FirstName User_FirstName_update string_codec,
     field ''LastName'' User_LastName User_LastName_update string_codec,
     field ''Gender'' User_Gender User_Gender_update string_codec,
     field ''Phone'' User_Phone User_Phone_update string_codec,
     field ''DateOfRegistration'' User_DateOfRegistration User_DateOfRegistration_update int_codec,
     field ''DateOfBirth'' User_DateOfBirth User_DateOfBirth_update int_codec,
     field ''LastVisitTime'' User_LastVisitTime User_LastVisitTime_update int_codec,
     field ''GreenwichOffset'' User_GreenwichOffset User_GreenwichOffset_update int_codec,
     field ''Activated'' User_Activated User_Activated_update string_codec,
     field ''VerificationCode'' User_VerificationCode User_VerificationCode_update string_codec,
     field ''Domain'' User_Domain User_Domain_update string_codec,
     field ''Status'' User_Status User_Status_update string_codec,
     field ''Language'' User_Language User_Language_update string_codec,
     field ''CurrentIP'' User_CurrentIP User_CurrentIP_update string_codec,
     field ''Profile'' User_Profile User_Profile_update string_codec,
     field ''Preferences'' User_Preferences User_Preferences_update string_codec,
     field ''SecurityLog'' User_SecurityLog User_SecurityLog_update string_codec,
     field ''InvitedBy'' User_InvitedBy User_InvitedBy_update string_codec,
     field ''InvitesAmount'' User_InvitesAmount User_InvitesAmount_update int_codec,
     field ''QuotaBytes'' User_QuotaBytes User_QuotaBytes_update string_codec,
     field ''QuotaOriginals'' User_QuotaOriginals User_QuotaOriginals_update string_codec,
     field ''QuotaBytesUsed'' User_QuotaBytesUsed User_QuotaBytesUsed_update int_codec,
     field ''QuotaOriginalsUsed'' User_QuotaOriginalsUsed User_QuotaOriginalsUsed_update int_codec,
     field ''AutoGrab'' User_AutoGrab User_AutoGrab_update string_codec,
     field ''DomainToGrab'' User_DomainToGrab User_DomainToGrab_update string_codec]"

definition user_fits :: "user \<Rightarrow> bool" where
  "user_fits v \<longleftrightarrow>
     list_all utf8_valid [User_SessionId v, User_Email v, User_PasswordHash v, User_Nickname v,
         User_FirstName v, User_LastName v, User_Gender v, User_Phone v, User_Activated v,
         User_VerificationCode v, User_Domain v, User_Status v, User_Language v, User_CurrentIP v,
         User_Profile v, User_Preferences v, User_SecurityLog v, User_InvitedBy v, User_QuotaBytes v,
         User_QuotaOriginals v, User_AutoGrab v, User_DomainToGrab v]
     \<and> list_all int64 [User_Id v, User_OldId v, User_AvatarId v, User_DateOfRegistration v,
         User_DateOfBirth v, User_LastVisitTime v, User_GreenwichOffset v, User_InvitesAmount v,
         User_QuotaBytesUsed v, User_QuotaOriginalsUsed v]"

definition group_fields :: "group field list" where
  "group_fields =
    [field ''Id'' Group_Id Group_Id_update int_codec,
     field ''OwnerId'' Group_OwnerId Group_OwnerId_update int_codec,
     field ''Name'' Group_Name Group_Name_update string_codec,
     field ''Title'' Group_Title Group_Title_update string_codec,
     field ''Comment'' Group_Comment Group_Comment_update string_codec,
     field ''Date'' Group_Date Group_Date_update int_codec,
     field ''Status'' Group_Status Group_Status_update string_codec,
     field ''Domain'' Group_Domain Group_Domain_update string_codec]"

definition group_fits :: "group \<Rightarrow> bool" where
  "group_fits v \<longleftrightarrow>
     list_all utf8_valid [Group_Name v, Group_Title v, Group_Comment v, Group_Status v, Group_Domain v]
     \<and> list_all int64 [Group_Id v, Group_OwnerId v, Group_Date v]"

definition user_group_fields :: "user_group field list" where
  "user_group_fields =
    [field ''UserId'' UserGroup_UserId UserGroup_UserId_update int_codec,
     field ''GroupId'' UserGroup_GroupId UserGroup_GroupId_update int_codec,
     field ''Status'' UserGroup_Status UserGroup_Status_update string_codec,
     field ''Domain'' UserGroup_Domain UserGroup_Domain_update string_codec]"

definition user_group_fits :: "user_group \<Rightarrow> bool" where
  "user_group_fits v \<longleftrightarrow>
     list_all utf8_valid [UserGroup_Status v, UserGroup_Domain v]
     \<and> list_all int64 [UserGroup_UserId v, UserGroup_GroupId v]"

definition user_codec :: "user codec" where
  "user_codec = struct_codec user_fields"

definition group_codec :: "group codec" where
  "group_codec = struct_codec group_fields"

definition user_group_codec :: "user_group codec" where
  "user_group_codec = struct_codec user_group_fields"

section \<open>The store\<close>

record recovery_token =
  RecoveryToken_UserId :: int
  RecoveryToken_TokenHash :: string
  RecoveryToken_ExpiresAt :: time
  RecoveryToken_UsedAt :: time

record auth_store =
  Users :: "user slice"
  Groups :: "group slice"
  UserGroups :: "user_group slice"
  RecoveryTokens :: "recovery_token slice"
  UpdatedAt :: time

text \<open>\<open>omitempty\<close> has no effect on \<open>used_at\<close>: a struct is never empty.\<close>

definition recovery_token_fields :: "recovery_token field list" where
  "recovery_token_fields =
    [field ''user_id'' RecoveryToken_UserId RecoveryToken_UserId_update int_codec,
     field ''token_hash'' RecoveryToken_TokenHash RecoveryToken_TokenHash_update string_codec,
     field ''expires_at'' RecoveryToken_ExpiresAt RecoveryToken_ExpiresAt_update time_codec,
     field ''used_at'' RecoveryToken_UsedAt RecoveryToken_UsedAt_update time_codec]"

definition recovery_token_fits :: "recovery_token \<Rightarrow> bool" where
  "recovery_token_fits v \<longleftrightarrow> int64 (RecoveryToken_UserId v) \<and> utf8_valid (RecoveryToken_TokenHash v)"

definition recovery_token_codec :: "recovery_token codec" where
  "recovery_token_codec = struct_codec recovery_token_fields"

text \<open>Zero values.\<close>

definition zero_user :: user where
  "zero_user = \<lparr>User_Id = 0, User_SessionId = [], User_OldId = 0, User_AvatarId = 0, User_Email = [],
     User_PasswordHash = [], User_Nickname = [], User_FirstName = [], User_LastName = [], User_Gender = [],
     User_Phone = [], User_DateOfRegistration = 0, User_DateOfBirth = 0, User_LastVisitTime = 0,
     User_GreenwichOffset = 0, User_Activated = [], User_VerificationCode = [], User_Domain = [],
     User_Status = [], User_Language = [], User_CurrentIP = [], User_Profile = [], User_Preferences = [],
     User_SecurityLog = [], User_InvitedBy = [], User_InvitesAmount = 0, User_QuotaBytes = [],
     User_QuotaOriginals = [], User_QuotaBytesUsed = 0, User_QuotaOriginalsUsed = 0, User_AutoGrab = [],
     User_DomainToGrab = []\<rparr>"

definition zero_group :: group where
  "zero_group = \<lparr>Group_Id = 0, Group_OwnerId = 0, Group_Name = [], Group_Title = [], Group_Comment = [],
     Group_Date = 0, Group_Status = [], Group_Domain = []\<rparr>"

definition zero_user_group :: user_group where
  "zero_user_group = \<lparr>UserGroup_UserId = 0, UserGroup_GroupId = 0, UserGroup_Status = [], UserGroup_Domain = []\<rparr>"

definition zero_recovery_token :: recovery_token where
  "zero_recovery_token = \<lparr>RecoveryToken_UserId = 0, RecoveryToken_TokenHash = [],
     RecoveryToken_ExpiresAt = zero_time, RecoveryToken_UsedAt = zero_time\<rparr>"

definition empty_auth_store :: auth_store where
  "empty_auth_store = \<lparr>Users = None, Groups = None, UserGroups = None, RecoveryTokens = None, UpdatedAt = zero_time\<rparr>"

definition auth_store_fields :: "auth_store field list" where
  "auth_store_fields =
    [field ''users'' Users Users_update (slice_codec user_codec zero_user),
     field ''groups'' Groups Groups_update (slice_codec group_codec zero_group),
     field ''user_groups'' UserGroups UserGroups_update (slice_codec user_group_codec zero_user_group),
     field ''recovery_tokens'' RecoveryTokens RecoveryTokens_update (slice_codec recovery_token_codec zero_recovery_token),
     field ''updated_at'' UpdatedAt UpdatedAt_update time_codec]"

definition auth_store_codec :: "auth_store codec" where
  "auth_store_codec = struct_codec auth_store_fields"

definition auth_store_fits :: "auth_store \<Rightarrow> bool" where
  "auth_store_fits v \<longleftrightarrow>
     (\<forall>u\<in>set (elems (Users v)). user_fits u) \<and> (\<forall>g\<in>set (elems (Groups v)). group_fits g)
     \<and> (\<forall>g\<in>set (elems (UserGroups v)). user_group_fits g)
     \<and> (\<forall>t\<in>set (elems (RecoveryTokens v)). recovery_token_fits t)"

section \<open>They are read back as written\<close>

lemmas row_fields = user_fields_def group_fields_def user_group_fields_def recovery_token_fields_def auth_store_fields_def
lemmas row_fits = user_fits_def group_fits_def user_group_fits_def recovery_token_fits_def auth_store_fits_def

interpretation user_json: json_codec user_codec user_fits "Suc 0"
  unfolding user_codec_def
proof (rule struct_json)
  show "distinct (map fst user_fields)" by (simp add: user_fields_def field_def)
  fix v assume v: "user_fits v"
  show "\<exists>stores. list_all2 (field_ok 0 v) stores user_fields \<and> (\<forall>acc. fold (\<lambda>g. g) stores acc = v)"
    unfolding user_fields_def
    by (intro exI conjI allI, (rule next_fields no_field)+)
      (use v in \<open>simp_all add: plain_name_def byte_def user_fits_def\<close>)
qed

interpretation group_json: json_codec group_codec group_fits "Suc 0"
  unfolding group_codec_def
proof (rule struct_json)
  show "distinct (map fst group_fields)" by (simp add: group_fields_def field_def)
  fix v assume v: "group_fits v"
  show "\<exists>stores. list_all2 (field_ok 0 v) stores group_fields \<and> (\<forall>acc. fold (\<lambda>g. g) stores acc = v)"
    unfolding group_fields_def
    by (intro exI conjI allI, (rule next_fields no_field)+)
      (use v in \<open>simp_all add: plain_name_def byte_def group_fits_def\<close>)
qed

interpretation user_group_json: json_codec user_group_codec user_group_fits "Suc 0"
  unfolding user_group_codec_def
proof (rule struct_json)
  show "distinct (map fst user_group_fields)" by (simp add: user_group_fields_def field_def)
  fix v assume v: "user_group_fits v"
  show "\<exists>stores. list_all2 (field_ok 0 v) stores user_group_fields \<and> (\<forall>acc. fold (\<lambda>g. g) stores acc = v)"
    unfolding user_group_fields_def
    by (intro exI conjI allI, (rule next_fields no_field)+)
      (use v in \<open>simp_all add: plain_name_def byte_def user_group_fits_def\<close>)
qed

interpretation recovery_token_json: json_codec recovery_token_codec recovery_token_fits "Suc 0"
  unfolding recovery_token_codec_def
proof (rule struct_json)
  show "distinct (map fst recovery_token_fields)" by (simp add: recovery_token_fields_def field_def)
  fix v assume v: "recovery_token_fits v"
  show "\<exists>stores. list_all2 (field_ok 0 v) stores recovery_token_fields \<and> (\<forall>acc. fold (\<lambda>g. g) stores acc = v)"
    unfolding recovery_token_fields_def
    by (intro exI conjI allI, (rule next_fields no_field)+)
      (use v in \<open>simp_all add: plain_name_def byte_def recovery_token_fits_def\<close>)
qed

lemmas next_slices =
  json_codec.next_field [OF slice_json [OF user_json.json_codec_axioms]]
  json_codec.next_field [OF slice_json [OF group_json.json_codec_axioms]]
  json_codec.next_field [OF slice_json [OF user_group_json.json_codec_axioms]]
  json_codec.next_field [OF slice_json [OF recovery_token_json.json_codec_axioms]]

interpretation auth_store_json: json_codec auth_store_codec auth_store_fits "Suc 2"
  unfolding auth_store_codec_def
proof (rule struct_json)
  show "distinct (map fst auth_store_fields)" by (simp add: auth_store_fields_def field_def)
  fix v assume v: "auth_store_fits v"
  show "\<exists>stores. list_all2 (field_ok 2 v) stores auth_store_fields \<and> (\<forall>acc. fold (\<lambda>g. g) stores acc = v)"
    unfolding auth_store_fields_def
    by (intro exI conjI allI, (rule next_slices next_fields no_field)+)
      (use v in \<open>simp_all add: plain_name_def byte_def auth_store_fits_def\<close>)
qed

end
