(* ===== verification/AuthStore.thy ===== *)
theory AuthStore
  imports AuthRows Password
begin

text \<open>
  The user store, \<open>pkg/webserver/auth_store.go\<close>: users with password hashes, the first administrator, recovery
  tokens. Every operation runs under one mutex, so the operations here are atomic steps of the server. An
  operation on a user is a search loop over the slice with a \<open>return\<close> at the first match.
\<close>

section \<open>Operations\<close>

definition load_auth_store :: "settings \<Rightarrow> auth_store io" where
  "load_auth_store c = load_json (auth_store_path c) auth_store_codec empty_auth_store"

definition save_auth_store :: "settings \<Rightarrow> auth_store \<Rightarrow> unit io" where
  "save_auth_store c store =
     bind_io time_now (\<lambda>now.
     bind_io (json_data auth_store_codec (store\<lparr>UpdatedAt := now\<rparr>)) (\<lambda>data.
     let dir = path_dir (auth_store_path c) in
     bind_io (os_mkdir_all dir 448) (\<lambda>_.
     bind_io (os_chmod dir 448) (\<lambda>_.
     atomic_write_file (auth_store_path c) data 384))))"

definition is_active :: "string \<Rightarrow> bool" where
  "is_active status \<longleftrightarrow> status = '''' \<or> status = ''active''"

definition active_users :: "user list \<Rightarrow> user list" where
  "active_users users = filter (\<lambda>user. is_active (User_Status user)) users"

definition has_persistent_users :: "settings \<Rightarrow> bool io" where
  "has_persistent_users c =
     bind_io (load_auth_store c) (\<lambda>store. ret_io (active_users (elems (Users store)) \<noteq> []))"

definition normalize_email :: "string \<Rightarrow> string" where
  "normalize_email email = to_lower (trim_space email)"

definition valid_email :: "string \<Rightarrow> bool" where
  "valid_email email \<longleftrightarrow>
     \<not> (email = '''' \<or> length email > 254 \<or> contains_any email [CHR '' '', CHR 0x09, CHR 0x0D, CHR 0x0A])
     \<and> CHR ''@'' \<in> set email
     \<and> (let domain = rev (takeWhile (\<lambda>c. c \<noteq> CHR ''@'') (rev email)); at_index = length email - length domain - 1 in
        at_index > 0 \<and> at_index < length email - 1 \<and> contains domain ''.'')"

definition validate_password :: "string \<Rightarrow> unit result" where
  "validate_password password = guard_err (length password < 8) ErrWeakPassword"

definition display_user_name :: "user \<Rightarrow> string" where
  "display_user_name user =
     (if User_Nickname user \<noteq> '''' then User_Nickname user
      else if User_Email user \<noteq> '''' then User_Email user
      else ''user-'' @ int_digits (User_Id user))"

text \<open>The index at which a loop stops.\<close>

fun find_index :: "('a \<Rightarrow> bool) \<Rightarrow> 'a list \<Rightarrow> nat option" where
  "find_index P [] = None"
| "find_index P (x # xs) = (if P x then Some 0 else map_option Suc (find_index P xs))"

definition update_user :: "auth_store \<Rightarrow> nat \<Rightarrow> user \<Rightarrow> auth_store" where
  "update_user store i u = store\<lparr>Users := Some ((elems (Users store))[i := u])\<rparr>"

definition authenticate_persistent_user :: "settings \<Rightarrow> string \<Rightarrow> string \<Rightarrow> (user \<times> bool) io" where
  "authenticate_persistent_user c email password =
     bind_io (load_auth_store c) (\<lambda>store.
     case find_index (\<lambda>u. normalize_email (User_Email u) = email \<and> is_active (User_Status u)) (elems (Users store)) of
       None \<Rightarrow> ret_io (zero_user, False)
     | Some i \<Rightarrow>
         let u = elems (Users store) ! i in
         (case verify_password password (User_PasswordHash u) of
            Inl _ \<Rightarrow> ret_io (zero_user, False)
          | Inr ok \<Rightarrow>
              if ok then
                bind_io time_now (\<lambda>now.
                let u' = u\<lparr>User_LastVisitTime := unix now\<rparr> in
                bind_io (save_auth_store c (update_user store i u')) (\<lambda>_. ret_io (u', True)))
              else ret_io (zero_user, False)))"

definition change_persistent_password :: "settings \<Rightarrow> int \<Rightarrow> string \<Rightarrow> string \<Rightarrow> unit io" where
  "change_persistent_password c userID currentPassword newPassword =
     bind_io (lift_io (validate_password newPassword)) (\<lambda>_.
     bind_io (load_auth_store c) (\<lambda>store.
     case find_index (\<lambda>u. User_Id u = userID \<and> is_active (User_Status u)) (elems (Users store)) of
       None \<Rightarrow> fail_io ErrInvalidCredentials
     | Some i \<Rightarrow>
         let u = elems (Users store) ! i in
         if verify_password currentPassword (User_PasswordHash u) \<noteq> Inr True then fail_io ErrInvalidCredentials
         else
         bind_io (hash_password newPassword) (\<lambda>hash.
         save_auth_store c (update_user store i (u\<lparr>User_PasswordHash := hash\<rparr>)))))"

definition recoveryTokenDuration :: int where
  "recoveryTokenDuration = 3600 * second"

definition create_recovery_token :: "settings \<Rightarrow> int \<Rightarrow> time \<Rightarrow> string io" where
  "create_recovery_token c userID expiresAt =
     bind_io (if expiresAt = zero_time then bind_io time_now (\<lambda>now. ret_io (now + recoveryTokenDuration))
              else ret_io expiresAt) (\<lambda>expiresAt.
     bind_io (random_token 32) (\<lambda>token.
     bind_io (load_auth_store c) (\<lambda>store.
     bind_io (save_auth_store c (store\<lparr>RecoveryTokens := append_slice (RecoveryTokens store)
        \<lparr>RecoveryToken_UserId = userID, RecoveryToken_TokenHash = hash_token token,
         RecoveryToken_ExpiresAt = expiresAt, RecoveryToken_UsedAt = zero_time\<rparr>\<rparr>)) (\<lambda>_.
     ret_io token))))"

text \<open>A token that is accepted: of the user, not used, not expired, with the hash.\<close>

definition token_accepted :: "int \<Rightarrow> string \<Rightarrow> time \<Rightarrow> recovery_token \<Rightarrow> bool" where
  "token_accepted userID tokenHash now t \<longleftrightarrow>
     \<not> (RecoveryToken_UserId t \<noteq> userID \<or> RecoveryToken_UsedAt t \<noteq> zero_time \<or> now > RecoveryToken_ExpiresAt t)
     \<and> RecoveryToken_TokenHash t = tokenHash"

definition use_recovery_token :: "auth_store \<Rightarrow> nat \<Rightarrow> time \<Rightarrow> auth_store" where
  "use_recovery_token store i now =
     (let ts = elems (RecoveryTokens store) in
      store\<lparr>RecoveryTokens := Some (ts[i := (ts ! i)\<lparr>RecoveryToken_UsedAt := now\<rparr>])\<rparr>)"

definition verify_recovery_token :: "settings \<Rightarrow> int \<Rightarrow> string \<Rightarrow> time \<Rightarrow> bool io" where
  "verify_recovery_token c userID token now =
     bind_io (if now = zero_time then time_now else ret_io now) (\<lambda>now.
     catch_io (load_auth_store c) (\<lambda>_. ret_io False) (\<lambda>store.
     case find_index (token_accepted userID (hash_token token) now) (elems (RecoveryTokens store)) of
       None \<Rightarrow> ret_io False
     | Some i \<Rightarrow>
         catch_io (save_auth_store c (use_recovery_token store i now)) (\<lambda>_. ret_io False) (\<lambda>_. ret_io True)))"

definition superuserGroupName :: string where
  "superuserGroupName = ''Superuser''"

definition first_admin :: "string \<Rightarrow> string \<Rightarrow> time \<Rightarrow> user" where
  "first_admin email passwordHash now =
     zero_user\<lparr>User_Id := 1, User_Email := email, User_PasswordHash := passwordHash, User_Nickname := email,
       User_DateOfRegistration := unix now, User_LastVisitTime := unix now, User_Activated := ''yes'',
       User_Status := ''active'', User_Language := ''en''\<rparr>"

definition create_first_admin :: "settings \<Rightarrow> string \<Rightarrow> string \<Rightarrow> user io" where
  "create_first_admin c email password =
     (let email = normalize_email email in
      bind_io (lift_io (guard_err (\<not> valid_email email) (ErrText ''invalid email''))) (\<lambda>_.
      bind_io (lift_io (validate_password password)) (\<lambda>_.
      bind_io (load_auth_store c) (\<lambda>store.
      bind_io (lift_io (guard_err (active_users (elems (Users store)) \<noteq> []) (ErrText ''users already exist''))) (\<lambda>_.
      bind_io (hash_password password) (\<lambda>passwordHash.
      bind_io time_now (\<lambda>now.
      let user = first_admin email passwordHash now;
          group = zero_group\<lparr>Group_Id := 1, Group_OwnerId := User_Id user, Group_Name := superuserGroupName,
            Group_Title := superuserGroupName, Group_Date := unix now, Group_Status := ''active''\<rparr>;
          userGroup = zero_user_group\<lparr>UserGroup_UserId := User_Id user, UserGroup_GroupId := Group_Id group,
            UserGroup_Status := ''active''\<rparr> in
      bind_io (save_auth_store c (store\<lparr>Users := Some [user], Groups := Some [group], UserGroups := Some [userGroup]\<rparr>)) (\<lambda>_.
      ret_io user))))))))"

section \<open>The file of the store\<close>

interpretation auth_file: json_file auth_store_codec auth_store_fits "Suc 2" "auth_store_path c" empty_auth_store
  for c
  by unfold_locales (simp_all add: archive_files)

definition auth_holds :: "settings \<Rightarrow> world \<Rightarrow> auth_store \<Rightarrow> bool" where
  "auth_holds c w store \<longleftrightarrow> holds_json (auth_store_path c) auth_store_codec empty_auth_store w store"

lemma auth_holds_unique: "auth_holds c w a \<Longrightarrow> auth_holds c w b \<Longrightarrow> a = b"
  by (auto simp: auth_holds_def holds_json_def dest: reads_as_unique)

lemma auth_holds_contents: "same_contents w w' \<Longrightarrow> auth_holds c w v \<Longrightarrow> auth_holds c w' v"
  by (auto simp: auth_holds_def holds_json_def intro: same_contents_reads)

text \<open>A save.\<close>

lemma save_auth_steps:
  assumes "save_auth_store c store w = (r, w')"
  obtains (early) "same_contents w w'" "r \<noteq> Inr ()"
    | (saved) now data v where "same_contents w v" "marshal_indent auth_store_codec (store\<lparr>UpdatedAt := now\<rparr>) = Some data"
        "atomic_write_file (auth_store_path c) data 384 v = (r, w')"
proof -
  let ?dir = "path_dir (auth_store_path c)"
  obtain now w1 where t: "time_now w = (Inr now, w1)" by (simp add: time_now_def)
  then have c1: "same_contents w w1" by (auto simp: time_now_def same_contents_def same_setting_def)
  show thesis
  proof (cases "marshal_indent auth_store_codec (store\<lparr>UpdatedAt := now\<rparr>)")
    case None
    with assms t c1 show thesis
      by (intro early) (auto simp: save_auth_store_def bind_io_def json_data_def fail_io_def)
  next
    case (Some data)
    let ?rest = "bind_io (os_mkdir_all ?dir 448) (\<lambda>_. bind_io (os_chmod ?dir 448) (\<lambda>_.
        atomic_write_file (auth_store_path c) data 384))"
    have "?rest w1 = (r, w')"
      using assms t Some by (simp add: save_auth_store_def bind_io_def [of time_now] json_data_def Let_def)
    then consider e where "os_mkdir_all ?dir 448 w1 = (Inl e, w')" "r = Inl e"
      | w2 e where "os_mkdir_all ?dir 448 w1 = (Inr (), w2)" "os_chmod ?dir 448 w2 = (Inl e, w')" "r = Inl e"
      | w2 w3 where "os_mkdir_all ?dir 448 w1 = (Inr (), w2)" "os_chmod ?dir 448 w2 = (Inr (), w3)"
          "atomic_write_file (auth_store_path c) data 384 w3 = (r, w')"
      by (cases r) (auto simp: bind_io_Inl bind_io_Inr)
    then show thesis
    proof cases
      case 1
      with same_contents_trans [OF c1 harmlessD [OF harmless_mkdir_all 1(1)]] show thesis by (intro early) simp_all
    next
      case 2
      with same_contents_trans [OF same_contents_trans [OF c1 harmlessD [OF harmless_mkdir_all 2(1)]]
          harmlessD [OF harmless_chmod 2(2)]]
      show thesis by (intro early) simp_all
    next
      case 3
      from same_contents_trans [OF same_contents_trans [OF c1 harmlessD [OF harmless_mkdir_all 3(1)]]
          harmlessD [OF harmless_chmod 3(2)]]
      show thesis using Some 3(3) by (rule saved)
    qed
  qed
qed

lemma auth_store_fits_updated [simp]: "auth_store_fits (store\<lparr>UpdatedAt := now\<rparr>) = auth_store_fits store"
  by (simp add: auth_store_fits_def)

text \<open>A save: afterwards the file holds the new store, or, if it failed, perhaps still the old one.\<close>

lemma save_auth_run:
  assumes "save_auth_store c store w = (r, w')" "auth_store_fits store" "no_link_named ''users.json'' w"
  obtains now where "r = Inr () \<Longrightarrow> auth_holds c w' (store\<lparr>UpdatedAt := now\<rparr>)"
    "\<And>u. auth_holds c w u \<Longrightarrow> auth_holds c w' u \<or> auth_holds c w' (store\<lparr>UpdatedAt := now\<rparr>)"
    "no_link_named ''users.json'' w'" "same_setting w w'"
  using assms(1)
proof (cases rule: save_auth_steps)
  case early
  then show thesis
    using same_contents_no_link [OF early(1) assms(3)]
    by (intro that [of undefined]) (auto simp: same_contents_def intro: auth_holds_contents [OF early(1)])
next
  case (saved now data v)
  have fits: "auth_store_fits (store\<lparr>UpdatedAt := now\<rparr>)" using assms(2) by simp
  have nl: "no_link_named (path_base (auth_store_path c)) v"
    using same_contents_no_link [OF saved(1) assms(3)] by (simp add: archive_files)
  show thesis
  proof (rule that [of now])
    show "r = Inr () \<Longrightarrow> auth_holds c w' (store\<lparr>UpdatedAt := now\<rparr>)"
      using auth_file.written_holds [OF saved(2) _ fits nl] saved(3) by (simp add: auth_holds_def)
    show "auth_holds c w' u \<or> auth_holds c w' (store\<lparr>UpdatedAt := now\<rparr>)" if "auth_holds c w u" for u
      using auth_file.written_old_or_new [OF saved(2,3) fits nl] auth_holds_contents [OF saved(1) that]
      by (simp add: auth_holds_def)
    show "no_link_named ''users.json'' w'"
      using no_link_named_kept [OF archive_files(1) saved(3) nl nl] by (simp add: archive_files)
    show "same_setting w w'"
      using saved(1) keepsD [OF keeps_atomic_write saved(3)]
      by (auto simp: same_contents_def intro: same_setting_trans)
  qed
qed

end
