(* ===== verification/AuthSpec.thy ===== *)
theory AuthSpec
  imports AuthStore
begin

text \<open>
  What the user store promises, on the abstract store: a value that changes in five ways. Well-formedness is kept by
  all of them, a token that has been used stays used, and once there is an active user there always is one.
\<close>

section \<open>The abstract store\<close>

definition tokens :: "auth_store \<Rightarrow> recovery_token list" where
  "tokens s = elems (RecoveryTokens s)"

definition token_hashes :: "auth_store \<Rightarrow> string list" where
  "token_hashes s = map RecoveryToken_TokenHash (tokens s)"

inductive store_change :: "auth_store \<Rightarrow> auth_store \<Rightarrow> bool" where
  visited: "i < length (elems (Users s)) \<Longrightarrow> int64 t \<Longrightarrow>
     store_change s (update_user s i ((elems (Users s) ! i)\<lparr>User_LastVisitTime := t\<rparr>))"
| rehashed: "i < length (elems (Users s)) \<Longrightarrow> utf8_valid h \<Longrightarrow>
     store_change s (update_user s i ((elems (Users s) ! i)\<lparr>User_PasswordHash := h\<rparr>))"
| issued: "recovery_token_fits t \<Longrightarrow> RecoveryToken_UsedAt t = zero_time \<Longrightarrow>
     RecoveryToken_TokenHash t \<notin> set (token_hashes s) \<Longrightarrow>
     store_change s (s\<lparr>RecoveryTokens := append_slice (RecoveryTokens s) t\<rparr>)"
| used: "i < length (tokens s) \<Longrightarrow> RecoveryToken_UsedAt (tokens s ! i) = zero_time \<Longrightarrow> now \<noteq> zero_time \<Longrightarrow>
     store_change s (use_recovery_token s i now)"
| founded: "active_users (elems (Users s)) = [] \<Longrightarrow> is_active (User_Status u) \<Longrightarrow>
     user_fits u \<Longrightarrow> group_fits g \<Longrightarrow> user_group_fits m \<Longrightarrow>
     store_change s (s\<lparr>Users := Some [u], Groups := Some [g], UserGroups := Some [m]\<rparr>)"

definition good_store :: "auth_store \<Rightarrow> bool" where
  "good_store s \<longleftrightarrow> auth_store_fits s \<and> distinct (token_hashes s)"

lemma in_list_update: "x \<in> set (xs[i := y]) \<Longrightarrow> x = y \<or> x \<in> set xs"
  using set_update_subset_insert by fast

lemma map_update_same: "f y = f (xs ! i) \<Longrightarrow> map f (xs[i := y]) = map f xs"
  by (metis list_update_beyond list_update_id linorder_not_le map_update nth_map)

lemma store_parts [simp]:
  "tokens (update_user s i u) = tokens s"
  "tokens (s\<lparr>RecoveryTokens := append_slice (RecoveryTokens s) t\<rparr>) = tokens s @ [t]"
  "tokens (use_recovery_token s i now) = (tokens s)[i := (tokens s ! i)\<lparr>RecoveryToken_UsedAt := now\<rparr>]"
  "tokens (s\<lparr>Users := us, Groups := gs, UserGroups := ms\<rparr>) = tokens s"
  "tokens (s\<lparr>UpdatedAt := now\<rparr>) = tokens s"
  "Users (update_user s i u) = Some ((elems (Users s))[i := u])"
  "Users (use_recovery_token s i now) = Users s"
  by (simp_all add: tokens_def update_user_def use_recovery_token_def Let_def)

lemma good_change: "store_change s s' \<Longrightarrow> good_store s \<Longrightarrow> good_store s'"
proof (induction rule: store_change.induct)
  case (visited i s t)
  then have "user_fits (elems (Users s) ! i)" by (simp add: good_store_def auth_store_fits_def)
  then have "user_fits ((elems (Users s) ! i)\<lparr>User_LastVisitTime := t\<rparr>)"
    using visited(2) by (simp add: user_fits_def)
  with visited show ?case
    by (auto simp: good_store_def auth_store_fits_def update_user_def token_hashes_def tokens_def
        dest!: in_list_update)
next
  case (rehashed i s h)
  then have "user_fits (elems (Users s) ! i)" by (simp add: good_store_def auth_store_fits_def)
  then have "user_fits ((elems (Users s) ! i)\<lparr>User_PasswordHash := h\<rparr>)"
    using rehashed(2) by (simp add: user_fits_def)
  with rehashed show ?case
    by (auto simp: good_store_def auth_store_fits_def update_user_def token_hashes_def tokens_def
        dest!: in_list_update)
next
  case (issued t s)
  then show ?case by (auto simp: good_store_def auth_store_fits_def token_hashes_def)
next
  case (used i s now)
  then have "recovery_token_fits (tokens s ! i)" by (simp add: good_store_def auth_store_fits_def tokens_def)
  then have "recovery_token_fits ((tokens s ! i)\<lparr>RecoveryToken_UsedAt := now\<rparr>)" by (simp add: recovery_token_fits_def)
  moreover have "map RecoveryToken_TokenHash ((tokens s)[i := (tokens s ! i)\<lparr>RecoveryToken_UsedAt := now\<rparr>])
      = map RecoveryToken_TokenHash (tokens s)"
    by (rule map_update_same) simp
  ultimately show ?case using used
    by (auto simp: good_store_def auth_store_fits_def token_hashes_def tokens_def use_recovery_token_def Let_def
        dest!: in_list_update)
next
  case (founded s u g m)
  then show ?case by (simp add: good_store_def auth_store_fits_def token_hashes_def)
qed

text \<open>A token that has been used stays used; once there is an active user there always is one.\<close>

definition spent :: "string \<Rightarrow> auth_store \<Rightarrow> bool" where
  "spent h s \<longleftrightarrow> (\<exists>t\<in>set (tokens s). RecoveryToken_TokenHash t = h \<and> RecoveryToken_UsedAt t \<noteq> zero_time)"

definition has_admin :: "auth_store \<Rightarrow> bool" where
  "has_admin s \<longleftrightarrow> (\<exists>u\<in>set (elems (Users s)). is_active (User_Status u))"

lemma spent_change: "store_change s s' \<Longrightarrow> spent h s \<Longrightarrow> spent h s'"
proof (induction rule: store_change.induct)
  case (used i s now)
  then obtain j where "j < length (tokens s)" "RecoveryToken_TokenHash (tokens s ! j) = h"
    "RecoveryToken_UsedAt (tokens s ! j) \<noteq> zero_time"
    by (auto simp: spent_def in_set_conv_nth)
  moreover from this used(2) have "j \<noteq> i" by auto
  moreover have "tokens (use_recovery_token s i now) ! j = tokens s ! j" "length (tokens (use_recovery_token s i now)) = length (tokens s)"
    using \<open>j \<noteq> i\<close> by simp_all
  ultimately show ?case unfolding spent_def by (metis nth_mem)
qed (auto simp: spent_def)

lemma has_admin_update:
  "has_admin s \<Longrightarrow> User_Status u = User_Status (elems (Users s) ! i) \<Longrightarrow> has_admin (update_user s i u)"
proof -
  assume "has_admin s" and u: "User_Status u = User_Status (elems (Users s) ! i)"
  then obtain j where j: "j < length (elems (Users s))" "is_active (User_Status (elems (Users s) ! j))"
    by (auto simp: has_admin_def in_set_conv_nth)
  then have "is_active (User_Status ((elems (Users s))[i := u] ! j))"
    using u by (cases "i = j") auto
  with j(1) show ?thesis unfolding has_admin_def by (metis elems_simps(2) length_list_update nth_mem store_parts(6))
qed

lemma has_admin_change: "store_change s s' \<Longrightarrow> has_admin s \<Longrightarrow> has_admin s'"
  by (induction rule: store_change.induct)
    (simp_all add: has_admin_update, simp_all add: has_admin_def active_users_def)

lemma find_index_None: "find_index P xs = None \<longleftrightarrow> (\<forall>x\<in>set xs. \<not> P x)"
  by (induction xs) (auto simp: option.map_disc_iff)

lemma find_index_Some: "find_index P xs = Some i \<Longrightarrow> i < length xs \<and> P (xs ! i)"
  by (induction xs arbitrary: i) (auto split: if_splits)

lemma spent_rejected: "good_store s \<Longrightarrow> spent h s \<Longrightarrow> find_index (token_accepted uid h now) (tokens s) = None"
proof -
  assume "good_store s" "spent h s"
  then have d: "distinct (map RecoveryToken_TokenHash (tokens s))" and "\<exists>t\<in>set (tokens s).
      RecoveryToken_TokenHash t = h \<and> RecoveryToken_UsedAt t \<noteq> zero_time"
    by (simp_all add: good_store_def token_hashes_def spent_def)
  then obtain t where t: "t \<in> set (tokens s)" "RecoveryToken_TokenHash t = h" "RecoveryToken_UsedAt t \<noteq> zero_time" by blast
  have "\<not> token_accepted uid h now u" if "u \<in> set (tokens s)" for u
  proof
    assume a: "token_accepted uid h now u"
    then have "RecoveryToken_TokenHash u = RecoveryToken_TokenHash t" using t(2) by (simp add: token_accepted_def)
    with d that t(1) have "u = t" by (auto simp: distinct_map dest: inj_onD)
    with a t(3) show False by (simp add: token_accepted_def)
  qed
  then show ?thesis by (simp add: find_index_None)
qed

end
