(* ===== verification/AtomicLive.thy ===== *)
theory AtomicLive
  imports FileFrame
begin

text \<open>
  When no system call fails, an atomic write into a directory that is there succeeds: the other half of its
  correctness, and what the concrete runs of later theories rest on.
\<close>

lemma sys_ok: "no_faults w \<Longrightarrow> sys_call op w = op (tick_sys w)"
  by (simp add: sys_call_def no_faults_def)

lemma no_faults_step [simp]:
  "no_faults (tick_sys w) = no_faults w" "no_faults (put_node q n w) = no_faults w"
  "no_faults (drop_node q w) = no_faults w" "no_faults (w\<lparr>rands := a\<rparr>) = no_faults w"
  "no_faults (w\<lparr>ticks := a\<rparr>) = no_faults w"
  by (simp_all add: no_faults_def)

lemma stat_ok: "no_faults w \<Longrightarrow> kernel_path w True p = Inr q \<Longrightarrow> fs w q = Some n \<Longrightarrow> os_stat p w = (Inr n, tick_sys w)"
  by (simp add: os_stat_def sys_ok node_at_def sys_result_def)

lemma mkdir_all_present:
  "no_faults w \<Longrightarrow> kernel_path w True p = Inr q \<Longrightarrow> fs w q = Some (NDir k) \<Longrightarrow>
     os_mkdir_all p perm w = (Inr (), tick_sys w)"
  by (simp add: os_mkdir_all_def mkdir_all.simps catch_io_def stat_ok ret_io_def)

lemma open_excl_ok:
  "no_faults w \<Longrightarrow> kernel_path w False p = Inr q \<Longrightarrow> fs w q = None \<Longrightarrow>
     open_excl p perm w = (Inr q, put_node q (NFile (masked perm (tick_sys w)) []) (tick_sys w))"
  by (simp add: open_excl_def sys_ok)

lemma file_calls_ok:
  "no_faults w \<Longrightarrow> fs w q = Some (NFile m b) \<Longrightarrow> file_write q data w = (Inr (), put_node q (NFile m (b @ data)) (tick_sys w))"
  "no_faults w \<Longrightarrow> fs w q = Some (NFile m b) \<Longrightarrow> file_chmod q mode w = (Inr (), put_node q (NFile mode b) (tick_sys w))"
  "no_faults w \<Longrightarrow> file_sync q w = (Inr (), tick_sys w)"
  "no_faults w \<Longrightarrow> file_close q w = (Inr (), tick_sys w)"
  by (simp_all add: file_write_def file_chmod_def file_sync_def file_close_def sys_ok ret_io_def)
    (simp add: no_faults_def)

lemma os_open_ok:
  "no_faults w \<Longrightarrow> kernel_path w True p = Inr q \<Longrightarrow> fs w q \<noteq> None \<Longrightarrow> os_open p w = (Inr q, tick_sys w)"
  by (simp add: os_open_def sys_ok)

lemma sync_dir_ok:
  "no_faults w \<Longrightarrow> kernel_path w True p = Inr q \<Longrightarrow> fs w q = Some n \<Longrightarrow>
     \<exists>w'. sync_dir p w = (Inr (), w') \<and> same_files w w'"
  by (auto simp: sync_dir_def bind_io_def catch_io_def ignoring_def os_open_ok file_calls_ok ret_io_def same_files_def)

text \<open>A rename over a file, or over nothing.\<close>

lemma sys_rename_ok:
  assumes "no_faults w" "kernel_path w False old = Inr a" "kernel_path w False new = Inr b" "a \<noteq> b"
    "fs w a = Some (NFile m c)" "\<And>k. fs w b \<noteq> Some (NDir k)"
  shows "sys_rename old new w = (Inr (), put_node b (NFile m c) (drop_node a (tick_sys w)))"
proof -
  have "rename_check (tick_sys w) a b = None"
    using assms(4-6) by (auto simp: rename_check_def is_dir_iff split: option.split)
  then show ?thesis
    using assms by (simp add: sys_rename_def sys_ok rename_node_def)
qed

lemma os_rename_ok:
  assumes "no_faults w" "kernel_path w False old = Inr a" "kernel_path w False new = Inr b" "a \<noteq> b"
    "fs w a = Some (NFile m c)" "\<And>k. fs w b \<noteq> Some (NDir k)"
  shows "\<exists>w'. os_rename old new w = (Inr (), w') \<and> fs w' = (fs w)(a := None, b \<mapsto> NFile m c)
    \<and> cwd w' = cwd w \<and> no_faults w'"
proof -
  obtain r w1 where l: "os_lstat new w = (r, w1)" by (cases "os_lstat new w")
  then have w1: "same_files w w1" by (rule readsD [OF reads_calls(2)])
  have nf: "no_faults w1" using no_faults_same [OF w1] assms(1) by simp
  have nd: "\<not> is_dir n" if "r = Inr n" for n
    using os_lstat_Inr [of new w n w1] l that assms(3,6) by (auto simp: node_at_def is_dir_iff split: option.splits)
  have "os_rename old new w = sys_rename old new w1"
    using nd l by (cases r) (auto simp: os_rename_def catch_io_def)
  also have "\<dots> = (Inr (), put_node b (NFile m c) (drop_node a (tick_sys w1)))"
    using assms by (intro sys_rename_ok nf) (simp_all add: same_files_simps [OF w1])
  finally show ?thesis using nf by (auto simp: same_files_simps [OF w1] fun_upd_twist)
qed

lemma create_temp_ok:
  "next_random w = (Inr r, w1) \<Longrightarrow> open_excl (pre @ r @ suf) 384 w1 = (Inr q, w2) \<Longrightarrow>
     create_temp_try n pre suf w = (Inr (pre @ r @ suf, q), w2)"
  by (subst create_temp_try.simps) (simp add: bind_io_def catch_io_def ret_io_def Let_def)

lemma atomic_write_live:
  assumes p: "file_path p" and nf: "no_faults w"
    and d: "kernel_path w True (path_dir p) = Inr d" "fs w d = Some (NDir k)"
    and target: "fs w (d @ [path_base p]) = None \<or> (\<exists>m b. fs w (d @ [path_base p]) = Some (NFile m b))"
    and free: "fs w (d @ [temp_name (path_base p) (fastrand w (rands w) mod 2 ^ 32)]) = None"
  shows "\<exists>w'. atomic_write_file p data mode w = (Inr (), w') \<and> fs w' = (fs w)(d @ [path_base p] \<mapsto> NFile mode data)
    \<and> cwd w' = cwd w \<and> no_faults w'"
proof -
  let ?dir = "path_dir p" and ?base = "path_base p"
  define x where "x = fastrand w (rands w) mod 2 ^ 32"
  define tmp where "tmp = child_name ?dir (temp_name ?base x)"
  define tq q where "tq = d @ [temp_name ?base x]" and "q = d @ [?base]"
  have base: "proper ?base" using file_path_resolve [OF p] by metis
  note temp = temp_name_proper [OF base, of x]
  have tq: "fs w tq = None" using free by (simp add: tq_def x_def)
  have ends: "end_node (fs w tq)" "end_node (fs w q)" using target by (auto simp: tq q_def)
  have "q \<noteq> tq" "d \<noteq> tq" "d \<noteq> q" using temp by (auto simp: q_def tq_def)
  note entries = file_entries [OF p d conjunct1 [OF temp], folded tmp_def tq_def q_def]
  have at_tq: "kernel_path v False tmp = Inr tq \<and> kernel_path v False p = Inr q"
    if "cwd v = cwd w" "fs v = (fs w)(tq := y)" for v y
    using entries(1,2) [OF that ends(1)] by blast

  let ?w1 = "tick_sys w"
  have mk: "os_mkdir_all ?dir 493 w = (Inr (), ?w1)" by (rule mkdir_all_present [OF nf d])
  let ?w2 = "?w1\<lparr>rands := Suc (rands w)\<rparr>"
  let ?m = "masked 384 (tick_sys ?w2)"
  let ?w3 = "put_node tq (NFile ?m []) (tick_sys ?w2)"
  have "open_excl tmp 384 ?w2 = (Inr tq, ?w3)"
    using at_tq [of ?w2 None] tq nf by (intro open_excl_ok) (auto simp: fun_upd_idem)
  moreover have name: "(if has_suffix ?dir ''/'' then ?dir else ?dir @ ''/'') @ (''.'' @ ?base @ ''.'')
      @ nat_digits x @ ''.tmp'' = tmp"
    by (simp add: tmp_def child_name_def temp_name_def)
  ultimately have "open_excl (((if has_suffix ?dir ''/'' then ?dir else ?dir @ ''/'') @ (''.'' @ ?base @ ''.''))
      @ nat_digits x @ ''.tmp'') 384 ?w2 = (Inr tq, ?w3)"
    by (simp only: append_assoc)
  moreover have "next_random ?w1 = (Inr (nat_digits x), ?w2)" by (simp add: next_random_def x_def)
  ultimately have ct: "os_create_temp ?dir (''.'' @ ?base @ ''.'') ''.tmp'' ?w1 = (Inr (tmp, tq), ?w3)"
    unfolding os_create_temp_def using create_temp_ok [of ?w1 "nat_digits x" ?w2 _ "''.tmp''" tq ?w3 9999] name
    by (simp only: append_assoc)
  define w4 where "w4 = put_node tq (NFile ?m data) (tick_sys ?w3)"
  have wr: "file_write tq data ?w3 = (Inr (), w4)"
    using file_calls_ok(1) [of ?w3 tq ?m "[]"] nf by (simp add: w4_def)
  define w5 where "w5 = put_node tq (NFile mode data) (tick_sys w4)"
  have ch: "file_chmod tq mode w4 = (Inr (), w5)"
    using file_calls_ok(2) [of w4 tq ?m data] nf by (simp add: w4_def w5_def)
  define w7 where "w7 = tick_sys (tick_sys w5)"
  have nf7: "no_faults w5" "no_faults w7" using nf by (simp_all add: w4_def w5_def w7_def)
  have w7: "cwd w7 = cwd w" "fs w7 = (fs w)(tq \<mapsto> NFile mode data)"
    by (simp_all add: w4_def w5_def w7_def)
  have "\<exists>w8. os_rename tmp p w7 = (Inr (), w8) \<and> fs w8 = (fs w7)(tq := None, q \<mapsto> NFile mode data)
      \<and> cwd w8 = cwd w7 \<and> no_faults w8"
    using at_tq [OF w7] \<open>q \<noteq> tq\<close> target by (intro os_rename_ok nf7) (auto simp: w7 q_def)
  then obtain w8 where rn: "os_rename tmp p w7 = (Inr (), w8)" and w8: "fs w8 = (fs w)(q \<mapsto> NFile mode data)"
      "cwd w8 = cwd w" "no_faults w8"
    using w7 tq by (auto simp: fun_upd_idem)
  have fill: "fill_and_rename tq tmp p data mode ?w3 = (Inr (), w8)"
    using wr ch nf7 rn by (simp add: fill_and_rename_def catch_io_def bind_io_def file_calls_ok w7_def)
  have "kernel_path w8 True ?dir = Inr d" "fs w8 d = Some (NDir k)"
    using entries(3) [OF w8(2,1) ends(2)] \<open>d \<noteq> q\<close> d(2) w8(1) by simp_all
  from sync_dir_ok [OF w8(3) this] obtain w9 where w9: "sync_dir ?dir w8 = (Inr (), w9)" "same_files w8 w9" by blast
  have "atomic_write_file p data mode w = (Inr (), w9)"
    using mk ct fill w9(1) by (simp add: atomic_write_file_def bind_io_def catch_io_def)
  then show ?thesis
    using w8 same_files_simps [OF w9(2)] no_faults_same [OF w9(2)] by (auto simp: q_def)
qed

end
