(* ===== verification/AuthDemo.thy ===== *)
theory AuthDemo
  imports AuthStore AtomicLive SafePath
begin

text \<open>
  A small server for the concrete runs: the archive of the demo site with its directory for the user store, in which
  no system call fails. The name of the archive is a hash, which stays a symbol here; that it is the name of a
  directory is all that counts.
\<close>

section \<open>Joining names to a directory\<close>

lemma join_with_flat: "rs \<noteq> [] \<Longrightarrow> join_with s (join_with s rs # cs) = join_with s (rs @ cs)"
proof (induction rs)
  case (Cons r rs)
  then show ?case by (cases rs; cases cs) simp_all
qed simp

lemma path_join_names: "propers rs \<Longrightarrow> rs \<noteq> [] \<Longrightarrow> propers cs \<Longrightarrow> path_join (abs_path rs # cs) = abs_path (rs @ cs)"
proof -
  assume a: "propers rs" "rs \<noteq> []" "propers cs"
  have "join_with ''/'' (abs_path rs # cs) = abs_path (rs @ cs)"
    using join_with_flat [OF a(2), of "''/''" cs] by (cases cs) (simp_all add: abs_path_def)
  then show ?thesis using a by (simp add: path_join_def abs_path_ne)
qed

definition demo_hash :: string where
  "demo_hash = site_hash ''/site''"

lemma proper_demo_hash [simp]: "proper demo_hash"
proof -
  have "length demo_hash = 16" by (simp add: demo_hash_def site_hash_def)
  moreover have "CHR ''/'' \<notin> set demo_hash"
    using hex_encode_chars set_take_subset
    by (fastforce simp: demo_hash_def site_hash_def lower_hex_char_def byte_def)
  moreover have "demo_hash \<noteq> n" if "length n < 3" for n
    using that calculation(1) by auto
  ultimately show ?thesis by (simp add: proper_def)
qed

lemma demo_archive: "archive_root demo_config = abs_path [''db'', ''sitebrush-archives'', demo_hash]"
proof -
  have "DB_FILE_PATH demo_config = abs_path [''db'']" "WEB_FILE_PATH demo_config = ''/site''"
    by (simp_all add: demo_config_def abs_path_def)
  then show ?thesis
    using path_join_names [of "[''db'']" "[''sitebrush-archives'', demo_hash]"] proper_demo_hash
    by (simp add: archive_root_def Let_def abs_path_ne flip: demo_hash_def) (simp add: proper_def)
qed

definition demo_auth_dir :: path where
  "demo_auth_dir = [''db'', ''sitebrush-archives'', demo_hash, ''auth'']"

lemma demo_auth_path:
  "auth_store_path demo_config = abs_path (demo_auth_dir @ [''users.json''])"
  "path_dir (auth_store_path demo_config) = abs_path demo_auth_dir"
  "path_base (auth_store_path demo_config) = ''users.json''"
proof -
  show p: "auth_store_path demo_config = abs_path (demo_auth_dir @ [''users.json''])"
    using path_join_names [of "[''db'', ''sitebrush-archives'', demo_hash]" "[''auth'', ''users.json'']"]
    by (simp add: auth_store_path_def demo_archive demo_auth_dir_def) (simp add: proper_def)
  have "propers demo_auth_dir" "proper ''users.json''" by (simp_all add: demo_auth_dir_def) (simp_all add: proper_def)
  then show "path_dir (auth_store_path demo_config) = abs_path demo_auth_dir"
    by (simp add: p path_dir_abs_path)
  show "path_base (auth_store_path demo_config) = ''users.json''" by (rule archive_files)
qed

section \<open>The server\<close>

definition demo_auth_world :: "(path \<times> node) list \<Rightarrow> world" where
  "demo_auth_world xs = demo_world\<lparr>files := [([''db''], NDir 493), ([''db'', ''sitebrush-archives''], NDir 493),
     ([''db'', ''sitebrush-archives'', demo_hash], NDir 493), (demo_auth_dir, NDir 448)] @ xs, clock := \<lambda>_. 0\<rparr>"

lemma demo_auth_fs:
  "fs (demo_auth_world xs) demo_auth_dir = Some (NDir 448)"
  "fs (demo_auth_world xs) (demo_auth_dir @ [n]) = map_of xs (demo_auth_dir @ [n])"
  "no_faults (demo_auth_world xs)"
  by (simp_all add: fs_def demo_auth_world_def demo_auth_dir_def no_faults_def demo_world_def)

lemma demo_auth_resolve: "kernel_path (demo_auth_world xs) fl (abs_path demo_auth_dir) = Inr demo_auth_dir"
proof -
  have "propers demo_auth_dir" by (simp add: demo_auth_dir_def) (simp add: proper_def)
  moreover have "demo_hash \<noteq> []" "demo_hash \<noteq> ''.''" "demo_hash \<noteq> ''..''"
    using proper_demo_hash unfolding proper_def by blast+
  moreover have "resolve (fs (demo_auth_world xs)) fl 40 [] demo_auth_dir = Inr demo_auth_dir"
    using calculation(2-)
    by (simp add: demo_auth_dir_def resolve.simps(2) fs_def demo_auth_world_def)
  ultimately show ?thesis
    by (simp add: kernel_path_def abs_path_ne split_abs_path demo_auth_dir_def)
qed

text \<open>Saving works there.\<close>

lemma os_chmod_dir:
  "no_faults w \<Longrightarrow> kernel_path w True p = Inr q \<Longrightarrow> fs w q = Some (NDir m) \<Longrightarrow>
     os_chmod p perm w = (Inr (), put_node q (NDir perm) (tick_sys w))"
  by (simp add: os_chmod_def sys_ok)

definition demo_temp_free :: "(path \<times> node) list \<Rightarrow> bool" where
  "demo_temp_free xs \<longleftrightarrow> list_all (\<lambda>(p, n). p = demo_auth_dir @ [''users.json''] \<and> (\<exists>m b. n = NFile m b)) xs"

lemma demo_save:
  assumes "demo_temp_free xs" "same_files (demo_auth_world xs) w" "marshal_indent auth_store_codec (s\<lparr>UpdatedAt := clock w (ticks w)\<rparr>) = Some data"
  shows "\<exists>w'. save_auth_store demo_config s w = (Inr (), w')"
proof -
  let ?p = "auth_store_path demo_config" and ?d = demo_auth_dir
  define w1 where "w1 = w\<lparr>ticks := Suc (ticks w)\<rparr>"
  have s1: "same_files (demo_auth_world xs) w1" using assms(2) by (simp add: w1_def same_files_def)
  have nf1: "no_faults w1" using no_faults_same [OF s1] demo_auth_fs(3) by simp
  have k1: "kernel_path w1 True (abs_path ?d) = Inr ?d" "fs w1 ?d = Some (NDir 448)"
    by (simp_all add: same_files_simps [OF s1] demo_auth_resolve demo_auth_fs)
  note mk = mkdir_all_present [OF nf1 k1, of 448]
  let ?w3 = "put_node ?d (NDir 448) (tick_sys (tick_sys w1))"
  have ch: "os_chmod (abs_path ?d) 448 (tick_sys w1) = (Inr (), ?w3)"
    using os_chmod_dir [of "tick_sys w1" "abs_path ?d" ?d 448 448] nf1 k1 by simp
  have fs3: "fs ?w3 = fs w1" using k1(2) by (simp add: fun_upd_idem)
  then have k3: "kernel_path ?w3 True (abs_path ?d) = Inr ?d" "fs ?w3 ?d = Some (NDir 448)"
    using k1 by (simp_all add: kernel_path_def abs_path_ne)
  have at: "fs ?w3 (?d @ [n]) = map_of xs (?d @ [n])" for n
    by (simp only: fs3 same_files_simps [OF s1] demo_auth_fs)
  have free: "map_of xs (?d @ [n]) = None" if "n \<noteq> ''users.json''" for n
    using assms(1) that by (induction xs) (auto simp: demo_temp_free_def)
  have target: "map_of xs (?d @ [''users.json'']) = None \<or> (\<exists>m b. map_of xs (?d @ [''users.json'']) = Some (NFile m b))"
    using assms(1) by (induction xs) (auto simp: demo_temp_free_def)
  have "temp_name ''users.json'' x \<noteq> ''users.json''" for x
    using temp_name_proper [of "''users.json''"] by (simp add: proper_def)
  then have "\<exists>w'. atomic_write_file ?p data 384 ?w3 = (Inr (), w') \<and> fs w' = (fs ?w3)(?d @ [path_base ?p] \<mapsto> NFile 384 data)
      \<and> cwd w' = cwd ?w3 \<and> no_faults w'"
    using free target nf1 k3
    by (intro atomic_write_live archive_files) (simp_all only: demo_auth_path(2,3) at no_faults_step not_False_eq_True)
  then obtain w' where "atomic_write_file ?p data 384 ?w3 = (Inr (), w')" by blast
  with mk ch assms(3) have "save_auth_store demo_config s w = (Inr (), w')"
    by (simp add: save_auth_store_def bind_io_def time_now_def json_data_def ret_io_def Let_def demo_auth_path(2) flip: w1_def)
  then show ?thesis by blast
qed

text \<open>And what the file of the store holds is what the name reads as.\<close>

lemma demo_reads:
  "reads_as (demo_auth_world [(demo_auth_dir @ [''users.json''], NFile m b)]) (auth_store_path demo_config) b"
proof -
  let ?w = "demo_auth_world [(demo_auth_dir @ [''users.json''], NFile m b)]"
  have "propers (demo_auth_dir @ [''users.json''])" by (simp add: demo_auth_dir_def) (simp add: proper_def)
  moreover have "demo_hash \<noteq> []" "demo_hash \<noteq> ''.''" "demo_hash \<noteq> ''..''"
    using proper_demo_hash unfolding proper_def by blast+
  moreover from this have "resolve (fs ?w) True 40 [] (demo_auth_dir @ [''users.json'']) = Inr (demo_auth_dir @ [''users.json''])"
    by (simp add: demo_auth_dir_def resolve.simps(2) fs_def demo_auth_world_def)
  ultimately have "kernel_path ?w True (auth_store_path demo_config) = Inr (demo_auth_dir @ [''users.json''])"
    by (simp add: kernel_path_def demo_auth_path(1) abs_path_ne split_abs_path)
  then show ?thesis by (simp add: reads_as_def node_at_Inr demo_auth_fs)
qed

lemma demo_missing: "node_at (demo_auth_world []) True (auth_store_path demo_config) = Inl ENOENT"
proof -
  let ?w = "demo_auth_world []"
  have "propers (demo_auth_dir @ [''users.json''])" by (simp add: demo_auth_dir_def) (simp add: proper_def)
  moreover have "demo_hash \<noteq> []" "demo_hash \<noteq> ''.''" "demo_hash \<noteq> ''..''"
    using proper_demo_hash unfolding proper_def by blast+
  moreover from this have "resolve (fs ?w) True 40 [] (demo_auth_dir @ [''users.json'']) = Inr (demo_auth_dir @ [''users.json''])"
    by (simp add: demo_auth_dir_def resolve.simps(2) fs_def demo_auth_world_def)
  ultimately have "kernel_path ?w True (auth_store_path demo_config) = Inr (demo_auth_dir @ [''users.json''])"
    by (simp add: kernel_path_def demo_auth_path(1) abs_path_ne split_abs_path)
  then show ?thesis by (simp add: node_at_def demo_auth_fs)
qed

end
