(* ===== verification/Utf8.thy ===== *)
theory Utf8
  imports JsonTrip
begin

text \<open>
  Encoding a rune and decoding it again, for the strings that the program makes rune by rune: they are
  valid UTF-8 whatever they are made of.
\<close>

definition scalar :: "nat \<Rightarrow> nat" where
  "scalar r = (if r > 1114111 \<or> (55296 \<le> r \<and> r \<le> 57343) then rune_error else r)"

lemma scalar_bounds: "scalar r \<le> 1114111 \<and> \<not> (55296 \<le> scalar r \<and> scalar r \<le> 57343)"
  by (simp add: scalar_def rune_error_def)

lemma scalar_idem [simp]: "scalar (scalar r) = scalar r"
  by (simp add: scalar_def rune_error_def)

lemma decode_two: "2 \<le> a \<Longrightarrow> a < 32 \<Longrightarrow> b < 64 \<Longrightarrow> decode_rune (map of_byte [192 + a, 128 + b] @ s) = (a * 64 + b, 2)"
  by (simp add: decode_multi_def cont_byte_def)

lemma decode_three:
  "a < 16 \<Longrightarrow> b < 64 \<Longrightarrow> c < 64 \<Longrightarrow> (a = 0 \<longrightarrow> 32 \<le> b) \<Longrightarrow> (a = 13 \<longrightarrow> b < 32) \<Longrightarrow>
     decode_rune (map of_byte [224 + a, 128 + b, 128 + c] @ s) = (a * 4096 + b * 64 + c, 3)"
  by (auto simp: decode_multi_def cont_byte_def)

lemma decode_four:
  "a < 5 \<Longrightarrow> b < 64 \<Longrightarrow> c < 64 \<Longrightarrow> d < 64 \<Longrightarrow> (a = 0 \<longrightarrow> 16 \<le> b) \<Longrightarrow> (a = 4 \<longrightarrow> b < 16) \<Longrightarrow>
     decode_rune (map of_byte [240 + a, 128 + b, 128 + c, 128 + d] @ s) = (a * 262144 + b * 4096 + c * 64 + d, 4)"
  by (auto simp: decode_multi_def cont_byte_def)

lemma decode_encode: "decode_rune (encode_rune r @ s) = (scalar r, length (encode_rune r)) \<and> encode_rune r \<noteq> []"
proof -
  define q where "q = scalar r"
  have q: "q \<le> 1114111" "\<not> (55296 \<le> q \<and> q \<le> 57343)" using scalar_bounds [of r] by (simp_all add: q_def)
  have enc: "encode_rune r = map of_byte
        (if q \<le> 127 then [q]
         else if q \<le> 2047 then [192 + q div 64, 128 + q mod 64]
         else if q \<le> 65535 then [224 + q div 4096, 128 + q div 64 mod 64, 128 + q mod 64]
         else [240 + q div 262144, 128 + q div 4096 mod 64, 128 + q div 64 mod 64, 128 + q mod 64])"
    unfolding encode_rune_def q_def scalar_def Let_def by (rule refl)
  consider "q \<le> 127" | "127 < q" "q \<le> 2047" | "2047 < q" "q \<le> 65535" | "65535 < q" by linarith
  then have "decode_rune (encode_rune r @ s) = (q, length (encode_rune r)) \<and> encode_rune r \<noteq> []"
  proof cases
    case 1
    then show ?thesis by (simp add: enc)
  next
    case 2
    define a b where "a = q div 64" and "b = q mod 64"
    have ab: "q = a * 64 + b" "b < 64" by (simp_all add: a_def b_def)
    then have "2 \<le> a" "a < 32" using 2 by linarith+
    note range = this
    have e: "encode_rune r = map of_byte [192 + a, 128 + b]" using 2 by (simp add: enc a_def b_def)
    show ?thesis
      unfolding e decode_two [OF range ab(2)] ab(1) by simp
  next
    case 3
    define a b c where "a = q div 4096" and "b = q div 64 mod 64" and "c = q mod 64"
    have "q div 4096 = q div 64 div 64" by (simp add: div_mult2_eq [symmetric])
    then have "q div 64 * 64 + c = q" "a * 64 + b = q div 64"
      unfolding a_def b_def c_def by (simp_all only: div_mult_mod_eq)
    then have abc: "q = a * 4096 + b * 64 + c" "b < 64" "c < 64" by (linarith, simp_all add: b_def c_def)
    have "a < 16" using 3 abc(1) by linarith
    moreover have "a = 0 \<longrightarrow> 32 \<le> b" using 3 abc by linarith
    moreover have "a = 13 \<longrightarrow> b < 32" using q(2) abc by linarith
    ultimately have range: "a < 16" "a = 0 \<longrightarrow> 32 \<le> b" "a = 13 \<longrightarrow> b < 32" by blast+
    have e: "encode_rune r = map of_byte [224 + a, 128 + b, 128 + c]" using 3 by (simp add: enc a_def b_def c_def)
    show ?thesis
      unfolding e decode_three [OF range(1) abc(2,3) range(2,3)] abc(1) by simp
  next
    case 4
    define a b c d where "a = q div 262144" and "b = q div 4096 mod 64" and "c = q div 64 mod 64" and "d = q mod 64"
    have "q div 4096 = q div 64 div 64" "q div 262144 = q div 4096 div 64" by (simp_all add: div_mult2_eq [symmetric])
    then have "q div 64 * 64 + d = q" "q div 4096 * 64 + c = q div 64" "a * 64 + b = q div 4096"
      unfolding a_def b_def c_def d_def by (simp_all only: div_mult_mod_eq)
    then have abcd: "q = a * 262144 + b * 4096 + c * 64 + d" "b < 64" "c < 64" "d < 64"
      by (linarith, simp_all add: b_def c_def d_def)
    have "a < 5" using q(1) abcd(1) by linarith
    moreover have "a = 0 \<longrightarrow> 16 \<le> b" using 4 abcd by linarith
    moreover have "a = 4 \<longrightarrow> b < 16" using q(1) abcd by linarith
    ultimately have range: "a < 5" "a = 0 \<longrightarrow> 16 \<le> b" "a = 4 \<longrightarrow> b < 16" by blast+
    have e: "encode_rune r = map of_byte [240 + a, 128 + b, 128 + c, 128 + d]"
      using 4 by (simp add: enc a_def b_def c_def d_def)
    show ?thesis
      unfolding e decode_four [OF range(1) abcd(2-4) range(2,3)] abcd(1) by simp
  qed
  then show ?thesis by (simp add: q_def)
qed

lemma runes_encode: "runes (concat (map encode_rune rs)) = map scalar rs"
proof (induction rs)
  case (Cons r rs)
  obtain c cs where c: "encode_rune r @ concat (map encode_rune rs) = c # cs"
    using decode_encode [of r "concat (map encode_rune rs)"] by (cases "encode_rune r") auto
  then have "decode_rune (c # cs) = (scalar r, length (encode_rune r))" using decode_encode [of r] by metis
  moreover have "drop (length (encode_rune r)) (c # cs) = concat (map encode_rune rs)"
    unfolding c [symmetric] by simp
  ultimately show ?case using Cons by (simp add: c runes_def)
qed (simp add: runes_def)

lemma encode_scalar: "encode_rune (scalar r) = encode_rune r"
  by (simp add: encode_rune_def scalar_def rune_error_def)

lemma utf8_valid_encoded: "utf8_valid (concat (map encode_rune rs))"
  by (simp add: utf8_valid_def utf8_valid_form_def runes_encode o_def encode_scalar)

lemma utf8_valid_to_lower [simp]: "utf8_valid (to_lower s)"
proof (cases "is_ascii s")
  case True
  then show ?thesis by (simp add: to_lower_ascii)
next
  case False
  then show ?thesis using utf8_valid_encoded [of "map unicode_to_lower (runes s)"] by (simp add: to_lower_def)
qed

end
