(* ===== verification/AuthSafety.thy ===== *)
theory AuthSafety
  imports AuthSpec AuthDemo Utf8
begin

text \<open>
  The user store implements its abstract specification: every operation of \<open>auth_store.go\<close>, with any of its
  system calls failing, makes one of the abstract changes to the file or none. What holds of the changes therefore
  holds of the server: a recovery token opens the account once, and the first administrator is created once.
\<close>

section \<open>The operations make the abstract changes\<close>

text \<open>
  The surroundings: the file system never says of a file that is there that it is not, and the clock shows times
  that fit into 64 bits and are not the start of year 1. They stay as they are, and so does it that no symbolic
  link is named like the store.
\<close>

definition sane :: "world \<Rightarrow> bool" where
  "sane w \<longleftrightarrow> no_link_named ''users.json'' w \<and> (\<forall>n. fault w n \<noteq> Some ENOENT)
     \<and> (\<forall>n. clock w n \<noteq> zero_time \<and> int64 (unix (clock w n)))"

lemma sane_setting: "sane w \<Longrightarrow> same_setting w w' \<Longrightarrow> no_link_named ''users.json'' w' \<Longrightarrow> sane w'"
  by (simp add: sane_def same_setting_def)

lemma sane_contents: "sane w \<Longrightarrow> same_contents w w' \<Longrightarrow> sane w'"
  using same_contents_no_link [of w w' "''users.json''"] sane_setting [of w w']
  by (auto simp: same_contents_def sane_def)

definition moves :: "settings \<Rightarrow> auth_store \<Rightarrow> world \<Rightarrow> bool" where
  "moves c s w' \<longleftrightarrow> sane w' \<and> (\<exists>s'. auth_holds c w' s' \<and> good_store s'
     \<and> (s' = s \<or> (\<exists>s1 now. store_change s s1 \<and> s' = s1\<lparr>UpdatedAt := now\<rparr>)))"

lemma good_updated [simp]: "good_store (s\<lparr>UpdatedAt := now\<rparr>) = good_store s"
  by (simp add: good_store_def token_hashes_def)

lemma moves_same: "sane w \<Longrightarrow> auth_holds c w s \<Longrightarrow> good_store s \<Longrightarrow> same_contents w w' \<Longrightarrow> moves c s w'"
  using sane_contents auth_holds_contents unfolding moves_def by blast

lemma moves_save:
  assumes "sane w" "auth_holds c w s" "good_store s" "store_change s s1" "save_auth_store c s1 w = (r, w')"
  shows "moves c s w' \<and> (r = Inr () \<longrightarrow> (\<exists>now. auth_holds c w' (s1\<lparr>UpdatedAt := now\<rparr>)))"
proof -
  have good: "good_store s1" by (rule good_change) (rule assms)+
  then have "auth_store_fits s1" by (simp add: good_store_def)
  from save_auth_run [OF assms(5) this] assms(1) obtain now where
      ok: "r = Inr () \<Longrightarrow> auth_holds c w' (s1\<lparr>UpdatedAt := now\<rparr>)"
    and either: "\<And>u. auth_holds c w u \<Longrightarrow> auth_holds c w' u \<or> auth_holds c w' (s1\<lparr>UpdatedAt := now\<rparr>)"
    and sane: "no_link_named ''users.json'' w'" "same_setting w w'"
    unfolding sane_def by metis
  from either [OF assms(2)] have "moves c s w'"
    using sane_setting [OF assms(1) sane(2,1)] assms(3,4) good unfolding moves_def by (metis good_updated)
  with ok show ?thesis by blast
qed

text \<open>Reading the store in such surroundings: an error, or the store.\<close>

lemma harmless_load [simp]: "harmless (load_auth_store c)"
  by (simp add: load_auth_store_def harmless_reads)

lemma load_auth_Inr: "sane w \<Longrightarrow> auth_holds c w s \<Longrightarrow> load_auth_store c w = (Inr v, w') \<Longrightarrow> v = s"
  unfolding load_auth_store_def
  using load_json_Inr auth_holds_unique unfolding auth_holds_def sane_def by metis

lemma utf8_valid_hash [simp]: "utf8_valid (hash_token t)"
proof -
  have "is_ascii (hash_token t)"
    unfolding is_ascii_def list_all_iff hash_token_def
    by (intro ballI) (drule hex_encode_chars, auto simp: lower_hex_char_def)
  then show ?thesis by (rule utf8_valid_ascii)
qed

lemma hash_password_Inr: "hash_password p w = (Inr h, w') \<Longrightarrow> utf8_valid h"
proof -
  assume "hash_password p w = (Inr h, w')"
  then obtain salt derived where h: "h = encode_password_hash salt derived"
    by (auto simp: hash_password_def io_inv Let_def)
  have "is_ascii (b64_encode s)" for s
    unfolding is_ascii_def list_all_iff
    by (intro ballI) (drule b64_encode_alphabet, auto simp: b64_alphabet_def b64_value_def Let_def split: if_splits)
  moreover have "is_ascii (int_digits passwordHashVersion)" "is_ascii (int_digits passwordHashIterations)"
    by (simp_all add: int_digits_numeral byte_def)
  ultimately have "is_ascii h"
    by (simp add: h encode_password_hash_def passwordHashAlgorithm_def byte_def)
  then show ?thesis by (rule utf8_valid_ascii)
qed

text \<open>
  An operation runs calls that change no file, and then perhaps saves the store. \<open>at_store c s w\<close>: the store of
  the world \<open>w\<close> is \<open>s\<close>.
\<close>

definition at_store :: "settings \<Rightarrow> auth_store \<Rightarrow> world \<Rightarrow> bool" where
  "at_store c s w \<longleftrightarrow> sane w \<and> auth_holds c w s \<and> good_store s"

lemma at_contents: "at_store c s w \<Longrightarrow> same_contents w w' \<Longrightarrow> at_store c s w'"
  using sane_contents auth_holds_contents unfolding at_store_def by blast

lemma moves_stay: "at_store c s w \<Longrightarrow> moves c s w"
  unfolding moves_def at_store_def by blast

lemma harmless_ops [simp]:
  "harmless time_now" "harmless (random_token n)" "harmless (hash_password p)" "harmless (ret_io v)"
  "harmless (lift_io r)"
  by (auto simp: random_token_def hash_password_def Let_def intro!: harmless_reads reads_bind keeps_bind)

lemma at_bind:
  assumes "at_store c s w" "bind_io m k w = (r, w')" "harmless m"
  obtains "at_store c s w'" "\<exists>e. r = Inl e" | v w1 where "m w = (Inr v, w1)" "at_store c s w1" "k v w1 = (r, w')"
proof -
  obtain q w1 where m: "m w = (q, w1)" by (cases "m w")
  then have at: "at_store c s w1" using at_contents [OF assms(1) harmlessD [OF assms(3)]] by blast
  show thesis
  proof (cases q)
    case (Inl e)
    with m assms(2) at show thesis by (intro that(1)) (auto simp: bind_io_def)
  next
    case (Inr v)
    with m assms(2) at show thesis by (intro that(2)) (auto simp: bind_io_def)
  qed
qed

lemma at_load:
  assumes "at_store c s w" "bind_io (load_auth_store c) k w = (r, w')"
  obtains "at_store c s w'" "\<exists>e. r = Inl e" | w1 where "at_store c s w1" "k s w1 = (r, w')"
  using assms
proof (cases rule: at_bind [OF assms harmless_load])
  case (2 v w1)
  then have "v = s" using load_auth_Inr assms(1) unfolding at_store_def by blast
  with 2 that show thesis by blast
qed (use that in blast)

lemma at_save:
  assumes "at_store c s w" "store_change s s1" "save_auth_store c s1 w = (r, w')"
  shows "moves c s w' \<and> (r = Inr () \<longrightarrow> (\<exists>now. auth_holds c w' (s1\<lparr>UpdatedAt := now\<rparr>)))"
  using moves_save assms unfolding at_store_def by blast

lemma at_save_then:
  assumes "at_store c s w" "store_change s s1" "bind_io (save_auth_store c s1) (\<lambda>_. ret_io v) w = (r, w')"
  shows "moves c s w' \<and> ((\<exists>u. r = Inr u) \<longrightarrow> (\<exists>now. auth_holds c w' (s1\<lparr>UpdatedAt := now\<rparr>)))"
proof -
  obtain q where q: "save_auth_store c s1 w = (q, w')" "(\<exists>u. r = Inr u) \<longrightarrow> q = Inr ()"
    using assms(3) by (auto simp: bind_io_def ret_io_def split: prod.splits sum.splits)
  from at_save [OF assms(1,2) q(1)] q(2) show ?thesis by blast
qed

lemma at_clock: "at_store c s w \<Longrightarrow> clock w n \<noteq> zero_time \<and> int64 (unix (clock w n))"
  by (simp add: at_store_def sane_def)

text \<open>Each operation in turn.\<close>

lemma authenticate_moves:
  assumes "at_store c s w" "authenticate_persistent_user c email password w = (r, w')"
  shows "moves c s w'"
  using assms(1) assms(2) [unfolded authenticate_persistent_user_def]
proof (cases rule: at_load)
  case 1
  then show ?thesis by (simp add: moves_stay)
next
  case (2 w1)
  let ?P = "\<lambda>u. normalize_email (User_Email u) = email \<and> is_active (User_Status u)"
  from 2(2) consider "w' = w1" | i where "find_index ?P (elems (Users s)) = Some i"
      "bind_io time_now (\<lambda>now. let u' = (elems (Users s) ! i)\<lparr>User_LastVisitTime := unix now\<rparr> in
         bind_io (save_auth_store c (update_user s i u')) (\<lambda>_. ret_io (u', True))) w1 = (r, w')"
    by (auto simp: ret_io_def Let_def split: option.splits sum.splits if_splits)
  then show ?thesis
  proof cases
    case 1
    with 2(1) show ?thesis using moves_stay by simp
  next
    case (2 i)
    from \<open>at_store c s w1\<close> 2(2) harmless_ops(1) show ?thesis
    proof (cases rule: at_bind)
      case 1
      then show ?thesis using moves_stay by simp
    next
      case (2 now w2)
      let ?u = "(elems (Users s) ! i)\<lparr>User_LastVisitTime := unix now\<rparr>"
      have "int64 (unix now)" using 2(1) at_clock [OF \<open>at_store c s w1\<close>] by (auto simp: time_now_def)
      then have change: "store_change s (update_user s i ?u)"
        using find_index_Some [OF \<open>find_index ?P (elems (Users s)) = Some i\<close>] by (intro visited) simp_all
      from at_save_then [OF 2(2) change 2(3) [unfolded Let_def]] show ?thesis by blast
    qed
  qed
qed

lemma change_password_moves:
  assumes "at_store c s w" "change_persistent_password c uid old new w = (r, w')"
  shows "moves c s w'"
  using assms(1) assms(2) [unfolded change_persistent_password_def] harmless_ops(5)
proof (cases rule: at_bind)
  case 1
  then show ?thesis by (simp add: moves_stay)
next
  case (2 _ w1)
  from 2(2,3) show ?thesis
  proof (cases rule: at_load)
    case 1
    then show ?thesis by (simp add: moves_stay)
  next
    case (2 w2)
    let ?P = "\<lambda>u. User_Id u = uid \<and> is_active (User_Status u)"
    from 2(2) consider "w' = w2" | i where "find_index ?P (elems (Users s)) = Some i"
        "bind_io (hash_password new) (\<lambda>hash.
           save_auth_store c (update_user s i ((elems (Users s) ! i)\<lparr>User_PasswordHash := hash\<rparr>))) w2 = (r, w')"
      by (auto simp: fail_io_def Let_def split: option.splits if_splits)
    then show ?thesis
    proof cases
      case 1
      with 2(1) show ?thesis by (simp add: moves_stay)
    next
      case (2 i)
      from \<open>at_store c s w2\<close> 2(2) harmless_ops(3) show ?thesis
      proof (cases rule: at_bind)
        case 1
        then show ?thesis by (simp add: moves_stay)
      next
        case (2 h w3)
        have "store_change s (update_user s i ((elems (Users s) ! i)\<lparr>User_PasswordHash := h\<rparr>))"
          using find_index_Some [OF \<open>find_index ?P (elems (Users s)) = Some i\<close>] hash_password_Inr [OF 2(1)]
          by (intro rehashed) simp_all
        from at_save [OF 2(2) this 2(3)] show ?thesis by blast
      qed
    qed
  qed
qed

text \<open>
  A new token must differ from all that the store has: what the random source still has to give is not there
  yet.
\<close>

definition fresh_tokens :: "auth_store \<Rightarrow> world \<Rightarrow> bool" where
  "fresh_tokens s w \<longleftrightarrow> (\<forall>v t v'. same_setting w v \<longrightarrow> random_token 32 v = (Inr t, v') \<longrightarrow>
     hash_token t \<notin> set (token_hashes s))"

lemma create_token_moves:
  assumes "at_store c s w" "fresh_tokens s w" "int64 uid" "create_recovery_token c uid expiry w = (r, w')"
  shows "moves c s w'"
proof -
  let ?clock = "if expiry = zero_time then bind_io time_now (\<lambda>now. ret_io (now + recoveryTokenDuration)) else ret_io expiry"
  have "harmless ?clock" by (auto intro!: harmless_bind)
  with assms(1) assms(4) [unfolded create_recovery_token_def] show ?thesis
  proof (cases rule: at_bind)
    case 1
    then show ?thesis by (simp add: moves_stay)
  next
    case (2 expires w1)
    have "keeps ?clock" by (auto intro!: keeps_bind)
    then have s1: "same_setting w w1" using 2(1) by (rule keepsD)
    from 2(2,3) harmless_ops(2) show ?thesis
    proof (cases rule: at_bind)
      case 1
      then show ?thesis by (simp add: moves_stay)
    next
      case (2 t w2)
      have new: "hash_token t \<notin> set (token_hashes s)"
        using assms(2) s1 2(1) unfolding fresh_tokens_def by blast
      from 2(2,3) show ?thesis
      proof (cases rule: at_load)
        case 1
        then show ?thesis by (simp add: moves_stay)
      next
        case (2 w3)
        have "store_change s (s\<lparr>RecoveryTokens := append_slice (RecoveryTokens s)
            \<lparr>RecoveryToken_UserId = uid, RecoveryToken_TokenHash = hash_token t,
             RecoveryToken_ExpiresAt = expires, RecoveryToken_UsedAt = zero_time\<rparr>\<rparr>)"
          using new assms(3) by (intro issued) (simp_all add: recovery_token_fits_def)
        from at_save_then [OF 2(1) this 2(2)] show ?thesis by blast
      qed
    qed
  qed
qed

lemma verify_token_moves:
  assumes "at_store c s w" "verify_recovery_token c uid tok now w = (r, w')"
  shows "moves c s w' \<and> (r = Inr True \<longrightarrow> (\<exists>s'. auth_holds c w' s' \<and> spent (hash_token tok) s'))"
proof -
  have "harmless (if now = zero_time then time_now else ret_io now)" by simp
  with assms(1) assms(2) [unfolded verify_recovery_token_def] show ?thesis
  proof (cases rule: at_bind)
    case 1
    then show ?thesis by (auto simp: moves_stay)
  next
    case (2 t w1)
    have t: "t \<noteq> zero_time"
      using 2(1) at_clock [OF assms(1)] by (auto simp: time_now_def ret_io_def split: if_splits)
    let ?P = "token_accepted uid (hash_token tok) t"
    obtain lr w2 where load: "load_auth_store c w1 = (lr, w2)" by (cases "load_auth_store c w1")
    have at2: "at_store c s w2" by (rule at_contents [OF 2(2) harmlessD [OF harmless_load load]])
    have lr: "lr = Inr v \<Longrightarrow> v = s" for v using load load_auth_Inr 2(2) unfolding at_store_def by blast
    from 2(3) load lr consider "w' = w2" "r = Inr False" | i q where "find_index ?P (tokens s) = Some i"
        "save_auth_store c (use_recovery_token s i t) w2 = (q, w')" "r = Inr True \<longrightarrow> q = Inr ()"
      by (auto simp: catch_io_def ret_io_def tokens_def split: option.splits sum.splits prod.splits)
    then show ?thesis
    proof cases
      case 1
      then show ?thesis using at2 by (simp add: moves_stay)
    next
      case (2 i q)
      note i = find_index_Some [OF 2(1)]
      then have "store_change s (use_recovery_token s i t)"
        using t by (intro used) (simp_all add: token_accepted_def)
      note finish = at_save [OF at2 this 2(2)]
      have "spent (hash_token tok) ((use_recovery_token s i t)\<lparr>UpdatedAt := u\<rparr>)" for u
        using i t by (auto simp: spent_def token_accepted_def set_update_memI intro!: bexI [of _ "(tokens s ! i)\<lparr>RecoveryToken_UsedAt := t\<rparr>"])
      then show ?thesis using finish 2(3) by blast
    qed
  qed
qed

lemma bind_guard: "bind_io (lift_io (guard_err b e)) f = (if b then fail_io e else f ())"
  by (simp add: fun_eq_iff bind_io_def lift_io_def fail_io_def)

definition founded_store :: "auth_store \<Rightarrow> string \<Rightarrow> string \<Rightarrow> time \<Rightarrow> auth_store" where
  "founded_store s email h now =
     s\<lparr>Users := Some [first_admin email h now],
       Groups := Some [zero_group\<lparr>Group_Id := 1, Group_OwnerId := 1, Group_Name := superuserGroupName,
         Group_Title := superuserGroupName, Group_Date := unix now, Group_Status := ''active''\<rparr>],
       UserGroups := Some [zero_user_group\<lparr>UserGroup_UserId := 1, UserGroup_GroupId := 1,
         UserGroup_Status := ''active''\<rparr>]\<rparr>"

lemma founded_change:
  assumes "active_users (elems (Users s)) = []" "utf8_valid email" "utf8_valid h" "int64 (unix now)"
  shows "store_change s (founded_store s email h now)"
proof -
  have words: "utf8_valid ''yes''" "utf8_valid ''active''" "utf8_valid ''en''" "utf8_valid superuserGroupName"
    by (simp_all add: byte_def superuserGroupName_def)
  have "user_fits (first_admin email h now)"
    using assms words by (simp add: user_fits_def first_admin_def zero_user_def int64_def)
  moreover have "is_active (User_Status (first_admin email h now))" by (simp add: first_admin_def is_active_def)
  ultimately show ?thesis
    unfolding founded_store_def using assms(1,4) words
    by (intro founded) (simp_all add: group_fits_def zero_group_def user_group_fits_def zero_user_group_def int64_def)
qed

lemma User_Id_first_admin [simp]: "User_Id (first_admin email h now) = 1"
  by (simp add: first_admin_def)

text \<open>\<open>createFirstAdmin\<close> after its checks of the arguments.\<close>

lemma create_first_admin_eq:
  "create_first_admin c email password =
     (if \<not> valid_email (normalize_email email) then fail_io (ErrText ''invalid email'')
      else if length password < 8 then fail_io ErrWeakPassword
      else bind_io (load_auth_store c) (\<lambda>s.
        if active_users (elems (Users s)) \<noteq> [] then fail_io (ErrText ''users already exist'')
        else bind_io (hash_password password) (\<lambda>h. bind_io time_now (\<lambda>now.
          bind_io (save_auth_store c (founded_store s (normalize_email email) h now)) (\<lambda>_.
            ret_io (first_admin (normalize_email email) h now))))))"
  unfolding founded_store_def
  by (simp add: create_first_admin_def Let_def bind_guard validate_password_def)

lemma first_admin_moves:
  assumes "at_store c s w" "create_first_admin c email password w = (r, w')"
  shows "moves c s w' \<and> ((\<exists>u. r = Inr u) \<longrightarrow> \<not> has_admin s
    \<and> (\<exists>h now w1 w2 t. hash_password password w1 = (Inr h, w2)
        \<and> auth_holds c w' ((founded_store s (normalize_email email) h now)\<lparr>UpdatedAt := t\<rparr>)))"
proof (cases "valid_email (normalize_email email) \<and> \<not> length password < 8")
  case False
  with assms(2) have "w' = w" "\<exists>e. r = Inl e" by (auto simp: create_first_admin_eq fail_io_def split: if_splits)
  then show ?thesis using assms(1) by (auto simp: moves_stay)
next
  case True
  let ?found = "bind_io (hash_password password) (\<lambda>h. bind_io time_now (\<lambda>now.
          bind_io (save_auth_store c (founded_store s (normalize_email email) h now)) (\<lambda>_.
            ret_io (first_admin (normalize_email email) h now))))"
  have "bind_io (load_auth_store c) (\<lambda>s.
        if active_users (elems (Users s)) \<noteq> [] then fail_io (ErrText ''users already exist'')
        else bind_io (hash_password password) (\<lambda>h. bind_io time_now (\<lambda>now.
          bind_io (save_auth_store c (founded_store s (normalize_email email) h now)) (\<lambda>_.
            ret_io (first_admin (normalize_email email) h now))))) w = (r, w')"
    using assms(2) True by (simp add: create_first_admin_eq)
  with assms(1) show ?thesis
  proof (cases rule: at_load)
    case 1
    then show ?thesis by (auto simp: moves_stay)
  next
    case (2 w1)
    show ?thesis
    proof (cases "active_users (elems (Users s)) = []")
      case False
      with 2 show ?thesis by (auto simp: moves_stay fail_io_def)
    next
      case none: True
      then have no: "\<not> has_admin s" by (auto simp: has_admin_def active_users_def filter_empty_conv)
      have "?found w1 = (r, w')" using 2(2) none by simp
      with 2(1) show ?thesis using harmless_ops(3)
      proof (cases rule: at_bind)
        case 1
        then show ?thesis by (auto simp: moves_stay)
      next
        case h: (2 h w2)
        from h(2,3) harmless_ops(1) show ?thesis
        proof (cases rule: at_bind)
          case 1
          then show ?thesis by (auto simp: moves_stay)
        next
          case (2 now w3)
          have "int64 (unix now)" using 2(1) at_clock [OF h(2)] by (auto simp: time_now_def)
          then have "store_change s (founded_store s (normalize_email email) h now)"
            using hash_password_Inr [OF h(1)] by (intro founded_change none) (simp_all add: normalize_email_def)
          from at_save_then [OF 2(2) this 2(3)] no h(1) show ?thesis by blast
        qed
      qed
    qed
  qed
qed

section \<open>Runs\<close>

text \<open>
  What may happen to the store, one operation after the other in any order: the operations with any arguments and
  any outcome, and whatever leaves the store's file as it is.
\<close>

inductive auth_step :: "settings \<Rightarrow> world \<Rightarrow> world \<Rightarrow> bool" for c where
  login_step: "authenticate_persistent_user c email password w = (r, w') \<Longrightarrow> auth_step c w w'"
| change_step: "change_persistent_password c uid old new w = (r, w') \<Longrightarrow> auth_step c w w'"
| issue_step: "create_recovery_token c uid expiry w = (r, w') \<Longrightarrow> int64 uid \<Longrightarrow>
    (\<And>s. auth_holds c w s \<Longrightarrow> fresh_tokens s w) \<Longrightarrow> auth_step c w w'"
| verify_step: "verify_recovery_token c uid tok now w = (r, w') \<Longrightarrow> auth_step c w w'"
| admin_step: "create_first_admin c email password w = (r, w') \<Longrightarrow> auth_step c w w'"
| look_step: "has_persistent_users c w = (r, w') \<Longrightarrow> auth_step c w w'"
| other_step: "sane w' \<Longrightarrow> reads_as w' (auth_store_path c) = reads_as w (auth_store_path c) \<Longrightarrow> auth_step c w w'"

lemma auth_step_moves: "auth_step c w w' \<Longrightarrow> at_store c s w \<Longrightarrow> moves c s w'"
proof (induction rule: auth_step.induct)
  case (issue_step uid expiry w r w')
  then show ?case using create_token_moves unfolding at_store_def by blast
next
  case (look_step w r w')
  have "harmless (has_persistent_users c)"
    unfolding has_persistent_users_def by (auto intro!: harmless_bind)
  from at_contents [OF look_step(2) harmlessD [OF this look_step(1)]] show ?case by (rule moves_stay)
next
  case (other_step w' w)
  then show ?case by (intro moves_stay) (simp add: at_store_def auth_holds_def holds_json_def)
qed (auto dest: authenticate_moves change_password_moves verify_token_moves first_admin_moves)

lemma auth_run_keeps:
  assumes "(auth_step c)\<^sup>*\<^sup>* w w'" "at_store c s w" "I s"
    and "\<And>s s'. I s \<Longrightarrow> store_change s s' \<Longrightarrow> I s'" "\<And>s now. I (s\<lparr>UpdatedAt := now\<rparr>) = I s"
  shows "\<exists>s'. at_store c s' w' \<and> I s'"
  using assms(1)
proof (induction rule: rtranclp_induct)
  case base
  then show ?case using assms(2,3) by blast
next
  case (step y z)
  then obtain s1 where "at_store c s1 y" "I s1" by blast
  with auth_step_moves [OF step(2)] show ?case unfolding moves_def at_store_def by (metis assms(4,5))
qed

section \<open>Properties\<close>

text \<open>What a successful creation of the first administrator has done.\<close>

lemma first_admin_ok:
  assumes "sane w" "\<And>s. auth_holds c w s \<Longrightarrow> good_store s" "create_first_admin c email password w = (Inr u, w')"
  obtains s h now t w1 w2 where "at_store c ((founded_store s (normalize_email email) h now)\<lparr>UpdatedAt := t\<rparr>) w'"
    "hash_password password w1 = (Inr h, w2)" "u = first_admin (normalize_email email) h now"
proof -
  let ?e = "normalize_email email"
  from assms(3) obtain s w1 h w2 now w3 where load: "load_auth_store c w = (Inr s, w1)"
    and none: "active_users (elems (Users s)) = []" and h: "hash_password password w1 = (Inr h, w2)"
    and now: "time_now w2 = (Inr now, w3)" and save: "save_auth_store c (founded_store s ?e h now) w3 = (Inr (), w')"
    and u: "u = first_admin ?e h now"
    by (auto simp: create_first_admin_eq io_inv split: if_splits)
  have "auth_holds c w s \<or> s = empty_auth_store"
    using load load_json_Inr assms(1) unfolding load_auth_store_def auth_holds_def sane_def by metis
  then have "good_store s"
    using assms(2) by (auto simp: good_store_def auth_store_fits_def empty_auth_store_def token_hashes_def tokens_def)
  have c3: "same_contents w w3"
    using harmlessD [OF harmless_load load] harmlessD [OF harmless_ops(3) h] harmlessD [OF harmless_ops(1) now]
      same_contents_trans by blast
  then have sane3: "sane w3" by (rule sane_contents [OF assms(1)])
  have "same_setting w w3" using c3 by (simp add: same_contents_def)
  then have "int64 (unix now)"
    using now assms(1) by (auto simp: time_now_def sane_def same_setting_def)
  then have "store_change s (founded_store s ?e h now)"
    using hash_password_Inr [OF h] by (intro founded_change none) (simp_all add: normalize_email_def)
  then have good: "good_store (founded_store s ?e h now)" using \<open>good_store s\<close> by (rule good_change)
  then have fits: "auth_store_fits (founded_store s ?e h now)" by (simp add: good_store_def)
  have "no_link_named ''users.json'' w3" using sane3 by (simp add: sane_def)
  from save_auth_run [OF save fits this] obtain t where "auth_holds c w' ((founded_store s ?e h now)\<lparr>UpdatedAt := t\<rparr>)"
    "no_link_named ''users.json'' w'" "same_setting w3 w'" by metis
  then have "at_store c ((founded_store s ?e h now)\<lparr>UpdatedAt := t\<rparr>) w'"
    using good sane_setting [OF sane3] by (simp add: at_store_def)
  then show thesis using h u by (rule that)
qed

lemma founded_has_admin: "has_admin ((founded_store s e h now)\<lparr>UpdatedAt := t\<rparr>)"
  by (simp add: has_admin_def founded_store_def first_admin_def is_active_def)

lemma has_admin_updated [simp]: "has_admin (s\<lparr>UpdatedAt := t\<rparr>) = has_admin s"
  by (simp add: has_admin_def)

lemma spent_updated [simp]: "spent h (s\<lparr>UpdatedAt := t\<rparr>) = spent h s"
  by (simp add: spent_def)


text \<open>
  Property C11. A recovery token works once: after a call of \<open>verifyRecoveryToken\<close> that has accepted a token, no
  later call accepts that token again, for no time and no user, whatever operations run in between.
\<close>

theorem recovery_token_single_use:
  assumes "at_store c s w" "verify_recovery_token c uid tok now w = (Inr True, w')"
    and "(auth_step c)\<^sup>*\<^sup>* w' w''"
  shows "fst (verify_recovery_token c uid' tok now' w'') = Inr False"
proof -
  from verify_token_moves [OF assms(1,2)] obtain s1 where s1: "auth_holds c w' s1" "spent (hash_token tok) s1"
    and m: "moves c s w'" by blast
  then have "at_store c s1 w'" unfolding moves_def at_store_def using auth_holds_unique by blast
  with assms(3) have "\<exists>s2. at_store c s2 w'' \<and> spent (hash_token tok) s2"
    by (rule auth_run_keeps) (use s1(2) spent_change in simp_all)
  then obtain s2 where s2: "at_store c s2 w''" "spent (hash_token tok) s2" by blast
  then have good: "good_store s2" by (simp add: at_store_def)
  have "fst (catch_io (load_auth_store c) (\<lambda>_. ret_io False) (\<lambda>store.
     case find_index (token_accepted uid' (hash_token tok) t) (elems (RecoveryTokens store)) of
       None \<Rightarrow> ret_io False
     | Some i \<Rightarrow>
         catch_io (save_auth_store c (use_recovery_token store i t)) (\<lambda>_. ret_io False) (\<lambda>_. ret_io True)) v) = Inr False"
    if "at_store c s2 v" for t v
  proof (cases "load_auth_store c v")
    case (Pair r v')
    then have "r = Inr x \<Longrightarrow> x = s2" for x using load_auth_Inr that unfolding at_store_def by blast
    then show ?thesis
      using spent_rejected [OF good s2(2)] Pair
      by (cases r) (auto simp: catch_io_def ret_io_def tokens_def)
  qed
  moreover have "at_store c s2 (snd (time_now w''))"
    using at_contents [OF s2(1) harmlessD [OF harmless_ops(1)]] by (metis prod.collapse)
  ultimately show ?thesis
    using s2(1) by (auto simp: verify_recovery_token_def bind_io_def time_now_def ret_io_def)
qed

text \<open>
  Property C12. There is one first administrator: once \<open>createFirstAdmin\<close> has succeeded, it fails for every
  address and password, whatever operations have run in between.
\<close>

theorem first_admin_once:
  assumes "sane w" "\<And>s. auth_holds c w s \<Longrightarrow> good_store s"
    and "create_first_admin c email password w = (Inr u, w')" "(auth_step c)\<^sup>*\<^sup>* w' w''"
  shows "\<exists>err. fst (create_first_admin c email' password' w'') = Inl err"
proof -
  from first_admin_ok [OF assms(1-3)] obtain s1 where "at_store c s1 w'" "has_admin s1"
    using founded_has_admin by metis
  with assms(4) have "\<exists>s2. at_store c s2 w'' \<and> has_admin s2"
    by (rule auth_run_keeps) (use has_admin_change in simp_all)
  then obtain s2 where "at_store c s2 w''" "has_admin s2" by blast
  with first_admin_moves [OF this(1)] show ?thesis
    by (cases "create_first_admin c email' password' w''"; cases "fst (create_first_admin c email' password' w'')") auto
qed

section \<open>Concrete runs\<close>

lemma demo_sane: "list_all (\<lambda>(p, n). \<exists>m b. n = NFile m b) xs \<Longrightarrow> sane (demo_auth_world xs)"
proof -
  assume "list_all (\<lambda>(p, n). \<exists>m b. n = NFile m b) xs"
  then have "map_of xs q \<noteq> Some (NLink t)" for q t
    by (auto dest!: map_of_SomeD simp: list_all_iff)
  then have "no_link_named n (demo_auth_world xs)" for n
    by (auto simp: no_link_named_def fs_def demo_auth_world_def split: if_splits)
  then show ?thesis
    by (simp add: sane_def demo_auth_world_def demo_world_def zero_time_def second_def unix_def int64_def)
qed

definition demo_token :: recovery_token where
  "demo_token = \<lparr>RecoveryToken_UserId = 1, RecoveryToken_TokenHash = hash_token ''t'',
     RecoveryToken_ExpiresAt = 10, RecoveryToken_UsedAt = zero_time\<rparr>"

definition demo_token_store :: auth_store where
  "demo_token_store = empty_auth_store\<lparr>RecoveryTokens := Some [demo_token]\<rparr>"

lemma marshal_some:
  "0 \<le> year_of (t div day_ns + unix_epoch_day) \<Longrightarrow> year_of (t div day_ns + unix_epoch_day) \<le> 9999 \<Longrightarrow> marshal_time t \<noteq> None"
  by (simp add: marshal_time_def time_year_def date_of_def Let_def)

lemma demo_years: "year_of 719162 = 1970" "year_of 0 = 1"
  by (simp_all add: year_of_def year_start_def)

lemma demo_times: "marshal_time 0 \<noteq> None" "marshal_time 10 \<noteq> None" "marshal_time zero_time \<noteq> None"
  by (rule marshal_some; simp add: day_ns_def unix_epoch_day_def second_def zero_time_def demo_years)+

lemma encode_field:
  "encode_fields (field n g u c # xs) r =
     (case fst c (g r) of None \<Rightarrow> None | Some j \<Rightarrow> map_option (\<lambda>ms. (n, j) # ms) (encode_fields xs r))"
  by (simp add: field_def)

lemma encode_struct: "fst (struct_codec xs) r = map_option JObj (encode_fields xs r)"
  by (simp add: struct_codec_def)

lemma encode_slice:
  "fst (slice_codec d z) None = Some JNull"
  "fst (slice_codec d z) (Some [x]) = map_option (\<lambda>j. JArr [j]) (fst d x)"
  by (simp add: slice_codec_def) (cases "fst d x", simp_all add: slice_codec_def)

lemma encode_basic:
  "fst string_codec str = Some (JStr (json_escape str))" "fst int_codec i = Some (JNum (int_digits i))"
  "fst time_codec t = map_option JStr (marshal_time t)"
  by (simp_all add: string_codec_def int_codec_def time_codec_def)

lemmas encode_simps = encode_field encode_struct encode_slice encode_basic

lemma encode_token_store:
  assumes "Users s = None" "Groups s = None" "UserGroups s = None" "RecoveryTokens s = Some [t]"
    and "marshal_time (RecoveryToken_ExpiresAt t) \<noteq> None" "marshal_time (RecoveryToken_UsedAt t) \<noteq> None"
    and "marshal_time (UpdatedAt s) \<noteq> None"
  shows "\<exists>data. marshal_indent auth_store_codec s = Some data"
proof -
  obtain a b c where "marshal_time (RecoveryToken_ExpiresAt t) = Some a" "marshal_time (RecoveryToken_UsedAt t) = Some b"
    "marshal_time (UpdatedAt s) = Some c"
    using assms(5-7) by blast
  then show ?thesis using assms(1-4)
    by (simp add: marshal_indent_def auth_store_codec_def auth_store_fields_def encode_simps
        recovery_token_codec_def recovery_token_fields_def)
qed

lemma demo_token_data: "\<exists>data. marshal_indent auth_store_codec demo_token_store = Some data"
  by (rule encode_token_store [of _ demo_token])
    (simp_all add: demo_token_store_def empty_auth_store_def demo_token_def demo_times del: not_None_eq)

definition demo_token_world :: world where
  "demo_token_world = demo_auth_world
     [(demo_auth_dir @ [''users.json''], NFile 384 (the (marshal_indent auth_store_codec demo_token_store)))]"

lemma demo_token_at: "at_store demo_config demo_token_store demo_token_world"
proof -
  have good: "good_store demo_token_store"
    by (simp add: good_store_def auth_store_fits_def demo_token_store_def demo_token_def empty_auth_store_def recovery_token_fits_def
        int64_def token_hashes_def tokens_def)
  obtain data where data: "marshal_indent auth_store_codec demo_token_store = Some data" using demo_token_data by blast
  have "reads_as demo_token_world (auth_store_path demo_config) data"
    using demo_reads by (simp add: demo_token_world_def data)
  then have "auth_holds demo_config demo_token_world demo_token_store"
    using auth_store_json.document_trip [OF _ _ data] good
    unfolding auth_holds_def holds_json_def good_store_def by fastforce
  moreover have "sane demo_token_world"
    unfolding demo_token_world_def by (rule demo_sane) simp
  ultimately show ?thesis using good by (simp add: at_store_def)
qed

lemma demo_verify: "\<exists>w'. verify_recovery_token demo_config 1 ''t'' 10 demo_token_world = (Inr True, w')"
proof -
  let ?w = demo_token_world
  have fault: "fault ?w (sysno ?w) = None" by (simp add: demo_token_world_def demo_auth_world_def demo_world_def)
  have "auth_holds demo_config ?w demo_token_store" using demo_token_at by (simp add: at_store_def)
  then have load: "load_auth_store demo_config ?w = (Inr demo_token_store, tick_sys ?w)"
    using load_json_holds fault by (simp add: load_auth_store_def auth_holds_def)
  let ?s = "use_recovery_token demo_token_store 0 10"
  have find: "find_index (token_accepted 1 (hash_token ''t'') 10) (elems (RecoveryTokens demo_token_store)) = Some 0"
    by (simp add: demo_token_store_def demo_token_def token_accepted_def)
  have clock: "clock ?w n = 0" for n by (simp add: demo_token_world_def demo_auth_world_def)
  have "\<exists>data. marshal_indent auth_store_codec (?s\<lparr>UpdatedAt := 0\<rparr>) = Some data"
    by (rule encode_token_store [of _ "demo_token\<lparr>RecoveryToken_UsedAt := 10\<rparr>"])
      (simp_all add: use_recovery_token_def Let_def demo_token_store_def empty_auth_store_def demo_token_def demo_times del: not_None_eq)
  then obtain data where "marshal_indent auth_store_codec (?s\<lparr>UpdatedAt := clock (tick_sys ?w) (ticks (tick_sys ?w))\<rparr>) = Some data"
    by (auto simp: clock)
  then have "\<exists>w'. save_auth_store demo_config ?s (tick_sys ?w) = (Inr (), w')"
    by (rule demo_save [where xs = "[(demo_auth_dir @ [''users.json''],
          NFile 384 (the (marshal_indent auth_store_codec demo_token_store)))]", rotated 2])
      (simp_all add: demo_temp_free_def demo_token_world_def)
  then show ?thesis
    using load find by (auto simp: verify_recovery_token_def catch_io_def zero_time_def second_def ret_io_def)
qed


theorem recovery_token_single_use_witness:
  "\<exists>w'. verify_recovery_token demo_config 1 ''t'' 10 demo_token_world = (Inr True, w')
     \<and> fst (verify_recovery_token demo_config 1 ''t'' 11 (snd (has_persistent_users demo_config w'))) = Inr False"
proof -
  obtain w' where run: "verify_recovery_token demo_config 1 ''t'' 10 demo_token_world = (Inr True, w')"
    using demo_verify by blast
  have "auth_step demo_config w' (snd (has_persistent_users demo_config w'))"
    by (rule look_step [of _ _ "fst (has_persistent_users demo_config w')"]) simp
  then have "(auth_step demo_config)\<^sup>*\<^sup>* w' (snd (has_persistent_users demo_config w'))" by (rule r_into_rtranclp)
  from recovery_token_single_use [OF demo_token_at run this] run show ?thesis by blast
qed

lemma encode_founded:
  "active_users (elems (Users s)) = [] \<Longrightarrow> RecoveryTokens s = None \<Longrightarrow>
     \<exists>data. marshal_indent auth_store_codec ((founded_store s e h now)\<lparr>UpdatedAt := 0\<rparr>) = Some data"
proof -
  assume "RecoveryTokens s = None"
  moreover obtain t where "marshal_time 0 = Some t" using demo_times(1) by blast
  ultimately show ?thesis
    by (simp add: marshal_indent_def auth_store_codec_def auth_store_fields_def encode_simps founded_store_def
        user_codec_def user_fields_def group_codec_def group_fields_def user_group_codec_def user_group_fields_def)
qed

lemma demo_create: "\<exists>u w'. create_first_admin demo_config ''a@b.c'' ''password'' (demo_auth_world []) = (Inr u, w')"
proof -
  let ?w = "demo_auth_world []" and ?e = "normalize_email ''a@b.c''"
  define w1 where "w1 = tick_sys ?w"
  have email: "valid_email ?e" by code_simp
  have load: "load_auth_store demo_config ?w = (Inr empty_auth_store, w1)"
    using demo_missing demo_auth_fs(3) [of "[]"]
    by (simp add: w1_def load_auth_store_def load_json_def os_read_file_def catch_io_def sys_ok sys_result_def ret_io_def)
  have settings: "entropy w1 n k = Some (replicate k (CHR ''a''))" "clock w1 n = 0" for n k
    by (simp_all add: w1_def demo_auth_world_def demo_world_def)
  define w2 where "w2 = w1\<lparr>rands := Suc (rands w1)\<rparr>"
  obtain h where hash: "hash_password ''password'' w1 = (Inr h, w2)"
    by (simp add: hash_password_def bind_io_def rand_read_def Let_def settings ret_io_def w2_def)
  define w3 where "w3 = w2\<lparr>ticks := Suc (ticks w2)\<rparr>"
  have now: "time_now w2 = (Inr 0, w3)" by (simp add: time_now_def w2_def w3_def settings)
  have clock3: "clock w3 n = 0" for n by (simp add: w3_def w2_def settings)
  obtain data where "marshal_indent auth_store_codec ((founded_store empty_auth_store ?e h 0)\<lparr>UpdatedAt := clock w3 (ticks w3)\<rparr>) = Some data"
    using encode_founded [of empty_auth_store ?e h 0] by (auto simp: clock3 empty_auth_store_def active_users_def)
  then have "\<exists>w'. save_auth_store demo_config (founded_store empty_auth_store ?e h 0) w3 = (Inr (), w')"
    by (rule demo_save [rotated 2]) (simp_all add: demo_temp_free_def w1_def w2_def w3_def same_files_def)
  moreover have "active_users (elems (Users empty_auth_store)) = []" by (simp add: active_users_def empty_auth_store_def)
  ultimately show ?thesis
    using email load hash now by (auto simp: create_first_admin_eq bind_io_def ret_io_def)
qed

theorem first_admin_once_witness:
  "\<exists>u w' err. create_first_admin demo_config ''a@b.c'' ''password'' (demo_auth_world []) = (Inr u, w')
     \<and> fst (create_first_admin demo_config ''d@e.f'' ''another1'' w') = Inl err"
proof -
  obtain u w' where run: "create_first_admin demo_config ''a@b.c'' ''password'' (demo_auth_world []) = (Inr u, w')"
    using demo_create by blast
  have "sane (demo_auth_world [])" by (rule demo_sane) simp
  moreover have "\<not> auth_holds demo_config (demo_auth_world []) s" for s
    using demo_missing by (simp add: auth_holds_def holds_json_def reads_as_def)
  ultimately show ?thesis
    using first_admin_once [OF _ _ run rtranclp.rtrancl_refl, of "''d@e.f''" "''another1''"] run by blast
qed

end
