(* ===== verification/DirRead.thy ===== *)
theory DirRead
  imports FileFrame "HOL-Library.List_Lexorder"
begin

text \<open>
  Reading a directory: \<open>os.ReadDir\<close> of Go 1.19. An entry has its name and its node, symbolic links not followed;
  the entries are sorted by their names, byte for byte.
\<close>

section \<open>\<open>os.ReadDir\<close>\<close>

definition child_names :: "world \<Rightarrow> path \<Rightarrow> string list" where
  "child_names w q =
     sort_key (map byte) (remdups (map (\<lambda>p. last p) (filter (\<lambda>p. p \<noteq> [] \<and> butlast p = q) (map fst (files w)))))"

definition dir_entries :: "world \<Rightarrow> path \<Rightarrow> (string \<times> node) list" where
  "dir_entries w q = map (\<lambda>n. (n, the (fs w (q @ [n])))) (child_names w q)"

text \<open>\<open>getdents\<close>: a file that is open and no directory has no entries to read.\<close>

definition read_entries :: "path \<Rightarrow> (string \<times> node) list io" where
  "read_entries q = sys_call (\<lambda>w.
     case fs w q of
       Some (NDir _) \<Rightarrow> (Inr (dir_entries w q), w)
     | Some _ \<Rightarrow> (Inl (SysErr ENOTDIR), w)
     | None \<Rightarrow> (Inr (dir_entries w q), w))"

definition os_read_dir :: "string \<Rightarrow> (string \<times> node) list io" where
  "os_read_dir p =
     bind_io (os_open p) (\<lambda>q.
     catch_io (read_entries q)
       (\<lambda>err. ignoring (file_close q) (fail_io err))
       (\<lambda>entries. ignoring (file_close q) (ret_io entries)))"

section \<open>What it reads\<close>

lemma snoc_of_butlast: "p \<noteq> [] \<and> butlast p = q \<longleftrightarrow> (\<exists>n. p = q @ [n])"
  by (metis append_butlast_last_id butlast_snoc snoc_eq_iff_butlast)

lemma fs_keys: "p \<in> fst ` set (files w) \<longleftrightarrow> fs w p \<noteq> None"
  unfolding fs_def by (metis map_of_eq_None_iff)

lemma set_child_names: "n \<in> set (child_names w q) \<longleftrightarrow> fs w (q @ [n]) \<noteq> None"
proof -
  have "n \<in> set (child_names w q) \<longleftrightarrow> (\<exists>p. p \<noteq> [] \<and> butlast p = q \<and> last p = n \<and> p \<in> fst ` set (files w))"
    by (auto simp: child_names_def image_iff)
  also have "\<dots> \<longleftrightarrow> q @ [n] \<in> fst ` set (files w)" by (metis snoc_of_butlast last_snoc)
  finally show ?thesis by (simp add: fs_keys)
qed

lemma distinct_child_names [simp]: "distinct (child_names w q)"
  by (simp add: child_names_def)

lemma set_dir_entries: "(n, x) \<in> set (dir_entries w q) \<longleftrightarrow> fs w (q @ [n]) = Some x"
  using set_child_names [of n w q] by (auto simp: dir_entries_def)

lemma dir_entries_same: "fs w' = fs w \<Longrightarrow> files w' = files w \<Longrightarrow> dir_entries w' q = dir_entries w q"
  by (simp add: dir_entries_def child_names_def)

lemma reads_read_entries [simp]: "reads (read_entries q)" "keeps (read_entries q)"
  unfolding read_entries_def by (rule reads_sys keeps_sys; simp split: option.split node.split)+

lemma reads_read_dir [simp]: "reads (os_read_dir p)" "keeps (os_read_dir p)"
  unfolding os_read_dir_def
  by (intro reads_bind reads_catch reads_ignoring keeps_bind keeps_catch keeps_ignoring; simp)+

text \<open>The entries of a directory, and of nothing else, when reading succeeds.\<close>

lemma read_dir_Inr:
  assumes "os_read_dir p w = (Inr es, w')"
  obtains q where "kernel_path w True p = Inr q" "es = dir_entries w q" "fs w q \<noteq> None"
proof -
  obtain q w1 where o: "os_open p w = (Inr q, w1)"
    using assms by (auto simp: os_read_dir_def bind_io_Inr)
  have s: "same_files w w1" using o by (rule readsD [rotated]) simp
  have "kernel_path w True p = Inr q \<and> fs w q \<noteq> None"
    using o by (auto simp: os_open_def sys_call_def split: option.splits sum.splits if_splits)
  moreover obtain w2 where "read_entries q w1 = (Inr es, w2)"
    using assms o by (auto simp: os_read_dir_def bind_io_Inr catch_io_eq ignoring_def io_inv)
  then have "es = dir_entries w1 q \<or> es = dir_entries (tick_sys w1) q"
    by (auto simp: read_entries_def sys_call_def split: option.splits node.splits)
  then have "es = dir_entries w q"
    using s by (auto simp: same_files_def dir_entries_def child_names_def fs_def)
  ultimately show thesis using that by blast
qed

end
