(* ===== verification/SiteRows.thy ===== *)
theory SiteRows
  imports AuthRows
begin

text \<open>
  The JSON rows of the archive of a site (\<open>pkg/webserver/functions.go\<close>): revisions of pages, metadata of pages,
  the state of the site, redirects. A field tagged \<open>omitempty\<close> is left out when it is empty; such a row is read
  back as it was written when it is read into the zero value, as the code does.
\<close>

section \<open>Rows\<close>

record revision_record =
  Rev_Revision :: int
  Rev_RequestURI :: string
  Rev_Path :: string
  Rev_CreatedAt :: time
  Rev_BeforeContent :: string
  Rev_AfterContent :: string
  Rev_Checksum :: string
  Rev_DBRevisionWarning :: string

record page_metadata =
  Meta_Path :: string
  Meta_Title :: string
  Meta_Tags :: string
  Meta_Status :: string
  Meta_Published :: bool
  Meta_UpdatedAt :: time

record site_state =
  Frozen :: bool
  State_UpdatedAt :: time

section \<open>Fields that may be left out\<close>

text \<open>The fields of a struct, each with the values that it is left out for.\<close>

definition omit_codec :: "('r field \<times> ('r \<Rightarrow> bool)) list \<Rightarrow> 'r codec" where
  "omit_codec xs =
     (\<lambda>r. fst (struct_codec (map fst (filter (\<lambda>(f, empty). \<not> empty r) xs))) r, snd (struct_codec (map fst xs)))"

text \<open>A value read into a fixed one.\<close>

definition into :: "'a \<Rightarrow> 'a codec \<Rightarrow> 'a codec" where
  "into z c = (fst c, \<lambda>j _. snd c j z)"

lemma marshal_into [simp]: "marshal_indent (into z c) v = marshal_indent c v"
  by (simp add: into_def marshal_indent_def)

lemma unmarshal_into: "unmarshal (into z c) s old = unmarshal c s z"
  by (cases "json_parse s") (simp_all add: into_def unmarshal_def)

lemma omit_trip:
  assumes "distinct (map fst (map fst xs))"
    and "list_all2 (field_ok d v) stores (map fst (filter (\<lambda>(f, empty). \<not> empty v) xs))"
    and "fst (into z (omit_codec xs)) v = Some j"
  shows "json_ok (Suc d) j \<and> snd (into z (omit_codec xs)) j old = Some (fold (\<lambda>g. g) stores z)"
proof -
  let ?xs = "map fst (filter (\<lambda>(f, empty). \<not> empty v) xs)"
  obtain ms where ms: "encode_fields ?xs v = Some ms" "j = JObj ms"
    using assms(3) by (auto simp: into_def omit_codec_def struct_codec_def)
  have "set ?xs \<subseteq> set (map fst xs)" by auto
  from decode_encode_fields [OF assms(1) this assms(2) ms(1), of z] ms(2) show ?thesis
    by (simp add: into_def omit_codec_def struct_codec_def)
qed

text \<open>A string that is not valid UTF-8 is written too, with the replacement character for its bad bytes.\<close>

lemma utf8_valid_same [simp]: "utf8_valid s \<Longrightarrow> utf8_valid_form s = s"
  by (simp add: utf8_valid_def)

lemma string_field: "plain_name n \<Longrightarrow> field_ok d v (upd (\<lambda>_. utf8_valid_form (get v))) (field n get upd string_codec)"
  by (simp add: field_ok_def field_def string_codec_def unquote_escape)

lemma next_string_field:
  "list_all2 (field_ok d v) stores xs \<Longrightarrow> plain_name n \<Longrightarrow>
     list_all2 (field_ok d v) (upd (\<lambda>_. utf8_valid_form (get v)) # stores) (field n get upd string_codec # xs)"
  by (simp add: string_field)

section \<open>Codecs\<close>

definition zero_revision :: revision_record where
  "zero_revision = \<lparr>Rev_Revision = 0, Rev_RequestURI = '''', Rev_Path = '''', Rev_CreatedAt = zero_time,
     Rev_BeforeContent = '''', Rev_AfterContent = '''', Rev_Checksum = '''', Rev_DBRevisionWarning = ''''\<rparr>"

definition revision_fields :: "(revision_record field \<times> (revision_record \<Rightarrow> bool)) list" where
  "revision_fields =
    [(field ''revision'' Rev_Revision Rev_Revision_update int_codec, \<lambda>_. False),
     (field ''request_uri'' Rev_RequestURI Rev_RequestURI_update string_codec, \<lambda>_. False),
     (field ''path'' Rev_Path Rev_Path_update string_codec, \<lambda>_. False),
     (field ''created_at'' Rev_CreatedAt Rev_CreatedAt_update time_codec, \<lambda>_. False),
     (field ''before_content'' Rev_BeforeContent Rev_BeforeContent_update string_codec, \<lambda>_. False),
     (field ''after_content'' Rev_AfterContent Rev_AfterContent_update string_codec, \<lambda>_. False),
     (field ''checksum'' Rev_Checksum Rev_Checksum_update string_codec, \<lambda>_. False),
     (field ''db_revision_warning'' Rev_DBRevisionWarning Rev_DBRevisionWarning_update string_codec,
        \<lambda>r. Rev_DBRevisionWarning r = '''')]"

definition revision_codec :: "revision_record codec" where
  "revision_codec = omit_codec revision_fields"

definition revision_fits :: "revision_record \<Rightarrow> bool" where
  "revision_fits v \<longleftrightarrow>
     list_all utf8_valid [Rev_RequestURI v, Rev_Path v, Rev_BeforeContent v, Rev_AfterContent v, Rev_Checksum v,
       Rev_DBRevisionWarning v]
     \<and> int64 (Rev_Revision v)"

definition page_metadata_fields :: "page_metadata field list" where
  "page_metadata_fields =
    [field ''path'' Meta_Path Meta_Path_update string_codec,
     field ''title'' Meta_Title Meta_Title_update string_codec,
     field ''tags'' Meta_Tags Meta_Tags_update string_codec,
     field ''status'' Meta_Status Meta_Status_update string_codec,
     field ''published'' Meta_Published Meta_Published_update bool_codec,
     field ''updated_at'' Meta_UpdatedAt Meta_UpdatedAt_update time_codec]"

definition page_metadata_codec :: "page_metadata codec" where
  "page_metadata_codec = struct_codec page_metadata_fields"

definition page_metadata_fits :: "page_metadata \<Rightarrow> bool" where
  "page_metadata_fits v \<longleftrightarrow> list_all utf8_valid [Meta_Path v, Meta_Title v, Meta_Tags v, Meta_Status v]"

definition site_state_fields :: "site_state field list" where
  "site_state_fields =
    [field ''frozen'' Frozen Frozen_update bool_codec,
     field ''updated_at'' State_UpdatedAt State_UpdatedAt_update time_codec]"

definition site_state_codec :: "site_state codec" where
  "site_state_codec = struct_codec site_state_fields"

definition zero_site_state :: site_state where
  "zero_site_state = \<lparr>Frozen = False, State_UpdatedAt = zero_time\<rparr>"

definition redirect_fields :: "redirect field list" where
  "redirect_fields =
    [field ''Id'' Redirect_Id Redirect_Id_update int_codec,
     field ''OldUri'' Redirect_OldUri Redirect_OldUri_update string_codec,
     field ''NewUri'' Redirect_NewUri Redirect_NewUri_update string_codec,
     field ''Date'' Redirect_Date Redirect_Date_update int_codec,
     field ''Status'' Redirect_Status Redirect_Status_update string_codec,
     field ''Domain'' Redirect_Domain Redirect_Domain_update string_codec]"

definition redirect_codec :: "redirect codec" where
  "redirect_codec = struct_codec redirect_fields"

definition zero_redirect :: redirect where
  "zero_redirect = \<lparr>Redirect_Id = 0, Redirect_OldUri = '''', Redirect_NewUri = '''', Redirect_Date = 0,
     Redirect_Status = '''', Redirect_Domain = ''''\<rparr>"

definition redirects_codec :: "redirect slice codec" where
  "redirects_codec = slice_codec redirect_codec zero_redirect"

definition redirect_fits :: "redirect \<Rightarrow> bool" where
  "redirect_fits v \<longleftrightarrow>
     list_all utf8_valid [Redirect_OldUri v, Redirect_NewUri v, Redirect_Status v, Redirect_Domain v]
     \<and> list_all int64 [Redirect_Id v, Redirect_Date v]"

section \<open>They are read back as written\<close>

text \<open>What is kept of any revision, and that it is all of one whose strings are valid UTF-8.\<close>

definition kept_revision :: "revision_record \<Rightarrow> revision_record" where
  "kept_revision v =
     \<lparr>Rev_Revision = Rev_Revision v, Rev_RequestURI = utf8_valid_form (Rev_RequestURI v), Rev_Path = utf8_valid_form (Rev_Path v),
      Rev_CreatedAt = Rev_CreatedAt v, Rev_BeforeContent = utf8_valid_form (Rev_BeforeContent v),
      Rev_AfterContent = utf8_valid_form (Rev_AfterContent v), Rev_Checksum = utf8_valid_form (Rev_Checksum v),
      Rev_DBRevisionWarning = utf8_valid_form (Rev_DBRevisionWarning v)\<rparr>"

lemma kept_revision_fits: "revision_fits v \<Longrightarrow> kept_revision v = v"
  by (simp add: kept_revision_def revision_fits_def)

lemma revision_trip:
  assumes "int64 (Rev_Revision v)" "fst (into zero_revision revision_codec) v = Some j"
  shows "json_ok (Suc 0) j \<and> snd (into zero_revision revision_codec) j old = Some (kept_revision v)"
proof -
  let ?fs = "map fst (filter (\<lambda>(f, empty). \<not> empty v) revision_fields)"
  let ?st = "[Rev_Revision_update (\<lambda>_. Rev_Revision v), Rev_RequestURI_update (\<lambda>_. utf8_valid_form (Rev_RequestURI v)),
      Rev_Path_update (\<lambda>_. utf8_valid_form (Rev_Path v)), Rev_CreatedAt_update (\<lambda>_. Rev_CreatedAt v),
      Rev_BeforeContent_update (\<lambda>_. utf8_valid_form (Rev_BeforeContent v)),
      Rev_AfterContent_update (\<lambda>_. utf8_valid_form (Rev_AfterContent v)), Rev_Checksum_update (\<lambda>_. utf8_valid_form (Rev_Checksum v))]"
  let ?w = "Rev_DBRevisionWarning_update (\<lambda>_. utf8_valid_form (Rev_DBRevisionWarning v))"
  have d: "distinct (map fst (map fst revision_fields))" by (simp add: revision_fields_def field_def)
  have full: "list_all2 (field_ok 0 v) (?st @ [?w]) (map fst revision_fields)"
    unfolding revision_fields_def append.simps list.map fst_conv
    by ((rule next_string_field int_json.next_field time_json.next_field no_field)+)
      (use assms(1) in \<open>simp_all add: plain_name_def byte_def\<close>)
  have "\<exists>stores. list_all2 (field_ok 0 v) stores ?fs \<and> fold (\<lambda>g. g) stores zero_revision = kept_revision v"
  proof (cases "Rev_DBRevisionWarning v = []")
    case True
    have "?fs = take 7 (map fst revision_fields)" using True by (simp add: revision_fields_def)
    moreover have "list_all2 (field_ok 0 v) ?st (take 7 (map fst revision_fields))"
      using list_all2_takeI [OF full, of 7] by simp
    moreover have "fold (\<lambda>g. g) ?st zero_revision = kept_revision v"
      using True by (simp add: zero_revision_def kept_revision_def)
    ultimately show ?thesis by metis
  next
    case False
    have "?fs = map fst revision_fields" using False by (simp add: revision_fields_def)
    moreover have "fold (\<lambda>g. g) (?st @ [?w]) zero_revision = kept_revision v"
      by (simp add: zero_revision_def kept_revision_def)
    ultimately show ?thesis using full by metis
  qed
  then obtain stores where st: "list_all2 (field_ok 0 v) stores ?fs" "fold (\<lambda>g. g) stores zero_revision = kept_revision v"
    by blast
  from omit_trip [OF d st(1) assms(2) [unfolded revision_codec_def], of old]
  show ?thesis unfolding st(2) revision_codec_def .
qed

interpretation revision_json: json_codec "into zero_revision revision_codec" revision_fits "Suc 0"
proof
  fix v j old assume v: "revision_fits v" "fst (into zero_revision revision_codec) v = Some j"
  have "int64 (Rev_Revision v)" using v(1) by (simp add: revision_fits_def)
  from revision_trip [OF this v(2), of old] kept_revision_fits [OF v(1)]
  show "json_ok (Suc 0) j \<and> snd (into zero_revision revision_codec) j old = Some v" by simp
qed

text \<open>What is written of a revision is read back.\<close>

lemma revision_document:
  assumes "int64 (Rev_Revision v)" "marshal_indent revision_codec v = Some s"
  shows "unmarshal revision_codec s zero_revision = Some (kept_revision v)"
proof -
  obtain j where j: "fst (into zero_revision revision_codec) v = Some j" "s = json_print indented 0 j"
    using assms(2) by (auto simp: marshal_indent_def into_def)
  note t = revision_trip [OF assms(1) j(1)]
  have "json_ok 10000 j" using t json_ok_mono [of "Suc 0" 10000] by simp
  then show ?thesis using t by (simp add: unmarshal_def into_def j(2) json_parse_print)
qed

interpretation page_metadata_json: json_codec page_metadata_codec page_metadata_fits "Suc 0"
  unfolding page_metadata_codec_def
proof (rule struct_json)
  show "distinct (map fst page_metadata_fields)" by (simp add: page_metadata_fields_def field_def)
  fix v assume v: "page_metadata_fits v"
  show "\<exists>stores. list_all2 (field_ok 0 v) stores page_metadata_fields \<and> (\<forall>acc. fold (\<lambda>g. g) stores acc = v)"
    unfolding page_metadata_fields_def
    by (intro exI conjI allI, (rule next_fields no_field)+)
      (use v in \<open>simp_all add: plain_name_def byte_def page_metadata_fits_def\<close>)
qed

interpretation site_state_json: json_codec site_state_codec "\<lambda>_. True" "Suc 0"
  unfolding site_state_codec_def
proof (rule struct_json)
  show "distinct (map fst site_state_fields)" by (simp add: site_state_fields_def field_def)
  fix v :: site_state
  show "\<exists>stores. list_all2 (field_ok 0 v) stores site_state_fields \<and> (\<forall>acc. fold (\<lambda>g. g) stores acc = v)"
    unfolding site_state_fields_def
    by (intro exI conjI allI, (rule next_fields no_field)+) (simp_all add: plain_name_def byte_def)
qed

interpretation redirect_json: json_codec redirect_codec redirect_fits "Suc 0"
  unfolding redirect_codec_def
proof (rule struct_json)
  show "distinct (map fst redirect_fields)" by (simp add: redirect_fields_def field_def)
  fix v assume v: "redirect_fits v"
  show "\<exists>stores. list_all2 (field_ok 0 v) stores redirect_fields \<and> (\<forall>acc. fold (\<lambda>g. g) stores acc = v)"
    unfolding redirect_fields_def
    by (intro exI conjI allI, (rule next_fields no_field)+)
      (use v in \<open>simp_all add: plain_name_def byte_def redirect_fits_def\<close>)
qed

interpretation redirects_json: json_codec redirects_codec "\<lambda>s. \<forall>r\<in>set (elems s). redirect_fits r" "Suc (Suc 0)"
  unfolding redirects_codec_def by (rule slice_json) (rule redirect_json.json_codec_axioms)

end
