(* ===== verification/Hosts.thy ===== *)
theory Hosts
  imports Archive SafePath Http
begin

text \<open>
  Host names (\<open>pkg/webserver/functions.go\<close>): the canonical form of the Host header, the domain under which the
  database keeps a page, and the directories of a domain. \<open>net.ParseIP\<close> and \<open>net.SplitHostPort\<close> are those of
  Go 1.19.
\<close>

section \<open>\<open>net.ParseIP\<close>\<close>

text \<open>Numbers at the start of a string: the value, the digits' count; a value of \<open>0xFFFFFF\<close> or more fails.\<close>

definition read_number :: "nat \<Rightarrow> (char \<Rightarrow> nat option) \<Rightarrow> string \<Rightarrow> (nat \<times> nat) option" where
  "read_number base digit s =
     (let ds = takeWhile (\<lambda>c. digit c \<noteq> None) s; n = foldl (\<lambda>a c. a * base + the (digit c)) 0 ds in
      if ds = [] \<or> n \<ge> 16777215 then None else Some (n, length ds))"

definition decimal_value :: "char \<Rightarrow> nat option" where
  "decimal_value c = (if is_digit_byte c then Some (byte c - 48) else None)"

fun parse_ipv4_fields :: "nat \<Rightarrow> bool \<Rightarrow> string \<Rightarrow> nat list option" where
  "parse_ipv4_fields 0 first s = (if s = [] then Some [] else None)"
| "parse_ipv4_fields (Suc k) first s =
     (if s = [] \<or> (\<not> first \<and> hd s \<noteq> CHR ''.'') then None
      else let s = (if first then s else tl s) in
        case read_number 10 decimal_value s of
          None \<Rightarrow> None
        | Some (n, c) \<Rightarrow>
            if n > 255 \<or> (c > 1 \<and> hd s = CHR ''0'') then None
            else map_option (\<lambda>ns. n # ns) (parse_ipv4_fields k False (drop c s)))"

definition parse_ipv4 :: "string \<Rightarrow> nat list option" where
  "parse_ipv4 s = parse_ipv4_fields 4 True s"

text \<open>
  The loop over the groups of an IPv6 address; \<open>ip\<close> has the bytes so far. At most eight groups are read, so the first
  argument, which counts them, never runs out before \<open>ip\<close> is full.
\<close>

fun parse_ipv6_groups :: "nat \<Rightarrow> nat list \<Rightarrow> nat option \<Rightarrow> string \<Rightarrow> (nat list \<times> nat option \<times> string) option" where
  "parse_ipv6_groups 0 ip ellipsis s = Some (ip, ellipsis, s)"
| "parse_ipv6_groups (Suc k) ip ellipsis s =
     (if length ip \<ge> 16 then Some (ip, ellipsis, s)
      else case read_number 16 hex_value s of
        None \<Rightarrow> None
      | Some (n, c) \<Rightarrow>
          if n > 65535 then None
          else if c < length s \<and> s ! c = CHR ''.'' then
            (if (ellipsis = None \<and> length ip \<noteq> 12) \<or> length ip + 4 > 16 then None
             else case parse_ipv4 s of None \<Rightarrow> None | Some ip4 \<Rightarrow> Some (ip @ ip4, ellipsis, []))
          else
            let ip = ip @ [n div 256, n mod 256]; s = drop c s in
            if s = [] then Some (ip, ellipsis, s)
            else if hd s \<noteq> CHR '':'' \<or> length s = 1 then None
            else
              let s = tl s in
              if hd s = CHR '':'' then
                (if ellipsis \<noteq> None then None
                 else if tl s = [] then Some (ip, Some (length ip), [])
                 else parse_ipv6_groups k ip (Some (length ip)) (tl s))
              else parse_ipv6_groups k ip ellipsis s)"

definition parse_ipv6 :: "string \<Rightarrow> nat list option" where
  "parse_ipv6 s =
     (let leading = has_prefix s ''::''; s = (if leading then drop 2 s else s) in
      if leading \<and> s = [] then Some (replicate 16 0)
      else case parse_ipv6_groups 8 [] (if leading then Some 0 else None) s of
        None \<Rightarrow> None
      | Some (ip, ellipsis, rest) \<Rightarrow>
          if rest \<noteq> [] then None
          else if length ip < 16 then
            (case ellipsis of
               None \<Rightarrow> None
             | Some e \<Rightarrow> Some (take e ip @ replicate (16 - length ip) 0 @ drop e ip))
          else if ellipsis \<noteq> None then None else Some ip)"

text \<open>An address is its sixteen bytes; those of version 4 have ten zeros and two times 255 in front.\<close>

definition parse_ip :: "string \<Rightarrow> nat list option" where
  "parse_ip s =
     (case find_first (\<lambda>c. c = CHR ''.'' \<or> c = CHR '':'') s of
        None \<Rightarrow> None
      | Some c \<Rightarrow>
          if c = CHR ''.'' then map_option (\<lambda>ip. replicate 10 0 @ [255, 255] @ ip) (parse_ipv4 s)
          else parse_ipv6 s)"

definition is_loopback :: "nat list \<Rightarrow> bool" where
  "is_loopback ip =
     (if take 12 ip = replicate 10 0 @ [255, 255] then ip ! 12 = 127 else ip = replicate 15 0 @ [1])"

section \<open>\<open>net.SplitHostPort\<close>\<close>

definition last_colon :: "string \<Rightarrow> (string \<times> string) option" where
  \<comment> \<open>what is before and after the last colon\<close>
  "last_colon s =
     (if CHR '':'' \<notin> set s then None
      else let after = rev (takeWhile (\<lambda>c. c \<noteq> CHR '':'') (rev s)) in
           Some (take (length s - length after - 1) s, after))"

definition split_host_port :: "string \<Rightarrow> (string \<times> string) option" where
  "split_host_port hostport =
     (case last_colon hostport of
        None \<Rightarrow> None
      | Some (before, port) \<Rightarrow>
          if has_prefix hostport ''['' then
            (let inside = takeWhile (\<lambda>c. c \<noteq> CHR '']'') hostport; end_index = length inside in
             if CHR '']'' \<notin> set hostport \<or> end_index + 1 \<noteq> length before then None
             else if CHR ''['' \<in> set (drop 1 hostport) \<or> CHR '']'' \<in> set (drop (end_index + 1) hostport) then None
             else Some (drop 1 inside, port))
          else if CHR '':'' \<in> set before then None
          else if CHR ''['' \<in> set hostport \<or> CHR '']'' \<in> set hostport then None
          else Some (before, port))"

section \<open>The canonical form of a host\<close>

definition all_digits :: "string \<Rightarrow> bool" where
  "all_digits v \<longleftrightarrow> v \<noteq> '''' \<and> list_all (\<lambda>r. 48 \<le> r \<and> r \<le> 57) (runes v)"

definition control_or_space :: "nat \<Rightarrow> bool" where
  "control_or_space r \<longleftrightarrow> unicode_is_control r \<or> unicode_is_space r"

definition strip_port :: "string \<Rightarrow> string result" where
  "strip_port host =
     (if has_prefix host ''['' then
        (let literal = drop 1 (takeWhile (\<lambda>c. c \<noteq> CHR '']'') host);
             remainder = drop (length literal + 2) host in
         if CHR '']'' \<notin> set host \<or> literal = '''' then Inl (ErrText ''invalid host'')
         else if parse_ip literal = None then Inl (ErrText ''invalid bracketed host'')
         else if remainder \<noteq> '''' \<and> (\<not> has_prefix remainder '':'' \<or> \<not> all_digits (drop 1 remainder))
         then Inl (ErrText ''invalid host port'')
         else Inr literal)
      else case split_host_port host of
        Some (splitHost, port) \<Rightarrow> if \<not> all_digits port then Inl (ErrText ''invalid host port'') else Inr splitHost
      | None \<Rightarrow>
          (case last_colon host of
             None \<Rightarrow> Inr host
           | Some (candidateHost, port) \<Rightarrow>
               if length (filter (\<lambda>c. c = CHR '':'') host) = 1 \<and> candidateHost \<noteq> '''' \<and> all_digits port
               then Inr candidateHost
               else if parse_ip host = None then Inl (ErrText ''invalid host'')
               else Inr host))"

definition host_rune :: "nat \<Rightarrow> bool" where
  "host_rune r \<longleftrightarrow> (97 \<le> r \<and> r \<le> 122) \<or> (48 \<le> r \<and> r \<le> 57) \<or> r = 45"

fun check_labels :: "string list \<Rightarrow> unit result" where
  "check_labels [] = Inr ()"
| "check_labels (label # labels) =
     (if label = '''' \<or> length label > 63 then Inl (ErrText ''invalid host label'')
      else if has_prefix label ''-'' \<or> has_suffix label ''-'' then Inl (ErrText ''invalid host label'')
      else if \<not> list_all host_rune (runes label) then Inl (ErrText ''invalid host character'')
      else check_labels labels)"

definition canonical_host :: "string \<Rightarrow> string result" where
  "canonical_host host =
     bind_result (guard_err (host = '''') (ErrText ''empty host'')) (\<lambda>_.
     bind_result (guard_err (length host > 255) (ErrText ''host too long'')) (\<lambda>_.
     bind_result (guard_err (trim_space host \<noteq> host) (ErrText ''invalid host whitespace'')) (\<lambda>_.
     bind_result (guard_err (contains_any host [CHR ''/'', CHR 0x5C]) (ErrText ''path-like host'')) (\<lambda>_.
     bind_result (guard_err (list_ex control_or_space (runes host)) (ErrText ''invalid host character'')) (\<lambda>_.
     bind_result (strip_port host) (\<lambda>hostOnly.
     let hostOnly = trim_suffix (to_lower hostOnly) ''.'' in
     bind_result (guard_err (hostOnly = '''') (ErrText ''empty host'')) (\<lambda>_.
     bind_result (guard_err (length hostOnly > 253) (ErrText ''host too long'')) (\<lambda>_.
     if parse_ip hostOnly \<noteq> None then Inr hostOnly
     else if hostOnly = ''localhost'' then Inr hostOnly
     else
     bind_result (guard_err (CHR ''_'' \<in> set hostOnly) (ErrText ''invalid host character'')) (\<lambda>_.
     bind_result (check_labels (split_on (CHR ''.'') hostOnly)) (\<lambda>_.
     Inr hostOnly))))))))))"

definition canonical_host_from_request :: "request \<Rightarrow> string result" where
  "canonical_host_from_request request = canonical_host (Host request)"

section \<open>The domain of the database\<close>

definition defaultDBDomain :: string where
  "defaultDBDomain = ''default''"

definition is_local_dev_host :: "string \<Rightarrow> bool" where
  "is_local_dev_host host \<longleftrightarrow>
     host = ''localhost'' \<or> (case parse_ip host of None \<Rightarrow> False | Some ip \<Rightarrow> is_loopback ip)"

definition is_loopback_remote_addr :: "string \<Rightarrow> bool" where
  "is_loopback_remote_addr remoteAddr =
     (if remoteAddr = '''' then False
      else
        let host = (case split_host_port remoteAddr of None \<Rightarrow> remoteAddr | Some (h, _) \<Rightarrow> h);
            host = trim_bytes host ''[]'' in
        case parse_ip host of None \<Rightarrow> False | Some ip \<Rightarrow> is_loopback ip)"

fun allowed_host :: "string \<Rightarrow> string list \<Rightarrow> bool" where
  "allowed_host host [] = False"
| "allowed_host host (allowedHost # others) =
     (let allowedHost = trim_space allowedHost in
      if allowedHost = '''' then allowed_host host others
      else case canonical_host allowedHost of
             Inl _ \<Rightarrow> allowed_host host others
           | Inr canonicalAllowedHost \<Rightarrow> canonicalAllowedHost = host \<or> allowed_host host others)"

definition trusted_db_revision_domain :: "world \<Rightarrow> request \<Rightarrow> string \<times> bool" where
  "trusted_db_revision_domain w request =
     (case canonical_host_from_request request of
        Inl _ \<Rightarrow> (defaultDBDomain, False)
      | Inr host \<Rightarrow>
          if allowed_host host (split_on (CHR '','') (environ w ''SITEBRUSH_ALLOWED_HOSTS'')) then (host, True)
          else if is_local_dev_host host \<and> is_loopback_remote_addr (RemoteAddr request) then (host, True)
          else (defaultDBDomain, False))"

section \<open>The directories of a domain\<close>

record domain_paths =
  PublicRoot :: string
  ArchiveRoot :: string
  CacheRoot :: string
  MediaRoot :: string

definition domain_paths_of :: "settings \<Rightarrow> string \<Rightarrow> domain_paths io" where
  "domain_paths_of c host =
     bind_io (lift_io (canonical_host host)) (\<lambda>canonical.
     bind_io (safe_join_under_root (WEB_FILE_PATH c) [''domains'', canonical, ''public'']) (\<lambda>publicRoot.
     bind_io (safe_join_under_root (archive_root c) [''domains'', canonical]) (\<lambda>archiveRoot.
     bind_io (safe_join_under_root archiveRoot [''cache'', ''cleanhtml'']) (\<lambda>cacheRoot.
     bind_io (safe_join_under_root archiveRoot [''media'']) (\<lambda>mediaRoot.
     ret_io \<lparr>PublicRoot = publicRoot, ArchiveRoot = archiveRoot, CacheRoot = cacheRoot, MediaRoot = mediaRoot\<rparr>)))))"

end
