(* ===== verification/Revisions.thy ===== *)
theory Revisions
  imports DirRead SiteRows Hosts Database
begin

text \<open>
  Editing a page and its history (\<open>pkg/webserver/functions.go\<close>). Every save stores a revision, a file of its own
  with the content before and after, then replaces the page, then tells the database. A save runs under the keyed
  mutex of \<open>revisionWriteLocks\<close>, so its steps here are not interleaved with those of another save of the page.
\<close>

section \<open>Names\<close>

text \<open>A number with at least so many digits, as \<open>%06d\<close> and \<open>time.Format\<close> pad it.\<close>

definition pad_digits :: "nat \<Rightarrow> nat \<Rightarrow> string" where
  "pad_digits k n = replicate (k - length (nat_digits n)) (CHR ''0'') @ nat_digits n"

definition format_06d :: "int \<Rightarrow> string" where
  "format_06d i = (if i < 0 then CHR ''-'' # pad_digits 5 (nat (- i)) else pad_digits 6 (nat i))"

text \<open>\<open>t.Format("20060102T150405.000000000Z")\<close> of a time in UTC.\<close>

definition format_stamp :: "time \<Rightarrow> string" where
  "format_stamp t =
     (case (date_of (t div day_ns), time_of_day t) of
        ((y, m, d), (h, mi, se, ns)) \<Rightarrow>
          (if y < 0 then CHR ''-'' # pad_digits 4 (nat (- y)) else pad_digits 4 (nat y))
          @ dec_fixed 2 m @ dec_fixed 2 (nat d) @ CHR ''T'' # dec_fixed 2 h @ dec_fixed 2 mi @ dec_fixed 2 se
          @ CHR ''.'' # dec_fixed 9 ns @ ''Z'')"

definition random_revision_suffix :: "string io" where
  "random_revision_suffix = bind_io (rand_read 8) (\<lambda>buffer. ret_io (hex_encode buffer))"

definition revision_name :: "revision_record \<Rightarrow> string \<Rightarrow> string" where
  "revision_name record unique =
     format_06d (Rev_Revision record) @ ''-'' @ format_stamp (Rev_CreatedAt record) @ ''-'' @ unique @ ''.json''"

definition title_from_request_uri :: "string \<Rightarrow> string" where
  "title_from_request_uri requestURI =
     (let cleaned = path_clean (''/'' @ trim_prefix requestURI ''/'') in
      if cleaned = ''/'' \<or> cleaned = ''.'' then ''Home''
      else
        let base = path_base cleaned;
            base = trim_suffix base (path_ext base);
            base = replace_byte base (CHR ''-'') (CHR '' '');
            base = replace_byte base (CHR ''_'') (CHR '' '');
            base = trim_space base
        in if base = '''' \<or> base = ''.'' then cleaned else base)"

section \<open>Reading the history\<close>

definition is_revision_entry :: "string \<times> node \<Rightarrow> bool" where
  "is_revision_entry entry \<longleftrightarrow> \<not> (is_dir (snd entry) \<or> \<not> has_suffix (fst entry) ''.json'')"

definition read_revision :: "string \<Rightarrow> revision_record io" where
  "read_revision p =
     bind_io (os_read_file p) (\<lambda>data.
     case unmarshal revision_codec data zero_revision of None \<Rightarrow> fail_io ErrJson | Some record \<Rightarrow> ret_io record)"

text \<open>
  \<open>sort.Slice\<close> leaves the order of equal numbers open; the stable order stands for it. The numbers of a page's
  revisions are distinct (see the theorems), and then there is one order only.
\<close>

definition load_revisions :: "settings \<Rightarrow> string \<Rightarrow> revision_record list io" where
  "load_revisions c requestURI =
     (let dir = revision_dir c requestURI in
      catch_io (os_read_dir dir)
        (\<lambda>err. if errors_is err OsErrNotExist then ret_io [] else fail_io err)
        (\<lambda>entries.
          bind_io (each_io (\<lambda>entry. read_revision (path_join [dir, fst entry])) (filter is_revision_entry entries))
            (\<lambda>records. ret_io (sort_key Rev_Revision records))))"

text \<open>An \<open>int\<close> of 64 bits.\<close>

definition wrap64 :: "int \<Rightarrow> int" where
  "wrap64 i = (i + 2 ^ 63) mod 2 ^ 64 - 2 ^ 63"

definition max_revision :: "revision_record list \<Rightarrow> int" where
  "max_revision records = foldl (\<lambda>m record. if Rev_Revision record > m then Rev_Revision record else m) 0 records"

definition next_revision :: "settings \<Rightarrow> string \<Rightarrow> int io" where
  "next_revision c requestURI =
     bind_io (load_revisions c requestURI) (\<lambda>records. ret_io (wrap64 (max_revision records + 1)))"

definition find_revision :: "settings \<Rightarrow> string \<Rightarrow> string \<Rightarrow> revision_record io" where
  "find_revision c requestURI revision =
     bind_io (load_revisions c requestURI) (\<lambda>records.
     case find_first (\<lambda>record. int_digits (Rev_Revision record) = revision) records of
       None \<Rightarrow> fail_io (ErrText ''revision not found'')
     | Some record \<Rightarrow> ret_io record)"

section \<open>Writing a revision\<close>

definition fill_reservation :: "string \<Rightarrow> string \<Rightarrow> path \<Rightarrow> string io" where
  "fill_reservation revisionPath data reservation =
     catch_io (file_close reservation) (\<lambda>err. ignoring (os_remove revisionPath) (fail_io err)) (\<lambda>_.
     catch_io (atomic_write_file revisionPath data 384) (\<lambda>err. ignoring (os_remove revisionPath) (fail_io err)) (\<lambda>_.
     ret_io revisionPath))"

fun write_revision_try :: "nat \<Rightarrow> string \<Rightarrow> revision_record \<Rightarrow> string \<Rightarrow> string io" where
  "write_revision_try 0 dir record data = fail_io (ErrText ''could not allocate unique revision filename'')"
| "write_revision_try (Suc attempts) dir record data =
     bind_io random_revision_suffix (\<lambda>unique.
     let revisionPath = path_join [dir, revision_name record unique] in
     catch_io (open_excl revisionPath 384)
       (\<lambda>err. if errors_is err OsErrExist then write_revision_try attempts dir record data else fail_io err)
       (fill_reservation revisionPath data))"

definition write_revision :: "settings \<Rightarrow> revision_record \<Rightarrow> string io" where
  "write_revision c record =
     bind_io (json_data revision_codec record) (\<lambda>data.
     let dir = revision_dir c (Rev_RequestURI record) in
     bind_io (os_mkdir_all dir 493) (\<lambda>_. write_revision_try 16 dir record data))"

definition write_revision_at_path :: "revision_record \<Rightarrow> string \<Rightarrow> unit io" where
  "write_revision_at_path record revisionPath = save_json revisionPath revision_codec 384 record"

section \<open>The database\<close>

definition db_post_revision_configured :: "settings \<Rightarrow> bool" where
  "db_post_revision_configured c =
     (if DB_TYPE c = ''postgres'' then True
      else if DB_TYPE c = ''sqlite'' \<or> DB_TYPE c = ''genji'' then DB_FULL_FILE_PATH c \<noteq> ''''
      else False)"

definition post_of_revision :: "operator_session \<Rightarrow> revision_record \<Rightarrow> string \<Rightarrow> post" where
  "post_of_revision session record domain =
     \<lparr>Post_Id = 0, Post_OwnerId = Session_UserID session, Post_EditorId = Session_UserID session, Post_DeleterId = 0,
      Post_RequestUri = Rev_RequestURI record, Post_Type = ''Wiki'', Post_Date = unix_milli (Rev_CreatedAt record),
      Post_Title = title_from_request_uri (Rev_RequestURI record), Post_Body = Rev_AfterContent record,
      Post_Header = '''', Post_Summary = '''', Post_ShortText = '''', Post_Tags = '''', Post_Revision = 0,
      Post_Domain = domain, Post_Status = ''active'', Post_Published = True\<rparr>"

definition save_db_post_revision ::
  "settings \<Rightarrow> request \<Rightarrow> operator_session \<Rightarrow> revision_record \<Rightarrow> unit io" where
  "save_db_post_revision c request session record w =
     (if \<not> db_post_revision_configured c then ret_io () w
      else case trusted_db_revision_domain w request of
        (domain, trusted) \<Rightarrow>
          bind_io (save_post_revision_from_config c (post_of_revision session record domain)) (\<lambda>_. ret_io ()) w)"

record db_revision_metadata =
  DbRev_Revision :: int
  DbRev_RequestURI :: string
  DbRev_Domain :: string
  DbRev_Type :: string
  DbRev_Title :: string
  DbRev_Status :: string
  DbRev_Published :: bool
  DbRev_CreatedAt :: time

definition db_revision_of_post :: "post \<Rightarrow> db_revision_metadata" where
  "db_revision_of_post post =
     \<lparr>DbRev_Revision = Post_Revision post, DbRev_RequestURI = Post_RequestUri post, DbRev_Domain = Post_Domain post,
      DbRev_Type = Post_Type post, DbRev_Title = Post_Title post, DbRev_Status = Post_Status post,
      DbRev_Published = Post_Published post, DbRev_CreatedAt = Post_Date post * 1000000\<rparr>"

definition load_db_revision_metadata :: "settings \<Rightarrow> request \<Rightarrow> string \<Rightarrow> db_revision_metadata list io" where
  "load_db_revision_metadata c request requestURI w =
     (if \<not> db_post_revision_configured c then ret_io [] w
      else case trusted_db_revision_domain w request of
        (domain, trusted) \<Rightarrow>
          bind_io (load_post_revisions_from_config c requestURI domain)
            (\<lambda>posts. ret_io (map db_revision_of_post posts)) w)"

section \<open>Saving a page\<close>

text \<open>The content of a file, empty when there is none.\<close>

definition read_or_empty :: "string \<Rightarrow> string io" where
  "read_or_empty fileName =
     catch_io (os_read_file fileName)
       (\<lambda>err. if \<not> errors_is err OsErrNotExist then fail_io err else ret_io '''')
       ret_io"

definition edit_record :: "int \<Rightarrow> string \<Rightarrow> time \<Rightarrow> string \<Rightarrow> string \<Rightarrow> revision_record" where
  "edit_record revision requestURI now oldContent newContent =
     \<lparr>Rev_Revision = revision, Rev_RequestURI = requestURI, Rev_Path = requestURI, Rev_CreatedAt = now,
      Rev_BeforeContent = oldContent, Rev_AfterContent = newContent, Rev_Checksum = content_checksum newContent,
      Rev_DBRevisionWarning = ''''\<rparr>"

definition mark_db_failure :: "revision_record \<Rightarrow> string \<Rightarrow> go_error \<Rightarrow> unit io" where
  "mark_db_failure record revisionPath err w =
     (let warning = ''database post revision was not saved: '' @ error_text err w in
      ignoring (write_revision_at_path (record\<lparr>Rev_DBRevisionWarning := warning\<rparr>) revisionPath) (ret_io ()) w)"

definition save_edited_file ::
  "settings \<Rightarrow> request \<Rightarrow> operator_session \<Rightarrow> string \<Rightarrow> string \<Rightarrow> unit io" where
  "save_edited_file c request session fileName newContent =
     bind_io (canonical_request_uri_for_file c fileName) (\<lambda>requestURI.
     bind_io (read_or_empty fileName) (\<lambda>oldContent.
     bind_io (next_revision c requestURI) (\<lambda>revision.
     bind_io time_now (\<lambda>now.
     let record = edit_record revision requestURI now oldContent newContent in
     bind_io (write_revision c record) (\<lambda>revisionPath.
     bind_io (atomic_write_file fileName newContent 420) (\<lambda>_.
     catch_io (save_db_post_revision c request session record)
       (mark_db_failure record revisionPath) ret_io))))))"

end
