(* ===== verification/DbFrame.thy ===== *)
theory DbFrame
  imports Database FileFrame
begin

text \<open>
  The database layer touches no file: it talks to the driver, reads the clock and the random source. An operation
  that leaves all files and the setting alone is called inert.
\<close>

definition inert :: "'a io \<Rightarrow> bool" where
  "inert m \<longleftrightarrow> (\<forall>w. same_files w (snd (m w)) \<and> same_setting w (snd (m w)))"

lemma inertD: "inert m \<Longrightarrow> m w = (r, w') \<Longrightarrow> same_files w w' \<and> same_setting w w'"
  unfolding inert_def by (metis snd_conv)

lemma inert_iff: "inert m \<longleftrightarrow> reads m \<and> keeps m"
  by (auto simp: inert_def reads_def keeps_def)

lemma inert_harmless: "inert m \<Longrightarrow> harmless m"
  by (simp add: inert_iff harmless_reads)

lemma inert_bind [intro]: "inert m \<Longrightarrow> (\<And>v. inert (f v)) \<Longrightarrow> inert (bind_io m f)"
  by (auto simp: inert_iff)

lemma inert_catch [intro]:
  "inert m \<Longrightarrow> (\<And>e. inert (h e)) \<Longrightarrow> (\<And>v. inert (f v)) \<Longrightarrow> inert (catch_io m h f)"
  by (auto simp: inert_iff)

lemma inert_basic [simp]:
  "inert (ret_io v)" "inert (fail_io e)" "inert (lift_io r)" "inert time_now" "inert (rand_read n)"
  "inert (os_read_file p)" "inert (os_stat p)" "inert (os_lstat p)" "inert (eval_symlinks p)" "inert os_getwd"
  by (simp_all add: inert_iff)

lemma inert_each [intro]: "(\<And>x. inert (f x)) \<Longrightarrow> inert (each_io f xs)"
  by (induction xs) (auto intro!: inert_bind)

lemma inert_step: "inert m \<Longrightarrow> same_files w (snd (m w)) \<and> same_setting w (snd (m w))"
  by (simp add: inert_def)

lemma inert_world: "(\<And>w. \<exists>n. inert n \<and> m w = n w) \<Longrightarrow> inert m"
  unfolding inert_def by metis

section \<open>The driver\<close>

lemma log_inert: "same_files w (w\<lparr>sql_log := l\<rparr>) \<and> same_setting w (w\<lparr>sql_log := l\<rparr>)"
  by (simp add: same_files_def)

lemma inert_sql [simp]: "inert (sql_io c)"
  unfolding inert_def sql_io_def sql_do_def by (simp add: log_inert)

lemma sql_do_world: "same_files w (snd (sql_do c w)) \<and> same_setting w (snd (sql_do c w))"
  by (simp add: sql_do_def log_inert)

lemma inert_trans:
  "same_files a b \<and> same_setting a b \<Longrightarrow> same_files b c \<and> same_setting b c \<Longrightarrow> same_files a c \<and> same_setting a c"
  using same_files_trans same_setting_trans by blast

lemma inert_calls [simp]:
  "inert (db_exec s args)" "inert (db_query s args)" "inert (db_query_row s args)" "inert (scanned r)"
  unfolding db_exec_def db_query_def db_query_row_def scanned_def
  by (auto intro!: inert_bind split: list.split option.split)

lemma inert_in_tx [intro]: "inert m \<Longrightarrow> inert (in_tx m)"
  unfolding in_tx_def
proof (rule inert_bind [OF inert_sql])
  fix v assume m: "inert m"
  let ?f = "\<lambda>w. case m w of (Inl e, w') \<Rightarrow> (Inl e, snd (sql_do SqlRollback w'))
       | (Inr v, w') \<Rightarrow> bind_io (sql_io SqlCommit) (\<lambda>_. ret_io v) w'"
  have c: "inert (bind_io (sql_io SqlCommit) (\<lambda>_. ret_io u))" for u by (intro inert_bind) simp_all
  show "inert ?f"
    unfolding inert_def
  proof
    fix w
    obtain r w1 where r: "m w = (r, w1)" by (cases "m w")
    with m have s: "same_files w w1 \<and> same_setting w w1" by (rule inertD)
    show "same_files w (snd (?f w)) \<and> same_setting w (snd (?f w))"
    proof (cases r)
      case (Inl e)
      with r inert_trans [OF s sql_do_world] show ?thesis by simp
    next
      case (Inr u)
      with r inert_trans [OF s inert_step [OF c]] show ?thesis by simp
    qed
  qed
qed

lemma inert_add_columns [simp]: "inert (add_columns t cols)"
  unfolding add_columns_def by (auto intro!: inert_bind inert_each inert_catch split: prod.split)

lemma inert_create_tables [simp]: "inert (create_tables dbType)"
  unfolding create_tables_def ensure_watchdog_row_def ensure_post_columns_def ensure_post_revision_index_def
    create_foundation_tables_def ensure_backup_columns_def Let_def
  by (intro inert_bind inert_calls inert_catch) (auto intro!: inert_bind inert_each)

lemma finish_open_inert: "same_files w (snd (finish_open t w)) \<and> same_setting w (snd (finish_open t w))"
  using inert_step [OF inert_create_tables, of w t]
  by (auto simp: finish_open_def split: prod.split sum.split)

lemma open_with_fallback_inert:
  "same_files w (snd (open_with_fallback a b p w)) \<and> same_setting w (snd (open_with_fallback a b p w))"
proof -
  obtain r w1 where r: "sql_io (SqlOpen a p) w = (r, w1)" by (cases "sql_io (SqlOpen a p) w")
  obtain r2 w2 where r2: "sql_io (SqlOpen b p) w1 = (r2, w2)" by (cases "sql_io (SqlOpen b p) w1")
  note s1 = inertD [OF inert_sql r] and s2 = inertD [OF inert_sql r2]
  show ?thesis
    using inert_trans [OF s1 finish_open_inert] inert_trans [OF inert_trans [OF s1 s2] finish_open_inert]
      inert_trans [OF s1 s2]
    by (simp add: open_with_fallback_def r r2 split: sum.split)
qed

lemma connect_inert: "same_files w (snd (connect_to_db c w)) \<and> same_setting w (snd (connect_to_db c w))"
proof -
  obtain r w1 where r: "sql_io (SqlOpen ''pgx'' (postgres_dsn c)) w = (r, w1)"
    by (cases "sql_io (SqlOpen ''pgx'' (postgres_dsn c)) w")
  obtain r2 w2 where r2: "sql_io SqlPing w1 = (r2, w2)" by (cases "sql_io SqlPing w1")
  note s1 = inertD [OF inert_sql r] and s2 = inertD [OF inert_sql r2]
  have "same_files w (snd (case r of Inl e \<Rightarrow> ((False, Some (ErrText (''Database config error: '' @ error_message e))), w1)
         | Inr _ \<Rightarrow> (case sql_io SqlPing w1 of
                (Inl e, w'') \<Rightarrow> ((True, Some (ErrText (''Database connect error: '' @ error_message e))), w'')
              | (Inr _, w'') \<Rightarrow> finish_open ''postgres'' w'')))
      \<and> same_setting w (snd (case r of Inl e \<Rightarrow> ((False, Some (ErrText (''Database config error: '' @ error_message e))), w1)
         | Inr _ \<Rightarrow> (case sql_io SqlPing w1 of
                (Inl e, w'') \<Rightarrow> ((True, Some (ErrText (''Database connect error: '' @ error_message e))), w'')
              | (Inr _, w'') \<Rightarrow> finish_open ''postgres'' w'')))"
    using s1 inert_trans [OF s1 s2] inert_trans [OF inert_trans [OF s1 s2] finish_open_inert]
    by (simp add: r2 split: sum.split)
  then show ?thesis
    using open_with_fallback_inert [of w "''genji''" "''sqlite''"] open_with_fallback_inert [of w "''sqlite''" "''genji''"]
    by (simp add: connect_to_db_def r split: sum.split)
qed

lemma inert_with_db [intro]: "inert m \<Longrightarrow> inert (with_db c m)"
  unfolding inert_def [of "with_db c m"]
proof
  fix w assume m: "inert m"
  obtain db err w1 where c: "connect_to_db c w = ((db, err), w1)" by (metis prod.exhaust)
  then have s: "same_files w w1 \<and> same_setting w w1" using connect_inert [of w c] by simp
  obtain r w2 where r: "m w1 = (r, w2)" by (cases "m w1")
  note s2 = inert_trans [OF s inertD [OF m r]]
  show "same_files w (snd (with_db c m w)) \<and> same_setting w (snd (with_db c m w))"
    using s inert_trans [OF s2 sql_do_world] by (simp add: with_db_def c r split: option.split)
qed

section \<open>The exported operations\<close>

lemma inert_insert_id [simp]: "inert (insert_id i t)" "inert random_post_id" "inert (default_date d)"
  unfolding insert_id_def random_post_id_def default_date_def by (auto intro!: inert_bind)

lemma inert_saves [simp]:
  "inert (save_post_data_in_db post t)" "inert (save_redirect_in_db r t)"
  "inert (save_media_in_db m t)" "inert (save_template_in_db tm t)"
  unfolding save_post_data_in_db_def save_redirect_in_db_def save_media_in_db_def save_template_in_db_def Let_def
  by (intro inert_in_tx inert_bind; auto intro!: inert_bind inert_in_tx split: prod.split list.split)+

lemma inert_from_config [simp]:
  "inert (save_post_revision_from_config c post)" "inert (load_post_revisions_from_config c uri domain)"
  "inert (save_redirect_from_config c r)" "inert (load_redirect_from_config c uri domain)"
  "inert (save_media_from_config c m)" "inert (save_template_from_config c tm)"
  unfolding save_post_revision_from_config_def load_post_revisions_from_config_def save_redirect_from_config_def
    load_redirect_from_config_def save_media_from_config_def save_template_from_config_def
  by (auto intro!: inert_with_db inert_bind inert_each inert_catch)

end
