(* ===== verification/History.thy ===== *)
theory History
  imports Revisions DbFrame
begin

text \<open>
  What saving a page keeps. The lemmas follow the file system through the steps of \<open>saveEditedFile\<close>, whatever
  system calls fail: the history of a page only grows, and a page's content is in its history before the page
  changes.
\<close>

section \<open>File systems that grow\<close>

definition added :: "world \<Rightarrow> world \<Rightarrow> bool" where
  "added w w' \<longleftrightarrow> same_setting w w' \<and> (\<forall>q n. fs w q = Some n \<longrightarrow> fs w' q = Some n)
     \<and> (\<forall>q t. fs w' q = Some (NLink t) \<longrightarrow> fs w q = Some (NLink t))"

lemma added_refl [simp]: "added w w"
  by (simp add: added_def)

lemma added_trans: "added a b \<Longrightarrow> added b c \<Longrightarrow> added a c"
  unfolding added_def using same_setting_trans by blast

lemma added_extends: "added w w' \<Longrightarrow> extends (fs w) (fs w')"
  unfolding added_def extends_def using alike_refl by blast

lemma same_setting_cwd: "same_setting w w' \<Longrightarrow> cwd w' = cwd w"
  by (simp add: same_setting_def)

lemma added_cwd: "added w w' \<Longrightarrow> cwd w' = cwd w"
  unfolding added_def by (blast intro: same_setting_cwd)

lemma added_inert: "inert m \<Longrightarrow> m w = (r, w') \<Longrightarrow> added w w'"
  by (drule inertD) (auto simp: added_def same_files_simps)

lemma added_dirs: "same_setting w w' \<Longrightarrow> dirs_added (fs w) (fs w') \<Longrightarrow> added w w'"
  unfolding added_def using dirs_addedD dirs_added_link by blast

lemma added_path:
  "added w w' \<Longrightarrow> kernel_path w fl p = Inr q \<Longrightarrow> fs w q \<noteq> None \<Longrightarrow> kernel_path w' fl p = Inr q"
  by (rule kernel_path_extends [OF added_extends _]) (auto intro: added_cwd)

lemma added_node: "added w w' \<Longrightarrow> fs w q = Some n \<Longrightarrow> fs w' q = Some n"
  unfolding added_def by blast

lemma added_reads: "added w w' \<Longrightarrow> reads_as w p b \<Longrightarrow> reads_as w' p b"
  by (auto simp: reads_as_def node_at_Inr intro: added_path added_node)

lemma added_no_link: "added w w' \<Longrightarrow> no_link_named n w \<Longrightarrow> no_link_named n w'"
  unfolding added_def no_link_named_def by blast

text \<open>The name of the entry that a cleaned file name leads to is its last component.\<close>

lemma resolve_last:
  "resolve f fl n cur (cs @ [c]) = Inr q \<Longrightarrow> proper c \<Longrightarrow>
     (fl \<Longrightarrow> \<forall>u t. f u = Some (NLink t) \<longrightarrow> last u \<noteq> c) \<Longrightarrow> last q = c"
proof (induction f fl n cur "cs @ [c]" arbitrary: cs rule: resolve.induct)
  case (2 f fl n cur x xs)
  note nl = "2.prems"(3)
  show ?case
  proof (cases cs)
    case Nil
    with 2 show ?thesis by (auto simp: resolve.simps(2) proper_def split: option.splits node.splits if_splits)
  next
    case (Cons y ys)
    then have x: "x = y" "xs = ys @ [c]" "xs \<noteq> []" using "2.hyps"(5) by auto
    consider "y = [] \<or> y = ''.''" | "\<not> (y = [] \<or> y = ''.'')" "y = ''..''"
      | "\<not> (y = [] \<or> y = ''.'')" "y \<noteq> ''..''" by blast
    then show ?thesis
    proof cases
      case 1
      with "2.hyps"(1) [of ys] "2.prems" x Cons show ?thesis by (simp add: resolve.simps(2))
    next
      case 2
      with "2.hyps"(2) [of ys] "2.prems" x Cons show ?thesis by (simp add: resolve.simps(2))
    next
      case 3
      show ?thesis
      proof (cases "f (cur @ [y])")
        case None
        with 3 "2.prems" Cons show ?thesis by (auto simp: resolve.simps(2))
      next
        case (Some nd)
        show ?thesis
        proof (cases nd)
          case (NDir k)
          with "2.hyps"(3) [of nd k ys] "2.prems" 3 Some x Cons show ?thesis by (simp add: resolve.simps(2))
        next
          case (NFile k b)
          with 3 Some "2.prems" Cons show ?thesis by (auto simp: resolve.simps(2))
        next
          case (NLink t)
          with "2.hyps"(4) [of nd t _ "split_on (CHR ''/'') t @ ys"] "2.prems" 3 Some x Cons show ?thesis
            by (auto simp: resolve.simps(2) split: nat.splits)
        qed
      qed
    qed
  qed
qed simp

lemma kernel_path_last: "file_path p \<Longrightarrow> kernel_path w False p = Inr q \<Longrightarrow> last q = path_base p"
  using file_path_resolve [of p] resolve_last [of _ False] by metis

lemma kernel_path_last_follow:
  assumes "file_path p" "kernel_path w True p = Inr q" "no_link_named (path_base p) w"
  shows "last q = path_base p"
proof -
  obtain cs where "proper (path_base p)"
      "kernel_path w True p = resolve (fs w) True 40 (start_of w p) (cs @ [path_base p])"
    using file_path_resolve [OF assms(1)] by metis
  then show ?thesis
    using resolve_last [of "fs w" True 40 "start_of w p" cs "path_base p" q] assms(2,3) by (simp add: no_link_named_def)
qed

section \<open>Replacing a file that is there\<close>

lemma atomic_write_over:
  assumes p: "file_path p" and run: "atomic_write_file p data mode w = (r, w')"
    and q: "kernel_path w False p = Inr q" "fs w q = Some (NFile m b)"
  obtains (undone) "added w w'" "r \<noteq> Inr ()"
    | (written) F where "dirs_added (fs w) F" "fs w' = F(q \<mapsto> NFile mode data)" "reads_as w' p data"
        "kernel_path w' False p = Inr q"
proof -
  have set: "same_setting w w'" by (rule keepsD [OF keeps_atomic_write run])
  have same_place: "located F (cwd w) p = Inr q" if "dirs_added (fs w) F" for F
  proof -
    have l: "located (fs w) (cwd w) p = Inr q" using q(1) by (simp add: kernel_path_located)
    show ?thesis
      using resolve_extends [OF extends_dirs [OF that]] l q(2) by (auto simp: located_def split: if_splits)
  qed
  from atomic_write_run [OF p run] consider F where "dirs_added (fs w) F" "fs w' = F" "r \<noteq> Inr ()"
    | F q' where "dirs_added (fs w) F" "located F (cwd w) p = Inr q'" "fs w' = F(q' \<mapsto> NFile mode data)"
        "(\<forall>t. fs w q' \<noteq> Some (NLink t)) \<longrightarrow> node_at w' True p = Inr (NFile mode data)"
    | F q' m b where "dirs_added (fs w) F" "F q' = None" "fs w' = F(q' \<mapsto> NFile m b)" "r \<noteq> Inr ()"
    by blast
  then show thesis
  proof cases
    case 1
    then show thesis using undone added_dirs [OF set] by simp
  next
    case 2
    have q': "q' = q" using same_place [OF 2(1)] 2(2) by simp
    have "extends (fs w) (fs w')"
      using extends_trans [OF extends_dirs [OF 2(1)] extends_put [of F q "NFile mode data"]] q(2) dirs_addedD [OF 2(1) q(2)]
      by (simp add: 2(3) q')
    then have "kernel_path w' False p = Inr q"
      using q(1) by (rule kernel_path_extends [OF _ same_setting_cwd [OF set]]) (simp add: q(2))
    then show thesis using 2 q(2) q' by (intro written) (auto simp: reads_as_def)
  next
    case 3
    have "\<And>u n. fs w u = Some n \<Longrightarrow> fs w' u = Some n"
      using dirs_addedD [OF 3(1)] 3(2,3) by (metis fun_upd_other option.distinct(1))
    moreover have "\<And>u t. fs w' u = Some (NLink t) \<Longrightarrow> fs w u = Some (NLink t)"
      using dirs_added_link [OF 3(1)] 3(3) by (metis fun_upd_apply node.distinct(5) option.inject)
    ultimately show thesis using undone set 3(4) unfolding added_def by blast
  qed
qed

text \<open>So a file made after \<open>w\<close> may be replaced, or removed, and what was there in \<open>w\<close> stays.\<close>

lemma added_replace:
  assumes "added w v" "fs w q = None" "same_setting v w'" "dirs_added (fs v) F" "fs w' = F(q \<mapsto> NFile m b)"
  shows "added w w'"
proof -
  have "same_setting w w'" using assms(1,3) same_setting_trans by (auto simp: added_def)
  moreover have "\<And>u n. fs w u = Some n \<Longrightarrow> fs w' u = Some n"
    using dirs_addedD [OF assms(4)] added_node [OF assms(1)] assms(2,5) by (metis fun_upd_other option.distinct(1))
  moreover have "\<And>u t. fs w' u = Some (NLink t) \<Longrightarrow> fs w u = Some (NLink t)"
  proof -
    fix u t assume "fs w' u = Some (NLink t)"
    then have "F u = Some (NLink t)" using assms(5) by (auto split: if_splits)
    then show "fs w u = Some (NLink t)" using dirs_added_link [OF assms(4)] assms(1) unfolding added_def by blast
  qed
  ultimately show ?thesis unfolding added_def by blast
qed

lemma added_remove:
  assumes "added w v" "fs w q = None" "same_setting v w'" "fs w' = fs v \<or> fs w' = (fs v)(q := None)"
  shows "added w w'"
proof -
  have "same_setting w w'" using assms(1,3) same_setting_trans unfolding added_def by blast
  moreover have "fs w' u = Some n" if "fs w u = Some n" for u n
    using added_node [OF assms(1) that] that assms(2,4) by (cases "u = q") auto
  moreover have "fs w u = Some (NLink t)" if "fs w' u = Some (NLink t)" for u t
  proof -
    have "fs v u = Some (NLink t)" using that assms(4) by (cases "u = q") auto
    then show ?thesis using assms(1) unfolding added_def by blast
  qed
  ultimately show ?thesis unfolding added_def by blast
qed

section \<open>Writing a revision\<close>

lemma keeps_fill_reservation [simp]: "keeps (fill_reservation p data q)"
  unfolding fill_reservation_def by (intro keeps_catch keeps_ignoring) simp_all

lemma os_remove_run:
  "os_remove p w = (r, w') \<Longrightarrow> kernel_path w False p = Inr q \<Longrightarrow> fs w q = Some (NFile m b) \<Longrightarrow>
     same_setting w w' \<and> (fs w' = fs w \<or> fs w' = (fs w)(q := None))"
  using keepsD [OF keeps_remove] os_remove_file by blast

lemma ignoring_remove:
  assumes "ignoring (os_remove p) (fail_io err) v = (r, w')" "kernel_path v False p = Inr q" "fs v q = Some (NFile m b)"
    and "added w v" "fs w q = None"
  shows "added w w' \<and> r = Inl err"
proof -
  obtain r1 where "os_remove p v = (r1, w')" and r: "r = Inl err"
    using assms(1) by (auto simp: ignoring_def catch_io_eq fail_io_eq)
  from os_remove_run [OF this(1) assms(2,3)] added_remove [OF assms(4,5)] r show ?thesis by blast
qed

lemma fill_reservation_run:
  assumes run: "fill_reservation p data q v = (r, w')" and p: "file_path p"
    and v: "kernel_path v False p = Inr q" "fs v q = Some (NFile m b)" and w: "added w v" "fs w q = None"
  shows "added w w' \<and> (\<forall>p'. r = Inr p' \<longrightarrow> p' = p \<and> kernel_path w' False p = Inr q
    \<and> fs w' q = Some (NFile 384 data) \<and> reads_as w' p data)"
proof -
  from run consider (close) e v1 where "file_close q v = (Inl e, v1)" "ignoring (os_remove p) (fail_io e) v1 = (r, w')"
    | (failed) v1 e v2 where "file_close q v = (Inr (), v1)" "atomic_write_file p data 384 v1 = (Inl e, v2)"
        "ignoring (os_remove p) (fail_io e) v2 = (r, w')"
    | (ok) v1 where "file_close q v = (Inr (), v1)" "atomic_write_file p data 384 v1 = (Inr (), w')" "r = Inr p"
    unfolding fill_reservation_def by (auto simp: catch_io_eq ret_io_eq)
  then show ?thesis
  proof cases
    case close
    have a: "added v v1" using close(1) by (rule added_inert [rotated]) (simp add: inert_iff)
    from ignoring_remove [OF close(2) added_path [OF a v(1)] added_node [OF a v(2)] added_trans [OF w(1) a] w(2)] v(2)
    show ?thesis by simp
  next
    case failed
    have a: "added v v1" using failed(1) by (rule added_inert [rotated]) (simp add: inert_iff)
    have v1: "kernel_path v1 False p = Inr q" "fs v1 q = Some (NFile m b)"
      using added_path [OF a v(1)] added_node [OF a v(2)] v(2) by simp_all
    have wa: "added w v1" using w(1) a by (rule added_trans)
    have "\<exists>m b. fs v2 q = Some (NFile m b) \<and> kernel_path v2 False p = Inr q \<and> added w v2"
      using p failed(2) v1
    proof (cases rule: atomic_write_over)
      case undone
      then show ?thesis
        using added_path [OF undone(1) v1(1)] added_node [OF undone(1) v1(2)] v1(2) added_trans [OF wa undone(1)] by auto
    next
      case (written F)
      have "added w v2"
        by (rule added_replace [OF wa w(2) keepsD [OF keeps_atomic_write failed(2)] written(1,2)])
      then show ?thesis using written(2,4) by simp
    qed
    then show ?thesis using ignoring_remove [OF failed(3)] w(2) by blast
  next
    case ok
    have a: "added v v1" using ok(1) by (rule added_inert [rotated]) (simp add: inert_iff)
    have v1: "kernel_path v1 False p = Inr q" "fs v1 q = Some (NFile m b)"
      using added_path [OF a v(1)] added_node [OF a v(2)] v(2) by simp_all
    have wa: "added w v1" using w(1) a by (rule added_trans)
    show ?thesis
      using p ok(2) v1
    proof (cases rule: atomic_write_over)
      case undone
      then show ?thesis by simp
    next
      case (written F)
      have "added w w'"
        by (rule added_replace [OF wa w(2) keepsD [OF keeps_atomic_write ok(2)] written(1,2)])
      then show ?thesis using written ok(3) by simp
    qed
  qed
qed

lemma inert_suffix [simp]: "inert random_revision_suffix"
  unfolding random_revision_suffix_def by (auto intro!: inert_bind)

lemma open_excl_reserves:
  assumes "open_excl p k w = (Inr q, w')"
  shows "added w w' \<and> fs w q = None \<and> kernel_path w' False p = Inr q \<and> (\<exists>m. fs w' q = Some (NFile m []))"
proof -
  from open_excl_run [OF assms] obtain m where o: "kernel_path w False p = Inr q" "fs w q = None"
      "fs w' = (fs w)(q \<mapsto> NFile m [])" "cwd w' = cwd w" by auto
  have "same_setting w w'" by (rule keepsD [OF keeps_calls(7) assms])
  then have "added w w'" using o(2,3) unfolding added_def by auto
  moreover have "kernel_path w' False p = Inr q"
    using resolve_made [of "fs w" 40 _ _ q "NFile m []"] o by (auto simp: kernel_path_def split: if_splits)
  ultimately show ?thesis using o by simp
qed

lemma open_excl_fails: "open_excl p k w = (Inl e, w') \<Longrightarrow> added w w'"
  using open_excl_run [of p k w "Inl e" w'] keepsD [OF keeps_calls(7), of p k w "Inl e" w']
  by (simp add: added_def)

lemma no_slash_digits: "list_all is_digit_byte ds \<Longrightarrow> CHR ''/'' \<notin> set ds"
  by (auto simp: list_all_iff is_digit_byte_def byte_def)

lemma no_slash_pad [simp]: "CHR ''/'' \<notin> set (pad_digits k n)"
  using no_slash_digits [OF nat_digits_all [of n]] by (auto simp: pad_digits_def)

lemma no_slash_fixed [simp]: "CHR ''/'' \<notin> set (dec_fixed k n)"
  by (rule no_slash_digits [OF dec_fixed_digits])

lemma no_slash_stamp [simp]: "CHR ''/'' \<notin> set (format_stamp t)"
  by (auto simp: format_stamp_def split: prod.split)

lemma proper_revision_name:
  assumes "CHR ''/'' \<notin> set u"
  shows "proper (revision_name rec u)"
proof -
  have "length (revision_name rec u) > 2" by (simp add: revision_name_def)
  then have "revision_name rec u \<noteq> '''' \<and> revision_name rec u \<noteq> ''.'' \<and> revision_name rec u \<noteq> ''..''" by auto
  moreover have "CHR ''/'' \<notin> set (revision_name rec u)"
    using assms by (auto simp: revision_name_def format_06d_def)
  ultimately show ?thesis by (simp add: proper_def)
qed

lemma revision_suffix_no_slash:
  "random_revision_suffix w = (Inr u, w') \<Longrightarrow> CHR ''/'' \<notin> set u"
  using hex_encode_chars [of "CHR ''/''"]
  by (auto simp: random_revision_suffix_def bind_io_Inr ret_io_eq lower_hex_char_def byte_def)

lemma write_revision_try_run:
  "write_revision_try k dir rec data w = (r, w') \<Longrightarrow>
     added w w' \<and> (\<forall>p. r = Inr p \<longrightarrow> (\<exists>u q. p = path_join [dir, revision_name rec u] \<and> proper (revision_name rec u)
       \<and> fs w q = None \<and> kernel_path w' False p = Inr q \<and> fs w' q = Some (NFile 384 data) \<and> reads_as w' p data))"
proof (induction k arbitrary: w)
  case 0
  then show ?case by (simp add: fail_io_eq)
next
  case (Suc k)
  from Suc.prems consider (no_suffix) e where "random_revision_suffix w = (Inl e, w')" "r = Inl e"
    | (taken) u w1 e w2 where "random_revision_suffix w = (Inr u, w1)"
        "open_excl (path_join [dir, revision_name rec u]) 384 w1 = (Inl e, w2)"
        "write_revision_try k dir rec data w2 = (r, w')"
    | (open_failed) u w1 e where "random_revision_suffix w = (Inr u, w1)"
        "open_excl (path_join [dir, revision_name rec u]) 384 w1 = (Inl e, w')" "r = Inl e"
    | (reserved) u w1 q w2 where "random_revision_suffix w = (Inr u, w1)"
        "open_excl (path_join [dir, revision_name rec u]) 384 w1 = (Inr q, w2)"
        "fill_reservation (path_join [dir, revision_name rec u]) data q w2 = (r, w')"
    by (cases r) (auto simp: bind_io_Inl bind_io_Inr catch_io_eq fail_io_eq Let_def split: if_splits)
  then show ?case
  proof cases
    case no_suffix
    then show ?thesis using added_inert [OF inert_suffix] by blast
  next
    case taken
    have a: "added w w2"
      using added_inert [OF inert_suffix taken(1)] open_excl_fails [OF taken(2)] by (rule added_trans)
    then have "fs w q = None" if "fs w2 q = None" for q
      using that added_node by (metis option.distinct(1) option.exhaust)
    with Suc.IH [OF taken(3)] a show ?thesis using added_trans by blast
  next
    case open_failed
    then show ?thesis
      using added_trans [OF added_inert [OF inert_suffix open_failed(1)] open_excl_fails [OF open_failed(2)]] by simp
  next
    case reserved
    let ?p = "path_join [dir, revision_name rec u]"
    have n: "proper (revision_name rec u)"
      using proper_revision_name [OF revision_suffix_no_slash [OF reserved(1)]] .
    have p: "file_path ?p" using path_join_file [OF n, of "[dir]"] by simp
    have a: "added w w1" by (rule added_inert [OF inert_suffix reserved(1)])
    from open_excl_reserves [OF reserved(2)] obtain m where o: "added w1 w2" "fs w1 q = None"
        "kernel_path w2 False ?p = Inr q" "fs w2 q = Some (NFile m [])" by blast
    have "fs w q = None" using o(2) added_node [OF a] by (metis option.distinct(1) option.exhaust)
    with fill_reservation_run [OF reserved(3) p o(3,4) added_trans [OF a o(1)]] n show ?thesis by blast
  qed
qed

text \<open>A revision in the history of a page that was not there in \<open>w\<close>.\<close>

definition revision_stored :: "settings \<Rightarrow> string \<Rightarrow> world \<Rightarrow> world \<Rightarrow> (revision_record \<Rightarrow> bool) \<Rightarrow> bool" where
  "revision_stored c uri w w' P \<longleftrightarrow>
     (\<exists>name q m data record. proper name \<and> has_suffix name ''.json''
        \<and> kernel_path w' False (path_join [revision_dir c uri, name]) = Inr q
        \<and> fs w q = None \<and> fs w' q = Some (NFile m data)
        \<and> unmarshal revision_codec data zero_revision = Some record \<and> P record)"

lemma revision_name_json: "has_suffix (revision_name rec u) ''.json''"
  unfolding revision_name_def has_suffix_def
  by (metis append.assoc suffixI)

lemma write_revision_run:
  assumes "write_revision c record w = (r, w')"
  shows "added w w' \<and> (\<forall>p. r = Inr p \<longrightarrow> (\<exists>name q data. p = path_join [revision_dir c (Rev_RequestURI record), name]
    \<and> proper name \<and> has_suffix name ''.json'' \<and> marshal_indent revision_codec record = Some data
    \<and> fs w q = None \<and> kernel_path w' False p = Inr q \<and> fs w' q = Some (NFile 384 data)))"
proof -
  let ?dir = "revision_dir c (Rev_RequestURI record)"
  from assms consider (unencoded) "w' = w" "\<exists>e. r = Inl e"
    | (no_dir) e where "os_mkdir_all ?dir 493 w = (Inl e, w')" "r = Inl e"
    | (tried) data w1 where "marshal_indent revision_codec record = Some data" "os_mkdir_all ?dir 493 w = (Inr (), w1)"
        "write_revision_try 16 ?dir record data w1 = (r, w')"
    unfolding write_revision_def json_data_def
    by (cases r) (auto simp: bind_io_Inl bind_io_Inr fail_io_eq ret_io_eq Let_def split: option.splits)
  then show ?thesis
  proof cases
    case unencoded
    then show ?thesis by auto
  next
    case no_dir
    have "added w w'"
      using mkdir_all_run [of 493 ?dir w "Inl e" w'] no_dir(1) keepsD [OF keeps_mkdir_all no_dir(1)]
      by (intro added_dirs) (simp_all add: os_mkdir_all_def)
    then show ?thesis using no_dir(2) by simp
  next
    case tried
    have a: "added w w1"
      using mkdir_all_run [of 493 ?dir w "Inr ()" w1] tried(2) keepsD [OF keeps_mkdir_all tried(2)]
      by (intro added_dirs) (simp_all add: os_mkdir_all_def)
    then have none: "fs w q = None" if "fs w1 q = None" for q
      using that added_node by (metis option.distinct(1) option.exhaust)
    from write_revision_try_run [OF tried(3)] a tried(1) revision_name_json none show ?thesis
      using added_trans by blast
  qed
qed

end
