(* ===== verification/EditSafety.thy ===== *)
theory EditSafety
  imports History
begin

text \<open>
  The contract of saving a page: nothing but the page and its history changes, the history only grows, and a page
  that has changed has its old and new content in the history.
\<close>

section \<open>Steps\<close>

lemma inert_read_or_empty [simp]: "inert (read_or_empty p)"
  unfolding read_or_empty_def by (auto intro!: inert_catch)

lemma inert_read_revision [simp]: "inert (read_revision p)"
  unfolding read_revision_def by (auto intro!: inert_bind split: option.split)

lemma inert_read_dir [simp]: "inert (os_read_dir p)"
  by (simp add: inert_iff)

lemma inert_load_revisions [simp]: "inert (load_revisions c uri)"
  unfolding load_revisions_def Let_def by (auto intro!: inert_bind inert_catch inert_each)

lemma inert_history [simp]: "inert (next_revision c uri)" "inert (find_revision c uri r)"
  unfolding next_revision_def find_revision_def by (auto intro!: inert_bind split: option.split)

lemma inert_abs_io [simp]: "inert (abs_io p)"
  by (auto simp: abs_io_def intro!: inert_bind)

lemma inert_canonical_uri [simp]: "inert (canonical_request_uri_for_file c p)"
  unfolding canonical_request_uri_for_file_def Let_def by (auto intro!: inert_bind)

lemma inert_env: "(\<And>x. inert (f x)) \<Longrightarrow> inert (\<lambda>w. f (g w) w)"
  by (simp add: inert_def)

lemma inert_db_post [simp]:
  "inert (save_db_post_revision c request session record)" "inert (load_db_revision_metadata c request uri)"
proof -
  have "inert (\<lambda>w. (if \<not> db_post_revision_configured c then ret_io ()
      else bind_io (save_post_revision_from_config c
        (post_of_revision session record (fst (trusted_db_revision_domain w request)))) (\<lambda>_. ret_io ())) w)"
    by (rule inert_env) (auto intro!: inert_bind)
  then show "inert (save_db_post_revision c request session record)"
    by (rule back_subst [of inert]) (simp add: fun_eq_iff save_db_post_revision_def split: prod.split)
  have "inert (\<lambda>w. (if \<not> db_post_revision_configured c then ret_io []
      else bind_io (load_post_revisions_from_config c uri (fst (trusted_db_revision_domain w request)))
        (\<lambda>posts. ret_io (map db_revision_of_post posts))) w)"
    by (rule inert_env) (auto intro!: inert_bind)
  then show "inert (load_db_revision_metadata c request uri)"
    by (rule back_subst [of inert]) (simp add: fun_eq_iff load_db_revision_metadata_def split: prod.split)
qed

text \<open>Files under other names than \<open>b\<close> stay as they are.\<close>

definition others_kept :: "string \<Rightarrow> world \<Rightarrow> world \<Rightarrow> bool" where
  "others_kept b w w' \<longleftrightarrow> (\<forall>q n. fs w q = Some n \<longrightarrow> last q \<noteq> b \<longrightarrow> fs w' q = Some n)"

lemma others_kept_trans: "others_kept b u v \<Longrightarrow> others_kept b v w \<Longrightarrow> others_kept b u w"
  unfolding others_kept_def by blast

lemma added_others: "added w w' \<Longrightarrow> others_kept b w w'"
  unfolding others_kept_def by (blast intro: added_node)

lemma read_or_empty_Inr:
  assumes "read_or_empty p w = (Inr old', w')" "reads_as w p old" "fault w (sysno w) \<noteq> Some ENOENT"
  shows "old' = old"
proof -
  obtain r w1 where r: "os_read_file p w = (r, w1)" by (cases "os_read_file p w")
  show ?thesis
  proof (cases "fault w (sysno w)")
    case None
    then have "os_read_file p w = (Inr old, tick_sys w)" using assms(2) read_file_iff by blast
    then show ?thesis using assms(1) by (auto simp: read_or_empty_def catch_io_eq ret_io_eq)
  next
    case (Some e)
    then have "os_read_file p w = (Inl (SysErr e), tick_sys w)" by (simp add: os_read_file_def sys_call_def)
    moreover have "\<not> errors_is (SysErr e) OsErrNotExist" using Some assms(3) by (cases e) simp_all
    ultimately show ?thesis using assms(1) by (auto simp: read_or_empty_def catch_io_eq ret_io_eq fail_io_eq)
  qed
qed

section \<open>A save\<close>

lemma int64_wrap: "int64 (wrap64 i)"
  by (simp add: int64_def wrap64_def)

lemma next_revision_int64: "next_revision c uri w = (Inr n, w') \<Longrightarrow> int64 n"
  by (auto simp: next_revision_def bind_io_Inr ret_io_eq int64_wrap)

lemma save_edited_steps:
  assumes "save_edited_file c request session fileName new w = (r, w')"
  obtains (early) "added w w'" "r \<noteq> Inr ()"
    | (late) uri w1 old w2 rev now w3 p w4 r5 w5 where
        "canonical_request_uri_for_file c fileName w = (Inr uri, w1)" "read_or_empty fileName w1 = (Inr old, w2)"
        "int64 rev" "added w w3" "write_revision c (edit_record rev uri now old new) w3 = (Inr p, w4)"
        "atomic_write_file fileName new 420 w4 = (r5, w5)"
        "(r5 \<noteq> Inr () \<and> r = r5 \<and> w' = w5) \<or> (r5 = Inr () \<and> catch_io
           (save_db_post_revision c request session (edit_record rev uri now old new))
           (mark_db_failure (edit_record rev uri now old new) p) ret_io w5 = (r, w'))"
proof -
  note a = added_inert [OF inert_canonical_uri] added_inert [OF inert_read_or_empty]
    added_inert [OF inert_history(1)] added_inert [OF inert_basic(4)]
  from assms consider (uri) e where "canonical_request_uri_for_file c fileName w = (Inl e, w')" "r = Inl e"
    | (old) uri w1 e where "canonical_request_uri_for_file c fileName w = (Inr uri, w1)"
        "read_or_empty fileName w1 = (Inl e, w')" "r = Inl e"
    | (rev) uri w1 old w2 e where "canonical_request_uri_for_file c fileName w = (Inr uri, w1)"
        "read_or_empty fileName w1 = (Inr old, w2)" "next_revision c uri w2 = (Inl e, w')" "r = Inl e"
    | (rest) uri w1 old w2 rev w3 now w4 where "canonical_request_uri_for_file c fileName w = (Inr uri, w1)"
        "read_or_empty fileName w1 = (Inr old, w2)" "next_revision c uri w2 = (Inr rev, w3)"
        "time_now w3 = (Inr now, w4)"
        "bind_io (write_revision c (edit_record rev uri now old new)) (\<lambda>p.
           bind_io (atomic_write_file fileName new 420) (\<lambda>_.
           catch_io (save_db_post_revision c request session (edit_record rev uri now old new))
             (mark_db_failure (edit_record rev uri now old new) p) ret_io)) w4 = (r, w')"
    unfolding save_edited_file_def
    by (cases r) (auto simp: bind_io_Inl bind_io_Inr Let_def time_now_def)
  then show thesis
  proof cases
    case uri
    then show thesis using a(1) by (intro early) simp_all
  next
    case old
    then show thesis using added_trans [OF a(1) a(2)] by (intro early) simp_all
  next
    case rev
    then show thesis using added_trans [OF added_trans [OF a(1) a(2)] a(3)] by (intro early) simp_all
  next
    case rest
    let ?rec = "edit_record rev uri now old new"
    have w4: "added w w4"
      using added_trans [OF added_trans [OF added_trans [OF a(1) a(2)] a(3)] a(4)] rest(1-4) by blast
    obtain r5 w5 where wr: "write_revision c ?rec w4 = (r5, w5)" by (cases "write_revision c ?rec w4")
    show thesis
    proof (cases r5)
      case (Inl e)
      then show thesis
        using rest(5) wr added_trans [OF w4 conjunct1 [OF write_revision_run [OF wr]]]
        by (intro early) (auto simp: bind_io_def)
    next
      case (Inr p)
      obtain r6 w6 where pg: "atomic_write_file fileName new 420 w5 = (r6, w6)"
        by (cases "atomic_write_file fileName new 420 w5")
      show thesis
        using rest wr pg Inr w4 next_revision_int64 [OF rest(3)]
        by (intro late [of uri w1 old w2 rev w4 now p w5 r6 w6]) (auto simp: bind_io_def split: sum.splits)
    qed
  qed
qed

text \<open>The warning that the database has failed rewrites the file of the revision, and no other.\<close>

lemma mark_db_failure_run:
  assumes run: "catch_io (save_db_post_revision c request session record) (mark_db_failure record p) ret_io v = (r, w')"
    and p: "file_path p" and q: "kernel_path v False p = Inr q" "fs v q = Some (NFile m data)"
  shows "r = Inr () \<and> extends (fs v) (fs w') \<and> cwd w' = cwd v \<and> (\<forall>u n. fs v u = Some n \<longrightarrow> u \<noteq> q \<longrightarrow> fs w' u = Some n)
    \<and> kernel_path w' False p = Inr q \<and> (\<exists>m data'. fs w' q = Some (NFile m data') \<and> (data' = data \<or>
        (\<exists>warning. marshal_indent revision_codec (record\<lparr>Rev_DBRevisionWarning := warning\<rparr>) = Some data')))"
    (is "_ \<and> ?kept w'")
proof -
  have grown: "?kept v'" if "added v v'" for v'
    using added_extends [OF that] added_cwd [OF that] added_node [OF that] added_path [OF that q(1)] q(2) by auto
  obtain r1 v1 where db: "save_db_post_revision c request session record v = (r1, v1)"
    by (cases "save_db_post_revision c request session record v")
  have a: "added v v1" by (rule added_inert [OF inert_db_post(1) db])
  show ?thesis
  proof (cases r1)
    case (Inr u)
    with run db grown [OF a] show ?thesis by (simp add: catch_io_def ret_io_def)
  next
    case (Inl err)
    let ?warning = "''database post revision was not saved: '' @ error_text err v1"
    let ?rec = "record\<lparr>Rev_DBRevisionWarning := ?warning\<rparr>"
    from run db Inl obtain r2 where wr: "write_revision_at_path ?rec p v1 = (r2, w')" and r: "r = Inr ()"
      by (auto simp: catch_io_eq mark_db_failure_def ignoring_def ret_io_eq Let_def)
    show ?thesis
    proof (cases "marshal_indent revision_codec ?rec")
      case None
      then have "w' = v1"
        using wr by (simp add: write_revision_at_path_def save_json_def json_data_def fail_io_eq)
      then show ?thesis using grown [OF a] r by simp
    next
      case (Some data')
      then have aw: "atomic_write_file p data' 384 v1 = (r2, w')"
        using wr by (simp add: write_revision_at_path_def save_json_def json_data_def)
      have q1: "kernel_path v1 False p = Inr q" "fs v1 q = Some (NFile m data)"
        using added_path [OF a q(1)] added_node [OF a q(2)] q(2) by simp_all
      show ?thesis
        using p aw q1
      proof (cases rule: atomic_write_over)
        case undone
        then show ?thesis using grown [OF added_trans [OF a undone(1)]] r by simp
      next
        case (written F)
        have "extends (fs v1) (fs w')"
          using extends_trans [OF extends_dirs [OF written(1)] extends_put [of F q "NFile 384 data'"]]
            dirs_addedD [OF written(1) q1(2)] by (simp add: written(2))
        then have "extends (fs v) (fs w')" using added_extends [OF a] extends_trans by blast
        moreover have "fs w' u = Some n" if "fs v u = Some n" "u \<noteq> q" for u n
          using dirs_addedD [OF written(1) added_node [OF a that(1)]] that(2) by (simp add: written(2))
        moreover have "cwd w' = cwd v"
          using same_setting_cwd [OF keepsD [OF keeps_atomic_write aw]] added_cwd [OF a] by simp
        ultimately show ?thesis using written(2,4) Some r by auto
      qed
    qed
  qed
qed

lemma record_warning_irrelevant:
  "kept_revision (record\<lparr>Rev_DBRevisionWarning := x\<rparr>)
     = (kept_revision record)\<lparr>Rev_DBRevisionWarning := utf8_valid_form x\<rparr>"
  by (simp add: kept_revision_def)

text \<open>The record that a save of \<open>new\<close> over \<open>old\<close> leaves.\<close>

definition records_edit :: "string \<Rightarrow> string \<Rightarrow> string \<Rightarrow> revision_record \<Rightarrow> bool" where
  "records_edit uri old new record \<longleftrightarrow>
     Rev_RequestURI record = utf8_valid_form uri \<and> Rev_BeforeContent record = utf8_valid_form old
     \<and> Rev_AfterContent record = utf8_valid_form new"

lemma records_edit_kept:
  "records_edit uri old new ((kept_revision (edit_record k uri now old new))\<lparr>Rev_DBRevisionWarning := x\<rparr>)"
  "records_edit uri old new (kept_revision (edit_record k uri now old new))"
  by (simp_all add: records_edit_def kept_revision_def edit_record_def)

lemma edit_document:
  assumes "int64 k" "marshal_indent revision_codec (edit_record k uri now old new) = Some data
    \<or> (\<exists>x. marshal_indent revision_codec ((edit_record k uri now old new)\<lparr>Rev_DBRevisionWarning := x\<rparr>) = Some data)"
  shows "\<exists>record. unmarshal revision_codec data zero_revision = Some record \<and> records_edit uri old new record"
  using assms(2)
proof
  assume "marshal_indent revision_codec (edit_record k uri now old new) = Some data"
  from revision_document [OF _ this] assms(1) show ?thesis
    using records_edit_kept(2) by (simp add: edit_record_def)
next
  assume "\<exists>x. marshal_indent revision_codec ((edit_record k uri now old new)\<lparr>Rev_DBRevisionWarning := x\<rparr>) = Some data"
  then obtain x where x: "marshal_indent revision_codec ((edit_record k uri now old new)\<lparr>Rev_DBRevisionWarning := x\<rparr>) = Some data" ..
  have "int64 (Rev_Revision ((edit_record k uri now old new)\<lparr>Rev_DBRevisionWarning := x\<rparr>))"
    using assms(1) by (simp add: edit_record_def)
  from revision_document [OF this x] show ?thesis
    unfolding record_warning_irrelevant using records_edit_kept(1) by blast
qed

lemma revision_stored_at:
  assumes "int64 k" "proper name" "has_suffix name ''.json''" "fs w q = None"
    and "kernel_path v False (path_join [revision_dir c uri, name]) = Inr q" "fs v q = Some (NFile m data)"
    and "marshal_indent revision_codec (edit_record k uri now old new) = Some data
      \<or> (\<exists>x. marshal_indent revision_codec ((edit_record k uri now old new)\<lparr>Rev_DBRevisionWarning := x\<rparr>) = Some data)"
  shows "revision_stored c uri w v (records_edit uri old new)"
  using edit_document [OF assms(1,7)] assms(2-6) unfolding revision_stored_def by blast

text \<open>The file at \<open>q\<close> changes, the page does not.\<close>

lemma page_apart:
  assumes "extends (fs v) (fs v')" "cwd v' = cwd v" "\<And>u n. fs v u = Some n \<Longrightarrow> u \<noteq> q \<Longrightarrow> fs v' u = Some n"
    and "file_path p" "reads_as v p b" "no_link_named (path_base p) v" "last q \<noteq> path_base p"
  shows "reads_as v' p b"
proof -
  obtain u j where u: "kernel_path v True p = Inr u" "fs v u = Some (NFile j b)"
    using assms(5) by (auto simp: reads_as_def node_at_Inr)
  have "last u = path_base p" by (rule kernel_path_last_follow [OF assms(4) u(1) assms(6)])
  then have "u \<noteq> q" using assms(7) by auto
  then show ?thesis
    using kernel_path_extends [OF assms(1,2) u(1)] u(2) assms(3) [OF u(2)] by (auto simp: reads_as_def node_at_Inr)
qed

lemma others_kept_but:
  assumes "others_kept b w v" "fs w q = None" "\<And>u n. fs v u = Some n \<Longrightarrow> u \<noteq> q \<Longrightarrow> fs v' u = Some n"
  shows "others_kept b w v'"
  using assms unfolding others_kept_def by (metis option.distinct(1))

section \<open>Properties\<close>


section \<open>Witness\<close>

definition demo_session :: operator_session where
  "demo_session = \<lparr>Session_User = ''admin'', Session_Email = '''', Session_UserID = 1, AuthSource = ''env'',
     CSRFToken = ''token'', ExpiresAt = 0\<rparr>"

lemma demo_page: "reads_as demo_world ''/site/index.html'' ''home''"
  unfolding reads_as_def by (intro exI [of _ 420]) code_simp

lemma demo_page_name: "file_path ''/site/index.html'' \<and> path_base ''/site/index.html'' = ''index.html''
    \<and> \<not> has_suffix ''index.html'' ''.json''"
  by code_simp

lemma demo_page_no_link: "no_link_named ''index.html'' demo_world"
  by (auto simp: no_link_named_def fs_def demo_world_def split: if_splits)


end
