(* ===== verification/GoUrl.thy ===== *)
theory GoUrl
  imports SafePath
begin

text \<open>
  Package \<open>net/url\<close> of Go 1.19, as the server uses it: the values of a query and the parts of a URL.
\<close>

section \<open>Cutting\<close>

definition before :: "char \<Rightarrow> string \<Rightarrow> string" where
  "before d s = takeWhile (\<lambda>c. c \<noteq> d) s"

text \<open>\<open>strings.Cut\<close> at a byte; the second part is empty when the byte is missing.\<close>

definition cut_at :: "char \<Rightarrow> string \<Rightarrow> string \<times> string" where
  "cut_at d s = (before d s, drop (Suc (length (before d s))) s)"

text \<open>\<open>strings.LastIndex\<close> of a byte.\<close>

definition last_index :: "char \<Rightarrow> string \<Rightarrow> nat option" where
  "last_index d s = (if d \<in> set s then Some (length s - Suc (length (before d (rev s)))) else None)"

lemma cut_at_shorter: "s \<noteq> [] \<Longrightarrow> length (snd (cut_at d s)) < length s"
  by (cases s) (simp_all add: cut_at_def)

section \<open>Queries\<close>

definition query_unescape :: "string \<Rightarrow> string result" where
  "query_unescape s = path_unescape (map (\<lambda>c. if c = CHR ''+'' then CHR '' '' else c) s)"

text \<open>One setting: a wrong one is an error and skipped, an empty one is skipped.\<close>

definition query_setting :: "string \<Rightarrow> (string \<times> string) option result" where
  "query_setting setting =
     (if CHR '';'' \<in> set setting then Inl (ErrText ''invalid semicolon separator in query'')
      else if setting = '''' then Inr None
      else case cut_at (CHR ''='') setting of (key, value) \<Rightarrow>
        bind_result (query_unescape key) (\<lambda>key.
        bind_result (query_unescape value) (\<lambda>value. Inr (Some (key, value)))))"

text \<open>\<open>url.ParseQuery\<close>: the settings in order, and the first error.\<close>

function query_settings :: "string \<Rightarrow> (string \<times> string) list \<times> go_error option" where
  "query_settings q =
     (if q = '''' then ([], None)
      else case cut_at (CHR ''&'') q of (setting, rest) \<Rightarrow>
        (case (query_setting setting, query_settings rest) of
           (Inl err, (kvs, _)) \<Rightarrow> (kvs, Some err)
         | (Inr None, r) \<Rightarrow> r
         | (Inr (Some kv), (kvs, err)) \<Rightarrow> (kv # kvs, err)))"
  by pat_completeness auto
termination
  by (relation "measure length") (use cut_at_shorter in \<open>force simp: prod_eq_iff\<close>)+

declare query_settings.simps [simp del]

definition query_values :: "string \<Rightarrow> (string \<times> string) list \<Rightarrow> string list" where
  "query_values key kvs = map snd (filter (\<lambda>kv. fst kv = key) kvs)"

section \<open>URLs\<close>

record url =
  Url_Scheme :: string
  Url_Opaque :: string
  Url_User :: "(string \<times> string option) option"
  Url_Host :: string
  Url_Path :: string
  Url_RawPath :: string     \<comment> \<open>the path as it was written\<close>
  Url_RawQuery :: string
  Url_ForceQuery :: bool
  Url_Fragment :: string

definition ascii_letter :: "char \<Rightarrow> bool" where
  "ascii_letter c \<longleftrightarrow> (97 \<le> byte c \<and> byte c \<le> 122) \<or> (65 \<le> byte c \<and> byte c \<le> 90)"

definition scheme_char :: "char \<Rightarrow> bool" where
  "scheme_char c \<longleftrightarrow> ascii_letter c \<or> is_digit_byte c \<or> c \<in> set ''+-.''"

text \<open>The scheme, or none, and the rest.\<close>

definition get_scheme :: "string \<Rightarrow> (string \<times> string) result" where
  "get_scheme s =
     (let name = takeWhile scheme_char s; rest = drop (length name) s in
      if rest = '''' \<or> hd rest \<noteq> CHR '':'' then Inr ('''', s)
      else if name = '''' then Inl (ErrText ''missing protocol scheme'')
      else if \<not> ascii_letter (hd name) then Inr ('''', s)
      else Inr (name, tl rest))"

text \<open>The bytes that need no escape in a host.\<close>

definition host_char :: "char \<Rightarrow> bool" where
  "host_char c \<longleftrightarrow> byte c \<ge> 128 \<or> ascii_letter c \<or> is_digit_byte c
     \<or> c \<in> set ''!$&()*+,;=:[]<>-_.~'' \<or> c = CHR 0x22 \<or> c = CHR 0x27"

text \<open>
  \<open>unescape\<close> in the modes for hosts and zones: in a host only bytes above ASCII and the percent sign may be escaped, in
  a zone also what a host may have and the blank.
\<close>

fun host_unescape :: "bool \<Rightarrow> string \<Rightarrow> string result" where
  "host_unescape zone [] = Inr []"
| "host_unescape zone (c # cs) =
     (if c = CHR ''%'' then
        (case cs of
           a # b # rest \<Rightarrow>
             (case (hex_value a, hex_value b) of
                (Some x, Some y) \<Rightarrow>
                  if (if zone then \<not> (x = 2 \<and> y = 5) \<and> 16 * x + y \<noteq> 32 \<and> \<not> host_char (of_byte (16 * x + y))
                      else x < 8 \<and> \<not> (x = 2 \<and> y = 5))
                  then Inl (ErrText ''invalid URL escape'')
                  else bind_result (host_unescape zone rest) (\<lambda>r. Inr (of_byte (16 * x + y) # r))
              | _ \<Rightarrow> Inl (ErrText ''invalid URL escape''))
         | _ \<Rightarrow> Inl (ErrText ''invalid URL escape''))
      else if \<not> host_char c then Inl (ErrText ''invalid character in host name'')
      else bind_result (host_unescape zone cs) (\<lambda>r. Inr (c # r)))"

definition valid_optional_port :: "string \<Rightarrow> bool" where
  "valid_optional_port port \<longleftrightarrow> port = '''' \<or> (hd port = CHR '':'' \<and> list_all is_digit_byte (tl port))"

text \<open>Where \<open>%25\<close> starts.\<close>

fun zone_index :: "string \<Rightarrow> nat option" where
  "zone_index [] = None"
| "zone_index (c # cs) = (if has_prefix (c # cs) ''%25'' then Some 0 else map_option Suc (zone_index cs))"

definition parse_host :: "string \<Rightarrow> string result" where
  "parse_host host =
     (if has_prefix host ''['' then
        (case last_index (CHR '']'') host of
           None \<Rightarrow> Inl (ErrText ''missing ']' in host'')
         | Some i \<Rightarrow>
             if \<not> valid_optional_port (drop (Suc i) host) then Inl (ErrText ''invalid port after host'')
             else case zone_index (take i host) of
               None \<Rightarrow> host_unescape False host
             | Some z \<Rightarrow>
                 bind_result (host_unescape False (take z host)) (\<lambda>h1.
                 bind_result (host_unescape True (drop z (take i host))) (\<lambda>h2.
                 bind_result (host_unescape False (drop i host)) (\<lambda>h3. Inr (h1 @ h2 @ h3)))))
      else case last_index (CHR '':'') host of
        None \<Rightarrow> host_unescape False host
      | Some i \<Rightarrow>
          if \<not> valid_optional_port (drop i host) then Inl (ErrText ''invalid port after host'')
          else host_unescape False host)"

text \<open>\<open>validUserinfo\<close>; a rune above ASCII is not allowed.\<close>

definition valid_userinfo :: "string \<Rightarrow> bool" where
  "valid_userinfo s \<longleftrightarrow>
     list_all (\<lambda>c. ascii_letter c \<or> is_digit_byte c \<or> c \<in> set ''-._:~!$&()*+,;=%@'' \<or> c = CHR 0x27) s"

definition parse_userinfo :: "string \<Rightarrow> (string \<times> string option) result" where
  "parse_userinfo s =
     (if \<not> valid_userinfo s then Inl (ErrText ''net/url: invalid userinfo'')
      else if CHR '':'' \<notin> set s then bind_result (path_unescape s) (\<lambda>u. Inr (u, None))
      else case cut_at (CHR '':'') s of (name, password) \<Rightarrow>
        bind_result (path_unescape name) (\<lambda>u. bind_result (path_unescape password) (\<lambda>p. Inr (u, Some p))))"

definition parse_authority :: "string \<Rightarrow> ((string \<times> string option) option \<times> string) result" where
  "parse_authority authority =
     (case last_index (CHR ''@'') authority of
        None \<Rightarrow> bind_result (parse_host authority) (\<lambda>host. Inr (None, host))
      | Some i \<Rightarrow>
          bind_result (parse_host (drop (Suc i) authority)) (\<lambda>host.
          bind_result (parse_userinfo (take i authority)) (\<lambda>user. Inr (Some user, host))))"

definition control_byte :: "char \<Rightarrow> bool" where
  "control_byte c \<longleftrightarrow> byte c < 32 \<or> byte c = 127"

text \<open>The query of what follows the scheme; one question mark at the very end makes an empty one.\<close>

definition cut_query :: "string \<Rightarrow> string \<times> string \<times> bool" where
  "cut_query rest =
     (if has_suffix rest ''?'' \<and> CHR ''?'' \<notin> set (butlast rest) then (butlast rest, '''', True)
      else case cut_at (CHR ''?'') rest of (p, q) \<Rightarrow> (p, q, False))"

text \<open>The parts before the fragment.\<close>

definition parse_hierarchy :: "string \<Rightarrow> string \<Rightarrow> url result" where
  "parse_hierarchy scheme rest =
     (case cut_query rest of (rest, q, force) \<Rightarrow>
        let u = \<lparr>Url_Scheme = scheme, Url_Opaque = '''', Url_User = None, Url_Host = '''', Url_Path = '''',
                 Url_RawPath = '''', Url_RawQuery = q, Url_ForceQuery = force, Url_Fragment = ''''\<rparr> in
        if \<not> has_prefix rest ''/'' \<and> scheme \<noteq> '''' then Inr (u\<lparr>Url_Opaque := rest\<rparr>)
        else if \<not> has_prefix rest ''/'' \<and> CHR '':'' \<in> set (before (CHR ''/'') rest)
        then Inl (ErrText ''first path segment in URL cannot contain colon'')
        else
          let has_authority = (scheme \<noteq> '''' \<or> \<not> has_prefix rest ''///'') \<and> has_prefix rest ''//'';
              authority = (if has_authority then before (CHR ''/'') (drop 2 rest) else '''');
              rest = (if has_authority then drop (length authority + 2) rest else rest)
          in bind_result (if has_authority then parse_authority authority else Inr (None, '''')) (\<lambda>(user, host).
             bind_result (path_unescape rest) (\<lambda>p.
             Inr (u\<lparr>Url_User := user, Url_Host := host, Url_Path := p, Url_RawPath := rest\<rparr>))))"

text \<open>\<open>url.Parse\<close>.\<close>

definition parse_url :: "string \<Rightarrow> url result" where
  "parse_url rawURL =
     (case cut_at (CHR ''#'') rawURL of (u, frag) \<Rightarrow>
        bind_result
          (if list_ex control_byte u then Inl (ErrText ''net/url: invalid control character in URL'')
           else if u = ''*'' then
             Inr \<lparr>Url_Scheme = '''', Url_Opaque = '''', Url_User = None, Url_Host = '''', Url_Path = ''*'',
                 Url_RawPath = ''*'', Url_RawQuery = '''', Url_ForceQuery = False, Url_Fragment = ''''\<rparr>
           else bind_result (get_scheme u) (\<lambda>(scheme, rest). parse_hierarchy (to_lower scheme) rest))
          (\<lambda>parsed. bind_result (path_unescape frag) (\<lambda>f. Inr (parsed\<lparr>Url_Fragment := f\<rparr>))))"

text \<open>\<open>Hostname\<close>: the host without a port and without brackets.\<close>

definition url_hostname :: "url \<Rightarrow> string" where
  "url_hostname u =
     (let h = Url_Host u;
          h = (case last_index (CHR '':'') h of
                 Some i \<Rightarrow> if valid_optional_port (drop i h) then take i h else h
               | None \<Rightarrow> h)
      in if has_prefix h ''['' \<and> has_suffix h '']'' then butlast (tl h) else h)"

section \<open>What parsing leaves alone\<close>

text \<open>A target that begins with one slash has no scheme and no host.\<close>

lemma parse_url_rooted:
  assumes "has_prefix s ''/''" and "\<not> has_prefix s ''//''" and "parse_url s = Inr u"
  shows "Url_Scheme u = '''' \<and> Url_Host u = ''''"
proof -
  define v where "v = before (CHR ''#'') s"
  obtain t where s: "s = CHR ''/'' # t" using assms(1) by (cases s) (auto simp: has_prefix_def)
  then have v: "v = CHR ''/'' # before (CHR ''#'') t" by (simp add: v_def before_def)
  have v2: "\<not> has_prefix v ''//''"
    using assms(2) s v by (cases t) (auto simp: has_prefix_def before_def split: if_splits)
  have scheme: "get_scheme v = Inr ('''', v)"
    using v by (simp add: get_scheme_def scheme_char_def ascii_letter_def is_digit_byte_def byte_def)
  obtain p q f where cq: "cut_query v = (p, q, f)" by (cases "cut_query v") auto
  have p: "has_prefix v p"
    using cq unfolding cut_query_def cut_at_def before_def
    by (auto split: if_splits simp: has_prefix_def takeWhile_is_prefix butlast_conv_take take_is_prefix)
  then have p2: "\<not> has_prefix p ''//''" using v2 by (auto simp: has_prefix_def)
  show ?thesis
    using assms(3) p2 scheme v cq
    by (auto simp: parse_url_def cut_at_def v_def [symmetric] parse_hierarchy_def bind_result_def to_lower_def
        split: if_splits sum.splits)
qed

end
