(* ===== verification/PageInfo.thy ===== *)
theory PageInfo
  imports Revisions AuthStore GoUrl
begin

text \<open>
  The properties of a page (\<open>pkg/webserver/functions.go\<close>): its metadata file, its name, and the redirect that a
  renamed page leaves behind.
\<close>

section \<open>Metadata\<close>

definition default_metadata :: "string \<Rightarrow> page_metadata" where
  "default_metadata requestURI =
     \<lparr>Meta_Path = requestURI, Meta_Title = title_from_request_uri requestURI, Meta_Tags = '''', Meta_Status = ''active'',
      Meta_Published = True, Meta_UpdatedAt = zero_time\<rparr>"

text \<open>What is empty after loading gets its default.\<close>

definition fill_metadata :: "string \<Rightarrow> page_metadata \<Rightarrow> page_metadata" where
  "fill_metadata requestURI metadata =
     (let metadata = (if Meta_Path metadata = '''' then metadata\<lparr>Meta_Path := requestURI\<rparr> else metadata);
          metadata = (if Meta_Title metadata = '''' then metadata\<lparr>Meta_Title := title_from_request_uri requestURI\<rparr> else metadata)
      in if Meta_Status metadata = '''' then metadata\<lparr>Meta_Status := ''active''\<rparr> else metadata)"

definition load_sidecar_metadata :: "settings \<Rightarrow> string \<Rightarrow> page_metadata io" where
  "load_sidecar_metadata c requestURI =
     catch_io (os_read_file (metadata_path c requestURI))
       (\<lambda>err. if errors_is err OsErrNotExist then ret_io (default_metadata requestURI) else fail_io err)
       (\<lambda>data. case unmarshal page_metadata_codec data (default_metadata requestURI) of
          None \<Rightarrow> fail_io ErrJson
        | Some metadata \<Rightarrow> ret_io (fill_metadata requestURI metadata))"

text \<open>The latest row of the database wins over the file.\<close>

definition latest_metadata :: "post list \<Rightarrow> page_metadata \<Rightarrow> page_metadata" where
  "latest_metadata posts metadata =
     (if posts = [] then metadata
      else
        let latest = last posts;
            metadata = (if Post_Title latest \<noteq> '''' then metadata\<lparr>Meta_Title := Post_Title latest\<rparr> else metadata);
            metadata = metadata\<lparr>Meta_Tags := Post_Tags latest\<rparr>;
            metadata = (if Post_Status latest \<noteq> '''' then metadata\<lparr>Meta_Status := Post_Status latest\<rparr> else metadata)
        in metadata\<lparr>Meta_Published := Post_Published latest\<rparr>)"

definition load_page_metadata :: "settings \<Rightarrow> request \<Rightarrow> string \<Rightarrow> page_metadata io" where
  "load_page_metadata c request requestURI =
     bind_io (load_sidecar_metadata c requestURI) (\<lambda>metadata w.
     if \<not> db_post_revision_configured c then ret_io metadata w
     else case trusted_db_revision_domain w request of
       (domain, trusted) \<Rightarrow>
         bind_io (load_post_revisions_from_config c requestURI domain) (\<lambda>posts.
         ret_io (latest_metadata posts metadata)) w)"

definition write_page_metadata :: "settings \<Rightarrow> page_metadata \<Rightarrow> unit io" where
  "write_page_metadata c metadata =
     (let metadata = (if Meta_Status metadata = '''' then metadata\<lparr>Meta_Status := ''active''\<rparr> else metadata) in
      bind_io time_now (\<lambda>now.
      save_json (metadata_path c (Meta_Path metadata)) page_metadata_codec 384 (metadata\<lparr>Meta_UpdatedAt := now\<rparr>)))"

text \<open>\<open>os.Remove\<close> of a file that may be missing, then a sync of its directory.\<close>

definition remove_and_sync :: "string \<Rightarrow> unit io" where
  "remove_and_sync p =
     catch_io (os_remove p)
       (\<lambda>err. if \<not> errors_is err OsErrNotExist then fail_io err else sync_dir (path_dir p))
       (\<lambda>_. sync_dir (path_dir p))"

definition remove_page_metadata :: "settings \<Rightarrow> string \<Rightarrow> unit io" where
  "remove_page_metadata c requestURI = remove_and_sync (metadata_path c requestURI)"

section \<open>Renaming a page\<close>

text \<open>An error of the second step of a repair, with the text of both.\<close>

definition fail_twice :: "string \<Rightarrow> go_error \<Rightarrow> string \<Rightarrow> go_error \<Rightarrow> 'a io" where
  "fail_twice what err step err2 w = fail_io (WrapErr what err (step @ error_text err2 w)) w"

definition rollback_rename_after_sync_failure :: "string \<Rightarrow> string \<Rightarrow> go_error \<Rightarrow> unit io" where
  "rollback_rename_after_sync_failure currentAbs newAbs syncErr =
     catch_io (os_rename newAbs currentAbs) (fail_twice ''rename sync failed: '' syncErr ''; rollback failed: '') (\<lambda>_.
     catch_io (sync_dir (path_dir currentAbs)) (fail_twice ''rename sync failed: '' syncErr ''; rollback sync failed: '') (\<lambda>_.
     if path_dir currentAbs \<noteq> path_dir newAbs then
       catch_io (sync_dir (path_dir newAbs))
         (fail_twice ''rename sync failed: '' syncErr ''; rollback cleanup sync failed: '') (\<lambda>_. fail_io syncErr)
     else fail_io syncErr))"

definition sync_renamed :: "string \<Rightarrow> string \<Rightarrow> unit io" where
  "sync_renamed currentAbs newAbs =
     catch_io (sync_dir (path_dir newAbs)) (rollback_rename_after_sync_failure currentAbs newAbs) (\<lambda>_.
     if path_dir currentAbs \<noteq> path_dir newAbs then
       catch_io (sync_dir (path_dir currentAbs)) (rollback_rename_after_sync_failure currentAbs newAbs) ret_io
     else ret_io ())"

definition rename_static_file :: "settings \<Rightarrow> string \<Rightarrow> string \<Rightarrow> unit io" where
  "rename_static_file c currentFileName newFileName =
     bind_io (abs_io currentFileName) (\<lambda>currentAbs.
     bind_io (abs_io newFileName) (\<lambda>newAbs.
     if currentAbs = newAbs then ret_io ()
     else
     bind_io (unsafe_wrap (validate_existing_parent_symlink_safe (WEB_FILE_PATH c) newAbs)) (\<lambda>_.
     catch_io (os_stat newAbs)
       (\<lambda>err. if \<not> errors_is err OsErrNotExist then fail_io err
         else
           catch_io (os_stat currentAbs)
             (\<lambda>err. if errors_is err OsErrNotExist then ret_io () else fail_io err)
             (\<lambda>_.
               bind_io (os_mkdir_all (path_dir newAbs) 493) (\<lambda>_.
               bind_io (os_rename currentAbs newAbs) (\<lambda>_.
               sync_renamed currentAbs newAbs))))
       (\<lambda>_. fail_io OsErrExist))))"

section \<open>Redirects\<close>

definition load_redirects :: "settings \<Rightarrow> redirect slice io" where
  "load_redirects c = load_json (redirects_path c) redirects_codec None"

definition restore_redirects_file :: "string \<Rightarrow> string \<Rightarrow> bool \<Rightarrow> unit io" where
  "restore_redirects_file redirectsPath previousContent existed =
     (if existed then atomic_write_file redirectsPath previousContent 384 else remove_and_sync redirectsPath)"

text \<open>The redirect of the same page and domain is replaced, or the new one appended.\<close>

definition put_redirect :: "redirect \<Rightarrow> redirect slice \<Rightarrow> redirect slice" where
  "put_redirect redirect redirects =
     (case find_index (\<lambda>r. Redirect_OldUri r = Redirect_OldUri redirect \<and> Redirect_Domain r = Redirect_Domain redirect)
             (elems redirects) of
        Some i \<Rightarrow> Some ((elems redirects)[i := redirect])
      | None \<Rightarrow> append_slice redirects redirect)"

definition save_redirect :: "settings \<Rightarrow> redirect \<Rightarrow> unit io" where
  "save_redirect c redirect =
     (let redirectsPath = redirects_path c in
      bind_io (catch_io (os_read_file redirectsPath)
          (\<lambda>err. if errors_is err OsErrNotExist then ret_io ('''', False) else fail_io err)
          (\<lambda>content. ret_io (content, True))) (\<lambda>(previousContent, previousExisted).
      bind_io (load_redirects c) (\<lambda>redirects.
      bind_io (save_json redirectsPath redirects_codec 384 (put_redirect redirect redirects)) (\<lambda>_.
      if db_post_revision_configured c then
        catch_io (save_redirect_from_config c redirect)
          (\<lambda>err.
            catch_io (restore_redirects_file redirectsPath previousContent previousExisted)
              (fail_twice ''database redirect save failed: '' err ''; redirects rollback failed: '')
              (\<lambda>_. fail_io err))
          (\<lambda>_. ret_io ())
      else ret_io ()))))"

definition stored_redirect :: "settings \<Rightarrow> string \<Rightarrow> string \<Rightarrow> redirect option io" where
  "stored_redirect c oldURI domain =
     bind_io (load_redirects c) (\<lambda>redirects.
     ret_io (find_first (\<lambda>r. Redirect_OldUri r = oldURI \<and> Redirect_Domain r = domain \<and> Redirect_Status r = ''active'')
        (elems redirects)))"

definition find_redirect :: "settings \<Rightarrow> request \<Rightarrow> string \<Rightarrow> redirect option io" where
  "find_redirect c request oldURI w =
     (case trusted_db_revision_domain w request of
        (domain, trusted) \<Rightarrow>
          if db_post_revision_configured c then
            bind_io (load_redirect_from_config c oldURI domain) (\<lambda>r.
            case r of Some redirect \<Rightarrow> ret_io (Some redirect) | None \<Rightarrow> stored_redirect c oldURI domain) w
          else stored_redirect c oldURI domain w)"

definition plain_path_text :: "string \<Rightarrow> bool" where
  "plain_path_text s \<longleftrightarrow> \<not> contains s [CHR 0x5C] \<and> \<not> list_ex control_or_space (runes s)"

definition valid_internal_redirect_target :: "string \<Rightarrow> bool" where
  "valid_internal_redirect_target target =
     (if target = '''' \<or> \<not> has_prefix target ''/'' \<or> has_prefix target ''//'' then False
      else if \<not> plain_path_text target then False
      else case parse_url target of
        Inl _ \<Rightarrow> False
      | Inr parsed \<Rightarrow>
          if Url_Scheme parsed \<noteq> [] \<or> Url_Host parsed \<noteq> [] \<or> \<not> has_prefix (Url_Path parsed) ''/'' then False
          else case path_unescape (Url_Path parsed) of
            Inl _ \<Rightarrow> False
          | Inr unescapedPath \<Rightarrow>
              \<not> contains unescapedPath [CHR 0x5C] \<and> \<not> has_prefix unescapedPath ''//''
              \<and> \<not> list_ex control_or_space (runes unescapedPath)
              \<and> ''..'' \<notin> set (split_on (CHR ''/'') unescapedPath))"

section \<open>Updating the properties of a page\<close>

definition metadata_of_form :: "request \<Rightarrow> string \<Rightarrow> page_metadata" where
  "metadata_of_form request newURI =
     (let metadata =
        \<lparr>Meta_Path = newURI, Meta_Title = trim_space (Form_Value request ''title''),
         Meta_Tags = trim_space (Form_Value request ''tags''), Meta_Status = trim_space (Form_Value request ''status''),
         Meta_Published = Form_Value request ''published'' \<noteq> '''', Meta_UpdatedAt = zero_time\<rparr>;
          metadata = (if Meta_Title metadata = '''' then metadata\<lparr>Meta_Title := title_from_request_uri newURI\<rparr> else metadata)
      in if Meta_Status metadata = '''' then metadata\<lparr>Meta_Status := ''active''\<rparr> else metadata)"

definition requested_path :: "request \<Rightarrow> string \<Rightarrow> string" where
  "requested_path request currentURI =
     (let newPath = trim_space (Form_Value request ''new_path'');
          newPath = (if newPath = '''' then currentURI else newPath)
      in if \<not> has_prefix newPath ''/'' then ''/'' @ newPath else newPath)"

text \<open>After a failed rename and after a failed redirect.\<close>

definition drop_metadata :: "settings \<Rightarrow> string \<Rightarrow> string \<Rightarrow> go_error \<Rightarrow> 'a io" where
  "drop_metadata c newURI what err =
     catch_io (remove_page_metadata c newURI) (fail_twice what err ''; metadata cleanup failed: '') (\<lambda>_. fail_io err)"

definition undo_rename :: "settings \<Rightarrow> string \<Rightarrow> string \<Rightarrow> string \<Rightarrow> go_error \<Rightarrow> 'a io" where
  "undo_rename c currentFileName newFileName newURI err =
     catch_io (rename_static_file c newFileName currentFileName)
       (fail_twice ''save redirect failed after rename: '' err ''; rollback failed: '')
       (\<lambda>_. drop_metadata c newURI ''save redirect failed after metadata write: '' err)"

definition redirect_of_rename :: "string \<Rightarrow> string \<Rightarrow> time \<Rightarrow> string \<Rightarrow> redirect" where
  "redirect_of_rename currentURI newURI now domain =
     \<lparr>Redirect_Id = 0, Redirect_OldUri = currentURI, Redirect_NewUri = newURI, Redirect_Date = unix_milli now,
      Redirect_Status = ''active'', Redirect_Domain = domain\<rparr>"

definition save_rename_redirect :: "settings \<Rightarrow> request \<Rightarrow> string \<Rightarrow> string \<Rightarrow> unit io" where
  "save_rename_redirect c request currentURI newURI w =
     (case trusted_db_revision_domain w request of
        (domain, trusted) \<Rightarrow>
          bind_io time_now (\<lambda>now. save_redirect c (redirect_of_rename currentURI newURI now domain)) w)"

definition update_properties :: "settings \<Rightarrow> request \<Rightarrow> string \<Rightarrow> string io" where
  "update_properties c request currentFileName =
     bind_io (canonical_request_uri_for_file c currentFileName) (\<lambda>currentURI.
     bind_io (safe_writable_static_file_path c (requested_path request currentURI)) (\<lambda>newFileName.
     bind_io (canonical_request_uri_for_file c newFileName) (\<lambda>newURI.
     bind_io (write_page_metadata c (metadata_of_form request newURI)) (\<lambda>_.
     if newURI \<noteq> currentURI then
       catch_io (rename_static_file c currentFileName newFileName)
         (drop_metadata c newURI ''rename failed after metadata write: '') (\<lambda>_.
       catch_io (save_rename_redirect c request currentURI newURI)
         (undo_rename c currentFileName newFileName newURI) (\<lambda>_.
       ret_io newURI))
     else ret_io newURI))))"

end
