(* ===== verification/Tree.thy ===== *)
theory Tree
  imports DirRead AtomicFile
begin

text \<open>
  Directory trees: \<open>filepath.WalkDir\<close>, \<open>os.RemoveAll\<close>, \<open>os.MkdirTemp\<close> and the copying of files, as the
  snapshots and backups of \<open>pkg/webserver/functions.go\<close> use them (Go 1.19).
\<close>

section \<open>Depth\<close>

text \<open>
  No path of a world has more components than \<open>tree_depth\<close> of it. A walk goes one component down with every
  call, so this bounds its recursion.
\<close>

definition tree_depth :: "world \<Rightarrow> nat" where
  "tree_depth w = foldr (\<lambda>p n. max (length (fst p)) n) (files w) 0"

lemma tree_depth_bound: "fs w q \<noteq> None \<Longrightarrow> length q \<le> tree_depth w"
proof -
  have "q \<in> fst ` set xs \<Longrightarrow> length q \<le> foldr (\<lambda>p n. max (length (fst p)) n) xs 0" for xs :: "(path \<times> node) list"
    by (induction xs) (auto simp: le_max_iff_disj)
  moreover assume "fs w q \<noteq> None"
  ultimately show ?thesis using fs_keys by (auto simp: tree_depth_def)
qed

lemma tree_depth_same: "same_files w w' \<Longrightarrow> tree_depth w' = tree_depth w"
  by (simp add: tree_depth_def same_files_def)

section \<open>Walking\<close>

text \<open>\<open>fs.SkipDir\<close>, and the end of the fuel, which is an error of no Go function.\<close>

definition SkipDir :: go_error where
  "SkipDir = ErrText ''skip this directory''"

definition WalkTooDeep :: go_error where
  "WalkTooDeep = ErrText ''walk too deep''"

lemma walk_errors [simp]: "SkipDir \<noteq> WalkTooDeep" "SkipDir \<noteq> SysErr e" "WalkTooDeep \<noteq> SysErr e"
  by (simp_all add: SkipDir_def WalkTooDeep_def)

text \<open>
  A callback gets a path and its entry, or an error that the walk met there. What it collects in the variables of
  its function is a further argument and its result; a callback that returns an error has collected nothing.
\<close>

type_synonym 'a walk_fn = "string \<Rightarrow> go_error + node \<Rightarrow> 'a \<Rightarrow> 'a io"

text \<open>A directory that cannot be read is reported to the callback by a second call.\<close>

fun walk_dir :: "nat \<Rightarrow> 'a walk_fn \<Rightarrow> string \<Rightarrow> node \<Rightarrow> 'a \<Rightarrow> 'a io"
  and walk_entries :: "nat \<Rightarrow> 'a walk_fn \<Rightarrow> string \<Rightarrow> (string \<times> node) list \<Rightarrow> 'a \<Rightarrow> 'a io" where
  "walk_dir 0 visit p d acc = fail_io WalkTooDeep"
| "walk_dir (Suc fuel) visit p d acc =
     catch_io (visit p (Inr d) acc) (\<lambda>err. if err = SkipDir \<and> is_dir d then ret_io acc else fail_io err) (\<lambda>acc.
     if \<not> is_dir d then ret_io acc
     else catch_io (os_read_dir p) (\<lambda>err. visit p (Inl err) acc) (\<lambda>entries. walk_entries fuel visit p entries acc))"
| "walk_entries fuel visit p [] acc = ret_io acc"
| "walk_entries fuel visit p ((name, d) # entries) acc =
     catch_io (walk_dir fuel visit (path_join [p, name]) d acc)
       (\<lambda>err. if err = SkipDir then ret_io acc else fail_io err)
       (\<lambda>acc. walk_entries fuel visit p entries acc)"

definition walk_tree :: "string \<Rightarrow> 'a walk_fn \<Rightarrow> 'a \<Rightarrow> 'a io" where
  "walk_tree root visit acc w =
     catch_io
       (catch_io (os_lstat root) (\<lambda>err. visit root (Inl err) acc)
          (\<lambda>d. walk_dir (Suc (tree_depth w)) visit root d acc))
       (\<lambda>err. if err = SkipDir then ret_io acc else fail_io err) ret_io w"

section \<open>Removing a tree\<close>

definition unlink_at :: "path \<Rightarrow> unit io" where
  "unlink_at q = sys_call (\<lambda>w.
     case fs w q of
       None \<Rightarrow> (Inl (SysErr ENOENT), w)
     | Some (NDir _) \<Rightarrow> (Inl (SysErr EISDIR), w)
     | Some _ \<Rightarrow> (Inr (), drop_node q w))"

definition rmdir_at :: "path \<Rightarrow> unit io" where
  "rmdir_at q = sys_call (\<lambda>w.
     case fs w q of
       None \<Rightarrow> (Inl (SysErr ENOENT), w)
     | Some (NDir _) \<Rightarrow> if empty_dir w q then (Inr (), drop_node q w) else (Inl (SysErr ENOTEMPTY), w)
     | Some _ \<Rightarrow> (Inl (SysErr ENOTDIR), w))"

definition stat_at :: "path \<Rightarrow> node io" where
  "stat_at q = sys_call (\<lambda>w. case fs w q of None \<Rightarrow> (Inl (SysErr ENOENT), w) | Some n \<Rightarrow> (Inr n, w))"

text \<open>\<open>if err == nil || IsNotExist(err) { return nil }\<close>.\<close>

definition missing_ok :: "unit io \<Rightarrow> (go_error \<Rightarrow> unit io) \<Rightarrow> unit io" where
  "missing_ok m h = catch_io m (\<lambda>err. if errors_is err OsErrNotExist then ret_io () else h err) ret_io"

text \<open>
  \<open>removeAllFrom\<close>: a directory's entries are removed, as many as can be, and then it; the first error of an entry is
  reported when the directory stays.
\<close>

fun remove_all_from :: "nat \<Rightarrow> path \<Rightarrow> unit io"
  and remove_entries :: "nat \<Rightarrow> path \<Rightarrow> go_error option \<Rightarrow> (string \<times> node) list \<Rightarrow> go_error option io" where
  "remove_all_from 0 q = fail_io WalkTooDeep"
| "remove_all_from (Suc fuel) q =
     missing_ok (unlink_at q) (\<lambda>err.
       if err \<noteq> SysErr EISDIR \<and> err \<noteq> SysErr EACCES \<and> err \<noteq> SysErr (EOTHER ''EPERM'') then fail_io err
       else catch_io (stat_at q) (\<lambda>err. if errors_is err OsErrNotExist then ret_io () else fail_io err) (\<lambda>n.
       if \<not> is_dir n then fail_io err
       else
       missing_ok
         (bind_io (read_entries q) (\<lambda>entries.
          bind_io (remove_entries fuel q None entries) (\<lambda>recurseErr.
          missing_ok (rmdir_at q) (\<lambda>unlinkError. fail_io (case recurseErr of None \<Rightarrow> unlinkError | Some err \<Rightarrow> err)))))
         fail_io))"
| "remove_entries fuel q recurseErr [] = ret_io recurseErr"
| "remove_entries fuel q recurseErr ((name, n) # entries) =
     catch_io (remove_all_from fuel (q @ [name]))
       (\<lambda>err. remove_entries fuel q (if recurseErr = None then Some err else recurseErr) entries)
       (\<lambda>_. remove_entries fuel q recurseErr entries)"

text \<open>\<open>os.RemoveAll\<close> of a cleaned path that ends in a name.\<close>

definition os_remove_all :: "string \<Rightarrow> unit io" where
  "os_remove_all p w =
     (if p = '''' then ret_io ()
      else
      missing_ok (os_remove p) (\<lambda>_.
      missing_ok (bind_io (os_open (path_dir p)) (\<lambda>parent.
        catch_io (remove_all_from (Suc (tree_depth w)) (parent @ [path_base p]))
          (\<lambda>err. ignoring (file_close parent) (fail_io err))
          (\<lambda>_. ignoring (file_close parent) (ret_io ())))) fail_io)) w"

section \<open>Temporary directories\<close>

fun mkdir_temp_try :: "nat \<Rightarrow> string \<Rightarrow> string \<Rightarrow> string \<Rightarrow> string io" where
  "mkdir_temp_try n dir pre suf =
     bind_io next_random (\<lambda>r.
       let name = pre @ r @ suf in
       catch_io (os_mkdir name 448)
         (\<lambda>err. if errors_is err OsErrExist then
                  (case n of 0 \<Rightarrow> fail_io (WrapErr ''mkdirtemp: '' OsErrExist '''') | Suc m \<Rightarrow> mkdir_temp_try m dir pre suf)
                else if errors_is err OsErrNotExist then
                  catch_io (os_stat dir) (\<lambda>err2. fail_io (if errors_is err2 OsErrNotExist then err2 else err)) (\<lambda>_. fail_io err)
                else fail_io err)
         (\<lambda>_. ret_io name))"

declare mkdir_temp_try.simps [simp del]

text \<open>\<open>MkdirTemp(dir, "prefix*suffix")\<close> for a non-empty directory and a pattern without a slash.\<close>

definition os_mkdir_temp :: "string \<Rightarrow> string \<Rightarrow> string \<Rightarrow> string io" where
  "os_mkdir_temp dir pre suf =
     mkdir_temp_try 9999 dir ((if has_suffix dir ''/'' then dir else dir @ ''/'') @ pre) suf"

section \<open>Open files\<close>

text \<open>\<open>os.Lstat\<close> with the identity of the file, for \<open>os.SameFile\<close>.\<close>

definition lstat_id :: "string \<Rightarrow> (path \<times> node) io" where
  "lstat_id p = sys_call (\<lambda>w.
     case kernel_path w False p of
       Inl e \<Rightarrow> (Inl (SysErr e), w)
     | Inr q \<Rightarrow> (case fs w q of None \<Rightarrow> (Inl (SysErr ENOENT), w) | Some n \<Rightarrow> (Inr (q, n), w)))"

text \<open>\<open>open(name, O_CREATE|O_WRONLY|O_TRUNC, perm)\<close>, which follows links.\<close>

definition open_trunc :: "string \<Rightarrow> nat \<Rightarrow> path io" where
  "open_trunc p perm = sys_call (\<lambda>w.
     case kernel_path w True p of
       Inl e \<Rightarrow> (Inl (SysErr e), w)
     | Inr q \<Rightarrow>
         (case fs w q of
            None \<Rightarrow> (Inr q, put_node q (NFile (masked perm w) '''') w)
          | Some (NFile m b) \<Rightarrow> (Inr q, put_node q (NFile m '''') w)
          | Some (NDir m) \<Rightarrow> (Inl (SysErr EISDIR), w)
          | Some (NLink t) \<Rightarrow> (Inl (SysErr ELOOP), w)))"

text \<open>All of an open file.\<close>

definition file_read :: "path \<Rightarrow> string io" where
  "file_read q = sys_call (\<lambda>w.
     case fs w q of
       Some (NFile m b) \<Rightarrow> (Inr b, w)
     | Some (NDir m) \<Rightarrow> (Inl (SysErr EISDIR), w)
     | _ \<Rightarrow> (Inr '''', w))"

text \<open>\<open>io.Copy\<close>: a copy that breaks off leaves a prefix (\<open>file_write\<close>).\<close>

definition io_copy :: "path \<Rightarrow> path \<Rightarrow> unit io" where
  "io_copy target source = bind_io (file_read source) (file_write target)"

text \<open>\<open>defer m()\<close>, then the rest \<open>k\<close> of the function; the error of \<open>m\<close> is dropped.\<close>

definition defer_io :: "'b io \<Rightarrow> 'a io \<Rightarrow> 'a io" where
  "defer_io m k = catch_io k (\<lambda>err. ignoring m (fail_io err)) (\<lambda>v. ignoring m (ret_io v))"

definition is_regular :: "node \<Rightarrow> bool" where
  "is_regular n = (case n of NFile _ _ \<Rightarrow> True | _ \<Rightarrow> False)"

definition is_symlink :: "node \<Rightarrow> bool" where
  "is_symlink n = (case n of NLink _ \<Rightarrow> True | _ \<Rightarrow> False)"

definition file_mode :: "node \<Rightarrow> nat" where
  "file_mode n = (case n of NFile m _ \<Rightarrow> m | NDir m \<Rightarrow> m | NLink _ \<Rightarrow> 511)"

lemma node_kind_simps [simp]:
  "is_regular (NFile m b)" "\<not> is_regular (NDir m)" "\<not> is_regular (NLink t)"
  "is_symlink (NLink t)" "\<not> is_symlink (NDir m)" "\<not> is_symlink (NFile m b)"
  by (simp_all add: is_regular_def is_symlink_def)

end
