(* ===== verification/Snapshot.thy ===== *)
theory Snapshot
  imports Tree SiteRows SafePath Http Hosts
begin

text \<open>
  Freezing a site (\<open>pkg/webserver/functions.go\<close>): the state file, the published snapshot that anonymous visitors
  see while the site is frozen, and the copy of the site that makes it.
\<close>

section \<open>The state of the site\<close>

definition load_site_state :: "settings \<Rightarrow> site_state io" where
  "load_site_state c = load_json (state_path c) site_state_codec zero_site_state"

definition write_site_state :: "settings \<Rightarrow> site_state \<Rightarrow> unit io" where
  "write_site_state c state = save_json (state_path c) site_state_codec 384 state"

section \<open>What an anonymous visitor gets of a frozen site\<close>

text \<open>Nothing for an operator and while the site is not frozen; an error counts as not frozen.\<close>

definition frozen_for :: "settings \<Rightarrow> request \<Rightarrow> (string option srv) \<Rightarrow> string option srv" where
  "frozen_for c request body =
     bind_srv (session_get request) (\<lambda>r. case r of
       Some session \<Rightarrow> ret_srv None
     | None \<Rightarrow>
         try_srv (load_site_state c) (\<lambda>_. ret_srv None)
           (\<lambda>state. if \<not> Frozen state then ret_srv None else body))"

definition snapshot_file_for_anonymous_request :: "settings \<Rightarrow> request \<Rightarrow> string option srv" where
  "snapshot_file_for_anonymous_request c request =
     frozen_for c request (
       try_srv (safe_path_under_root (published_root c) (URL_Path request) (WEB_INDEX_FILE c) True)
         (\<lambda>_. ret_srv None) (\<lambda>fileName. ret_srv (Some fileName)))"

definition snapshot_media_file_for_anonymous_request :: "settings \<Rightarrow> request \<Rightarrow> string \<Rightarrow> string option srv" where
  "snapshot_media_file_for_anonymous_request c request mediaPath =
     frozen_for c request (
       case canonical_host_from_request request of
         Inl _ \<Rightarrow> ret_srv None
       | Inr host \<Rightarrow>
           try_srv (safe_path_under_root (published_media_root c host) mediaPath '''' False)
             (\<lambda>_. ret_srv None) (\<lambda>fileName. ret_srv (Some fileName)))"

section \<open>Copying\<close>

text \<open>From the opened source on.\<close>

definition copy_opened :: "path \<Rightarrow> node \<Rightarrow> path \<Rightarrow> string \<Rightarrow> unit io" where
  "copy_opened sourceId info source targetPath =
     bind_io (stat_at source) (\<lambda>openedInfo.
     if \<not> is_regular openedInfo \<or> sourceId \<noteq> source then fail_io ErrUnsafePath
     else
     bind_io (open_trunc targetPath (file_mode info)) (\<lambda>target.
     catch_io (io_copy target source) (\<lambda>err. ignoring (file_close target) (fail_io err)) (\<lambda>_.
     file_close target)))"

definition copy_regular_file :: "string \<Rightarrow> string \<Rightarrow> unit io" where
  "copy_regular_file sourcePath targetPath =
     bind_io (lstat_id sourcePath) (\<lambda>(sourceId, info).
     if is_symlink info then ret_io ()
     else if \<not> is_regular info then ret_io ()
     else
     bind_io (os_mkdir_all (path_dir targetPath) 493) (\<lambda>_.
     bind_io (os_open sourcePath) (\<lambda>source.
     defer_io (file_close source) (copy_opened sourceId info source targetPath))))"

text \<open>The callback of \<open>copyDirectoryContents\<close>; links are left out.\<close>

definition copy_entry :: "string \<Rightarrow> string \<Rightarrow> unit walk_fn" where
  "copy_entry rootPath targetRoot p d acc =
     (case d of
        Inl walkErr \<Rightarrow> fail_io walkErr
      | Inr entry \<Rightarrow>
          bind_io (abs_io p) (\<lambda>absolutePath.
          if \<not> path_is_inside_root rootPath absolutePath then fail_io ErrUnsafePath
          else
          bind_io (lift_io (filepath_rel rootPath absolutePath)) (\<lambda>relativePath.
          if relativePath = ''.'' then ret_io ()
          else
            let targetPath = path_join [targetRoot, relativePath] in
            if is_symlink entry then ret_io ()
            else if is_dir entry then os_mkdir_all targetPath 493
            else copy_regular_file absolutePath targetPath)))"

definition copy_directory_contents :: "string \<Rightarrow> string \<Rightarrow> unit io" where
  "copy_directory_contents sourceRoot targetRoot =
     bind_io (abs_io sourceRoot) (\<lambda>rootPath.
     bind_io (catch_io (eval_symlinks rootPath) (\<lambda>_. ret_io rootPath) ret_io) (\<lambda>rootPath.
     bind_io (abs_io targetRoot) (\<lambda>targetRoot.
     walk_tree rootPath (copy_entry rootPath targetRoot) ())))"

definition copy_domain_media :: "string \<Rightarrow> string \<Rightarrow> string \<times> node \<Rightarrow> unit io" where
  "copy_domain_media domainsRoot targetPublishedRoot entry =
     (case entry of (name, d) \<Rightarrow>
        if \<not> is_dir d \<or> contains name ''/'' then ret_io ()
        else
          let sourceMediaRoot = path_join [domainsRoot, name, ''media''] in
          catch_io (os_stat sourceMediaRoot)
            (\<lambda>err. if errors_is err OsErrNotExist then ret_io () else fail_io err)
            (\<lambda>_. copy_directory_contents sourceMediaRoot
                   (path_join [targetPublishedRoot, ''.sitebrush-media'', ''domains'', name, ''media''])))"

definition copy_published_media_snapshots :: "settings \<Rightarrow> string \<Rightarrow> unit io" where
  "copy_published_media_snapshots c targetPublishedRoot =
     (let domainsRoot = path_join [archive_root c, ''domains''] in
      catch_io (os_read_dir domainsRoot)
        (\<lambda>err. if errors_is err OsErrNotExist then ret_io () else fail_io err)
        (\<lambda>entries. bind_io (each_io (copy_domain_media domainsRoot targetPublishedRoot) entries) (\<lambda>_. ret_io ())))"

section \<open>Publishing\<close>

text \<open>The swap of the new snapshot for the old one.\<close>

definition swap_published :: "string \<Rightarrow> string \<Rightarrow> unit io" where
  "swap_published tmpRoot publishedRoot =
     (let oldRoot = publishedRoot @ ''.old'' in
      ignoring (os_remove_all oldRoot) (
      bind_io (catch_io (os_rename publishedRoot oldRoot)
         (\<lambda>err. if \<not> errors_is err OsErrNotExist then fail_io err else ret_io ()) ret_io) (\<lambda>_.
      catch_io (os_rename tmpRoot publishedRoot)
        (\<lambda>err. catch_io (os_rename oldRoot publishedRoot)
           (\<lambda>restoreErr w. if \<not> errors_is restoreErr OsErrNotExist
              then fail_io (WrapErr ''publish snapshot failed: '' err (''; restore failed: '' @ error_text restoreErr w)) w
              else fail_io err w)
           (\<lambda>_. fail_io err))
        ret_io)))"

definition publish_snapshot :: "settings \<Rightarrow> unit io" where
  "publish_snapshot c =
     bind_io (abs_io (WEB_FILE_PATH c)) (\<lambda>rootPath.
     bind_io (abs_io (published_root c)) (\<lambda>publishedRoot.
     if path_is_inside_root rootPath publishedRoot
     then fail_io (ErrText ''published snapshot destination cannot be inside web root'')
     else
     bind_io (os_mkdir_all (path_dir publishedRoot) 493) (\<lambda>_.
     bind_io (os_mkdir_temp (path_dir publishedRoot) ''.published-'' '''') (\<lambda>tmpRoot.
     catch_io
       (bind_io (copy_directory_contents rootPath tmpRoot) (\<lambda>_.
        bind_io (copy_published_media_snapshots c tmpRoot) (\<lambda>_.
        swap_published tmpRoot publishedRoot)))
       (\<lambda>err. ignoring (os_remove_all tmpRoot) (fail_io err))
       (\<lambda>_.
         bind_io (sync_dir (path_dir publishedRoot)) (\<lambda>_.
         os_remove_all (publishedRoot @ ''.old'')))))))"

end
