(* ===== verification/Subpages.thy ===== *)
theory Subpages
  imports Tree PageInfo
begin

text \<open>
  The pages of a site (\<open>pkg/webserver/functions.go\<close>): listing them, the pages below a page, and creating one.
\<close>

section \<open>Lists of pages\<close>

text \<open>The callback of both lists: what is no regular HTML file is passed over.\<close>

definition page_entry :: "string \<Rightarrow> go_error \<Rightarrow> (string \<Rightarrow> string list \<Rightarrow> string list io) \<Rightarrow> string list walk_fn" where
  "page_entry rootPath unsafe collect p d pages =
     (case d of
        Inl walkErr \<Rightarrow> fail_io walkErr
      | Inr entry \<Rightarrow>
          if is_dir entry \<or> is_symlink entry then ret_io pages
          else if path_ext (path_base p) \<noteq> ''.html'' then ret_io pages
          else
            bind_io (abs_io p) (\<lambda>absolutePath.
            if \<not> path_is_inside_root rootPath absolutePath then fail_io unsafe
            else collect absolutePath pages))"

definition sort_strings :: "string list \<Rightarrow> string list" where
  "sort_strings = sort_key (map byte)"

definition list_static_pages :: "settings \<Rightarrow> string list io" where
  "list_static_pages c =
     bind_io (abs_io (WEB_FILE_PATH c)) (\<lambda>rootPath.
     bind_io (walk_tree rootPath (page_entry rootPath (ErrText ''unsafe subpage path'') (\<lambda>absolutePath pages.
        bind_io (lift_io (filepath_rel rootPath absolutePath)) (\<lambda>relativePath.
        ret_io (pages @ [''/'' @ relativePath])))) []) (\<lambda>pages.
     ret_io (sort_strings pages)))"

definition subpage_prefix :: "string \<Rightarrow> string" where
  "subpage_prefix currentURI =
     (if currentURI = '''' \<or> currentURI = ''/'' then ''/''
      else if has_suffix currentURI ''/'' then currentURI
      else
        let ext = path_ext currentURI in
        if ext \<noteq> '''' then trim_suffix currentURI ext @ ''/''
        else trim_right_bytes currentURI ''/'' @ ''/'')"

definition list_static_pages_under :: "settings \<Rightarrow> string \<Rightarrow> string list io" where
  "list_static_pages_under c currentURI =
     bind_io (abs_io (WEB_FILE_PATH c)) (\<lambda>rootPath.
     bind_io (walk_tree rootPath (page_entry rootPath ErrUnsafePath (\<lambda>absolutePath pages.
        bind_io (canonical_request_uri_for_file c absolutePath) (\<lambda>uri.
        ret_io (if uri \<noteq> currentURI \<and> has_prefix uri (subpage_prefix currentURI) then pages @ [uri] else pages)))) [])
     (\<lambda>pages. ret_io (sort_strings pages)))"

section \<open>Creating a page\<close>

text \<open>\<open>template.HTMLEscapeString\<close>.\<close>

definition html_escape_byte :: "char \<Rightarrow> string" where
  "html_escape_byte ch =
     (if ch = CHR 0x00 then [of_byte 0xEF, of_byte 0xBF, of_byte 0xBD]
      else if ch = CHR 0x22 then ''&#34;''
      else if ch = CHR 0x27 then ''&#39;''
      else if ch = CHR ''&'' then ''&amp;''
      else if ch = CHR ''<'' then ''&lt;''
      else if ch = CHR ''>'' then ''&gt;''
      else [ch])"

definition html_escape :: "string \<Rightarrow> string" where
  "html_escape s = concat (map html_escape_byte s)"

definition contains_path_traversal_segment :: "string \<Rightarrow> bool" where
  "contains_path_traversal_segment p =
     (case path_unescape p of
        Inl _ \<Rightarrow> True
      | Inr unescapedPath \<Rightarrow> ''..'' \<in> set (split_on (CHR ''/'') unescapedPath))"

text \<open>The path that the form asks for, below the current page when it is relative.\<close>

definition subpage_request :: "settings \<Rightarrow> string \<Rightarrow> string \<Rightarrow> string io" where
  "subpage_request c currentFileName requestedPath =
     (let requestedPath = (if \<not> has_suffix requestedPath ''.html'' \<and> \<not> has_suffix requestedPath ''/''
                           then requestedPath @ ''.html'' else requestedPath) in
      if \<not> has_prefix requestedPath ''/'' then
        bind_io (canonical_request_uri_for_file c currentFileName) (\<lambda>currentURI.
          let requestedPath = path_join [subpage_prefix currentURI, requestedPath] in
          ret_io (if \<not> has_prefix requestedPath ''/'' then ''/'' @ requestedPath else requestedPath))
      else ret_io requestedPath)"

definition subpage_body :: "string \<Rightarrow> string" where
  "subpage_body title =
     ''<!doctype html>'' @ [CHR 0x0A] @ ''<html><head><meta charset='' @ [CHR 0x22] @ ''utf-8'' @ [CHR 0x22] @ ''><title>''
     @ html_escape title @ ''</title></head><body><h1>'' @ html_escape title @ ''</h1></body></html>'' @ [CHR 0x0A]"

definition create_subpage :: "settings \<Rightarrow> string \<Rightarrow> string \<Rightarrow> string \<Rightarrow> unit io" where
  "create_subpage c currentFileName requestedPath title =
     (let requestedPath = trim_space requestedPath in
      if requestedPath = '''' then fail_io ErrUnsafePath
      else if contains_path_traversal_segment requestedPath then fail_io ErrUnsafePath
      else
      bind_io (subpage_request c currentFileName requestedPath) (\<lambda>requestedPath.
      bind_io (safe_writable_static_file_path c requestedPath) (\<lambda>fileName.
      catch_io (os_stat fileName)
        (\<lambda>err. if \<not> errors_is err OsErrNotExist then fail_io err
          else
          bind_io (if trim_space title = '''' then
                     bind_io (canonical_request_uri_for_file c fileName) (\<lambda>uri. ret_io (title_from_request_uri uri))
                   else ret_io (trim_space title)) (\<lambda>title.
          atomic_write_file fileName (subpage_body title) 420))
        (\<lambda>_. fail_io OsErrExist))))"

end
