(* ===== verification/Backup.thy ===== *)
theory Backup
  imports Tree Revisions Database
begin

text \<open>
  Backups (\<open>pkg/webserver/functions.go\<close>): a ZIP archive of the site and of the archive's own data, without the users
  and the page histories, in a directory outside of the site.
\<close>

section \<open>ZIP archives\<close>

text \<open>
  A member of an archive that is read: its name, what its \<open>FileInfo\<close> says, and its content or the error of reading
  it. The format is that of package \<open>archive/zip\<close>, given as two functions: the bytes of an archive that
  \<open>Create\<close> and \<open>Write\<close> have made of names and contents, and the members of an archive. What is left of one that
  is given up halfway is removed with its file.
\<close>

record zip_file =
  Zip_Name :: string
  Zip_Dir :: bool
  Zip_Symlink :: bool
  Zip_Mode :: nat
  Zip_Content :: "string result"

type_synonym zip_members = "(string \<times> string) list"

record zip_format =
  Zip_Pack :: "zip_members \<Rightarrow> string"
  Zip_Unpack :: "string \<Rightarrow> zip_file list option"
  Zip_Broken :: string

text \<open>
  \<open>Create\<close> sets no mode, so a member comes back as a file that everybody may read and write; a name that ends with a
  slash is a directory.
\<close>

definition zip_member :: "string \<times> string \<Rightarrow> zip_file" where
  "zip_member m =
     \<lparr>Zip_Name = fst m, Zip_Dir = has_suffix (fst m) ''/'', Zip_Symlink = False, Zip_Mode = 438, Zip_Content = Inr (snd m)\<rparr>"

definition zip_faithful :: "zip_format \<Rightarrow> bool" where
  "zip_faithful z \<longleftrightarrow> (\<forall>ms. Zip_Unpack z (Zip_Pack z ms) = Some (map zip_member ms))"

section \<open>Rows\<close>

record backup_record =
  Rec_Path :: string
  Rec_Checksum :: string
  Rec_Size :: int
  Rec_CreatedAt :: time

definition backup_record_codec :: "backup_record codec" where
  "backup_record_codec = struct_codec
    [field ''path'' Rec_Path Rec_Path_update string_codec,
     field ''checksum'' Rec_Checksum Rec_Checksum_update string_codec,
     field ''size'' Rec_Size Rec_Size_update int_codec,
     field ''created_at'' Rec_CreatedAt Rec_CreatedAt_update time_codec]"

text \<open>The manifest, a map, whose keys are written in order.\<close>

definition backup_manifest :: "time \<Rightarrow> json option" where
  "backup_manifest created_at =
     map_option (\<lambda>t. JObj
       [(''archive_prefix'', JStr ''archive/''), (''auth_users_included'', JBool False), (''created_at'', JStr t),
        (''database_restore'', JStr ''deferred''), (''format'', JStr ''sitebrush-v2-foundation''),
        (''web_prefix'', JStr ''web/'')]) (marshal_time created_at)"

section \<open>Filling the archive\<close>

definition add_json_to_zip :: "string \<Rightarrow> json option \<Rightarrow> zip_members \<Rightarrow> zip_members io" where
  "add_json_to_zip name v ms =
     (case v of None \<Rightarrow> fail_io ErrJson | Some j \<Rightarrow> ret_io (ms @ [(name, json_print indented 0 j)]))"

definition add_file_to_zip :: "string \<Rightarrow> string \<Rightarrow> zip_members \<Rightarrow> zip_members io" where
  "add_file_to_zip sourcePath archivePath ms =
     bind_io (os_open sourcePath) (\<lambda>source.
     defer_io (file_close source) (
       bind_io (file_read source) (\<lambda>content. ret_io (ms @ [(archivePath, content)]))))"

text \<open>Both \<open>...IfExists\<close> functions.\<close>

definition if_exists :: "string \<Rightarrow> zip_members io \<Rightarrow> zip_members \<Rightarrow> zip_members io" where
  "if_exists p add ms =
     catch_io (os_stat p) (\<lambda>err. if errors_is err OsErrNotExist then ret_io ms else fail_io err) (\<lambda>_. add)"

definition add_file_to_zip_if_exists :: "string \<Rightarrow> string \<Rightarrow> zip_members \<Rightarrow> zip_members io" where
  "add_file_to_zip_if_exists sourcePath archivePath ms =
     if_exists sourcePath (add_file_to_zip sourcePath archivePath ms) ms"

definition zip_entry :: "string \<Rightarrow> string \<Rightarrow> zip_members walk_fn" where
  "zip_entry rootPath archivePrefix p d ms =
     (case d of
        Inl walkErr \<Rightarrow> fail_io walkErr
      | Inr entry \<Rightarrow>
          if is_dir entry then ret_io ms
          else if is_symlink entry then ret_io ms
          else
            bind_io (abs_io p) (\<lambda>absolutePath.
            if \<not> path_is_inside_root rootPath absolutePath then fail_io (ErrText ''unsafe backup path'')
            else
            bind_io (lift_io (filepath_rel rootPath absolutePath)) (\<lambda>relativePath.
            add_file_to_zip absolutePath (path_join [archivePrefix, relativePath]) ms)))"

definition add_directory_to_zip :: "string \<Rightarrow> string \<Rightarrow> zip_members \<Rightarrow> zip_members io" where
  "add_directory_to_zip root archivePrefix ms =
     bind_io (abs_io root) (\<lambda>rootPath.
     walk_tree rootPath (zip_entry rootPath archivePrefix) ms)"

definition add_directory_to_zip_if_exists :: "string \<Rightarrow> string \<Rightarrow> zip_members \<Rightarrow> zip_members io" where
  "add_directory_to_zip_if_exists root archivePrefix ms =
     if_exists root (add_directory_to_zip root archivePrefix ms) ms"

text \<open>A loop that adds to the archive.\<close>

fun add_each :: "('a \<Rightarrow> zip_members \<Rightarrow> zip_members io) \<Rightarrow> 'a list \<Rightarrow> zip_members \<Rightarrow> zip_members io" where
  "add_each add [] ms = ret_io ms"
| "add_each add (x # xs) ms = bind_io (add x ms) (add_each add xs)"

definition add_domain_to_zip :: "string \<Rightarrow> string \<times> node \<Rightarrow> zip_members \<Rightarrow> zip_members io" where
  "add_domain_to_zip domainsRoot entry ms =
     (case entry of (name, d) \<Rightarrow>
        if \<not> is_dir d \<or> contains name ''/'' then ret_io ms
        else
          add_each (\<lambda>dir. add_directory_to_zip_if_exists (path_join [domainsRoot, name, dir])
                            (path_join [''archive'', ''domains'', name, dir]))
            [''media'', ''media-metadata''] ms)"

text \<open>Two files come from a map, in an order that the runtime chooses.\<close>

definition map_order :: "bool io" where
  "map_order w = (Inr (odd (fastrand w (rands w))), w\<lparr>rands := Suc (rands w)\<rparr>)"

definition add_safe_archive_metadata_to_zip :: "settings \<Rightarrow> zip_members \<Rightarrow> zip_members io" where
  "add_safe_archive_metadata_to_zip c ms =
     bind_io (abs_io (archive_root c)) (\<lambda>archiveRoot.
     bind_io map_order (\<lambda>swapped.
     let kept = [(''site-state.json'', state_path c), (''redirects.json'', redirects_path c)] in
     bind_io (add_each (\<lambda>(archiveName, sourcePath). add_file_to_zip_if_exists sourcePath (path_join [''archive'', archiveName]))
        (if swapped then rev kept else kept) ms) (\<lambda>ms.
     bind_io (add_each (\<lambda>dir. add_directory_to_zip_if_exists (path_join [archiveRoot, dir]) (path_join [''archive'', dir]))
        [''metadata'', ''templates''] ms) (\<lambda>ms.
     let domainsRoot = path_join [archiveRoot, ''domains''] in
     catch_io (os_read_dir domainsRoot)
       (\<lambda>err. if errors_is err OsErrNotExist then ret_io ms else fail_io err)
       (\<lambda>entries. add_each (add_domain_to_zip domainsRoot) entries ms)))))"

section \<open>Creating a backup\<close>

definition backup_name :: "time \<Rightarrow> string \<Rightarrow> string" where
  "backup_name createdAt unique =
     (case (date_of (createdAt div day_ns), time_of_day createdAt) of
        ((y, m, d), (h, mi, se, ns)) \<Rightarrow>
          ''sitebrush-backup-'' @ (if y < 0 then CHR ''-'' # pad_digits 4 (nat (- y)) else pad_digits 4 (nat y))
          @ dec_fixed 2 m @ dec_fixed 2 (nat d) @ CHR ''T'' # dec_fixed 2 h @ dec_fixed 2 mi @ dec_fixed 2 se @ ''Z-''
          @ unique @ ''.zip'')"

text \<open>The loop with the number of attempts that are left.\<close>

fun reserve_try :: "nat \<Rightarrow> string \<Rightarrow> time \<Rightarrow> string io" where
  "reserve_try 0 backupDir createdAt = fail_io (ErrText ''could not allocate unique backup filename'')"
| "reserve_try (Suc attempts) backupDir createdAt =
     bind_io random_revision_suffix (\<lambda>unique.
       let p = path_join [backupDir, backup_name createdAt unique] in
       catch_io (open_excl p 384)
         (\<lambda>err. if errors_is err OsErrExist then reserve_try attempts backupDir createdAt else fail_io err)
         (\<lambda>reservation.
            catch_io (file_close reservation) (\<lambda>err. ignoring (os_remove p) (fail_io err)) (\<lambda>_. ret_io p)))"

definition reserve_unique_backup_path :: "string \<Rightarrow> time \<Rightarrow> string io" where
  "reserve_unique_backup_path backupDir createdAt = reserve_try 16 backupDir createdAt"

definition file_checksum :: "string \<Rightarrow> (string \<times> int) io" where
  "file_checksum p =
     bind_io (os_open p) (\<lambda>file.
     defer_io (file_close file) (
       bind_io (file_read file) (\<lambda>content. ret_io (hex_encode (sha256 content), int (length content)))))"

text \<open>The row of a backup, for SQLite only.\<close>

definition backup_table :: string where
  "backup_table =
     ''CREATE TABLE IF NOT EXISTS Backup ( Id INTEGER PRIMARY KEY, Path TEXT, Checksum TEXT, Size INTEGER, CreatedAt INTEGER, Status TEXT, Error TEXT )''"

definition record_backup :: "settings \<Rightarrow> backup_record \<Rightarrow> string \<Rightarrow> string \<Rightarrow> unit io" where
  "record_backup c row status errorMessage =
     (if DB_TYPE c \<noteq> ''sqlite'' \<or> DB_FULL_FILE_PATH c = '''' then ret_io ()
      else
      bind_io (sql_io (SqlOpen ''sqlite'' (DB_FULL_FILE_PATH c))) (\<lambda>_.
      defer_io (sql_io SqlClose) (
        bind_io (db_exec backup_table []) (\<lambda>_.
        bind_io (db_exec ''INSERT INTO Backup (Path, Checksum, Size, CreatedAt, Status, Error) VALUES (?, ?, ?, ?, ?, ?)''
          [SqlText (Rec_Path row), SqlText (Rec_Checksum row), SqlInt (Rec_Size row),
           SqlInt (unix_milli (Rec_CreatedAt row)), SqlText status, SqlText errorMessage]) (\<lambda>_.
        ret_io ())))))"

text \<open>The destination, which must not be in the site, with links followed or not.\<close>

definition backup_destination :: "settings \<Rightarrow> string \<Rightarrow> string \<Rightarrow> string io" where
  "backup_destination c rootPath evaluatedRootPath =
     (let backupDir = path_join [archive_root c, ''backups''] in
      bind_io (os_mkdir_all backupDir 493) (\<lambda>_.
      bind_io (abs_io (archive_root c)) (\<lambda>archiveRoot.
      bind_io (eval_symlinks archiveRoot) (\<lambda>evaluatedArchiveRoot.
      bind_io (abs_io backupDir) (\<lambda>absoluteBackupDir.
      bind_io (eval_symlinks absoluteBackupDir) (\<lambda>evaluatedBackupDir.
      if path_is_inside_root rootPath absoluteBackupDir
        \<or> path_is_inside_root evaluatedRootPath evaluatedArchiveRoot
        \<or> path_is_inside_root evaluatedRootPath evaluatedBackupDir
      then fail_io (ErrText ''backup destination cannot be inside web root'')
      else ret_io backupDir))))))"

text \<open>From \<open>zip.NewWriter\<close> to \<open>tmpFile.Close\<close>.\<close>

definition write_backup :: "zip_format \<Rightarrow> settings \<Rightarrow> string \<Rightarrow> path \<Rightarrow> unit io" where
  "write_backup z c rootPath tmpFile =
     bind_io time_now (\<lambda>now.
     catch_io
       (bind_io (add_json_to_zip ''sitebrush-backup.json'' (backup_manifest now) []) (\<lambda>ms.
        bind_io (add_directory_to_zip rootPath ''web'' ms) (\<lambda>ms.
        add_safe_archive_metadata_to_zip c ms)))
       (\<lambda>err. ignoring (file_write tmpFile (Zip_Broken z)) (ignoring (file_close tmpFile) (fail_io err)))
       (\<lambda>ms.
         catch_io (file_write tmpFile (Zip_Pack z ms)) (\<lambda>err. ignoring (file_close tmpFile) (fail_io err)) (\<lambda>_.
         catch_io (file_sync tmpFile) (\<lambda>err. ignoring (file_close tmpFile) (fail_io err)) (\<lambda>_.
         file_close tmpFile))))"

definition name_backup :: "string \<Rightarrow> string \<Rightarrow> string io" where
  "name_backup backupDir tmpName =
     bind_io time_now (\<lambda>now.
     bind_io (reserve_unique_backup_path backupDir now) (\<lambda>finalPath.
     catch_io (os_rename tmpName finalPath) (\<lambda>err. ignoring (os_remove finalPath) (fail_io err)) (\<lambda>_.
     ret_io finalPath)))"

definition backup_row :: "string \<Rightarrow> backup_record io" where
  "backup_row p =
     bind_io (file_checksum p) (\<lambda>(checksum, size).
     bind_io time_now (\<lambda>now.
     ret_io \<lparr>Rec_Path = p, Rec_Checksum = checksum, Rec_Size = size, Rec_CreatedAt = now\<rparr>))"

definition create_backup :: "zip_format \<Rightarrow> settings \<Rightarrow> backup_record io" where
  "create_backup z c =
     bind_io (abs_io (WEB_FILE_PATH c)) (\<lambda>rootPath.
     bind_io (eval_symlinks rootPath) (\<lambda>evaluatedRootPath.
     bind_io (backup_destination c rootPath evaluatedRootPath) (\<lambda>backupDir.
     bind_io (os_create_temp backupDir ''sitebrush-backup-'' ''.zip.tmp'') (\<lambda>(tmpName, tmpFile).
     bind_io (catch_io
         (bind_io (write_backup z c rootPath tmpFile) (\<lambda>_. name_backup backupDir tmpName))
         (\<lambda>err. ignoring (os_remove tmpName) (fail_io err)) ret_io) (\<lambda>finalPath.
     bind_io (backup_row finalPath) (\<lambda>row.
     bind_io (save_json (finalPath @ ''.json'') backup_record_codec 384 row) (\<lambda>_.
     bind_io (record_backup c row ''complete'' '''') (\<lambda>_.
     ret_io row))))))))"

end
