(* ===== verification/Restore.thy ===== *)
theory Restore
  imports Backup SafePath GoQuote
begin

text \<open>
  Restoring a backup (\<open>pkg/webserver/functions.go\<close>): the checks on the names in the archive and on the files that they
  stand for, and a restore that puts back what it has overwritten when it fails.
\<close>

section \<open>Names\<close>

definition validate_backup_entry_name :: "string \<Rightarrow> unit result" where
  "validate_backup_entry_name name =
     (if name = '''' \<or> contains name [CHR 0x5C] \<or> contains name [CHR 0x00] then Inl ErrUnsafePath
      else if is_abs name then Inl ErrUnsafePath
      else
        let cleaned = path_clean name in
        if cleaned = ''.'' \<or> cleaned = ''..'' \<or> has_prefix cleaned ''../'' then Inl ErrUnsafePath
        else if cleaned \<noteq> trim_suffix name ''/'' then Inl ErrUnsafePath
        else Inr ())"

text \<open>The names that stand for files below the archive.\<close>

definition restorable_archive_name :: "string \<Rightarrow> bool" where
  "restorable_archive_name name \<longleftrightarrow>
     has_prefix name ''archive/metadata/'' \<or> has_prefix name ''archive/templates/''
     \<or> (has_prefix name ''archive/domains/'' \<and> contains name ''/media/'')
     \<or> (has_prefix name ''archive/domains/'' \<and> contains name ''/media-metadata/'')"

definition restore_target_for_archive_name :: "settings \<Rightarrow> string \<Rightarrow> string option io" where
  "restore_target_for_archive_name c name =
     bind_io (lift_io (validate_backup_entry_name name)) (\<lambda>_.
     if has_prefix name ''web/'' then
       bind_io (safe_join_under_root (WEB_FILE_PATH c) [trim_prefix name ''web/'']) (\<lambda>targetPath. ret_io (Some targetPath))
     else if name = ''archive/site-state.json'' then ret_io (Some (state_path c))
     else if name = ''archive/redirects.json'' then ret_io (Some (redirects_path c))
     else if restorable_archive_name name then
       bind_io (safe_join_under_root (archive_root c) [trim_prefix name ''archive/'']) (\<lambda>targetPath. ret_io (Some targetPath))
     else ret_io None)"

definition restore_root_for_archive_name :: "settings \<Rightarrow> string \<Rightarrow> string result" where
  "restore_root_for_archive_name c name =
     bind_result (validate_backup_entry_name name) (\<lambda>_.
     if has_prefix name ''web/'' then Inr (WEB_FILE_PATH c)
     else if name = ''archive/site-state.json'' \<or> name = ''archive/redirects.json'' \<or> restorable_archive_name name
     then Inr (archive_root c)
     else Inl ErrUnsafePath)"

section \<open>Targets\<close>

text \<open>
  The walk down from the root to the target. Every turn adds a component of the target, so a target with \<open>n\<close> bytes
  needs at most \<open>n + 1\<close> turns.
\<close>

fun reject_symlinks_from :: "nat \<Rightarrow> string \<Rightarrow> string \<Rightarrow> unit io" where
  "reject_symlinks_from 0 targetAbs current = fail_io (ErrText ''fuel'')"
| "reject_symlinks_from (Suc fuel) targetAbs current =
     catch_io (os_lstat current)
       (\<lambda>err. if errors_is err OsErrNotExist then ret_io () else fail_io err)
       (\<lambda>info.
         if is_symlink info then fail_io ErrUnsafePath
         else if current = targetAbs then ret_io ()
         else
           bind_io (lift_io (filepath_rel current targetAbs)) (\<lambda>relative.
           if relative = ''.'' then ret_io ()
           else
             let nextName = hd (split_on (CHR ''/'') relative) in
             if nextName = '''' \<or> nextName = ''.'' \<or> nextName = ''..'' then fail_io ErrUnsafePath
             else
               let next = path_join [current, nextName] in
               if next = current then fail_io ErrUnsafePath
               else reject_symlinks_from fuel targetAbs next))"

definition reject_symlink_components :: "string \<Rightarrow> string \<Rightarrow> unit io" where
  "reject_symlink_components rootPath targetAbs = reject_symlinks_from (Suc (length targetAbs)) targetAbs rootPath"

fun nearest_existing_from :: "nat \<Rightarrow> string \<Rightarrow> string io" where
  "nearest_existing_from 0 current = fail_io (ErrText ''fuel'')"
| "nearest_existing_from (Suc fuel) current =
     catch_io (os_lstat current)
       (\<lambda>err.
         if \<not> errors_is err OsErrNotExist then fail_io err
         else
           let next = path_dir current in
           if next = current then fail_io OsErrNotExist else nearest_existing_from fuel next)
       (\<lambda>_. ret_io current)"

definition nearest_existing_parent :: "string \<Rightarrow> string io" where
  "nearest_existing_parent p = bind_io (abs_io p) (\<lambda>current. nearest_existing_from (Suc (length current)) current)"

definition validate_restore_target_path :: "string \<Rightarrow> string \<Rightarrow> unit io" where
  "validate_restore_target_path root targetPath =
     bind_io (abs_io root) (\<lambda>rootPath.
     bind_io (abs_io targetPath) (\<lambda>targetAbs.
     if \<not> path_is_inside_root rootPath targetAbs then fail_io ErrUnsafePath
     else
     bind_io (reject_symlink_components rootPath targetAbs) (\<lambda>_.
     bind_io (eval_symlinks rootPath) (\<lambda>evaluatedRoot.
     bind_io (nearest_existing_parent (path_dir targetAbs)) (\<lambda>existingParent.
     bind_io (eval_symlinks existingParent) (\<lambda>evaluatedParent.
     if \<not> path_is_inside_root evaluatedRoot evaluatedParent then fail_io ErrUnsafePath
     else ret_io ()))))))"

text \<open>The target and the root of a member, checked; nothing for a member that is not restored.\<close>

definition checked_target :: "settings \<Rightarrow> string \<Rightarrow> (string \<times> string) option io" where
  "checked_target c name =
     bind_io (restore_target_for_archive_name c name) (\<lambda>target. case target of
       None \<Rightarrow> ret_io None
     | Some targetPath \<Rightarrow>
         bind_io (lift_io (restore_root_for_archive_name c name)) (\<lambda>root.
         bind_io (validate_restore_target_path root targetPath) (\<lambda>_. ret_io (Some (targetPath, root)))))"

definition validate_restore_file :: "settings \<Rightarrow> zip_file \<Rightarrow> unit io" where
  "validate_restore_file c file =
     bind_io (lift_io (validate_backup_entry_name (Zip_Name file))) (\<lambda>_.
     if Zip_Symlink file then fail_io ErrUnsafePath
     else if Zip_Dir file then ret_io ()
     else bind_io (checked_target c (Zip_Name file)) (\<lambda>_. ret_io ()))"

definition validate_restore_archive :: "settings \<Rightarrow> zip_file list \<Rightarrow> unit io" where
  "validate_restore_archive c members = bind_io (each_io (validate_restore_file c) members) (\<lambda>_. ret_io ())"

record restore_target =
  Target_ArchiveName :: string
  Target_Path :: string
  Target_Root :: string
  Target_File :: zip_file

text \<open>The loop, with the targets so far; what it remembers of them is which member named a cleaned path.\<close>

fun collect_targets :: "settings \<Rightarrow> zip_file list \<Rightarrow> restore_target list \<Rightarrow> restore_target list io" where
  "collect_targets c [] targets = ret_io targets"
| "collect_targets c (file # members) targets =
     (if Zip_Dir file \<or> Zip_Name file = ''sitebrush-backup.json'' then collect_targets c members targets
      else
      bind_io (checked_target c (Zip_Name file)) (\<lambda>target. case target of
        None \<Rightarrow> collect_targets c members targets
      | Some (targetPath, root) \<Rightarrow>
          (case find_first (\<lambda>t. path_clean (Target_Path t) = path_clean targetPath) targets of
             Some previous \<Rightarrow>
               fail_io (ErrText (''duplicate restore target '' @ strconv_quote (Target_ArchiveName previous) @ '' and ''
                 @ strconv_quote (Zip_Name file)))
           | None \<Rightarrow>
               collect_targets c members (targets @
                 [\<lparr>Target_ArchiveName = Zip_Name file, Target_Path = targetPath, Target_Root = root, Target_File = file\<rparr>]))))"

definition collect_restore_targets :: "settings \<Rightarrow> zip_file list \<Rightarrow> restore_target list io" where
  "collect_restore_targets c members = collect_targets c members []"

section \<open>Rollback\<close>

record restore_rollback_entry =
  RB_Path :: string
  RB_Root :: string
  RB_Exists :: bool
  RB_Content :: string
  RB_Mode :: nat
  RB_CreatedDirs :: "string list"

text \<open>The climb from the parent of a target to the root, at most one turn for each byte.\<close>

fun missing_dirs_from :: "nat \<Rightarrow> string \<Rightarrow> string \<Rightarrow> string list \<Rightarrow> string list io" where
  "missing_dirs_from 0 rootPath current dirs = fail_io (ErrText ''fuel'')"
| "missing_dirs_from (Suc fuel) rootPath current dirs =
     (if path_is_inside_root rootPath current \<and> current \<noteq> rootPath then
        catch_io (os_lstat current)
          (\<lambda>err.
            if \<not> errors_is err OsErrNotExist then fail_io err
            else
              let dirs = dirs @ [current]; next = path_dir current in
              if next = current then ret_io dirs else missing_dirs_from fuel rootPath next dirs)
          (\<lambda>info.
            if is_symlink info then fail_io ErrUnsafePath
            else if \<not> is_dir info then fail_io ErrUnsafePath
            else ret_io dirs)
      else ret_io dirs)"

definition missing_parent_dirs :: "string \<Rightarrow> string \<Rightarrow> string list io" where
  "missing_parent_dirs root targetPath =
     bind_io (abs_io root) (\<lambda>rootPath.
     bind_io (abs_io (path_dir targetPath)) (\<lambda>current.
     missing_dirs_from (Suc (length current)) rootPath current []))"

definition capture_restore_rollback_entry :: "string \<Rightarrow> string \<Rightarrow> restore_rollback_entry io" where
  "capture_restore_rollback_entry root p =
     bind_io (validate_restore_target_path root p) (\<lambda>_.
     catch_io (os_lstat p)
       (\<lambda>err.
         if errors_is err OsErrNotExist then
           bind_io (missing_parent_dirs root p) (\<lambda>createdDirs.
           ret_io \<lparr>RB_Path = p, RB_Root = root, RB_Exists = False, RB_Content = '''', RB_Mode = 0, RB_CreatedDirs = createdDirs\<rparr>)
         else fail_io err)
       (\<lambda>info.
         if is_symlink info then fail_io ErrUnsafePath
         else if \<not> is_regular info then fail_io ErrUnsafePath
         else
           bind_io (os_read_file p) (\<lambda>content.
           ret_io \<lparr>RB_Path = p, RB_Root = root, RB_Exists = True, RB_Content = content, RB_Mode = file_mode info,
             RB_CreatedDirs = []\<rparr>)))"

text \<open>\<open>ENOTEMPTY\<close> and \<open>EEXIST\<close> both count as a directory that is still in use.\<close>

definition remove_created_dir :: "string \<Rightarrow> unit io" where
  "remove_created_dir dir =
     catch_io (os_remove dir)
       (\<lambda>err. if \<not> errors_is err OsErrNotExist \<and> \<not> errors_is err (SysErr ENOTEMPTY) \<and> \<not> errors_is err (SysErr EEXIST)
              then fail_io err else ret_io ())
       ret_io"

definition rollback_entry :: "restore_rollback_entry \<Rightarrow> unit io" where
  "rollback_entry e =
     bind_io (validate_restore_target_path (RB_Root e) (RB_Path e)) (\<lambda>_.
     if RB_Exists e then atomic_write_file (RB_Path e) (RB_Content e) (RB_Mode e)
     else
     bind_io (missing_ok (os_remove (RB_Path e)) fail_io) (\<lambda>_.
     bind_io (each_io remove_created_dir (RB_CreatedDirs e)) (\<lambda>_.
     missing_ok (sync_dir (path_dir (RB_Path e))) fail_io)))"

definition rollback_restore :: "restore_rollback_entry list \<Rightarrow> unit io" where
  "rollback_restore entries = bind_io (each_io rollback_entry (rev entries)) (\<lambda>_. ret_io ())"

section \<open>Restoring\<close>

definition restore_zip_file :: "restore_target \<Rightarrow> unit io" where
  "restore_zip_file t =
     (let file = Target_File t; root = Target_Root t; targetPath = Target_Path t in
      if Zip_Symlink file then fail_io ErrUnsafePath
      else
      bind_io (validate_restore_target_path root targetPath) (\<lambda>_.
      bind_io (os_mkdir_all (path_dir targetPath) 493) (\<lambda>_.
      bind_io (validate_restore_target_path root targetPath) (\<lambda>_.
      bind_io (lift_io (Zip_Content file)) (\<lambda>content.
      bind_io (validate_restore_target_path root targetPath) (\<lambda>_.
      atomic_write_file targetPath content (if Zip_Mode file = 0 then 420 else Zip_Mode file)))))))"

text \<open>\<open>rollbackOnError\<close> once the restore has started.\<close>

definition rollback_on_error :: "restore_rollback_entry list \<Rightarrow> go_error \<Rightarrow> 'a io" where
  "rollback_on_error entries restoreErr =
     catch_io (rollback_restore entries)
       (\<lambda>rollbackErr w. fail_io (WrapErr ''restore failed: '' restoreErr (''; rollback failed: '' @ error_text rollbackErr w)) w)
       (\<lambda>_. fail_io restoreErr)"

text \<open>The file of the archive and its members.\<close>

definition zip_open_reader :: "zip_format \<Rightarrow> string \<Rightarrow> (path \<times> zip_file list) io" where
  "zip_open_reader z p =
     bind_io (os_open p) (\<lambda>file.
     catch_io
       (bind_io (file_read file) (\<lambda>bytes.
        case Zip_Unpack z bytes of None \<Rightarrow> fail_io (ErrText ''zip: not a valid zip file'') | Some members \<Rightarrow> ret_io members))
       (\<lambda>err. ignoring (file_close file) (fail_io err))
       (\<lambda>members. ret_io (file, members)))"

text \<open>From the first file that is written on. With no target nothing has started, and nothing is rolled back.\<close>

definition restore_targets :: "settings \<Rightarrow> string \<Rightarrow> restore_target list \<Rightarrow> restore_rollback_entry list \<Rightarrow> backup_record io" where
  "restore_targets c absoluteBackupPath targets entries =
     catch_io
       (bind_io (each_io restore_zip_file targets) (\<lambda>_.
        bind_io (backup_row absoluteBackupPath) (\<lambda>row.
        bind_io (record_backup c row ''restored'' '''') (\<lambda>_.
        ret_io row))))
       (\<lambda>restoreErr. if targets = [] then fail_io restoreErr else rollback_on_error entries restoreErr)
       ret_io"

definition restore_members :: "settings \<Rightarrow> string \<Rightarrow> zip_file list \<Rightarrow> backup_record io" where
  "restore_members c absoluteBackupPath members =
     bind_io (validate_restore_archive c members) (\<lambda>_.
     bind_io (collect_restore_targets c members) (\<lambda>targets.
     bind_io (each_io (\<lambda>t. capture_restore_rollback_entry (Target_Root t) (Target_Path t)) targets) (\<lambda>entries.
     restore_targets c absoluteBackupPath targets entries)))"

definition restore_backup :: "zip_format \<Rightarrow> settings \<Rightarrow> string \<Rightarrow> backup_record io" where
  "restore_backup z c backupPath =
     (let backupPath = trim_space backupPath in
      if backupPath = '''' then fail_io ErrUnsafePath
      else
      bind_io (abs_io (path_join [archive_root c, ''backups''])) (\<lambda>backupRoot.
      bind_io (abs_io backupPath) (\<lambda>absoluteBackupPath.
      if \<not> path_is_inside_root backupRoot absoluteBackupPath then fail_io ErrUnsafePath
      else
      catch_io (os_lstat absoluteBackupPath)
        (\<lambda>err. fail_io (if errors_is err OsErrNotExist then OsErrNotExist else err)) (\<lambda>backupInfo.
      if is_symlink backupInfo \<or> \<not> is_regular backupInfo then fail_io ErrUnsafePath
      else
      catch_io (zip_open_reader z absoluteBackupPath)
        (\<lambda>err. fail_io (if errors_is err OsErrNotExist then OsErrNotExist else err)) (\<lambda>(reader, members).
      defer_io (file_close reader) (restore_members c absoluteBackupPath members))))))"

end
