(* ===== verification/GoSniff.thy ===== *)
theory GoSniff
  imports GoStrings
begin

text \<open>
  \<open>http.DetectContentType\<close> of Go 1.19: the type of a file by its first 512 bytes.
\<close>

section \<open>Signatures\<close>

definition sniff_space :: "char \<Rightarrow> bool" where
  "sniff_space c \<longleftrightarrow> byte c \<in> {9, 10, 12, 13, 32}"

definition upper_byte :: "char \<Rightarrow> char" where
  "upper_byte c = (if 97 \<le> byte c \<and> byte c \<le> 122 then of_byte (byte c - 32) else c)"

text \<open>A tag in either case, with a blank or \<open>>\<close> after it.\<close>

definition html_sig :: "string \<Rightarrow> string \<Rightarrow> bool" where
  "html_sig tag d \<longleftrightarrow>
     length tag < length d \<and> map upper_byte (take (length tag) d) = tag
     \<and> (d ! length tag = CHR '' '' \<or> d ! length tag = CHR ''>'')"

definition html_tags :: "string list" where
  "html_tags =
    [''<!DOCTYPE HTML'', ''<HTML'', ''<HEAD'', ''<SCRIPT'', ''<IFRAME'', ''<H1'', ''<DIV'', ''<FONT'', ''<TABLE'', ''<A'', ''<STYLE'',
     ''<TITLE'', ''<B'', ''<BODY'', ''<BR'', ''<P'', ''<!--'']"

text \<open>A signature: bytes, where \<open>None\<close> stands for any.\<close>

fun masked_sig :: "char option list \<Rightarrow> string \<Rightarrow> bool" where
  "masked_sig [] d = True"
| "masked_sig (p # ps) [] = False"
| "masked_sig (p # ps) (c # cs) = ((p = None \<or> p = Some c) \<and> masked_sig ps cs)"

definition exactly :: "string \<Rightarrow> char option list" where
  "exactly s = map Some s"

definition gap :: "nat \<Rightarrow> char option list" where
  "gap n = replicate n None"

definition bytes :: "nat list \<Rightarrow> string" where
  "bytes = map of_byte"

definition signatures :: "(char option list \<times> string) list" where
  "signatures =
    [(exactly ''%PDF-'', ''application/pdf''),
     (exactly ''%!PS-Adobe-'', ''application/postscript''),
     (exactly (bytes [254, 255]) @ gap 2, ''text/plain; charset=utf-16be''),
     (exactly (bytes [255, 254]) @ gap 2, ''text/plain; charset=utf-16le''),
     (exactly (bytes [239, 187, 191]) @ gap 1, ''text/plain; charset=utf-8''),
     (exactly (bytes [0, 0, 1, 0]), ''image/x-icon''),
     (exactly (bytes [0, 0, 2, 0]), ''image/x-icon''),
     (exactly ''BM'', ''image/bmp''),
     (exactly ''GIF87a'', ''image/gif''),
     (exactly ''GIF89a'', ''image/gif''),
     (exactly ''RIFF'' @ gap 4 @ exactly ''WEBPVP'', ''image/webp''),
     (exactly (bytes [137, 80, 78, 71, 13, 10, 26, 10]), ''image/png''),
     (exactly (bytes [255, 216, 255]), ''image/jpeg''),
     (exactly ''FORM'' @ gap 4 @ exactly ''AIFF'', ''audio/aiff''),
     (exactly ''ID3'', ''audio/mpeg''),
     (exactly (''OggS'' @ bytes [0]), ''application/ogg''),
     (exactly (''MThd'' @ bytes [0, 0, 0, 6]), ''audio/midi''),
     (exactly ''RIFF'' @ gap 4 @ exactly ''AVI '', ''video/avi''),
     (exactly ''RIFF'' @ gap 4 @ exactly ''WAVE'', ''audio/wave'')]"

definition late_signatures :: "(char option list \<times> string) list" where
  "late_signatures =
    [(exactly (bytes [26, 69, 223, 163]), ''video/webm''),
     (gap 34 @ exactly ''LP'', ''application/vnd.ms-fontobject''),
     (exactly (bytes [0, 1, 0, 0]), ''font/ttf''),
     (exactly ''OTTO'', ''font/otf''),
     (exactly ''ttcf'', ''font/collection''),
     (exactly ''wOFF'', ''font/woff''),
     (exactly ''wOF2'', ''font/woff2''),
     (exactly (bytes [31, 139, 8]), ''application/x-gzip''),
     (exactly (''PK'' @ bytes [3, 4]), ''application/zip''),
     (exactly (''Rar!'' @ bytes [26, 7, 0]), ''application/x-rar-compressed''),
     (exactly (''Rar!'' @ bytes [26, 7, 1, 0]), ''application/x-rar-compressed''),
     (exactly (bytes [0, 97, 115, 109]), ''application/wasm'')]"

text \<open>The box at the start of an MP4 file names a brand that starts with \<open>mp4\<close>.\<close>

definition mp4_sig :: "string \<Rightarrow> bool" where
  "mp4_sig d \<longleftrightarrow>
     12 \<le> length d \<and>
     (let boxSize = ((byte (d ! 0) * 256 + byte (d ! 1)) * 256 + byte (d ! 2)) * 256 + byte (d ! 3) in
      boxSize \<le> length d \<and> boxSize mod 4 = 0 \<and> take 4 (drop 4 d) = ''ftyp''
      \<and> list_ex (\<lambda>st. st < boxSize \<and> st \<noteq> 12 \<and> take 3 (drop st d) = ''mp4'') (map (\<lambda>i. 8 + 4 * i) [0..<128]))"

text \<open>No byte that a text cannot have.\<close>

definition binary_byte :: "char \<Rightarrow> bool" where
  "binary_byte c \<longleftrightarrow> byte c \<le> 8 \<or> byte c = 11 \<or> (14 \<le> byte c \<and> byte c \<le> 26) \<or> (28 \<le> byte c \<and> byte c \<le> 31)"

section \<open>\<open>DetectContentType\<close>\<close>

definition find_sig :: "(char option list \<times> string) list \<Rightarrow> string \<Rightarrow> string option" where
  "find_sig sigs d = map_option snd (find_first (\<lambda>s. masked_sig (fst s) d) sigs)"

definition detect_content_type :: "string \<Rightarrow> string" where
  "detect_content_type content =
     (let d = take 512 content; body = dropWhile sniff_space d in
      if list_ex (\<lambda>tag. html_sig tag body) html_tags then ''text/html; charset=utf-8''
      else if has_prefix body ''<?xml'' then ''text/xml; charset=utf-8''
      else case find_sig signatures d of
        Some t \<Rightarrow> t
      | None \<Rightarrow>
          if mp4_sig d then ''video/mp4''
          else case find_sig late_signatures d of
            Some t \<Rightarrow> t
          | None \<Rightarrow>
              if \<not> list_ex binary_byte body then ''text/plain; charset=utf-8''
              else ''application/octet-stream'')"

end
