(* ===== verification/Accounts.thy ===== *)
theory Accounts
  imports Http AuthStore
begin

text \<open>
  The handlers of the operator's account: login, logout, the first administrator's form, password recovery and
  the profile (\<open>pkg/webserver/functions.go\<close>, \<open>auth_store.go\<close>). A handler answers by the calls it
  makes on the response writer, in order.
\<close>

section \<open>Guards that the handlers share\<close>

definition method_not_allowed :: "string \<Rightarrow> unit srv" where
  "method_not_allowed allow = respond [SetHeader ''Allow'' allow, HttpError ''Method Not Allowed'' 405]"

text \<open>\<open>session, ok := s.requireAuth(...); if !ok { return }\<close>\<close>

definition authenticated :: "request \<Rightarrow> (operator_session \<Rightarrow> unit srv) \<Rightarrow> unit srv" where
  "authenticated request body =
     bind_srv (require_auth request) (\<lambda>r. case r of None \<Rightarrow> ret_srv () | Some session \<Rightarrow> body session)"

text \<open>\<open>if !s.validCSRF(request, session) { http.Error(..., 403); return }\<close>\<close>

definition csrf_checked :: "request \<Rightarrow> operator_session \<Rightarrow> unit srv \<Rightarrow> unit srv" where
  "csrf_checked request session body =
     (if \<not> valid_csrf request session then respond [HttpError ''Forbidden'' 403] else body)"

definition form_parsed :: "request \<Rightarrow> string \<Rightarrow> unit srv \<Rightarrow> unit srv" where
  "form_parsed request msg body = (if Form_Error request then respond [HttpError msg 400] else body)"

section \<open>Login\<close>

definition redirect_after_login :: "request \<Rightarrow> unit srv" where
  "redirect_after_login request =
     (let next = Form_Value request ''next'';
          next = (if next = '''' \<or> has_prefix next ''//'' \<or> \<not> has_prefix next ''/'' then ''/?profile'' else next)
      in respond [HttpRedirect next 303])"

definition login_page :: "bool result \<Rightarrow> world \<Rightarrow> nat \<times> string" where
  "login_page r w =
     (case r of
        Inl _ \<Rightarrow> (500, ''Could not load user store.'')
      | Inr hasPersistentUsers \<Rightarrow>
          if \<not> hasPersistentUsers \<and> \<not> admin_password_configured w \<and> \<not> bootstrap_token_configured w
          then (503, ''Admin access is not configured. Set SITEBRUSH_BOOTSTRAP_TOKEN for first-admin setup or SITEBRUSH_ADMIN_PASSWORD_SHA256/SITEBRUSH_ADMIN_PASSWORD for env-admin login.'')
          else (200, ''''))"

definition login_persistent :: "settings \<Rightarrow> request \<Rightarrow> string \<Rightarrow> string \<Rightarrow> unit srv" where
  "login_persistent c request email password =
     try_srv (authenticate_persistent_user c email password)
       (\<lambda>_. respond [HttpError ''Could not authenticate'' 500])
       (\<lambda>(user, ok).
         if ok then
           bind_srv (session_create_for_user request (display_user_name user) (User_Email user) (User_Id user) ''persistent'')
             (\<lambda>r. case r of
                Inl _ \<Rightarrow> respond [HttpError ''Could not create session'' 500]
              | Inr _ \<Rightarrow> redirect_after_login request)
         else respond [HttpError ''Invalid credentials'' 401])"

definition login_environment :: "request \<Rightarrow> string \<Rightarrow> unit srv" where
  "login_environment request password =
     with_world (\<lambda>w.
     if \<not> admin_password_configured w then respond [HttpError ''Invalid credentials'' 401]
     else if \<not> validate_admin_password w password then respond [HttpError ''Invalid credentials'' 401]
     else
       bind_srv (session_create request ''admin'') (\<lambda>r. case r of
           Inl _ \<Rightarrow> respond [HttpError ''Could not create session'' 500]
         | Inr _ \<Rightarrow> redirect_after_login request))"

definition login :: "settings \<Rightarrow> request \<Rightarrow> unit srv" where
  "login c request =
     (if Method request = ''GET'' then
        bind_srv (lift_srv (has_persistent_users c)) (\<lambda>r.
        with_world (\<lambda>w. case login_page r w of (status, message) \<Rightarrow>
          respond [WriteHeader status, RenderHTML ''SiteBrush Login'' ''loginFormTemplate'' [(''Message'', HStr message)]]))
      else if Method request = ''POST'' then
        form_parsed request ''Invalid login request'' (
          let password = Form_Value request ''password''; email = normalize_email (Form_Value request ''email'') in
          try_srv (has_persistent_users c) (\<lambda>_. respond [HttpError ''Could not load user store'' 500])
            (\<lambda>hasPersistentUsers.
              if hasPersistentUsers \<and> email \<noteq> '''' then login_persistent c request email password
              else login_environment request password))
      else method_not_allowed ''GET, POST'')"

section \<open>First administrator and recovery\<close>

definition join :: "settings \<Rightarrow> request \<Rightarrow> unit srv" where
  "join c request =
     try_srv (has_persistent_users c) (\<lambda>_. respond [HttpError ''Could not load user store'' 500]) (\<lambda>hasUsers.
     if hasUsers then respond [HttpError ''First admin already exists'' 403]
     else
     with_world (\<lambda>w.
     if \<not> bootstrap_token_configured w
     then respond [HttpError ''First-admin bootstrap is disabled. Set SITEBRUSH_BOOTSTRAP_TOKEN to enable one-time setup.'' 503]
     else if Method request = ''GET'' then respond [RenderHTML ''Create first admin'' ''joinFormTemplate'' []]
     else if Method request = ''POST'' then
       form_parsed request ''Invalid join request'' (
       if \<not> validate_bootstrap_token w (Form_Value request ''bootstrap_token'')
       then respond [HttpError ''Invalid bootstrap token'' 403]
       else
       try_srv (create_first_admin c (Form_Value request ''email'') (Form_Value request ''password''))
         (\<lambda>err. with_world (\<lambda>w.
            let text = error_text err w in
            respond [HttpError text (if text = ''users already exist'' then 403 else 400)]))
         (\<lambda>user.
         bind_srv (session_create_for_user request (display_user_name user) (User_Email user) (User_Id user) ''persistent'')
           (\<lambda>r. case r of
              Inl _ \<Rightarrow> respond [HttpError ''Could not create session'' 500]
            | Inr _ \<Rightarrow> respond [HttpRedirect ''/?profile'' 303])))
     else method_not_allowed ''GET, POST''))"

definition recover :: "request \<Rightarrow> unit srv" where
  "recover request =
     (if Method request = ''GET'' \<or> Method request = ''POST''
      then respond [HttpError ''Password recovery token storage is implemented, but email delivery is not implemented yet'' 501]
      else method_not_allowed ''GET, POST'')"

section \<open>Profile and logout\<close>

definition profile :: "settings \<Rightarrow> request \<Rightarrow> unit srv" where
  "profile c request =
     authenticated request (\<lambda>session.
     if Method request = ''GET'' then
       respond [RenderHTML ''Profile'' ''profileTemplate'' [(''User'', HStr (Session_User session)),
         (''Email'', HStr (Session_Email session)), (''Source'', HStr (AuthSource session)),
         (''Expires'', HTime (ExpiresAt session)), (''Site'', HStr (WEB_FILE_PATH c)), (''CSRF'', HStr (CSRFToken session))]]
     else if Method request = ''POST'' then
       csrf_checked request session (
       if AuthSource session \<noteq> ''persistent'' \<or> Session_UserID session = 0
       then respond [HttpError ''Profile updates for environment admin sessions are not implemented yet'' 501]
       else
       form_parsed request ''Invalid profile request'' (
         let currentPassword = Form_Value request ''current_password''; newPassword = Form_Value request ''new_password'' in
         if currentPassword = '''' \<or> newPassword = '''' then respond [HttpError ''Missing password fields'' 400]
         else
         try_srv (change_persistent_password c (Session_UserID session) currentPassword newPassword)
           (\<lambda>err. if errors_is err ErrInvalidCredentials then respond [HttpError ''Invalid credentials'' 401]
                  else if errors_is err ErrWeakPassword then respond [HttpError ''New password is too weak'' 400]
                  else respond [HttpError ''Could not update profile'' 500])
           (\<lambda>_. respond [Fprint ''Password changed''])))
     else method_not_allowed ''GET, POST'')"

definition logout :: "request \<Rightarrow> unit srv" where
  "logout request =
     authenticated request (\<lambda>session.
     if Method request = ''GET'' then
       respond [RenderHTML ''Logout'' ''logoutTemplate'' [(''CSRF'', HStr (CSRFToken session))]]
     else if Method request = ''POST'' then
       csrf_checked request session (
       bind_srv (session_destroy request) (\<lambda>_.
       respond [HttpRedirect ''/?login'' 303]))
     else method_not_allowed ''GET, POST'')"

definition not_implemented_mutation :: "request \<Rightarrow> string \<Rightarrow> unit srv" where
  "not_implemented_mutation request name =
     authenticated request (\<lambda>session.
     if Method request \<noteq> ''POST'' then method_not_allowed ''POST''
     else csrf_checked request session (respond [HttpError (name @ '' is not implemented yet'') 501]))"

definition not_implemented_public :: "request \<Rightarrow> string \<Rightarrow> unit srv" where
  "not_implemented_public request name =
     (if Method request = ''GET'' \<or> Method request = ''POST''
      then respond [HttpError (name @ '' is not implemented yet'') 501]
      else method_not_allowed ''GET, POST'')"

end
