(* ===== verification/Upload.thy ===== *)
theory Upload
  imports GoSniff GoUrl Revisions Accounts
begin

text \<open>
  Uploads (\<open>pkg/webserver/upload.go\<close>): a file of an allowed type is stored under the hash of its content in the
  media directory of the request's host, with a metadata file and, when the database is configured, a row.
\<close>

section \<open>Types\<close>

definition maxUploadBytes :: nat where
  "maxUploadBytes = 10 * 1024 * 1024"

definition errUploadTooLarge :: go_error where
  "errUploadTooLarge = ErrText ''upload exceeds size limit''"

definition errUploadMissingFile :: go_error where
  "errUploadMissingFile = ErrText ''missing upload file''"

definition errUploadNotAllowed :: go_error where
  "errUploadNotAllowed = ErrText ''file type is not allowed''"

record upload_response =
  Uploaded :: int
  Upload_URL :: string
  Upload_FileName :: string
  Upload_Size :: int
  Upload_Warnings :: "string list"
  Upload_Error :: string

record media_sidecar_metadata =
  Side_Type :: string
  Side_Hash :: string
  Side_OriginalHash :: string
  Side_Format :: string
  Side_MimeType :: string
  Side_StoragePath :: string
  Side_OriginalFileName :: string
  Side_SafeFileName :: string
  Side_Width :: int
  Side_Height :: int
  Side_BytesUsed :: int
  Side_Domain :: string
  Side_Status :: string
  Side_CreatedAt :: time
  Side_Warnings :: "string slice"

definition media_sidecar_fields :: "(media_sidecar_metadata field \<times> (media_sidecar_metadata \<Rightarrow> bool)) list" where
  "media_sidecar_fields =
    [(field ''type'' Side_Type Side_Type_update string_codec, \<lambda>_. False),
     (field ''hash'' Side_Hash Side_Hash_update string_codec, \<lambda>_. False),
     (field ''original_hash'' Side_OriginalHash Side_OriginalHash_update string_codec, \<lambda>_. False),
     (field ''format'' Side_Format Side_Format_update string_codec, \<lambda>_. False),
     (field ''mime_type'' Side_MimeType Side_MimeType_update string_codec, \<lambda>_. False),
     (field ''storage_path'' Side_StoragePath Side_StoragePath_update string_codec, \<lambda>_. False),
     (field ''original_file_name'' Side_OriginalFileName Side_OriginalFileName_update string_codec, \<lambda>_. False),
     (field ''safe_file_name'' Side_SafeFileName Side_SafeFileName_update string_codec, \<lambda>_. False),
     (field ''width'' Side_Width Side_Width_update int_codec, \<lambda>r. Side_Width r = 0),
     (field ''height'' Side_Height Side_Height_update int_codec, \<lambda>r. Side_Height r = 0),
     (field ''bytes_used'' Side_BytesUsed Side_BytesUsed_update int_codec, \<lambda>_. False),
     (field ''domain'' Side_Domain Side_Domain_update string_codec, \<lambda>_. False),
     (field ''status'' Side_Status Side_Status_update string_codec, \<lambda>_. False),
     (field ''created_at'' Side_CreatedAt Side_CreatedAt_update time_codec, \<lambda>_. False),
     (field ''warnings'' Side_Warnings Side_Warnings_update (slice_codec string_codec ''''), \<lambda>r. elems (Side_Warnings r) = [])]"

definition media_sidecar_codec :: "media_sidecar_metadata codec" where
  "media_sidecar_codec = omit_codec media_sidecar_fields"

record upload_validation =
  Valid_Kind :: string
  Valid_Ext :: string
  Valid_MimeType :: string
  Valid_Width :: int
  Valid_Height :: int

text \<open>
  A part of a multipart form, as package \<open>mime/multipart\<close> reads it from the limited body: its names, its bytes, and the
  error that ends them when they are cut off.
\<close>

record upload_part =
  Part_FormName :: string
  Part_FileName :: string
  Part_Bytes :: string
  Part_Error :: "go_error option"

type_synonym upload_body = "(go_error + upload_part) list result"

section \<open>Reading the request\<close>

definition valid_upload_csrf :: "request \<Rightarrow> operator_session \<Rightarrow> bool" where
  "valid_upload_csrf request session =
     (let token = Header_Get request ''X-CSRF-Token'' in token \<noteq> '''' \<and> token = CSRFToken session)"

definition upload_kind_from_request :: "request \<Rightarrow> string" where
  "upload_kind_from_request request =
     (case query_values ''upload'' (fst (query_settings (RawQuery request))) of
        [] \<Rightarrow> ''''
      | v # _ \<Rightarrow> if v = '''' then ''file'' else v)"

fun next_upload_part :: "(go_error + upload_part) list \<Rightarrow> upload_part result" where
  "next_upload_part [] = Inl errUploadMissingFile"
| "next_upload_part (Inl err # parts) = Inl err"
| "next_upload_part (Inr part # parts) =
     (if Part_FormName part \<noteq> ''upload'' \<and> Part_FormName part \<noteq> ''file'' then next_upload_part parts
      else if Part_FileName part = '''' then next_upload_part parts
      else Inr part)"

text \<open>At most one byte more than allowed is read; an error after it is not seen.\<close>

definition read_upload_part :: "upload_part \<Rightarrow> string result" where
  "read_upload_part part =
     (let content = take (Suc maxUploadBytes) (Part_Bytes part) in
      case (Part_Error part, length content \<le> maxUploadBytes) of
        (Some err, True) \<Rightarrow> Inl err
      | _ \<Rightarrow>
          if length content > maxUploadBytes then Inl errUploadTooLarge
          else if content = '''' then Inl (ErrText ''empty upload'')
          else Inr content)"

section \<open>Which files are allowed\<close>

definition rejected_upload_extension :: "string \<Rightarrow> bool" where
  "rejected_upload_extension ext \<longleftrightarrow>
     ext \<in> set [''.html'', ''.htm'', ''.js'', ''.css'', ''.svg'', ''.svgz'', ''.exe'', ''.dll'', ''.so'', ''.dylib'', ''.bat'', ''.cmd'',
       ''.com'', ''.msi'', ''.sh'', ''.bash'', ''.zsh'', ''.fish'', ''.zip'', ''.tar'', ''.gz'', ''.tgz'', ''.bz2'', ''.xz'', ''.7z'',
       ''.rar'', ''.jar'', ''.war'', ''.apk'', ''.iso'']"

definition image_types :: "(string \<times> string) list" where
  "image_types = [(''.gif'', ''image/gif''), (''.jpg'', ''image/jpeg''), (''.jpeg'', ''image/jpeg''), (''.png'', ''image/png'')]"

text \<open>\<open>image.DecodeConfig\<close>, a function of the decoders: width, height and format, or none.\<close>

type_synonym image_decoder = "string \<Rightarrow> (int \<times> int \<times> string) option"

definition validate_image_upload :: "image_decoder \<Rightarrow> string \<Rightarrow> string \<Rightarrow> string \<Rightarrow> upload_validation result" where
  "validate_image_upload decode_config ext sniffed content =
     (case map_of image_types ext of
        None \<Rightarrow> Inl errUploadNotAllowed
      | Some want \<Rightarrow>
          if sniffed \<noteq> want then Inl errUploadNotAllowed
          else case decode_config content of
            None \<Rightarrow> Inl errUploadNotAllowed
          | Some (width, height, format) \<Rightarrow>
              let accepted = \<lparr>Valid_Kind = ''image'', Valid_Ext = ext, Valid_MimeType = want, Valid_Width = width, Valid_Height = height\<rparr> in
              if format = ''jpeg'' \<and> (ext = ''.jpg'' \<or> ext = ''.jpeg'') then Inr accepted
              else if ''.'' @ format \<noteq> ext then Inl errUploadNotAllowed
              else Inr accepted)"

definition file_types :: "(string \<times> string list) list" where
  "file_types =
    [(''.csv'', [''text/plain; charset=utf-8'']),
     (''.json'', [''text/plain; charset=utf-8'', ''application/json'']),
     (''.md'', [''text/plain; charset=utf-8'']),
     (''.pdf'', [''application/pdf'']),
     (''.txt'', [''text/plain; charset=utf-8''])]"

definition validate_file_upload :: "string \<Rightarrow> string \<Rightarrow> upload_validation result" where
  "validate_file_upload ext sniffed =
     (case map_of file_types ext of
        None \<Rightarrow> Inl errUploadNotAllowed
      | Some mimes \<Rightarrow>
          if sniffed \<in> set mimes
          then Inr \<lparr>Valid_Kind = ''file'', Valid_Ext = ext, Valid_MimeType = sniffed, Valid_Width = 0, Valid_Height = 0\<rparr>
          else Inl errUploadNotAllowed)"

definition validate_upload_content :: "image_decoder \<Rightarrow> string \<Rightarrow> string \<Rightarrow> string \<Rightarrow> upload_validation result" where
  "validate_upload_content decode_config uploadKind fileName content =
     (let ext = to_lower (path_ext fileName) in
      if ext = '''' then Inl errUploadNotAllowed
      else if rejected_upload_extension ext then Inl errUploadNotAllowed
      else
        let sniffed = detect_content_type content in
        if uploadKind = ''image'' then validate_image_upload decode_config ext sniffed content
        else validate_file_upload ext sniffed)"

text \<open>The name that the metadata keep: letters, digits and \<open>.-_\<close>, with a dash for white space.\<close>

definition name_byte :: "nat \<Rightarrow> bool" where
  "name_byte r \<longleftrightarrow> (97 \<le> r \<and> r \<le> 122) \<or> (65 \<le> r \<and> r \<le> 90) \<or> (48 \<le> r \<and> r \<le> 57) \<or> r = 46 \<or> r = 45 \<or> r = 95"

definition name_rune :: "nat \<Rightarrow> string" where
  "name_rune r = (if name_byte r then [of_byte r] else if unicode_is_space r then ''-'' else [])"

definition shorten_name :: "string \<Rightarrow> string" where
  "shorten_name safe =
     (if length safe > 128 then
        let ext = path_ext safe; stem = trim_suffix safe ext;
            ext = (if length ext > 16 then '''' else ext);
            stem = (if length stem > 128 - length ext then take (128 - length ext) stem else stem)
        in stem @ ext
      else safe)"

definition sanitize_upload_file_name :: "string \<Rightarrow> string" where
  "sanitize_upload_file_name fileName =
     (let base = trim_space (path_base fileName);
          base = (if base = ''.'' \<or> base = ''/'' \<or> base = '''' then ''upload'' else base);
          safe = trim_bytes (concat (map name_rune (runes base))) ''.-''
      in if safe = '''' then ''upload'' else shorten_name safe)"

section \<open>Storing a file\<close>

definition media_sidecar_path :: "domain_paths \<Rightarrow> string \<Rightarrow> string io" where
  "media_sidecar_path roots storedName =
     bind_io (safe_join_under_root (ArchiveRoot roots) [''media-metadata'']) (\<lambda>sidecarRoot.
     safe_join_under_root sidecarRoot [storedName @ ''.json''])"

definition write_media_sidecar :: "string \<Rightarrow> media_sidecar_metadata \<Rightarrow> unit io" where
  "write_media_sidecar sidecarPath metadata = save_json sidecarPath media_sidecar_codec 384 metadata"

definition remove_written :: "string \<Rightarrow> bool \<Rightarrow> unit io" where
  "remove_written p preexisting =
     (if p \<noteq> '''' \<and> \<not> preexisting then ignoring (os_remove p) (ret_io ()) else ret_io ())"

definition cleanup_written_upload :: "string \<Rightarrow> string \<Rightarrow> bool \<Rightarrow> bool \<Rightarrow> unit io" where
  "cleanup_written_upload mediaPath sidecarPath mediaPreexisting sidecarPreexisting =
     bind_io (remove_written sidecarPath sidecarPreexisting) (\<lambda>_. remove_written mediaPath mediaPreexisting)"

definition path_exists :: "string \<Rightarrow> bool io" where
  "path_exists p = catch_io (os_stat p) (\<lambda>_. ret_io False) (\<lambda>_. ret_io True)"

text \<open>\<open>fmt.Errorf("...: %w", err)\<close>.\<close>

definition wrap_io :: "string \<Rightarrow> 'a io \<Rightarrow> 'a io" where
  "wrap_io what m = catch_io m (\<lambda>err. fail_io (WrapErr what err '''')) ret_io"

definition upload_warnings :: "settings \<Rightarrow> string list" where
  "upload_warnings c =
     (if \<not> db_post_revision_configured c then [''database is not configured; media metadata stored in sidecar only''] else [])"

definition sidecar_of :: "upload_validation \<Rightarrow> string \<Rightarrow> string \<Rightarrow> string \<Rightarrow> int \<Rightarrow> string \<Rightarrow> time \<Rightarrow> string list \<Rightarrow> media_sidecar_metadata"
  where
  "sidecar_of v hash storagePath safeName used host now warnings =
     \<lparr>Side_Type = Valid_Kind v, Side_Hash = hash, Side_OriginalHash = hash, Side_Format = trim_prefix (Valid_Ext v) ''.'',
      Side_MimeType = Valid_MimeType v, Side_StoragePath = storagePath, Side_OriginalFileName = safeName,
      Side_SafeFileName = safeName, Side_Width = Valid_Width v, Side_Height = Valid_Height v, Side_BytesUsed = used,
      Side_Domain = host, Side_Status = ''active'', Side_CreatedAt = now, Side_Warnings = Some warnings\<rparr>"

definition media_of :: "upload_validation \<Rightarrow> string \<Rightarrow> string \<Rightarrow> int \<Rightarrow> string \<Rightarrow> time \<Rightarrow> media" where
  "media_of v hash storagePath used host now =
     \<lparr>Media_Id = 0, Media_Type = Valid_Kind v, Media_Hash = hash, Media_OriginalHash = hash,
      Media_Format = trim_prefix (Valid_Ext v) ''.'', Media_MimeType = Valid_MimeType v, Media_StoragePath = storagePath,
      Media_Width = Valid_Width v, Media_Height = Valid_Height v, Media_Status = ''active'', Media_Domain = host,
      Media_Day = day_from_unix_millis (unix_milli now), Media_Date = unix_milli now, Media_SizesArray = '''',
      Media_Rating = 0, Media_RatingCount = 0, Media_RatingIP = '''', Media_Views = 0, Media_BytesUsed = used\<rparr>"

text \<open>From the metadata file on; the media file is written.\<close>

definition record_upload :: "settings \<Rightarrow> upload_validation \<Rightarrow> string \<Rightarrow> string \<Rightarrow> string \<Rightarrow> domain_paths \<Rightarrow> string \<Rightarrow> string \<Rightarrow> bool \<Rightarrow> upload_response io"
  where
  "record_upload c v fileName content host roots storedName targetPath mediaPreexisting =
     (let hash = hex_encode (sha256 content); storagePath = ''/f/'' @ storedName; used = int (length content);
          warnings = upload_warnings c; safeName = sanitize_upload_file_name fileName in
      catch_io (media_sidecar_path roots storedName)
        (\<lambda>err. bind_io (cleanup_written_upload targetPath '''' mediaPreexisting True) (\<lambda>_.
               fail_io (WrapErr ''resolve media sidecar: '' err ''''))) (\<lambda>sidecarPath.
      bind_io (path_exists sidecarPath) (\<lambda>sidecarPreexisting.
      bind_io time_now (\<lambda>now.
      catch_io (write_media_sidecar sidecarPath (sidecar_of v hash storagePath safeName used host now warnings))
        (\<lambda>err. bind_io (cleanup_written_upload targetPath '''' mediaPreexisting True) (\<lambda>_.
               fail_io (WrapErr ''write media sidecar: '' err ''''))) (\<lambda>_.
      catch_io
        (if db_post_revision_configured c
         then bind_io (save_media_from_config c (media_of v hash storagePath used host now)) (\<lambda>_. ret_io ())
         else ret_io ())
        (\<lambda>err. bind_io (cleanup_written_upload targetPath sidecarPath mediaPreexisting sidecarPreexisting) (\<lambda>_.
               fail_io (WrapErr ''database media metadata was not saved: '' err ''''))) (\<lambda>_.
      ret_io \<lparr>Uploaded = 1, Upload_URL = storagePath, Upload_FileName = safeName, Upload_Size = used,
        Upload_Warnings = warnings, Upload_Error = ''''\<rparr>))))))"

definition save_uploaded_media :: "image_decoder \<Rightarrow> settings \<Rightarrow> request \<Rightarrow> upload_body \<Rightarrow> string \<Rightarrow> upload_response io" where
  "save_uploaded_media decode_config c request body uploadKind =
     bind_io (wrap_io ''invalid multipart upload: '' (lift_io body)) (\<lambda>parts.
     bind_io (lift_io (next_upload_part parts)) (\<lambda>part.
     bind_io (lift_io (read_upload_part part)) (\<lambda>content.
     bind_io (lift_io (validate_upload_content decode_config uploadKind (Part_FileName part) content)) (\<lambda>validation.
     bind_io (wrap_io ''invalid upload host: '' (lift_io (canonical_host_from_request request))) (\<lambda>host.
     bind_io (wrap_io ''invalid upload domain: '' (domain_paths_of c host)) (\<lambda>roots.
     let storedName = hex_encode (sha256 content) @ Valid_Ext validation in
     bind_io (safe_join_under_root (MediaRoot roots) [storedName]) (\<lambda>targetPath.
     bind_io (path_exists targetPath) (\<lambda>mediaPreexisting.
     bind_io (wrap_io ''write media file: '' (atomic_write_file targetPath content 420)) (\<lambda>_.
     record_upload c validation (Part_FileName part) content host roots storedName targetPath mediaPreexisting)))))))))"

section \<open>The action\<close>

text \<open>Empty fields but the first are left out.\<close>

definition upload_json :: "upload_response \<Rightarrow> (string \<times> html) list" where
  "upload_json r =
     (''uploaded'', HInt (Uploaded r))
     # (if Upload_URL r = '''' then [] else [(''url'', HStr (Upload_URL r))])
     @ (if Upload_FileName r = '''' then [] else [(''fileName'', HStr (Upload_FileName r))])
     @ (if Upload_Size r = 0 then [] else [(''size'', HInt (Upload_Size r))])
     @ (if Upload_Warnings r = [] then [] else [(''warnings'', HList (map HStr (Upload_Warnings r)))])
     @ (if Upload_Error r = '''' then [] else [(''error'', HStr (Upload_Error r))])"

definition write_upload_json :: "nat \<Rightarrow> upload_response \<Rightarrow> unit srv" where
  "write_upload_json status r =
     respond [SetHeader ''Content-Type'' ''application/json'', WriteHeader status, EncodeJSON (upload_json r)]"

definition upload_failed :: "string \<Rightarrow> upload_response" where
  "upload_failed message =
     \<lparr>Uploaded = 0, Upload_URL = '''', Upload_FileName = '''', Upload_Size = 0, Upload_Warnings = [], Upload_Error = message\<rparr>"

definition upload_status :: "go_error \<Rightarrow> string \<Rightarrow> nat" where
  "upload_status err message =
     (if errors_is err errUploadTooLarge then 413
      else if contains message ''database media metadata'' then 500
      else if contains message ''write media'' then 500
      else 400)"

definition upload :: "image_decoder \<Rightarrow> settings \<Rightarrow> request \<Rightarrow> upload_body \<Rightarrow> unit srv" where
  "upload decode_config c request body =
     authenticated request (\<lambda>session.
     if Method request \<noteq> ''POST'' then
       bind_srv (respond [SetHeader ''Allow'' ''POST'']) (\<lambda>_. write_upload_json 405 (upload_failed ''method not allowed''))
     else if \<not> valid_upload_csrf request session then write_upload_json 403 (upload_failed ''forbidden'')
     else
       let uploadKind = upload_kind_from_request request in
       if uploadKind \<noteq> ''file'' \<and> uploadKind \<noteq> ''image'' then write_upload_json 400 (upload_failed ''invalid upload type'')
       else
       try_srv (save_uploaded_media decode_config c request body uploadKind)
         (\<lambda>err. with_world (\<lambda>w.
            let message = error_text err w in write_upload_json (upload_status err message) (upload_failed message)))
         (write_upload_json 200))"

end
