(* ===== verification/GoMime.thy ===== *)
theory GoMime
  imports GoStrings
begin

text \<open>
  \<open>mime.ParseMediaType\<close> of Go 1.19, as far as it tells a media type or an error; the decoding of continued
  parameters cannot fail and is left out.
\<close>

definition tspecial :: "char \<Rightarrow> bool" where
  "tspecial c \<longleftrightarrow> c \<in> set ''()<>@,;:/[]?='' \<or> c = CHR 0x5C \<or> c = CHR 0x22"

definition token_char :: "char \<Rightarrow> bool" where
  "token_char c \<longleftrightarrow> 32 < byte c \<and> byte c < 127 \<and> \<not> tspecial c"

definition consume_token :: "string \<Rightarrow> string \<times> string" where
  "consume_token v = (takeWhile token_char v, dropWhile token_char v)"

text \<open>The rest of a quoted string, or none when it does not end.\<close>

fun quoted_value :: "string \<Rightarrow> (string \<times> string) option" where
  "quoted_value [] = None"
| "quoted_value (c # cs) =
     (if c = CHR 0x22 then Some ('''', cs)
      else if c = CHR 0x5C \<and> cs \<noteq> '''' \<and> tspecial (hd cs) then
        (case cs of d # ds \<Rightarrow> map_option (\<lambda>(v, rest). (d # v, rest)) (quoted_value ds))
      else if c = CHR 0x0D \<or> c = CHR 0x0A then None
      else map_option (\<lambda>(v, rest). (c # v, rest)) (quoted_value cs))"

definition consume_value :: "string \<Rightarrow> string \<times> string" where
  "consume_value v =
     (if v = '''' then ('''', '''')
      else if hd v \<noteq> CHR 0x22 then consume_token v
      else case quoted_value (tl v) of None \<Rightarrow> ('''', v) | Some r \<Rightarrow> r)"

definition trim_left_space :: "string \<Rightarrow> string" where
  "trim_left_space = trim_left_func unicode_is_space"

definition consume_media_param :: "string \<Rightarrow> (string \<times> string \<times> string) option" where
  "consume_media_param v =
     (let rest = trim_left_space v in
      if \<not> has_prefix rest '';'' then None
      else case consume_token (trim_left_space (tl rest)) of (param, rest) \<Rightarrow>
        let rest = trim_left_space rest in
        if param = '''' \<or> \<not> has_prefix rest ''='' then None
        else
          let rest = trim_left_space (tl rest) in
          case consume_value rest of (value, rest2) \<Rightarrow>
            if value = '''' \<and> rest2 = rest then None else Some (to_lower param, value, rest2))"

text \<open>The loop over the parameters; each takes at least a semicolon, so \<open>fuel\<close> is the length of the text.\<close>

fun params_ok :: "nat \<Rightarrow> (string \<times> string) list \<Rightarrow> string \<Rightarrow> bool" where
  "params_ok fuel seen v =
     (let v = trim_left_space v in
      v = '''' \<or>
      (case (consume_media_param v, fuel) of
         (None, _) \<Rightarrow> trim_space v = '';''
       | (Some _, 0) \<Rightarrow> False
       | (Some (key, value, rest), Suc fuel') \<Rightarrow>
           (case map_of seen key of
              Some old \<Rightarrow> old = value \<and> params_ok fuel' seen rest
            | None \<Rightarrow> params_ok fuel' ((key, value) # seen) rest)))"

declare params_ok.simps [simp del]

definition media_type_ok :: "string \<Rightarrow> bool" where
  "media_type_ok s \<longleftrightarrow>
     (case consume_token s of (typ, rest) \<Rightarrow>
        typ \<noteq> '''' \<and>
        (rest = '''' \<or>
         (has_prefix rest ''/'' \<and> (case consume_token (tl rest) of (subtype, rest) \<Rightarrow> subtype \<noteq> '''' \<and> rest = ''''))))"

text \<open>The media type, when there is no error.\<close>

definition parse_media_type :: "string \<Rightarrow> string option" where
  "parse_media_type v =
     (let base = takeWhile (\<lambda>c. c \<noteq> CHR '';'') v; mediatype = trim_space (to_lower base) in
      if media_type_ok mediatype \<and> params_ok (length v) [] (drop (length base) v) then Some mediatype else None)"

end
