(* ===== verification/Grab.thy ===== *)
theory Grab
  imports GoMime GoUrl GoQuote GoTime Hosts
begin

text \<open>
  Fetching a page of another site (\<open>pkg/webserver/grab.go\<close>): which addresses the server may connect to, the fetch with
  its redirects, the cleaning of the page, and the template markers in it.
\<close>

section \<open>Addresses\<close>

text \<open>An address is its bytes. A prefix is an address and how many of its bits count.\<close>

type_synonym ip = "nat list"

definition ip_value :: "ip \<Rightarrow> nat" where
  "ip_value a = foldl (\<lambda>n b. 256 * n + b) 0 a"

definition prefix_contains :: "ip \<times> nat \<Rightarrow> ip \<Rightarrow> bool" where
  "prefix_contains p a =
     (case p of (base, bits) \<Rightarrow>
        length a = length base \<and>
        ip_value a div 2 ^ (8 * length base - bits) = ip_value base div 2 ^ (8 * length base - bits))"

text \<open>An address of version 6 that starts with the given groups and goes on with zeros.\<close>

definition ip6 :: "nat list \<Rightarrow> ip" where
  "ip6 groups = take 16 (concat (map (\<lambda>g. [g div 256, g mod 256]) groups) @ replicate 16 0)"

definition grab_special_use_prefixes :: "(ip \<times> nat) list" where
  "grab_special_use_prefixes =
    [([0, 0, 0, 0], 8), ([10, 0, 0, 0], 8), ([100, 64, 0, 0], 10), ([127, 0, 0, 0], 8), ([169, 254, 0, 0], 16),
     ([172, 16, 0, 0], 12), ([192, 0, 0, 0], 24), ([192, 0, 2, 0], 24), ([192, 88, 99, 0], 24), ([192, 168, 0, 0], 16),
     ([198, 18, 0, 0], 15), ([198, 51, 100, 0], 24), ([203, 0, 113, 0], 24), ([224, 0, 0, 0], 4), ([240, 0, 0, 0], 4),
     ([255, 255, 255, 255], 32),
     (ip6 [], 128), (ip6 [0, 0, 0, 0, 0, 0, 0, 1], 128), (ip6 [0, 0, 0, 0, 0, 0xFFFF], 96), (ip6 [0x64, 0xFF9B], 96),
     (ip6 [0x64, 0xFF9B, 1], 48), (ip6 [0x100], 64), (ip6 [0x2001], 23), (ip6 [0x2001, 2], 48), (ip6 [0x2001, 0xDB8], 32),
     (ip6 [0x2002], 16), (ip6 [0xFC00], 7), (ip6 [0xFE80], 10), (ip6 [0xFF00], 8)]"

definition grab_special_use_ip :: "ip \<Rightarrow> bool" where
  "grab_special_use_ip a = list_ex (\<lambda>p. prefix_contains p a) grab_special_use_prefixes"

text \<open>\<open>netip.Addr\<close>: four or sixteen bytes, and an address of version 4 in one of version 6.\<close>

definition unmap_ip :: "ip \<Rightarrow> ip" where
  "unmap_ip a = (if length a = 16 \<and> take 12 a = replicate 10 0 @ [255, 255] then drop 12 a else a)"

definition is_global_unicast :: "ip \<Rightarrow> bool" where
  "is_global_unicast a =
     (if length a = 4 then
        a \<noteq> [0, 0, 0, 0] \<and> a \<noteq> [255, 255, 255, 255] \<and> hd a \<noteq> 127 \<and> hd a div 16 \<noteq> 14 \<and> take 2 a \<noteq> [169, 254]
      else
        a \<noteq> ip6 [] \<and> a \<noteq> ip6 [0, 0, 0, 0, 0, 0, 0, 1] \<and> hd a \<noteq> 255 \<and> \<not> (hd a = 254 \<and> a ! 1 div 64 = 2))"

record grab_options =
  Timeout :: int
  MaxResponseBytes :: int
  MaxRedirects :: int
  AllowPrivateNetworksForTests :: bool

definition errGrabUnsafeURL :: go_error where
  "errGrabUnsafeURL = ErrText ''unsafe grab url''"

definition errGrabNonHTML :: go_error where
  "errGrabNonHTML = ErrText ''grab response is not HTML''"

definition errGrabTooLarge :: go_error where
  "errGrabTooLarge = ErrText ''grab response exceeds size limit''"

text \<open>\<open>fmt.Errorf("%w: ...", errGrabUnsafeURL)\<close>.\<close>

definition unsafe_url :: "string \<Rightarrow> 'a result" where
  "unsafe_url why = Inl (WrapErr '''' errGrabUnsafeURL ('': '' @ why))"

definition validate_grab_ip :: "ip \<Rightarrow> grab_options \<Rightarrow> unit result" where
  "validate_grab_ip a options =
     (if a = [] then unsafe_url ''invalid ip''
      else if AllowPrivateNetworksForTests options then Inr ()
      else if length a \<noteq> 4 \<and> length a \<noteq> 16 then unsafe_url ''invalid ip''
      else
        let addr = unmap_ip a in
        if \<not> is_global_unicast addr \<or> grab_special_use_ip addr
        then unsafe_url ''non-public or special-use address is not allowed''
        else Inr ())"

section \<open>The network\<close>

text \<open>
  What is outside of the program: the resolver, whose answer may differ from one query to the next; the text of a URL;
  the host that the transport dials for it; and what a server at an address answers to a request for a URL.
\<close>

datatype answer =
    NoAnswer go_error
  | Redirected url
  | Answered nat string string "go_error option"   \<comment> \<open>status, content type, body, and the error that cuts it off\<close>

record internet =
  Lookup :: "nat \<Rightarrow> string \<Rightarrow> ip list result"
  Url_Text :: "url \<Rightarrow> string"
  Dial_Host :: "url \<Rightarrow> string"
  Exchange :: "ip \<Rightarrow> url \<Rightarrow> answer"

section \<open>Which URLs may be fetched\<close>

definition resolve_grab_host :: "internet \<Rightarrow> grab_options \<Rightarrow> nat \<Rightarrow> string \<Rightarrow> ip list result" where
  "resolve_grab_host net options query host =
     (case parse_ip (trim_bytes host ''[]'') of
        Some a \<Rightarrow> bind_result (validate_grab_ip a options) (\<lambda>_. Inr [a])
      | None \<Rightarrow>
          (case Lookup net query host of
             Inl _ \<Rightarrow> unsafe_url ''dns lookup failed''
           | Inr ips \<Rightarrow>
               if ips = [] then unsafe_url ''dns lookup returned no addresses''
               else case find_first (\<lambda>a. validate_grab_ip a options \<noteq> Inr ()) ips of
                 Some a \<Rightarrow> bind_result (validate_grab_ip a options) (\<lambda>_. Inr [])
               | None \<Rightarrow> Inr ips))"

definition validate_grab_url :: "internet \<Rightarrow> grab_options \<Rightarrow> nat \<Rightarrow> string \<Rightarrow> (url \<times> ip list) result" where
  "validate_grab_url net options query rawURL =
     (let rawURL = trim_space rawURL in
      if rawURL = '''' then unsafe_url ''missing url''
      else case parse_url rawURL of
        Inl err \<Rightarrow> unsafe_url ''''
      | Inr parsed \<Rightarrow>
          if Url_Scheme parsed \<noteq> ''http'' \<and> Url_Scheme parsed \<noteq> ''https'' then unsafe_url ''unsupported scheme''
          else if Url_User parsed \<noteq> None then unsafe_url ''credentials are not allowed''
          else if Url_Host parsed = '''' then unsafe_url ''missing host''
          else
            let host = url_hostname parsed in
            if host = '''' then unsafe_url ''missing host''
            else bind_result (resolve_grab_host net options query host) (\<lambda>ips. Inr (parsed, ips)))"

section \<open>Fetching\<close>

definition defaultGrabOptions :: grab_options where
  "defaultGrabOptions =
     \<lparr>Timeout = 5 * second, MaxResponseBytes = 1024 * 1024, MaxRedirects = 3, AllowPrivateNetworksForTests = False\<rparr>"

definition normalize_grab_options :: "grab_options \<Rightarrow> grab_options" where
  "normalize_grab_options options =
     options\<lparr>Timeout := if Timeout options \<le> 0 then 5 * second else Timeout options,
       MaxResponseBytes := if MaxResponseBytes options \<le> 0 then 1024 * 1024 else MaxResponseBytes options,
       MaxRedirects := if MaxRedirects options \<le> 0 then 3 else MaxRedirects options\<rparr>"

text \<open>
  The state of a fetch: how many names have been resolved, the addresses of the hosts that were validated, and the
  addresses that were dialed, in order.
\<close>

record fetch =
  Queries :: nat
  ResolvedHosts :: "string \<rightharpoonup> ip list"
  Dialed :: "ip list"

text \<open>\<open>DialContext\<close>: the first validated address of the host.\<close>

definition dial_context :: "internet \<Rightarrow> url \<Rightarrow> fetch \<Rightarrow> ip result \<times> fetch" where
  "dial_context net u f =
     (case ResolvedHosts f (Dial_Host net u) of
        Some (a # _) \<Rightarrow> (Inr a, f\<lparr>Dialed := Dialed f @ [a]\<rparr>)
      | _ \<Rightarrow> (unsafe_url ''host was not validated before dialing'', f))"

definition check_redirect :: "internet \<Rightarrow> grab_options \<Rightarrow> nat \<Rightarrow> url \<Rightarrow> fetch \<Rightarrow> unit result \<times> fetch" where
  "check_redirect net options via u f =
     (if int via \<ge> MaxRedirects options then (Inl (ErrText ''grab redirect limit exceeded''), f)
      else
        let f' = f\<lparr>Queries := Suc (Queries f)\<rparr> in
        case validate_grab_url net options (Queries f) (Url_Text net u) of
          Inl err \<Rightarrow> (Inl err, f')
        | Inr (validated, ips) \<Rightarrow> (Inr (), f'\<lparr>ResolvedHosts := (ResolvedHosts f')(url_hostname validated \<mapsto> ips)\<rparr>))"

text \<open>
  \<open>client.Do\<close>: it follows redirects as long as \<open>CheckRedirect\<close> agrees, which the number of requests bounds; every
  request dials anew. \<open>left\<close> counts the redirects that are left.
\<close>

fun client_do :: "nat \<Rightarrow> internet \<Rightarrow> grab_options \<Rightarrow> nat \<Rightarrow> url \<Rightarrow> fetch \<Rightarrow> (url \<times> nat \<times> string \<times> string \<times> go_error option) result \<times> fetch"
  where
  "client_do left net options via u f =
     (case dial_context net u f of
        (Inl err, f) \<Rightarrow> (Inl err, f)
      | (Inr a, f) \<Rightarrow>
          (case Exchange net a u of
             NoAnswer err \<Rightarrow> (Inl err, f)
           | Answered status contentType body err \<Rightarrow> (Inr (u, status, contentType, body, err), f)
           | Redirected next \<Rightarrow>
               (case check_redirect net options (Suc via) next f of
                  (Inl err, f) \<Rightarrow> (Inl err, f)
                | (Inr _, f) \<Rightarrow>
                    (case left of
                       0 \<Rightarrow> (Inl (ErrText ''fuel''), f)
                     | Suc left' \<Rightarrow> client_do left' net options (Suc via) next f))))"

declare client_do.simps [simp del]

definition is_html_content_type :: "string \<Rightarrow> bool" where
  "is_html_content_type contentType =
     (case parse_media_type contentType of
        None \<Rightarrow> False
      | Some mediaType \<Rightarrow> to_lower mediaType = ''text/html'' \<or> to_lower mediaType = ''application/xhtml+xml'')"

text \<open>The marker of a template in a page.\<close>

record template_marker =
  Marker_Name :: string
  Marker_Source :: string
  Marker_Tag :: string
  Marker_Attributes :: "(string \<times> string) list"

record grab_result =
  Grab_URL :: string
  Grab_FinalURL :: string
  Grab_StatusCode :: nat
  Grab_Body :: string
  Grab_Warnings :: "string list"
  Grab_Templates :: "template_marker list"
  Grab_ImportedURI :: string

text \<open>The status, type and size of an answer.\<close>

definition accept_answer :: "internet \<Rightarrow> grab_options \<Rightarrow> url \<Rightarrow> url \<times> nat \<times> string \<times> string \<times> go_error option \<Rightarrow> grab_result result" where
  "accept_answer net options validated ans =
     (case ans of (final, status, contentType, body, broken) \<Rightarrow>
        if status < 200 \<or> 300 \<le> status then Inl (ErrText (''grab failed with status '' @ nat_digits status))
        else if \<not> is_html_content_type contentType then Inl errGrabNonHTML
        else
          let data = take (Suc (nat (MaxResponseBytes options))) body in
          if broken \<noteq> None \<and> int (length data) \<le> MaxResponseBytes options then Inl (the broken)
          else if int (length data) > MaxResponseBytes options then Inl errGrabTooLarge
          else Inr \<lparr>Grab_URL = Url_Text net validated, Grab_FinalURL = Url_Text net final, Grab_StatusCode = status,
                 Grab_Body = data, Grab_Warnings = [], Grab_Templates = [], Grab_ImportedURI = ''''\<rparr>)"

text \<open>\<open>http.NewRequest\<close> drops an empty port.\<close>

definition remove_empty_port :: "string \<Rightarrow> string" where
  "remove_empty_port host = trim_suffix host '':''"

definition fetch_grab_html :: "internet \<Rightarrow> grab_options \<Rightarrow> string \<Rightarrow> grab_result result \<times> ip list" where
  "fetch_grab_html net options rawURL =
     (let options = normalize_grab_options options in
      case validate_grab_url net options 0 rawURL of
        Inl err \<Rightarrow> (Inl err, [])
      | Inr (validated, ips) \<Rightarrow>
          (case parse_url (Url_Text net validated) of
             Inl err \<Rightarrow> (Inl err, [])
           | Inr req \<Rightarrow>
               let u = req\<lparr>Url_Host := remove_empty_port (Url_Host req)\<rparr>;
                   f = \<lparr>Queries = 1, ResolvedHosts = [url_hostname validated \<mapsto> ips], Dialed = []\<rparr> in
               (case client_do (nat (MaxRedirects options)) net options 0 u f of
                  (Inl err, f) \<Rightarrow> (Inl (WrapErr (''Get '' @ strconv_quote (Url_Text net u) @ '': '') err ''''), Dialed f)
                | (Inr ans, f) \<Rightarrow> (accept_answer net options validated ans, Dialed f))))"

end
