(* ===== verification/GoRegex.thy ===== *)
theory GoRegex
  imports GoStrings
begin

text \<open>
  Package \<open>regexp\<close>, for the expressions of the server: a match is the leftmost one, and of those the one that a
  backtracking search finds first. Repetition is of single characters. A subject is its runes, each with the bytes
  that it stands for; a byte that is not UTF-8 counts as the replacement character.
\<close>

section \<open>Subjects\<close>

type_synonym glyph = "nat \<times> string"

function glyphs :: "string \<Rightarrow> glyph list" where
  "glyphs [] = []"
| "glyphs (c # cs) =
     (fst (decode_rune (c # cs)), take (snd (decode_rune (c # cs))) (c # cs))
     # glyphs (drop (snd (decode_rune (c # cs))) (c # cs))"
  by pat_completeness auto
termination
  by (relation "measure length") (use decode_rune_width in \<open>auto simp: Suc_le_eq\<close>)

definition spelled :: "glyph list \<Rightarrow> string" where
  "spelled gs = concat (map snd gs)"

section \<open>Expressions\<close>

datatype re =
    One "nat \<Rightarrow> bool"         \<comment> \<open>a character\<close>
  | Many "nat \<Rightarrow> bool"        \<comment> \<open>\<open>*\<close>, as many as possible first\<close>
  | Few "nat \<Rightarrow> bool"         \<comment> \<open>\<open>*?\<close>, as few as possible first\<close>
  | Border                      \<comment> \<open>\<open>\b\<close>\<close>
  | AtStart                     \<comment> \<open>\<open>^\<close>\<close>
  | AtEnd                       \<comment> \<open>\<open>$\<close>\<close>
  | Then re re
  | Or re re
  | Group re                    \<comment> \<open>a group whose text is wanted\<close>

definition More :: "(nat \<Rightarrow> bool) \<Rightarrow> re" where
  "More p = Then (One p) (Many p)"

text \<open>A literal, in either case: the long s is an s and the Kelvin sign a k.\<close>

definition lower_rune :: "nat \<Rightarrow> nat" where
  "lower_rune r =
     (if 65 \<le> r \<and> r \<le> 90 then r + 32 else if r = 383 then 115 else if r = 8490 then 107 else r)"

definition letter_of :: "char \<Rightarrow> nat \<Rightarrow> bool" where
  "letter_of c r \<longleftrightarrow> lower_rune r = byte c"

fun word :: "string \<Rightarrow> re \<Rightarrow> re" where
  "word [] e = e"
| "word (c # cs) e = Then (One (letter_of c)) (word cs e)"

text \<open>A class with the case folded.\<close>

definition folded :: "(nat \<Rightarrow> bool) \<Rightarrow> nat \<Rightarrow> bool" where
  "folded p r \<longleftrightarrow> p (lower_rune r)"

definition rune_in :: "string \<Rightarrow> nat \<Rightarrow> bool" where
  "rune_in s r \<longleftrightarrow> r \<in> set (map byte s)"

definition rune_az :: "nat \<Rightarrow> bool" where
  "rune_az r \<longleftrightarrow> 97 \<le> r \<and> r \<le> 122"

definition rune_09 :: "nat \<Rightarrow> bool" where
  "rune_09 r \<longleftrightarrow> 48 \<le> r \<and> r \<le> 57"

text \<open>\<open>\s\<close> and the characters of \<open>\b\<close>.\<close>

definition re_space :: "nat \<Rightarrow> bool" where
  "re_space r \<longleftrightarrow> r \<in> {9, 10, 12, 13, 32}"

definition word_rune :: "nat \<Rightarrow> bool" where
  "word_rune r \<longleftrightarrow> rune_az r \<or> (65 \<le> r \<and> r \<le> 90) \<or> rune_09 r \<or> r = 95"

section \<open>Matching\<close>

text \<open>
  A cursor has the rune before it, what is left, and the texts of the groups so far. An expression takes a cursor
  to all the places where it can end, in the order in which a search tries them.
\<close>

type_synonym cursor = "nat option \<times> glyph list \<times> string list"

text \<open>After each number of characters, none first.\<close>

fun steps :: "(nat \<Rightarrow> bool) \<Rightarrow> nat option \<Rightarrow> glyph list \<Rightarrow> (nat option \<times> glyph list) list" where
  "steps p prev [] = [(prev, [])]"
| "steps p prev (g # gs) = (prev, g # gs) # (if p (fst g) then steps p (Some (fst g)) gs else [])"

definition border :: "nat option \<Rightarrow> glyph list \<Rightarrow> bool" where
  "border prev gs \<longleftrightarrow>
     (case prev of None \<Rightarrow> False | Some r \<Rightarrow> word_rune r) \<noteq> (case gs of [] \<Rightarrow> False | g # _ \<Rightarrow> word_rune (fst g))"

fun ends :: "re \<Rightarrow> cursor \<Rightarrow> cursor list" where
  "ends (One p) (l, gs, caps) = (case gs of [] \<Rightarrow> [] | g # rest \<Rightarrow> if p (fst g) then [(Some (fst g), rest, caps)] else [])"
| "ends (Many p) (l, gs, caps) = map (\<lambda>(l, gs). (l, gs, caps)) (rev (steps p l gs))"
| "ends (Few p) (l, gs, caps) = map (\<lambda>(l, gs). (l, gs, caps)) (steps p l gs)"
| "ends Border (l, gs, caps) = (if border l gs then [(l, gs, caps)] else [])"
| "ends AtStart (l, gs, caps) = (if l = None then [(l, gs, caps)] else [])"
| "ends AtEnd (l, gs, caps) = (if gs = [] then [(l, gs, caps)] else [])"
| "ends (Then a b) c = concat (map (ends b) (ends a c))"
| "ends (Or a b) c = ends a c @ ends b c"
| "ends (Group a) (l, gs, caps) =
     map (\<lambda>(l', gs', caps'). (l', gs', caps' @ [spelled (take (length gs - length gs') gs)])) (ends a (l, gs, caps))"

text \<open>The first match at a place: its glyphs, what follows, and its groups.\<close>

definition match_here :: "re \<Rightarrow> nat option \<Rightarrow> glyph list \<Rightarrow> (glyph list \<times> glyph list \<times> string list) option" where
  "match_here e prev gs =
     (case ends e (prev, gs, []) of
        [] \<Rightarrow> None
      | (_, rest, caps) # _ \<Rightarrow> Some (take (length gs - length rest) gs, rest, caps))"

text \<open>\<open>MatchString\<close>.\<close>

fun matches_from :: "re \<Rightarrow> nat option \<Rightarrow> glyph list \<Rightarrow> bool" where
  "matches_from e prev [] = (match_here e prev [] \<noteq> None)"
| "matches_from e prev (g # gs) = (match_here e prev (g # gs) \<noteq> None \<or> matches_from e (Some (fst g)) gs)"

definition match_string :: "re \<Rightarrow> string \<Rightarrow> bool" where
  "match_string e s = matches_from e None (glyphs s)"

text \<open>
  The pieces of a subject, for expressions that match no empty text: glyphs that no match has, and matches with their
  groups. Every turn uses up a glyph, so \<open>fuel\<close> is the length of the subject.
\<close>

datatype piece = Gap glyph | Match "glyph list" "string list"

fun pieces_from :: "nat \<Rightarrow> re \<Rightarrow> nat option \<Rightarrow> glyph list \<Rightarrow> piece list" where
  "pieces_from fuel e prev [] = []"
| "pieces_from 0 e prev (g # gs) = []"
| "pieces_from (Suc fuel) e prev (g # gs) =
     (case match_here e prev (g # gs) of
        None \<Rightarrow> Gap g # pieces_from fuel e (Some (fst g)) gs
      | Some (m, rest, caps) \<Rightarrow> Match m caps # pieces_from fuel e (Some (fst (if m = [] then g else m ! (length m - 1)))) rest)"

definition pieces :: "re \<Rightarrow> string \<Rightarrow> piece list" where
  "pieces e s = pieces_from (length (glyphs s)) e None (glyphs s)"

text \<open>\<open>ReplaceAllStringFunc\<close>; the function also gets the groups.\<close>

definition replace_all :: "re \<Rightarrow> (string \<Rightarrow> string list \<Rightarrow> string) \<Rightarrow> string \<Rightarrow> string" where
  "replace_all e f s =
     concat (map (\<lambda>p. case p of Gap g \<Rightarrow> snd g | Match m caps \<Rightarrow> f (spelled m) caps) (pieces e s))"

text \<open>\<open>FindAllStringSubmatch\<close>: the groups of every match.\<close>

definition find_all :: "re \<Rightarrow> string \<Rightarrow> string list list" where
  "find_all e s = concat (map (\<lambda>p. case p of Gap g \<Rightarrow> [] | Match m caps \<Rightarrow> [caps]) (pieces e s))"

section \<open>Removing matches\<close>

lemma spelled_glyphs [simp]: "spelled (glyphs s) = s"
proof (induction s rule: glyphs.induct)
  case (2 c cs)
  have "spelled (glyphs (c # cs)) = take (snd (decode_rune (c # cs))) (c # cs) @ drop (snd (decode_rune (c # cs))) (c # cs)"
    using "2.IH" unfolding spelled_def glyphs.simps by simp
  then show ?case by (simp only: append_take_drop_id)
qed (simp add: spelled_def)

text \<open>A text without a match stays as it is.\<close>

lemma pieces_from_gaps:
  "\<not> matches_from e prev gs \<Longrightarrow> length gs \<le> fuel \<Longrightarrow> pieces_from fuel e prev gs = map Gap gs"
  by (induction fuel e prev gs rule: pieces_from.induct) (auto split: option.split)

lemma replace_all_none: "\<not> match_string e s \<Longrightarrow> replace_all e f s = s"
  using spelled_glyphs [of s]
  by (simp add: replace_all_def pieces_def match_string_def pieces_from_gaps spelled_def o_def)

end
