(* ===== verification/GrabPage.thy ===== *)
theory GrabPage
  imports Grab GoRegex Revisions Accounts
begin

text \<open>
  What becomes of a fetched page (\<open>pkg/webserver/grab.go\<close>): active elements and attributes are removed, the markers of
  templates are found and stored, and the page is saved like an edit.
\<close>

section \<open>Expressions\<close>

definition tag_open :: "re \<Rightarrow> re" where
  "tag_open e = Then (One (rune_in ''<'')) (Then (Many re_space) e)"

definition not_gt :: "nat \<Rightarrow> bool" where
  "not_gt r \<longleftrightarrow> r \<noteq> 62"

definition tag_rest :: re where
  "tag_rest = Then Border (Then (Many not_gt) (One (rune_in ''>'')))"

definition attr_first :: "nat \<Rightarrow> bool" where
  "attr_first r \<longleftrightarrow> rune_az r \<or> r = 95 \<or> r = 58"

definition attr_more :: "nat \<Rightarrow> bool" where
  "attr_more r \<longleftrightarrow> r = 45 \<or> rune_az r \<or> rune_09 r \<or> r = 95 \<or> r = 58 \<or> r = 46"

definition unquoted :: "nat \<Rightarrow> bool" where
  "unquoted r \<longleftrightarrow> \<not> re_space r \<and> r \<noteq> 34 \<and> r \<noteq> 39 \<and> \<not> rune_in ''=<>`'' r"

definition quoted_by :: "nat \<Rightarrow> re" where
  "quoted_by q = Then (One (\<lambda>r. r = q)) (Then (Many (\<lambda>r. r \<noteq> q)) (One (\<lambda>r. r = q)))"

definition templateAttrPattern :: re where
  "templateAttrPattern =
     Then (Group (Then (One (folded attr_first)) (Many (folded attr_more))))
       (Then (Many re_space) (Then (One (rune_in ''='')) (Then (Many re_space)
         (Group (Or (quoted_by 34) (Or (quoted_by 39) (More unquoted)))))))"

definition htmlAttrPattern :: re where
  "htmlAttrPattern = Then (More re_space) templateAttrPattern"

definition templateTagPattern :: re where
  "templateTagPattern =
     Then (One (rune_in ''<''))
       (Then (Group (Then (One (folded rune_az)) (Many (folded (\<lambda>r. rune_az r \<or> rune_09 r \<or> r = 58 \<or> r = 45)))))
         (Then (Group (Many not_gt)) (One (rune_in ''>''))))"

definition htmlTagPattern :: re where
  "htmlTagPattern = Then (One (rune_in ''<'')) (Then (One (\<lambda>r. r \<noteq> 33)) (Then (Many not_gt) (One (rune_in ''>''))))"

definition activeElementPattern :: re where
  "activeElementPattern =
     Then (tag_open (word ''script'' tag_rest))
       (Then (Few (\<lambda>_. True))
         (Then (One (rune_in ''<'')) (Then (Many re_space) (Then (One (rune_in ''/'')) (Then (Many re_space)
           (word ''script'' (Then (Many re_space) (One (rune_in ''>'')))))))))"

definition activeStartTagPattern :: re where
  "activeStartTagPattern =
     tag_open (Or (word ''script'' tag_rest) (Or (word ''iframe'' tag_rest) (Or (word ''object'' tag_rest)
       (Or (word ''embed'' tag_rest) (word ''applet'' tag_rest)))))"

definition baseTagPattern :: re where
  "baseTagPattern = tag_open (word ''base'' tag_rest)"

definition metaTagPattern :: re where
  "metaTagPattern = tag_open (word ''meta'' tag_rest)"

definition siteBrushTemplateClass :: re where
  "siteBrushTemplateClass =
     Then (Or AtStart (One re_space))
       (word ''sitebrushtemplate'' (Then (Many (\<lambda>r. r = 45 \<or> folded word_rune r)) (Or (One re_space) AtEnd)))"

text \<open>The bound on the length is tested apart from the expression, in bytes; all that it allows has one byte.\<close>

definition templateMarkerName :: re where
  "templateMarkerName =
     Then AtStart (Then (One (\<lambda>r. rune_az r \<or> (65 \<le> r \<and> r \<le> 90)))
       (Then (Many (\<lambda>r. word_rune r \<or> r = 45)) AtEnd))"

section \<open>Attributes\<close>

definition unquote_value :: "string \<Rightarrow> string" where
  "unquote_value value =
     (let value = trim_space value in
      if length value \<ge> 2 \<and> (hd value = CHR 0x22 \<or> hd value = CHR 0x27) \<and> value ! (length value - 1) = hd value
      then butlast (tl value) else value)"

text \<open>The last attribute of a name counts.\<close>

definition parse_template_attrs :: "string \<Rightarrow> (string \<times> string) list" where
  "parse_template_attrs raw =
     foldl (\<lambda>attrs m. AList.update (to_lower (m ! 0)) (unquote_value (m ! 1)) attrs) [] (find_all templateAttrPattern raw)"

definition attr_value :: "string \<Rightarrow> (string \<times> string) list \<Rightarrow> string" where
  "attr_value name attrs = (case map_of attrs name of None \<Rightarrow> '''' | Some v \<Rightarrow> v)"

definition is_meta_refresh_tag :: "string \<Rightarrow> bool" where
  "is_meta_refresh_tag tag \<longleftrightarrow>
     map lower_rune (runes (trim_space (attr_value ''http-equiv'' (parse_template_attrs tag)))) = map byte ''refresh''"

section \<open>Cleaning\<close>

text \<open>\<open>html.UnescapeString\<close>, which knows every entity of HTML, is an argument.\<close>

definition unquote_html_attr :: "(string \<Rightarrow> string) \<Rightarrow> string \<Rightarrow> string" where
  "unquote_html_attr unescape value = unescape (unquote_value value)"

definition normalize_imported_url_for_safety :: "string \<Rightarrow> string" where
  "normalize_imported_url_for_safety value =
     concat (map (\<lambda>r. if r \<le> 32 \<or> r = 127 then [] else encode_rune r) (runes (to_lower (trim_space value))))"

definition dangerous_imported_url_attr :: "string \<Rightarrow> string \<Rightarrow> bool" where
  "dangerous_imported_url_attr name value =
     (if name \<notin> set [''href'', ''src'', ''action'', ''formaction'', ''xlink:href''] then False
      else
        let normalized = normalize_imported_url_for_safety value in
        if has_prefix normalized ''javascript:'' \<or> has_prefix normalized ''data:'' then True
        else if name = ''action'' \<or> name = ''formaction'' then
          has_prefix normalized ''http:'' \<or> has_prefix normalized ''https:'' \<or> has_prefix normalized ''//''
        else False)"

definition clean_attr :: "(string \<Rightarrow> string) \<Rightarrow> string \<Rightarrow> string list \<Rightarrow> string" where
  "clean_attr unescape attr groups =
     (let name = to_lower (groups ! 0); value = unquote_html_attr unescape (groups ! 1) in
      if has_prefix name ''on'' then ''''
      else if dangerous_imported_url_attr name value then ''''
      else attr)"

definition sanitize_imported_html :: "(string \<Rightarrow> string) \<Rightarrow> string \<Rightarrow> string" where
  "sanitize_imported_html unescape input =
     (let sanitized = replace_all activeElementPattern (\<lambda>_ _. '''') input;
          sanitized = replace_all activeStartTagPattern (\<lambda>_ _. '''') sanitized;
          sanitized = replace_all baseTagPattern (\<lambda>_ _. '''') sanitized;
          sanitized = replace_all metaTagPattern (\<lambda>tag _. if is_meta_refresh_tag tag then '''' else tag) sanitized
      in replace_all htmlTagPattern (\<lambda>tag _. replace_all htmlAttrPattern (clean_attr unescape) tag) sanitized)"

section \<open>Templates\<close>

definition maxTemplateMarkersPerPage :: nat where
  "maxTemplateMarkersPerPage = 100"

definition maxTemplateMarkerNameLen :: nat where
  "maxTemplateMarkerNameLen = 64"

definition valid_template_marker_name :: "string \<Rightarrow> bool" where
  "valid_template_marker_name name \<longleftrightarrow>
     0 < length name \<and> length name \<le> maxTemplateMarkerNameLen \<and> match_string templateMarkerName name"

text \<open>\<open>strings.Fields\<close>.\<close>

fun fields_from :: "glyph list \<Rightarrow> string \<Rightarrow> string list" where
  "fields_from [] acc = (if acc = '''' then [] else [acc])"
| "fields_from (g # gs) acc =
     (if unicode_is_space (fst g) then (if acc = '''' then fields_from gs '''' else acc # fields_from gs '''')
      else fields_from gs (acc @ snd g))"

definition string_fields :: "string \<Rightarrow> string list" where
  "string_fields s = fields_from (glyphs s) ''''"

definition marker_name :: "(string \<times> string) list \<Rightarrow> (string \<times> string) option" where
  "marker_name attrs =
     (case map_of attrs ''data-sitebrush-template'' of
        Some value \<Rightarrow>
          let value = trim_space value; value = (if value = '''' then ''sitebrush-template'' else value) in
          if valid_template_marker_name value then Some (value, ''data-sitebrush-template'') else None
      | None \<Rightarrow>
          map_option (\<lambda>className. (className, ''class''))
            (find_first (\<lambda>className. match_string siteBrushTemplateClass className \<and> valid_template_marker_name className)
               (string_fields (attr_value ''class'' attrs))))"

definition marker_of_tag :: "string list \<Rightarrow> template_marker option" where
  "marker_of_tag m =
     (let attrs = parse_template_attrs (m ! 1) in
      map_option (\<lambda>(name, source). \<lparr>Marker_Name = name, Marker_Source = source, Marker_Tag = to_lower (m ! 0),
          Marker_Attributes = attrs\<rparr>)
        (marker_name attrs))"

definition detect_template_markers :: "string \<Rightarrow> template_marker list" where
  "detect_template_markers page = take maxTemplateMarkersPerPage (List.map_filter marker_of_tag (find_all templateTagPattern page))"

definition template_metadata_path :: "settings \<Rightarrow> string \<Rightarrow> string" where
  "template_metadata_path c requestURI = path_join [archive_root c, ''templates'', safe_archive_name requestURI @ ''.json'']"

text \<open>The JSON of a marker and of the file of a page; the keys of a map are sorted.\<close>

definition marker_json :: "template_marker \<Rightarrow> json" where
  "marker_json m = JObj
     ([(''name'', JStr (json_escape (Marker_Name m))), (''source'', JStr (json_escape (Marker_Source m))),
       (''tag'', JStr (json_escape (Marker_Tag m)))]
      @ (if Marker_Attributes m = [] then []
         else [(''attributes'', JObj (map (\<lambda>(k, v). (json_escape k, JStr (json_escape v)))
                 (sort_key (\<lambda>kv. map byte (fst kv)) (Marker_Attributes m))))]))"

definition template_sidecar :: "string \<Rightarrow> time \<Rightarrow> template_marker list \<Rightarrow> json option" where
  "template_sidecar requestURI now markers =
     map_option (\<lambda>t. JObj
       [(''request_uri'', JStr (json_escape requestURI)), (''updated_at'', JStr t), (''templates'', JArr (map marker_json markers))])
       (marshal_time now)"

definition save_marker :: "settings \<Rightarrow> string \<Rightarrow> template_marker \<Rightarrow> template io" where
  "save_marker c domain m =
     save_template_from_config c
       \<lparr>Template_Id = 0, Template_Name = Marker_Name m, Template_Data = json_print compact 0 (marker_json m),
        Template_Status = ''active'', Template_Domain = domain\<rparr>"

definition persist_template_markers :: "settings \<Rightarrow> request \<Rightarrow> string \<Rightarrow> template_marker list \<Rightarrow> unit io" where
  "persist_template_markers c request requestURI markers =
     bind_io time_now (\<lambda>now.
     bind_io (case template_sidecar requestURI now markers of
                None \<Rightarrow> fail_io ErrJson
              | Some j \<Rightarrow> atomic_write_file (template_metadata_path c requestURI) (json_print indented 0 j) 384) (\<lambda>_.
     if markers = [] \<or> \<not> db_post_revision_configured c then ret_io ()
     else (\<lambda>w. case trusted_db_revision_domain w request of
       (domain, trusted) \<Rightarrow> bind_io (each_io (save_marker c domain) markers) (\<lambda>_. ret_io ()) w)))"

section \<open>The action\<close>

definition grab_target_file :: "settings \<Rightarrow> string \<Rightarrow> string \<Rightarrow> string io" where
  "grab_target_file c currentFileName requestedPath =
     (let requestedPath = trim_space requestedPath in
      if requestedPath = '''' then ret_io currentFileName
      else safe_writable_static_file_path c
        (if \<not> has_prefix requestedPath ''/'' then ''/'' @ requestedPath else requestedPath))"

definition import_grabbed_page ::
  "internet \<Rightarrow> (string \<Rightarrow> string) \<Rightarrow> settings \<Rightarrow> request \<Rightarrow> operator_session \<Rightarrow> string \<Rightarrow> string \<Rightarrow> grab_result io" where
  "import_grabbed_page net unescape c request session fileName rawURL =
     bind_io (lift_io (fst (fetch_grab_html net defaultGrabOptions rawURL))) (\<lambda>fetched.
     let sanitizedBody = sanitize_imported_html unescape (Grab_Body fetched) in
     bind_io (save_edited_file c request session fileName sanitizedBody) (\<lambda>_.
     bind_io (canonical_request_uri_for_file c fileName) (\<lambda>requestURI.
     let templates = detect_template_markers sanitizedBody in
     bind_io (persist_template_markers c request requestURI templates) (\<lambda>_.
     ret_io (fetched\<lparr>Grab_Body := sanitizedBody, Grab_ImportedURI := requestURI, Grab_Templates := templates,
       Grab_Warnings := Grab_Warnings fetched @
         [''recursive asset fetching is deferred; external asset URLs were left unchanged'']\<rparr>)))))"

definition grab_error_status :: "go_error \<Rightarrow> nat" where
  "grab_error_status err =
     (if errors_is err errGrabUnsafeURL then 400
      else if errors_is err errGrabNonHTML then 415
      else if errors_is err errGrabTooLarge then 413
      else 500)"

definition write_grab_error :: "go_error \<Rightarrow> unit srv" where
  "write_grab_error err = with_world (\<lambda>w. respond [HttpError (error_text err w) (grab_error_status err)])"

definition grab_values :: "grab_result \<Rightarrow> (string \<times> html) list" where
  "grab_values r =
    [(''URL'', HStr (Grab_URL r)), (''FinalURL'', HStr (Grab_FinalURL r)), (''StatusCode'', HInt (int (Grab_StatusCode r))),
     (''Body'', HStr (Grab_Body r)), (''Warnings'', HList (map HStr (Grab_Warnings r))),
     (''Templates'', HList (map (\<lambda>m. HStruct [(''Name'', HStr (Marker_Name m)), (''Source'', HStr (Marker_Source m)),
        (''Tag'', HStr (Marker_Tag m))]) (Grab_Templates r))),
     (''ImportedURI'', HStr (Grab_ImportedURI r))]"

definition grab :: "internet \<Rightarrow> (string \<Rightarrow> string) \<Rightarrow> settings \<Rightarrow> request \<Rightarrow> string \<Rightarrow> unit srv" where
  "grab net unescape c request fileName =
     authenticated request (\<lambda>session.
     if Method request = ''GET'' then
       respond [RenderHTML ''Grab remote page'' ''grabFormTemplate''
         [(''Action'', HStr (URL_Path request @ ''?grab'')), (''CSRF'', HStr (CSRFToken session))]]
     else if Method request = ''POST'' then
       csrf_checked request session (
       form_parsed request ''Invalid grab request'' (
       try_srv (grab_target_file c fileName (Form_Value request ''target_path''))
         (\<lambda>_. respond [HttpError ''Forbidden'' 403]) (\<lambda>targetFile.
       try_srv (import_grabbed_page net unescape c request session targetFile (Form_Value request ''url''))
         write_grab_error
         (\<lambda>result. respond [RenderHTML ''Grab complete'' ''grabResultTemplate'' (grab_values result)]))))
     else method_not_allowed ''GET, POST'')"

end
