(* ===== verification/Serve.thy ===== *)
theory Serve
  imports EditSafety PageInfo Snapshot Subpages Restore Upload GrabPage
begin

text \<open>
  The handlers of the actions and the request handler itself (\<open>pkg/webserver/functions.go\<close>).
\<close>

section \<open>Reading handlers\<close>

definition check_file_exist :: "string \<Rightarrow> bool io" where
  "check_file_exist p =
     catch_io (os_stat p) (\<lambda>err. ret_io (\<not> errors_is err OsErrNotExist)) (\<lambda>_. ret_io True)"

text \<open>The process number is an argument.\<close>

definition probe_name :: "nat \<Rightarrow> time \<Rightarrow> string" where
  "probe_name pid now = ''.sitebrush-healthz-'' @ nat_digits pid @ ''-'' @ int_digits now"

definition ensure_usable_directory :: "nat \<Rightarrow> string \<Rightarrow> unit io" where
  "ensure_usable_directory pid p =
     (let p = (if p = '''' then ''.'' else p) in
      bind_io (os_mkdir_all p 493) (\<lambda>_.
      bind_io (os_stat p) (\<lambda>info.
      if \<not> is_dir info then fail_io (ErrText ''path is not a directory'')
      else
      bind_io time_now (\<lambda>now.
      let probePath = path_join [p, probe_name pid now] in
      bind_io (open_trunc probePath 384) (\<lambda>probe.
      catch_io (file_write probe (''ok'' @ [CHR 0x0A]))
        (\<lambda>err. ignoring (file_close probe) (ignoring (os_remove probePath) (fail_io err))) (\<lambda>_.
      catch_io (file_close probe) (\<lambda>err. ignoring (os_remove probePath) (fail_io err)) (\<lambda>_.
      os_remove probePath)))))))"

definition check_readiness :: "nat \<Rightarrow> settings \<Rightarrow> unit io" where
  "check_readiness pid c =
     bind_io (ensure_usable_directory pid (WEB_FILE_PATH c)) (\<lambda>_. ensure_usable_directory pid (archive_root c))"

definition health :: "nat \<Rightarrow> settings \<Rightarrow> request \<Rightarrow> unit srv" where
  "health pid c request =
     (if Method request \<noteq> ''GET'' \<and> Method request \<noteq> ''HEAD'' then method_not_allowed ''GET, HEAD''
      else
        bind_srv (lift_srv (check_readiness pid c)) (\<lambda>r.
          let (status, text) = (case r of Inl _ \<Rightarrow> (503, ''unavailable'') | Inr _ \<Rightarrow> (200, ''ok'')) in
          bind_srv (respond [SetHeader ''Cache-Control'' ''no-store'', SetHeader ''Content-Type'' ''application/json'', WriteHeader status])
            (\<lambda>_. if Method request = ''HEAD'' then ret_srv () else respond [EncodeJSON [(''status'', HStr text)]])))"

section \<open>Handlers of a page\<close>

definition edit_get :: "request \<Rightarrow> operator_session \<Rightarrow> string \<Rightarrow> unit srv" where
  "edit_get request session fileName =
     try_srv (catch_io (os_read_file fileName) (\<lambda>err. if \<not> errors_is err OsErrNotExist then fail_io err else ret_io '''') ret_io)
       (\<lambda>_. respond [HttpError ''Could not load page'' 500])
       (\<lambda>body. respond [RenderHTML (''Edit '' @ URL_Path request) ''editFormTemplate''
          [(''Action'', HStr (URL_Path request @ ''?edit'')), (''Body'', HStr body), (''CSRF'', HStr (CSRFToken session))]])"

definition edit :: "settings \<Rightarrow> request \<Rightarrow> string \<Rightarrow> unit srv" where
  "edit c request fileName =
     authenticated request (\<lambda>session.
     if Method request = ''GET'' then edit_get request session fileName
     else if Method request = ''POST'' then
       csrf_checked request session (
       form_parsed request ''Invalid edit request'' (
       try_srv (save_edited_file c request session fileName (Form_Value request ''content''))
         (\<lambda>_. respond [HttpError ''Save failed'' 500])
         (\<lambda>_. respond [HttpRedirect (URL_Path request @ ''?revisions'') 303])))
     else method_not_allowed ''GET, POST'')"

definition revision_html :: "revision_record \<Rightarrow> html" where
  "revision_html r = HStruct [(''Revision'', HInt (Rev_Revision r)), (''CreatedAt'', HTime (Rev_CreatedAt r)), (''Checksum'', HStr (Rev_Checksum r))]"

definition db_revision_html :: "db_revision_metadata \<Rightarrow> html" where
  "db_revision_html r = HStruct
     [(''Revision'', HInt (DbRev_Revision r)), (''Status'', HStr (DbRev_Status r)), (''Published'', HBool (DbRev_Published r)),
      (''Domain'', HStr (DbRev_Domain r)), (''RequestURI'', HStr (DbRev_RequestURI r)), (''Type'', HStr (DbRev_Type r)),
      (''CreatedAt'', HTime (DbRev_CreatedAt r))]"

definition revisions_get :: "settings \<Rightarrow> request \<Rightarrow> operator_session \<Rightarrow> string \<Rightarrow> unit srv" where
  "revisions_get c request session fileName =
     try_srv (bind_io (canonical_request_uri_for_file c fileName) (\<lambda>requestURI.
              bind_io (load_revisions c requestURI) (\<lambda>records. ret_io (requestURI, records))))
       (\<lambda>_. respond [HttpError ''Could not load revisions'' 500]) (\<lambda>(requestURI, records).
     try_srv (load_db_revision_metadata c request requestURI)
       (\<lambda>_. respond [HttpError ''Could not load database revisions'' 500]) (\<lambda>dbRecords.
     respond [RenderHTML (''Revisions '' @ URL_Path request) ''revisionsTemplate''
       [(''Records'', HList (map revision_html records)), (''DBRecords'', HList (map db_revision_html dbRecords)),
        (''Action'', HStr (URL_Path request @ ''?revisions'')), (''CSRF'', HStr (CSRFToken session))]]))"

definition revisions_post :: "settings \<Rightarrow> request \<Rightarrow> operator_session \<Rightarrow> string \<Rightarrow> unit srv" where
  "revisions_post c request session fileName =
     (let revision = Form_Value request ''revision'' in
      if revision = '''' then respond [HttpError ''Missing revision'' 400]
      else
      try_srv (bind_io (canonical_request_uri_for_file c fileName) (\<lambda>requestURI. find_revision c requestURI revision))
        (\<lambda>_. respond [HttpError ''Revision not found'' 404]) (\<lambda>record.
      try_srv (save_edited_file c request session fileName (Rev_AfterContent record))
        (\<lambda>_. respond [HttpError ''Restore failed'' 500])
        (\<lambda>_. respond [HttpRedirect (URL_Path request @ ''?revisions'') 303])))"

definition revisions :: "settings \<Rightarrow> request \<Rightarrow> string \<Rightarrow> unit srv" where
  "revisions c request fileName =
     authenticated request (\<lambda>session.
     if Method request = ''GET'' then revisions_get c request session fileName
     else if Method request = ''POST'' then
       csrf_checked request session (form_parsed request ''Invalid restore request'' (revisions_post c request session fileName))
     else method_not_allowed ''GET, POST'')"

definition subpages :: "settings \<Rightarrow> request \<Rightarrow> string \<Rightarrow> unit srv" where
  "subpages c request fileName =
     authenticated request (\<lambda>session.
     if Method request = ''GET'' then
       try_srv (bind_io (canonical_request_uri_for_file c fileName) (\<lambda>requestURI.
                bind_io (list_static_pages_under c requestURI) (\<lambda>pages. ret_io (requestURI, pages))))
         (\<lambda>_. respond [HttpError ''Could not list subpages'' 500]) (\<lambda>(requestURI, pages).
       respond [RenderHTML ''Subpages'' ''subpagesTemplate''
         [(''CurrentPath'', HStr requestURI), (''Pages'', HList (map HStr pages)),
          (''Action'', HStr (URL_Path request @ ''?subpages'')), (''CSRF'', HStr (CSRFToken session))]])
     else if Method request = ''POST'' then
       csrf_checked request session (
       form_parsed request ''Invalid subpage request'' (
       try_srv (create_subpage c fileName (Form_Value request ''path'') (Form_Value request ''title''))
         (\<lambda>err. respond [if errors_is err ErrUnsafePath then HttpError ''Forbidden'' 403
                          else if errors_is err OsErrExist then HttpError ''Subpage already exists'' 409
                          else HttpError ''Could not create subpage'' 500])
         (\<lambda>_. respond [HttpRedirect (URL_Path request @ ''?subpages'') 303])))
     else method_not_allowed ''GET, POST'')"

definition properties :: "settings \<Rightarrow> request \<Rightarrow> string \<Rightarrow> unit srv" where
  "properties c request fileName =
     authenticated request (\<lambda>session.
     if Method request = ''GET'' then
       try_srv (bind_io (canonical_request_uri_for_file c fileName) (\<lambda>requestURI.
                bind_io (load_page_metadata c request requestURI) (\<lambda>metadata. ret_io (requestURI, metadata))))
         (\<lambda>_. respond [HttpError ''Could not load properties'' 500]) (\<lambda>(requestURI, metadata).
       respond [RenderHTML ''Properties'' ''propertiesTemplate''
         [(''Action'', HStr (URL_Path request @ ''?properties'')), (''CSRF'', HStr (CSRFToken session)),
          (''Path'', HStr requestURI), (''NewPath'', HStr requestURI), (''Title'', HStr (Meta_Title metadata)),
          (''Tags'', HStr (Meta_Tags metadata)), (''Status'', HStr (Meta_Status metadata)),
          (''Published'', HBool (Meta_Published metadata))]])
     else if Method request = ''POST'' then
       csrf_checked request session (
       form_parsed request ''Invalid properties request'' (
       try_srv (update_properties c request fileName)
         (\<lambda>err. respond [if errors_is err ErrUnsafePath then HttpError ''Forbidden'' 403
                          else if errors_is err OsErrExist then HttpError ''Target path already exists'' 409
                          else HttpError ''Property update failed'' 500])
         (\<lambda>newURI. respond [HttpRedirect (newURI @ ''?properties'') 303])))
     else method_not_allowed ''GET, POST'')"

section \<open>Handlers of the site\<close>

text \<open>The guards of an action that only a POST may cause.\<close>

definition posted :: "request \<Rightarrow> unit srv \<Rightarrow> unit srv" where
  "posted request body =
     authenticated request (\<lambda>session.
     if Method request \<noteq> ''POST'' then method_not_allowed ''POST'' else csrf_checked request session body)"

definition set_freeze :: "settings \<Rightarrow> request \<Rightarrow> bool \<Rightarrow> unit srv" where
  "set_freeze c request frozen =
     posted request (
     try_srv (publish_snapshot c) (\<lambda>_. respond [HttpError ''Could not publish site snapshot'' 500]) (\<lambda>_.
     try_srv (bind_io time_now (\<lambda>now. write_site_state c \<lparr>Frozen = frozen, State_UpdatedAt = now\<rparr>))
       (\<lambda>_. respond [HttpError ''Could not update site state'' 500])
       (\<lambda>_. respond [Fprint (''Site is '' @ (if frozen then ''frozen'' else ''unfrozen''))])))"

definition backup_json :: "backup_record \<Rightarrow> (string \<times> html) list" where
  "backup_json r =
    [(''path'', HStr (Rec_Path r)), (''checksum'', HStr (Rec_Checksum r)), (''size'', HInt (Rec_Size r)),
     (''created_at'', HTime (Rec_CreatedAt r))]"

definition answer_backup :: "backup_record \<Rightarrow> unit srv" where
  "answer_backup r = respond [SetHeader ''Content-Type'' ''application/json'', EncodeJSON (backup_json r)]"

definition backup_action :: "zip_format \<Rightarrow> settings \<Rightarrow> request \<Rightarrow> unit srv" where
  "backup_action z c request =
     posted request (
     if Form_Value request ''restore'' \<noteq> '''' then
       try_srv (restore_backup z c (Form_Value request ''path''))
         (\<lambda>err. respond [if errors_is err ErrUnsafePath then HttpError ''Forbidden'' 403
                          else if errors_is err OsErrNotExist then HttpError ''Backup not found'' 404
                          else HttpError ''Restore failed'' 400])
         answer_backup
     else
       try_srv (create_backup z c) (\<lambda>_. respond [HttpError ''Backup failed'' 500]) answer_backup)"

section \<open>Files of the old layout\<close>

definition under_legacy :: "string \<Rightarrow> string \<Rightarrow> bool" where
  "under_legacy dir p \<longleftrightarrow> p = dir \<or> has_prefix p (dir @ ''/'')"

text \<open>The files \<open>/p\<close> and \<open>/d\<close>.\<close>

definition legacy_page :: "settings \<Rightarrow> request \<Rightarrow> unit srv" where
  "legacy_page c request =
     try_srv (safe_requested_file_path c (URL_Path request)) (\<lambda>_. respond [HttpError ''Forbidden'' 403]) (\<lambda>fileName.
     bind_srv (snapshot_file_for_anonymous_request c request) (\<lambda>snapshot.
       let fileName = (case snapshot of Some s \<Rightarrow> s | None \<Rightarrow> fileName) in
       bind_srv (lift_srv (check_file_exist fileName)) (\<lambda>r.
       respond [if r = Inr False then HttpError ''Not Found'' 404 else ServeFile fileName])))"

text \<open>The media file of a request that no snapshot answers, or the answer that refuses it.\<close>

definition media_file :: "settings \<Rightarrow> request \<Rightarrow> string \<Rightarrow> (call + string) io" where
  "media_file c request mediaPath =
     catch_io (bind_io (lift_io (canonical_host_from_request request)) (domain_paths_of c))
       (\<lambda>_. ret_io (Inl (HttpError ''Bad Request'' 400))) (\<lambda>roots.
     catch_io (safe_path_under_root (MediaRoot roots) mediaPath '''' False)
       (\<lambda>_. ret_io (Inl (HttpError ''Forbidden'' 403))) (\<lambda>fileName. ret_io (Inr fileName)))"

definition serve_media :: "string \<Rightarrow> unit srv" where
  "serve_media fileName =
     try_srv (os_stat fileName) (\<lambda>_. respond [HttpError ''Not Found'' 404]) (\<lambda>info.
     if is_dir info then respond [HttpError ''Not Found'' 404]
     else respond [SetHeader ''X-Content-Type-Options'' ''nosniff'', ServeFile fileName])"

definition legacy_media :: "settings \<Rightarrow> request \<Rightarrow> unit srv" where
  "legacy_media c request =
     (let mediaPath = trim_prefix (URL_Path request) ''/f'' in
      if mediaPath = '''' \<or> mediaPath = ''/'' then respond [HttpError ''Not Found'' 404]
      else
      bind_srv (snapshot_media_file_for_anonymous_request c request mediaPath) (\<lambda>snapshot.
      case snapshot of
        Some fileName \<Rightarrow> serve_media fileName
      | None \<Rightarrow>
          try_srv (media_file c request mediaPath) (\<lambda>_. ret_srv ()) (\<lambda>r.
          case r of Inl refusal \<Rightarrow> respond [refusal] | Inr fileName \<Rightarrow> serve_media fileName)))"

text \<open>The result says whether the request has been answered.\<close>

definition handle_legacy_static :: "settings \<Rightarrow> request \<Rightarrow> bool srv" where
  "handle_legacy_static c request =
     (let p = URL_Path request; answered = (\<lambda>m. bind_srv m (\<lambda>_. ret_srv True)) in
      if RawQuery request \<noteq> '''' then ret_srv False
      else if under_legacy ''/b'' p then answered (respond [HttpError ''Not Found'' 404])
      else if under_legacy ''/p'' p \<or> under_legacy ''/d'' p then answered (legacy_page c request)
      else if under_legacy ''/f'' p then answered (legacy_media c request)
      else ret_srv False)"

section \<open>The request handler\<close>

definition plain_actions :: "string list" where
  "plain_actions =
    [''login'', ''edit'', ''delete'', ''revisions'', ''subpages'', ''properties'', ''freeze'', ''unfreeze'', ''backup'', ''profile'',
     ''logout'', ''health'', ''join'', ''verify'', ''recover'', ''grab'', ''domains'', ''undelete'', ''captcha'']"

text \<open>The query has one key; it may have a value only for an upload.\<close>

definition parse_action :: "string \<Rightarrow> string result" where
  "parse_action rawQuery =
     (if rawQuery = '''' then Inr ''''
      else case query_settings rawQuery of (kvs, err) \<Rightarrow>
        case (err, remdups (map fst kvs)) of
          (None, [key]) \<Rightarrow>
            let value = query_values key kvs in
            if key = ''upload'' then
              (if length value > 1 then Inl (ErrText ''invalid query'')
               else if value \<noteq> [] \<and> hd value \<notin> set ['''', ''file'', ''image''] then Inl (ErrText ''invalid query'')
               else Inr key)
            else if length value > 1 \<or> (length value = 1 \<and> hd value \<noteq> '''') then Inl (ErrText ''invalid query'')
            else if key \<in> set plain_actions then Inr key
            else Inl (ErrText ''unknown action'')
        | _ \<Rightarrow> Inl (ErrText ''invalid query''))"

text \<open>
  What the handler gets from outside: the ZIP format, the image decoders, the network, the HTML entities, and the number
  of the process.
\<close>

record outside =
  Zip :: zip_format
  Decoder :: image_decoder
  Net :: internet
  Unescape :: "string \<Rightarrow> string"
  Pid :: nat

definition redirect_or_not_found :: "settings \<Rightarrow> request \<Rightarrow> string \<Rightarrow> unit srv" where
  "redirect_or_not_found c request fileName =
     try_srv (canonical_request_uri_for_file c fileName) (\<lambda>_. respond [HttpError ''Forbidden'' 403]) (\<lambda>requestURI.
     try_srv (find_redirect c request requestURI) (\<lambda>_. respond [HttpError ''Redirect lookup failed'' 500]) (\<lambda>redirect.
     case redirect of
       None \<Rightarrow> respond [HttpError ''Not Found'' 404]
     | Some redirect \<Rightarrow>
         if \<not> valid_internal_redirect_target (Redirect_NewUri redirect) then respond [HttpError ''Not Found'' 404]
         else respond [HttpRedirect (Redirect_NewUri redirect) 301]))"

definition serve_page :: "settings \<Rightarrow> request \<Rightarrow> string \<Rightarrow> unit srv" where
  "serve_page c request fileName =
     bind_srv (snapshot_file_for_anonymous_request c request) (\<lambda>snapshot.
       let staticFileName = (case snapshot of Some s \<Rightarrow> s | None \<Rightarrow> fileName) in
       bind_srv (lift_srv (check_file_exist staticFileName)) (\<lambda>r.
       if r = Inr False then redirect_or_not_found c request fileName
       else respond [ServeFile staticFileName]))"

definition run_action :: "outside \<Rightarrow> settings \<Rightarrow> request \<Rightarrow> upload_body \<Rightarrow> string \<Rightarrow> string \<Rightarrow> unit srv" where
  "run_action env c request body fileName action =
     (if action = '''' then serve_page c request fileName
      else if action = ''login'' then login c request
      else if action = ''edit'' then edit c request fileName
      else if action = ''delete'' then not_implemented_mutation request ''delete revision''
      else if action = ''revisions'' then revisions c request fileName
      else if action = ''subpages'' then subpages c request fileName
      else if action = ''properties'' then properties c request fileName
      else if action = ''freeze'' then set_freeze c request True
      else if action = ''unfreeze'' then set_freeze c request False
      else if action = ''backup'' then backup_action (Zip env) c request
      else if action = ''profile'' then profile c request
      else if action = ''logout'' then logout request
      else if action = ''health'' then health (Pid env) c request
      else if action = ''join'' then join c request
      else if action = ''recover'' then recover request
      else if action = ''verify'' \<or> action = ''captcha'' then not_implemented_public request action
      else if action = ''upload'' then upload (Decoder env) c request body
      else if action = ''grab'' then grab (Net env) (Unescape env) c request fileName
      else if action = ''domains'' \<or> action = ''undelete'' then not_implemented_mutation request action
      else respond [HttpError ''Not Found'' 404])"

definition handle :: "outside \<Rightarrow> settings \<Rightarrow> request \<Rightarrow> upload_body \<Rightarrow> unit srv" where
  "handle env c request body =
     (if URL_Path request = ''/sitebrush-healthz'' then health (Pid env) c request
      else
      bind_srv (handle_legacy_static c request) (\<lambda>answered.
      if answered then ret_srv ()
      else
      try_srv (safe_requested_file_path c (URL_Path request)) (\<lambda>_. respond [HttpError ''Forbidden'' 403]) (\<lambda>fileName.
      case parse_action (RawQuery request) of
        Inl _ \<Rightarrow> respond [HttpError ''Not Found'' 404]
      | Inr action \<Rightarrow> run_action env c request body fileName action)))"

end
