(* ===== verification/Stillness.thy ===== *)
theory Stillness
  imports Serve
begin

text \<open>
  Handlers that change no file, and handlers that change one only for an operator: the frame of the request handler.
\<close>

section \<open>Handlers that change no file\<close>

definition still :: "'a srv \<Rightarrow> bool" where
  "still m \<longleftrightarrow> (\<forall>s. files (machine (snd (m s))) = files (machine s))"

lemma stillD: "still m \<Longrightarrow> m s = (v, s') \<Longrightarrow> files (machine s') = files (machine s)"
  unfolding still_def by (metis snd_conv)

named_theorems still_intros \<open>handlers that change no file\<close>

lemma still_ret [still_intros]: "still (ret_srv v)"
  by (simp add: still_def ret_srv_def)

lemma still_respond [still_intros]: "still (respond cs)"
  by (simp add: still_def respond_def)

lemma still_bind [still_intros]: "still m \<Longrightarrow> (\<And>v. still (f v)) \<Longrightarrow> still (bind_srv m f)"
  by (simp add: still_def bind_srv_def split: prod.split) (metis fst_conv snd_conv surj_pair)

lemma still_lift [still_intros]: "inert m \<Longrightarrow> still (lift_srv m)"
  by (auto simp: still_def lift_srv_def split: prod.split dest: inertD simp: same_files_def)

lemma still_try [still_intros]: "inert m \<Longrightarrow> (\<And>e. still (h e)) \<Longrightarrow> (\<And>v. still (f v)) \<Longrightarrow> still (try_srv m h f)"
  unfolding try_srv_def by (intro still_bind still_lift) (auto split: sum.split)

lemma still_world [still_intros]: "(\<And>w. still (f w)) \<Longrightarrow> still (with_world f)"
  by (simp add: still_def with_world_def)

lemma still_if [still_intros]: "(b \<Longrightarrow> still m) \<Longrightarrow> (\<not> b \<Longrightarrow> still n) \<Longrightarrow> still (if b then m else n)"
  by simp

lemma still_form [still_intros]: "still m \<Longrightarrow> still (form_parsed request msg m)"
  by (simp add: form_parsed_def still_respond)

lemma still_not_allowed [still_intros]: "still (method_not_allowed allow)"
  by (simp add: method_not_allowed_def still_respond)

lemma find_session_files: "files (machine (snd (session_get request s))) = files (machine s)"
  by (auto simp: session_get_def time_now_def split: option.split prod.split)

lemma still_session [still_intros]: "still (session_get request)"
  by (simp add: still_def find_session_files)

lemma still_require [still_intros]: "still (require_auth request)"
  unfolding require_auth_def by (intro still_intros) (auto split: option.split intro!: still_intros)

section \<open>Operations that only read\<close>

lemma inert_walk:
  "(\<And>p d acc. inert (visit p d acc)) \<Longrightarrow> inert (walk_dir n visit p d acc)"
  "(\<And>p d acc. inert (visit p d acc)) \<Longrightarrow> inert (walk_entries n visit p es acc)"
  by (induction n visit p d acc and n visit p es acc rule: walk_dir_walk_entries.induct) (auto intro!: inert_catch)

lemma inert_walk_tree: "(\<And>p d acc. inert (visit p d acc)) \<Longrightarrow> inert (walk_tree root visit acc)"
  unfolding walk_tree_def
  by (rule inert_env [where f = "\<lambda>n. catch_io (catch_io (os_lstat root) (\<lambda>err. visit root (Inl err) acc)
        (\<lambda>d. walk_dir (Suc n) visit root d acc)) (\<lambda>err. if err = SkipDir then ret_io acc else fail_io err) ret_io"])
    (auto intro!: inert_catch inert_walk simp del: walk_dir.simps)

lemma inert_page_lists [simp]: "inert (list_static_pages_under c uri)" "inert (list_static_pages c)"
  unfolding list_static_pages_under_def list_static_pages_def
  by (auto intro!: inert_bind inert_walk_tree simp: page_entry_def split: sum.split)

lemma inert_load_json [simp]: "inert (load_json p c z)"
  by (simp add: inert_iff)

lemma inert_site_state [simp]: "inert (load_site_state c)"
  by (simp add: load_site_state_def)

lemma inert_redirects [simp]: "inert (load_redirects c)" "inert (stored_redirect c uri d)"
  unfolding load_redirects_def stored_redirect_def by (auto intro!: inert_bind)

text \<open>Operations that look at the setting before they act.\<close>

lemma inert_case_prod: "(\<And>a b. inert (f a b)) \<Longrightarrow> inert (\<lambda>w. case g w of (a, b) \<Rightarrow> f a b w)"
  by (simp add: inert_def split: prod.split)

lemma inert_if: "(b \<Longrightarrow> inert m) \<Longrightarrow> (\<not> b \<Longrightarrow> inert n) \<Longrightarrow> inert (\<lambda>w. if b then m w else n w)"
  by (simp add: inert_def)

lemma inert_find_redirect [simp]: "inert (find_redirect c request uri)"
  unfolding find_redirect_def [abs_def]
  by (intro inert_case_prod inert_if) (auto intro!: inert_bind split: option.split)

lemma inert_metadata [simp]: "inert (load_page_metadata c request uri)"
proof -
  have "inert (load_sidecar_metadata c uri)"
    unfolding load_sidecar_metadata_def by (auto intro!: inert_catch split: option.split)
  moreover have "inert (\<lambda>w. if \<not> db_post_revision_configured c then ret_io metadata w
       else case trusted_db_revision_domain w request of
         (domain, trusted) \<Rightarrow>
           bind_io (load_post_revisions_from_config c uri domain) (\<lambda>posts. ret_io (latest_metadata posts metadata)) w)" for metadata
    by (intro inert_if inert_case_prod inert_bind) auto
  ultimately show ?thesis unfolding load_page_metadata_def by (rule inert_bind)
qed

lemma inert_paths [simp]:
  "inert (safe_path_under_root root p i a)" "inert (safe_join_under_root root es)" "inert (domain_paths_of c host)"
  "inert (safe_requested_file_path c p)" "inert (check_file_exist p)" "inert (media_file c request m)"
proof -
  show a: "inert (safe_path_under_root root p i a)" for root p i a
    unfolding safe_path_under_root_def by (auto intro!: inert_bind inert_catch)
  show b: "inert (safe_join_under_root root es)" for root es
    unfolding safe_join_under_root_def by (auto intro!: inert_bind)
  show d: "inert (domain_paths_of c host)" for host
    unfolding domain_paths_of_def by (auto intro!: inert_bind b)
  show "inert (safe_requested_file_path c p)" by (simp add: safe_requested_file_path_def a)
  show "inert (check_file_exist p)" unfolding check_file_exist_def by (auto intro!: inert_catch)
  show "inert (media_file c request m)" unfolding media_file_def by (auto intro!: inert_catch inert_bind a d)
qed

lemma inert_climb [simp]: "inert (climb_to_existing n p)"
  by (induction n arbitrary: p) (auto intro!: inert_catch simp: Let_def climb_to_existing.simps)

lemma inert_writable [simp]: "inert (safe_writable_static_file_path c p)"
  unfolding safe_writable_static_file_path_def unsafe_wrap_def validate_existing_parent_symlink_safe_def
  by (intro inert_bind inert_catch) auto

section \<open>Serving files\<close>

lemma still_frozen [still_intros]: "still body \<Longrightarrow> still (frozen_for c request body)"
  unfolding frozen_for_def by (intro still_intros) (auto split: option.split intro!: still_intros)

lemma still_snapshot [still_intros]:
  "still (snapshot_file_for_anonymous_request c request)" "still (snapshot_media_file_for_anonymous_request c request m)"
  unfolding snapshot_file_for_anonymous_request_def snapshot_media_file_for_anonymous_request_def
  by (auto intro!: still_intros split: sum.split)

lemma still_serve [still_intros]:
  "still (serve_page c request f)" "still (redirect_or_not_found c request f)" "still (serve_media f)"
  "still (legacy_media c request)" "still (legacy_page c request)" "still (handle_legacy_static c request)"
proof -
  show r: "still (redirect_or_not_found c request f)"
    unfolding redirect_or_not_found_def by (intro still_intros) (auto split: option.split intro!: still_intros)
  show "still (serve_page c request f)"
    unfolding serve_page_def Let_def by (intro still_intros r) auto
  show m: "still (serve_media f)" for f
    unfolding serve_media_def by (auto intro!: still_intros)
  show lm: "still (legacy_media c request)"
    unfolding legacy_media_def Let_def
    by (intro still_intros) (auto split: option.split sum.split intro!: still_intros m)
  show lp: "still (legacy_page c request)"
    unfolding legacy_page_def Let_def by (intro still_intros) auto
  show "still (handle_legacy_static c request)"
    unfolding handle_legacy_static_def Let_def by (intro still_intros lm lp)
qed

section \<open>Handlers that an operator's token guards\<close>

definition operator_post :: "request \<Rightarrow> operator_session \<Rightarrow> bool" where
  "operator_post request session \<longleftrightarrow> Method request = ''POST'' \<and> valid_csrf request session"

text \<open>It changes a file only with a session and, in a POST, the token of this session.\<close>

definition guarded :: "request \<Rightarrow> 'a srv \<Rightarrow> bool" where
  "guarded request m \<longleftrightarrow>
     (\<forall>s. files (machine (snd (m s))) \<noteq> files (machine s) \<longrightarrow>
       (\<exists>session. fst (session_get request s) = Some session \<and> operator_post request session))"

lemma still_guarded: "still m \<Longrightarrow> guarded request m"
  by (simp add: guarded_def still_def)

lemma guarded_authenticated:
  assumes "\<And>session. \<not> operator_post request session \<Longrightarrow> still (body session)"
  shows "guarded request (authenticated request body)"
  unfolding guarded_def
proof (intro allI impI)
  fix s assume f: "files (machine (snd (authenticated request body s))) \<noteq> files (machine s)"
  obtain r s1 where r: "session_get request s = (r, s1)" by (cases "session_get request s")
  show "\<exists>session. fst (session_get request s) = Some session \<and> operator_post request session"
  proof (cases r)
    case None
    then have "files (machine (snd (authenticated request body s))) = files (machine s1)"
      by (simp add: authenticated_def require_auth_def bind_srv_def r respond_def ret_srv_def)
    with f find_session_files [of request s] r show ?thesis by simp
  next
    case (Some session)
    then have a: "authenticated request body s = body session s1"
      by (simp add: authenticated_def require_auth_def bind_srv_def r ret_srv_def)
    have "files (machine s1) = files (machine s)" using find_session_files [of request s] r by simp
    moreover have "files (machine (snd (body session s1))) = files (machine s1)" if "\<not> operator_post request session"
      using assms [OF that] unfolding still_def by (rule spec)
    ultimately show ?thesis using f a r Some by auto
  qed
qed

lemma csrf_refused: "\<not> valid_csrf request session \<Longrightarrow> csrf_checked request session m = respond [HttpError ''Forbidden'' 403]"
  by (simp add: csrf_checked_def)

lemma upload_csrf: "valid_upload_csrf request session \<Longrightarrow> valid_csrf request session"
  by (auto simp: valid_upload_csrf_def valid_csrf_def Let_def)

text \<open>The shape that most handlers have: a page for a GET, a change for a POST.\<close>

lemma still_get_post:
  "\<not> operator_post request session \<Longrightarrow> (Method request = ''GET'' \<Longrightarrow> still get) \<Longrightarrow>
     still (if Method request = ''GET'' then get
            else if Method request = ''POST'' then csrf_checked request session post else method_not_allowed allow)"
  by (auto simp: operator_post_def csrf_refused still_intros)

lemma guarded_posted: "guarded request (posted request body)"
  unfolding posted_def
  by (rule guarded_authenticated) (auto simp: operator_post_def csrf_refused still_intros)

lemma guarded_actions:
  "guarded request (edit c request f)" "guarded request (revisions c request f)" "guarded request (subpages c request f)"
  "guarded request (properties c request f)" "guarded request (set_freeze c request b)" "guarded request (backup_action z c request)"
  "guarded request (profile c request)" "guarded request (logout request)" "guarded request (grab net u c request f)"
  "guarded request (not_implemented_mutation request n)" "guarded request (upload d c request body)"
proof -
  show "guarded request (edit c request f)"
    unfolding edit_def edit_get_def by (intro guarded_authenticated still_get_post still_intros) (auto intro!: inert_catch)
  show "guarded request (revisions c request f)"
    unfolding revisions_def revisions_get_def
    by (intro guarded_authenticated still_get_post) (auto split: prod.split intro!: still_intros inert_bind)
  show "guarded request (subpages c request f)"
    unfolding subpages_def
    by (intro guarded_authenticated still_get_post) (auto split: prod.split intro!: still_intros inert_bind)
  show "guarded request (properties c request f)"
    unfolding properties_def
    by (intro guarded_authenticated still_get_post) (auto split: prod.split intro!: still_intros inert_bind)
  show "guarded request (set_freeze c request b)" "guarded request (backup_action z c request)"
    unfolding set_freeze_def backup_action_def by (rule guarded_posted)+
  show "guarded request (profile c request)"
    unfolding profile_def by (intro guarded_authenticated still_get_post still_intros)
  show "guarded request (logout request)"
    unfolding logout_def by (intro guarded_authenticated still_get_post still_intros)
  show "guarded request (grab net u c request f)"
    unfolding grab_def by (intro guarded_authenticated still_get_post still_intros)
  show "guarded request (not_implemented_mutation request n)"
    unfolding not_implemented_mutation_def by (intro guarded_authenticated still_intros) (simp add: csrf_checked_def still_intros)
  show "guarded request (upload d c request body)"
    unfolding upload_def
    by (rule guarded_authenticated) (use upload_csrf in \<open>auto simp: operator_post_def write_upload_json_def intro!: still_intros\<close>)
qed

lemma still_public: "still (recover request)" "still (not_implemented_public request n)"
  unfolding recover_def not_implemented_public_def by (intro still_intros)+

end
