(* ===== verification/ServeSafety.thy ===== *)
theory ServeSafety
  imports Stillness AtomicLive
begin

text \<open>
  Who can change the site: the request handler as a whole.
\<close>

section \<open>Sessions that let in\<close>

text \<open>A session that the store has for the cookie of a request, not expired at some moment from now on.\<close>

definition live_session :: "request \<Rightarrow> server \<Rightarrow> operator_session \<Rightarrow> bool" where
  "live_session request s session \<longleftrightarrow>
     (\<exists>token n. request_cookie request sessionCookieName = Some token \<and> sessions s (hash_token token) = Some session
        \<and> ticks (machine s) \<le> n \<and> clock (machine s) n \<le> ExpiresAt session)"

lemma session_get_live:
  assumes "fst (session_get request s1) = Some session"
    and "sessions s1 = sessions s" and "same_setting (machine s) (machine s1)"
  shows "live_session request s session"
  using assms unfolding session_get_def live_session_def same_setting_def time_now_def find_session_def
  by (auto split: option.splits if_splits prod.splits simp: not_less intro!: exI [of _ "ticks (machine s1)"])

lemma guarded_run:
  assumes "guarded request m" and "files (machine (snd (m s1))) \<noteq> files (machine s1)"
    and "sessions s1 = sessions s" and "same_setting (machine s) (machine s1)"
  shows "\<exists>session. live_session request s session \<and> operator_post request session"
  using assms session_get_live unfolding guarded_def by blast

lemma run_action_guarded:
  "action \<notin> {''login'', ''join'', ''health''} \<Longrightarrow> guarded request (run_action env c request body f action)"
  unfolding run_action_def
  by (simp add: guarded_actions still_guarded [OF still_serve(1)] still_guarded [OF still_public(1)]
      still_guarded [OF still_public(2)] still_guarded [OF still_respond])

section \<open>Every change is an operator's\<close>


definition demo_env :: outside where
  "demo_env = \<lparr>Zip = \<lparr>Zip_Pack = (\<lambda>_. ''''), Zip_Unpack = (\<lambda>_. None), Zip_Broken = ''''\<rparr>, Decoder = (\<lambda>_. None),
     Net = \<lparr>Lookup = (\<lambda>_ _. Inr []), Url_Text = Url_Host, Dial_Host = url_hostname, Exchange = (\<lambda>_ _. NoAnswer ErrJson)\<rparr>,
     Unescape = (\<lambda>s. s), Pid = 1\<rparr>"

text \<open>An operator creates the page \<open>/new.html\<close>.\<close>

definition demo_post :: request where
  "demo_post = demo_request\<lparr>RawQuery := ''subpages'', Form_Value := (\<lambda>k.
     if k = ''csrf'' then ''token'' else if k = ''path'' then ''/new.html'' else if k = ''title'' then ''T'' else '''')\<rparr>"

definition demo_steps :: "string io" where
  "demo_steps =
     bind_io (safe_requested_file_path demo_config ''/'') (\<lambda>_. bind_io time_now (\<lambda>_.
     bind_io (safe_writable_static_file_path demo_config ''/new.html'') (\<lambda>p.
     catch_io (os_stat p) (\<lambda>err. if errors_is err OsErrNotExist then ret_io p else fail_io err) (\<lambda>_. fail_io OsErrExist))))"

lemma demo_steps_run: "fst (demo_steps demo_world) = Inr ''/site/new.html''"
  by code_simp

lemma demo_path: "fst (safe_requested_file_path demo_config ''/'' demo_world) = Inr ''/site/index.html''"
  by code_simp

lemma demo_ticks: "ticks (snd (safe_requested_file_path demo_config ''/'' demo_world)) = 0"
  by code_simp

lemma inert_demo_steps: "inert demo_steps"
  unfolding demo_steps_def by (intro inert_bind inert_catch) auto

lemma demo_dir: "kernel_path demo_world True ''/site'' = Inr [''site'']" "path_dir ''/site/new.html'' = ''/site''"
  "path_base ''/site/new.html'' = ''new.html''" "file_path ''/site/new.html''"
  "subpage_request demo_config f ''/new.html'' = ret_io ''/new.html''" "\<not> contains_path_traversal_segment ''/new.html''"
  "trim_space ''/new.html'' = ''/new.html''" "trim_space ''T'' = ''T''"
  by (code_simp, code_simp, code_simp, code_simp, simp add: subpage_request_def has_prefix_def has_suffix_def suffix_def, code_simp+)

lemma demo_created:
  assumes "demo_steps demo_world = (Inr p, w4)"
  shows "\<exists>w'. atomic_write_file ''/site/new.html'' data 420 w4 = (Inr (), w') \<and> fs w' [''site'', ''new.html''] \<noteq> None"
proof -
  have s: "same_files demo_world w4 \<and> same_setting demo_world w4" using assms by (rule inertD [OF inert_demo_steps])
  then have k: "kernel_path w4 True (path_dir ''/site/new.html'') = Inr [''site'']" and f: "fs w4 = fs demo_world"
    using same_files_simps [of demo_world w4] demo_dir by simp_all
  have nf: "no_faults w4" using s no_faults_same by (auto simp: no_faults_def demo_world_def same_setting_def)
  show ?thesis
    using atomic_write_live [OF demo_dir(4) nf k, of 493] unfolding f demo_dir(2,3)
    by (fastforce simp: fs_def demo_world_def temp_name_def)
qed

definition demo_site :: server where
  "demo_site = demo_server\<lparr>sessions := \<lambda>_. Some demo_session\<rparr>"

lemma demo_subpage:
  assumes "safe_requested_file_path demo_config ''/'' demo_world = (Inr f, w1)" and "time_now w1 = (r, w2)"
  shows "\<exists>w'. create_subpage demo_config f ''/new.html'' ''T'' w2 = (Inr (), w') \<and> files w' \<noteq> files demo_world"
proof -
  obtain w4 where run: "demo_steps demo_world = (Inr ''/site/new.html'', w4)" using run_Inr [where m = demo_steps] demo_steps_run by auto
  have clock: "r = Inr (clock w1 (ticks w1))" using assms(2) by (simp add: time_now_def)
  have tail: "bind_io (safe_writable_static_file_path demo_config ''/new.html'') (\<lambda>p.
     catch_io (os_stat p) (\<lambda>err. if errors_is err OsErrNotExist then ret_io p else fail_io err) (\<lambda>_. fail_io OsErrExist)) w2
     = (Inr ''/site/new.html'', w4)" (is "bind_io ?m ?k w2 = _")
    using run unfolding demo_steps_def bind_io_def [of "safe_requested_file_path demo_config ''/''"] bind_io_def [of time_now]
      assms(1) prod.case sum.case assms(2) clock .
  then obtain q w3 where m: "?m w2 = (Inr q, w3)" and k: "?k q w3 = (Inr ''/site/new.html'', w4)"
    unfolding bind_io_Inr by blast
  from k obtain err where e: "os_stat q w3 = (Inl err, w4)" "errors_is err OsErrNotExist" "q = ''/site/new.html''"
    by (auto simp: catch_io_def ret_io_def fail_io_def split: prod.splits sum.splits if_splits)
  note w = m [unfolded e(3)] e(1) [unfolded e(3)] e(2)
  obtain w' where w': "atomic_write_file ''/site/new.html'' (subpage_body ''T'') 420 w4 = (Inr (), w')"
    "fs w' [''site'', ''new.html''] \<noteq> None" using demo_created [OF run] by blast
  have "create_subpage demo_config f ''/new.html'' ''T'' w2 = (Inr (), w')"
    using w w'(1) by (simp add: create_subpage_def demo_dir bind_io_def catch_io_def ret_io_def)
  moreover have "fs demo_world [''site'', ''new.html''] = None" by (simp add: fs_def demo_world_def)
  then have "files w' \<noteq> files demo_world" using w'(2) by (metis fs_def)
  ultimately show ?thesis by blast
qed

lemma demo_changed: "files (machine (snd (handle demo_env demo_config demo_post (Inr []) demo_site))) \<noteq> files (machine demo_site)"
proof -
  obtain w1 where p: "safe_requested_file_path demo_config ''/'' demo_world = (Inr ''/site/index.html'', w1)"
    using run_Inr [where m = "safe_requested_file_path demo_config ''/''"] demo_path by auto
  obtain r w2 where t: "time_now w1 = (r, w2)" by (cases "time_now w1")
  have "same_setting demo_world w1"
    using p inertD [where m = "safe_requested_file_path demo_config ''/''"] by simp
  then have clock: "clock w1 = int" by (simp add: same_setting_def demo_world_def)
  moreover have "ticks w1 = 0" using demo_ticks p by simp
  ultimately have r: "r = Inr 0" using t by (simp add: time_now_def)
  obtain w' where c: "create_subpage demo_config ''/site/index.html'' ''/new.html'' ''T'' w2 = (Inr (), w')"
    "files w' \<noteq> files demo_world" using demo_subpage [OF p t] by blast
  have action: "parse_action ''subpages'' = Inr ''subpages''" by code_simp
  have cookie: "request_cookie demo_post sessionCookieName = Some ''t''"
    by (simp add: request_cookie_def demo_post_def demo_request_def sessionCookieName_def)
  have csrf: "valid_csrf demo_post demo_session"
    by (simp add: valid_csrf_def demo_post_def demo_request_def demo_session_def)
  have fields: "URL_Path demo_post = ''/''" "RawQuery demo_post = ''subpages''" "Method demo_post = ''POST''"
    "\<not> Form_Error demo_post" "Form_Value demo_post ''path'' = ''/new.html''" "Form_Value demo_post ''title'' = ''T''"
    "machine demo_site = demo_world" "sessions demo_site = (\<lambda>_. Some demo_session)" "\<not> 0 > ExpiresAt demo_session"
    by (simp_all add: demo_post_def demo_request_def demo_site_def demo_server_def demo_session_def)
  let ?s1 = "demo_site\<lparr>machine := w1\<rparr>" and ?s2 = "demo_site\<lparr>machine := w2, sessions := \<lambda>_. Some demo_session\<rparr>"
  have h: "handle demo_env demo_config demo_post (Inr []) demo_site = subpages demo_config demo_post ''/site/index.html'' ?s1"
    by (simp add: handle_def handle_legacy_static_def fields bind_srv_def try_srv_def lift_srv_def ret_srv_def p action run_action_def)
  have auth: "authenticated demo_post body ?s1 = body demo_session ?s2" for body :: "operator_session \<Rightarrow> unit srv"
    using t r by (simp add: authenticated_def require_auth_def bind_srv_def session_get_def cookie find_session_def fields ret_srv_def)
  have "subpages demo_config demo_post ''/site/index.html'' ?s1 = respond [HttpRedirect ''/?subpages'' 303]
      (demo_site\<lparr>sessions := \<lambda>_. Some demo_session, machine := w'\<rparr>)"
    using csrf by (simp add: subpages_def auth csrf_checked_def form_parsed_def fields try_srv_def bind_srv_def lift_srv_def c(1))
  then show ?thesis using h c(2) by (simp add: respond_def fields)
qed


end
