(* ===== verification/GrabSafety.thy ===== *)
theory GrabSafety
  imports GrabPage
begin

text \<open>
  Where a fetch can connect to: no address of the machine itself or of a private network, whatever the resolver and the
  servers on the way answer. And what the cleaning of a page misses.
\<close>

section \<open>Prefixes of addresses\<close>

lemma ip_value_append: "ip_value (a @ b) = ip_value a * 256 ^ length b + ip_value b"
proof -
  have "foldl (\<lambda>n b. 256 * n + b) m b = m * 256 ^ length b + foldl (\<lambda>n b. 256 * n + b) 0 b" for m :: nat
  proof (induction b rule: rev_induct)
    case (snoc x xs)
    have "256 * (m * 256 ^ length xs + n) + x = m * (256 * 256 ^ length xs) + (256 * n + x)" for n :: nat
      by (simp only: distrib_left mult.left_commute mult.assoc add.assoc)
    with snoc show ?case by simp
  qed simp
  from this [of "ip_value a"] show ?thesis by (simp only: ip_value_def foldl_append)
qed

lemma ip_value_snoc: "ip_value (a @ [x]) = ip_value a * 256 + x"
  by (simp add: ip_value_def)

lemma ip_value_bound: "list_all (\<lambda>b. b < 256) a \<Longrightarrow> ip_value a < 256 ^ length a"
proof (induction a rule: rev_induct)
  case (snoc x xs)
  then have "ip_value xs + 1 \<le> 256 ^ length xs" and x: "x < 256" by simp_all
  then have "(ip_value xs + 1) * 256 \<le> 256 ^ length xs * 256" by (intro mult_right_mono) simp_all
  with x have "ip_value xs * 256 + x < 256 ^ length xs * 256" by simp
  then show ?case by (simp add: ip_value_snoc mult.commute)
qed (simp add: ip_value_def)

text \<open>Only the bytes that a prefix reaches into count.\<close>

lemma ip_value_take:
  assumes "list_all (\<lambda>b. b < 256) a" and "bits \<le> 8 * k" and "k \<le> length a"
  shows "ip_value a div 2 ^ (8 * length a - bits) = ip_value (take k a) div 2 ^ (8 * k - bits)"
proof -
  let ?h = "take k a" and ?t = "drop k a"
  have "list_all (\<lambda>b. b < 256) ?t" using assms(1) by (auto simp: list_all_iff dest: in_set_dropD)
  then have t: "ip_value ?t < 256 ^ length ?t" by (rule ip_value_bound)
  have e: "8 * length a - bits = 8 * length ?t + (8 * k - bits)" using assms(2,3) by simp
  have p: "(2::nat) ^ (8 * length ?t) = 256 ^ length ?t" by (simp add: power_mult)
  have "ip_value a div 2 ^ (8 * length ?t) = ip_value ?h"
    using t ip_value_append [of ?h ?t] unfolding p append_take_drop_id by simp
  then show ?thesis unfolding e power_add div_mult2_eq by simp
qed

lemma prefix_contains_take:
  assumes "list_all (\<lambda>b. b < 256) a" and "list_all (\<lambda>b. b < 256) base" and "length a = length base"
    and "bits \<le> 8 * k" and "k \<le> length a"
  shows "prefix_contains (base, bits) a \<longleftrightarrow>
     ip_value (take k a) div 2 ^ (8 * k - bits) = ip_value (take k base) div 2 ^ (8 * k - bits)"
  using ip_value_take [OF assms(1,4,5)] ip_value_take [OF assms(2,4)] assms(3,5) by (simp add: prefix_contains_def)

section \<open>Private addresses\<close>

text \<open>
  The addresses of the machine itself, of private networks, of links, of carriers' translators, and all multicast ones;
  for version 4 by the first two bytes.
\<close>

definition private_v4 :: "nat \<Rightarrow> nat \<Rightarrow> bool" where
  "private_v4 b0 b1 \<longleftrightarrow>
     b0 = 0 \<or> b0 = 10 \<or> b0 = 127 \<or> 224 \<le> b0 \<or> (b0 = 100 \<and> 64 \<le> b1 \<and> b1 \<le> 127) \<or> (b0 = 169 \<and> b1 = 254)
     \<or> (b0 = 172 \<and> 16 \<le> b1 \<and> b1 \<le> 31) \<or> (b0 = 192 \<and> b1 = 168) \<or> (b0 = 198 \<and> 18 \<le> b1 \<and> b1 \<le> 19)"

definition private_v6 :: "ip \<Rightarrow> bool" where
  "private_v6 v \<longleftrightarrow>
     v = replicate 16 0 \<or> v = replicate 15 0 @ [1] \<or> v ! 0 = 252 \<or> v ! 0 = 253 \<or> v ! 0 = 255
     \<or> (v ! 0 = 254 \<and> 128 \<le> v ! 1 \<and> v ! 1 \<le> 191)"

definition private_address :: "ip \<Rightarrow> bool" where
  "private_address a = (let v = unmap_ip a in if length v = 4 then private_v4 (v ! 0) (v ! 1) else private_v6 v)"

lemma special_useI:
  assumes "(base, bits) \<in> set grab_special_use_prefixes" and "list_all (\<lambda>b. b < 256) a" and "length a = length base"
    and "list_all (\<lambda>b. b < 256) base" and "bits \<le> 8 * k" and "k \<le> length a"
    and "ip_value (take k a) div 2 ^ (8 * k - bits) = ip_value (take k base) div 2 ^ (8 * k - bits)"
  shows "grab_special_use_ip a"
  using assms prefix_contains_take [OF assms(2,4,3,5,6)] by (auto simp: grab_special_use_ip_def list_ex_iff)

lemma special_v4:
  assumes "private_v4 b0 b1" and b: "list_all (\<lambda>b. b < 256) [b0, b1, b2, b3]"
  shows "grab_special_use_ip [b0, b1, b2, b3]"
proof -
  note useI = special_useI [OF _ b] and s = grab_special_use_prefixes_def ip_value_def
  have "b0 < 256" using b by simp
  then have "b0 < 240 \<Longrightarrow> 224 \<le> b0 \<Longrightarrow> b0 div 16 = 14" "240 \<le> b0 \<Longrightarrow> b0 div 16 = 15"
    by (intro div_nat_eqI; simp)+
  then have top: "224 \<le> b0 \<Longrightarrow> b0 div 16 = 14 \<or> b0 div 16 = 15" by (meson not_le_imp_less)
  have mid: "64 \<le> b1 \<and> b1 \<le> 127 \<Longrightarrow> b1 div 64 = 1" "16 \<le> b1 \<and> b1 \<le> 31 \<Longrightarrow> b1 div 16 = 1"
    "18 \<le> b1 \<and> b1 \<le> 19 \<Longrightarrow> b1 div 2 = 9" by (intro div_nat_eqI; simp)+
  consider "b0 = 0" | "b0 = 10" | "b0 = 127" | "b0 div 16 = 14" | "b0 div 16 = 15"
    | "b0 = 100" "b1 div 64 = 1" | "b0 = 169" "b1 = 254" | "b0 = 172" "b1 div 16 = 1" | "b0 = 192" "b1 = 168"
    | "b0 = 198" "b1 div 2 = 9"
    using assms(1) top mid unfolding private_v4_def by blast
  then show ?thesis
  proof cases
    case 1 then show ?thesis by (intro useI [of "[0, 0, 0, 0]" 8 1]) (simp_all add: s)
  next
    case 2 then show ?thesis by (intro useI [of "[10, 0, 0, 0]" 8 1]) (simp_all add: s)
  next
    case 3 then show ?thesis by (intro useI [of "[127, 0, 0, 0]" 8 1]) (simp_all add: s)
  next
    case 4 then show ?thesis by (intro useI [of "[224, 0, 0, 0]" 4 1]) (simp_all add: s)
  next
    case 5 then show ?thesis by (intro useI [of "[240, 0, 0, 0]" 4 1]) (simp_all add: s)
  next
    case 6 then show ?thesis by (intro useI [of "[100, 64, 0, 0]" 10 2]) (simp_all add: s)
  next
    case 7 then show ?thesis by (intro useI [of "[169, 254, 0, 0]" 16 2]) (simp_all add: s)
  next
    case 8 then show ?thesis by (intro useI [of "[172, 16, 0, 0]" 12 2]) (simp_all add: s)
  next
    case 9 then show ?thesis by (intro useI [of "[192, 168, 0, 0]" 16 2]) (simp_all add: s)
  next
    case 10 then show ?thesis by (intro useI [of "[198, 18, 0, 0]" 15 2]) (simp_all add: s)
  qed
qed


lemma special_v6:
  assumes "private_v6 v" and b: "list_all (\<lambda>b. b < 256) v" and len: "length v = 16"
  shows "grab_special_use_ip v"
proof -
  obtain b0 b1 r where v: "v = b0 # b1 # r" using len by (cases v; cases "tl v") auto
  note useI = special_useI [OF _ b] and s = grab_special_use_prefixes_def ip_value_def ip6_def v list_all_iff
  have r: "length r = 14" using len unfolding v by simp
  have mid: "128 \<le> b1 \<and> b1 \<le> 191 \<Longrightarrow> b1 div 64 = 2" by (intro div_nat_eqI; simp)
  consider "v = replicate 16 0" | "v = replicate 15 0 @ [1]" | "b0 div 2 = 126" | "b0 = 255" | "b0 = 254" "b1 div 64 = 2"
    using assms(1) mid unfolding private_v6_def v by fastforce
  then show ?thesis
  proof cases
    case 1 then show ?thesis unfolding 1 by code_simp
  next
    case 2 then show ?thesis unfolding 2 by code_simp
  next
    case 3 then show ?thesis by (intro useI [of "ip6 [0xFC00]" 7 1]) (simp_all add: s r)
  next
    case 4 then show ?thesis by (intro useI [of "ip6 [0xFF00]" 8 1]) (simp_all add: s r)
  next
    case 5 then show ?thesis by (intro useI [of "ip6 [0xFE80]" 10 2]) (simp_all add: s r)
  qed
qed


text \<open>So an address that passes is not private.\<close>

lemma validated_not_private:
  assumes "validate_grab_ip a options = Inr ()" and "\<not> AllowPrivateNetworksForTests options" and "list_all (\<lambda>b. b < 256) a"
  shows "\<not> private_address a"
proof -
  let ?v = "unmap_ip a"
  have len: "length a = 4 \<or> length a = 16" and ok: "\<not> grab_special_use_ip ?v"
    using assms(1,2) by (auto simp: validate_grab_ip_def unsafe_url_def Let_def split: if_splits)
  have b: "list_all (\<lambda>b. b < 256) ?v"
    using assms(3) by (auto simp: unmap_ip_def list_all_iff dest: in_set_dropD)
  have "length ?v = 4 \<or> length ?v = 16" using len by (auto simp: unmap_ip_def)
  then show ?thesis
  proof
    assume l: "length ?v = 4"
    then obtain b0 b1 b2 b3 where v: "?v = [b0, b1, b2, b3]"
      by (auto simp: length_Suc_conv numeral_eq_Suc)
    then show ?thesis using special_v4 [of b0 b1 b2 b3] b ok l unfolding private_address_def v by auto
  next
    assume l: "length ?v = 16"
    then show ?thesis using special_v6 [OF _ b l] ok by (auto simp: private_address_def)
  qed
qed

section \<open>Addresses that the parser makes\<close>

lemma parse_ipv4_fields_bytes: "parse_ipv4_fields k first s = Some ns \<Longrightarrow> list_all (\<lambda>b. b < 256) ns"
  by (induction k first s arbitrary: ns rule: parse_ipv4_fields.induct) (auto split: if_splits option.splits simp: Let_def)

lemma parse_ipv6_groups_bytes:
  "parse_ipv6_groups k bs ell s = Some (ns, e, r) \<Longrightarrow> list_all (\<lambda>b. b < 256) bs \<Longrightarrow> list_all (\<lambda>b. b < 256) ns"
proof (induction k arbitrary: bs ell s)
  case (Suc k)
  show ?case
  proof (cases "length bs \<ge> 16")
    case True then show ?thesis using Suc.prems by simp
  next
    case False
    with Suc.prems(1) obtain n c where rd: "read_number 16 hex_value s = Some (n, c)" and n: "n \<le> 65535"
      by (auto split: option.splits if_splits)
    have ext: "list_all (\<lambda>b. b < 256) (bs @ [n div 256, n mod 256])" using Suc.prems(2) n by simp
    have v4: "parse_ipv4 s = Some v \<Longrightarrow> list_all (\<lambda>b. b < 256) (bs @ v)" for v
      using Suc.prems(2) parse_ipv4_fields_bytes [of 4 True s] by (simp add: parse_ipv4_def)
    have step: "parse_ipv6_groups k (bs @ [n div 256, n mod 256]) ell' s' = Some (ns, e, r) \<Longrightarrow> list_all (\<lambda>b. b < 256) ns"
      for ell' s' using Suc.IH ext by blast
    show ?thesis
      using Suc.prems(1) False rd n ext by (auto simp: Let_def dest: v4 step split: if_splits option.splits)
  qed
qed simp

lemma parse_ip_bytes: "parse_ip s = Some a \<Longrightarrow> list_all (\<lambda>b. b < 256) a"
proof -
  assume a: "parse_ip s = Some a"
  have v6: "parse_ipv6 t = Some v \<Longrightarrow> list_all (\<lambda>b. b < 256) v" for t v
    using parse_ipv6_groups_bytes
    by (auto simp: parse_ipv6_def Let_def list_all_iff split: if_splits option.splits prod.splits dest!: in_set_dropD in_set_takeD)
  from a show ?thesis
    using v6 parse_ipv4_fields_bytes [of 4 True s]
    by (auto simp: parse_ip_def parse_ipv4_def list_all_iff split: option.splits if_splits)
qed


section \<open>Fetches\<close>

text \<open>An address that passed the checks; and the same for all that a fetch has resolved or dialed.\<close>

definition public_ip :: "grab_options \<Rightarrow> ip \<Rightarrow> bool" where
  "public_ip options a \<longleftrightarrow> validate_grab_ip a options = Inr () \<and> list_all (\<lambda>b. b < 256) a"

definition resolver_bytes :: "internet \<Rightarrow> bool" where
  "resolver_bytes net \<longleftrightarrow> (\<forall>q host ips. Lookup net q host = Inr ips \<longrightarrow> list_all (list_all (\<lambda>b. b < 256)) ips)"

definition public_fetch :: "grab_options \<Rightarrow> fetch \<Rightarrow> bool" where
  "public_fetch options f \<longleftrightarrow>
     (\<forall>host ips. ResolvedHosts f host = Some ips \<longrightarrow> list_all (public_ip options) ips) \<and> list_all (public_ip options) (Dialed f)"

lemma resolve_public:
  assumes "resolver_bytes net" and "resolve_grab_host net options query host = Inr ips"
  shows "list_all (public_ip options) ips"
proof (cases "parse_ip (trim_bytes host ''[]'')")
  case (Some a)
  then show ?thesis
    using assms(2) parse_ip_bytes by (auto simp: resolve_grab_host_def public_ip_def bind_result_def split: sum.splits)
next
  case None
  with assms(2) have "Lookup net query host = Inr ips" "list_all (\<lambda>a. validate_grab_ip a options = Inr ()) ips"
    by (auto simp: resolve_grab_host_def unsafe_url_def bind_result_def list_all_iff dest: find_first_Some
        split: sum.splits if_splits option.splits)
  then show ?thesis using assms(1) by (auto simp: resolver_bytes_def public_ip_def list_all_iff)
qed

lemma validated_url_public:
  assumes "resolver_bytes net" and "validate_grab_url net options query rawURL = Inr (u, ips)"
  shows "list_all (public_ip options) ips"
  using assms(2) resolve_public [OF assms(1)]
  by (auto simp: validate_grab_url_def Let_def unsafe_url_def bind_result_def split: if_splits sum.splits)

lemma dial_public:
  assumes "public_fetch options f" and "dial_context net u f = (r, f')"
  shows "public_fetch options f'" and "length (Dialed f') \<le> Suc (length (Dialed f))"
    and "r = Inl e \<Longrightarrow> length (Dialed f') = length (Dialed f)"
  using assms
  by (auto simp: dial_context_def public_fetch_def unsafe_url_def split: option.splits list.splits)
    (fastforce simp: list_all_iff)

lemma redirect_public:
  assumes "resolver_bytes net" and "public_fetch options f" and "check_redirect net options via u f = (r, f')"
  shows "public_fetch options f'" and "Dialed f' = Dialed f" and "r = Inr x \<Longrightarrow> int via < MaxRedirects options"
  using assms(2,3) validated_url_public [OF assms(1)]
  by (auto simp: check_redirect_def public_fetch_def Let_def split: if_splits sum.splits prod.splits)


lemma client_public:
  assumes "resolver_bytes net"
  shows "client_do left net options via u f = (r, f') \<Longrightarrow> public_fetch options f \<Longrightarrow>
     public_fetch options f' \<and> length (Dialed f') \<le> length (Dialed f) + max 1 (nat (MaxRedirects options) - via)"
proof (induction left arbitrary: via u f)
  case 0
  obtain a f1 where d: "dial_context net u f = (a, f1)" by (cases "dial_context net u f")
  note dial = dial_public [OF 0(2) d] and next_f = redirect_public [OF assms dial(1)]
  show ?case using 0(1) dial next_f by (fastforce simp: client_do.simps d split: sum.splits answer.splits prod.splits)
next
  case (Suc left)
  obtain a f1 where d: "dial_context net u f = (a, f1)" by (cases "dial_context net u f")
  note dial = dial_public [OF Suc(3) d] and next_f = redirect_public [OF assms dial(1)]
  show ?case
  proof (cases "\<exists>ip next f2. a = Inr ip \<and> Exchange net ip u = Redirected next
      \<and> check_redirect net options (Suc via) next f1 = (Inr (), f2)")
    case True
    then obtain ip "next" f2 where c: "a = Inr ip" "Exchange net ip u = Redirected next"
      "check_redirect net options (Suc via) next f1 = (Inr (), f2)" by blast
    then have step: "client_do left net options (Suc via) next f2 = (r, f')" using Suc(2) by (simp add: client_do.simps d)
    have "int (Suc via) < MaxRedirects options" using next_f(3) [OF c(3)] by simp
    then have "Suc (max 1 (nat (MaxRedirects options) - Suc via)) \<le> max 1 (nat (MaxRedirects options) - via)" by linarith
    moreover note ih = Suc(1) [OF step next_f(1) [OF c(3)]] and f2 = next_f(2) [OF c(3)]
    ultimately have "length (Dialed f') \<le> length (Dialed f) + max 1 (nat (MaxRedirects options) - via)"
      using conjunct2 [OF ih] dial(2) unfolding f2 by linarith
    with ih show ?thesis by blast
  next
    case False
    then show ?thesis
      using Suc(2) dial next_f by (fastforce simp: client_do.simps d split: sum.splits answer.splits prod.splits)
  qed
qed

text \<open>The bound on the redirects that are left is never the reason why a fetch ends.\<close>

lemma client_fuel:
  "MaxRedirects options \<le> int (left + via + 1) \<Longrightarrow>
   client_do (left + n) net options via u f = client_do left net options via u f"
proof (induction left arbitrary: via u f)
  case 0
  have "check_redirect net options (Suc via) u' f' = (Inl (ErrText ''grab redirect limit exceeded''), f')" for u' f'
    using 0 by (simp add: check_redirect_def)
  then show ?case by (cases n) (simp_all add: client_do.simps split: sum.splits answer.splits prod.splits)
next
  case (Suc left)
  have "client_do (left + n) net options (Suc via) u' f' = client_do left net options (Suc via) u' f'" for u' f'
    using Suc by simp
  then show ?case by (simp add: client_do.simps [of "Suc _"] split: sum.splits answer.splits prod.splits)
qed


lemma fetch_public:
  assumes "resolver_bytes net" and "fetch_grab_html net options rawURL = (r, dialed)"
  shows "list_all (public_ip (normalize_grab_options options)) dialed"
    and "length dialed \<le> nat (MaxRedirects (normalize_grab_options options))"
proof -
  let ?o = "normalize_grab_options options"
  have pos: "0 < MaxRedirects ?o" by (simp add: normalize_grab_options_def)
  have run: "list_all (public_ip ?o) (Dialed f') \<and> length (Dialed f') \<le> nat (MaxRedirects ?o)"
    if v: "validate_grab_url net ?o 0 rawURL = Inr (u, ips)"
      and c: "client_do left net ?o 0 u' \<lparr>Queries = 1, ResolvedHosts = [h \<mapsto> ips], Dialed = []\<rparr> = (x, f')"
    for u ips left u' h x f'
  proof -
    have "public_fetch ?o \<lparr>Queries = 1, ResolvedHosts = [h \<mapsto> ips], Dialed = []\<rparr>"
      using validated_url_public [OF assms(1) v] by (simp add: public_fetch_def)
    from client_public [OF assms(1) c this] pos show ?thesis by (auto simp: public_fetch_def)
  qed
  show "list_all (public_ip ?o) dialed" "length dialed \<le> nat (MaxRedirects ?o)"
    using assms(2) run by (auto simp: fetch_grab_html_def Let_def split: sum.splits prod.splits)
qed

section \<open>The fetch of an import\<close>

text \<open>A network with one page on a public address, which redirects to itself, and with a name for the machine itself.\<close>

definition demo_net :: internet where
  "demo_net = \<lparr>Lookup = \<lambda>q host. if q = 0 then Inr [[93, 184, 216, 34]] else Inr [[93, 184, 216, 34], [127, 0, 0, 1]],
     Url_Text = \<lambda>u. ''http://a.b/'', Dial_Host = \<lambda>u. ''a.b'', Exchange = \<lambda>a u. Redirected u\<rparr>"

text \<open>
  Property C2. Fetching a page for an import never connects to an address of the server itself or of a private
  network: under all answers of the resolver, which may change from one query to the next, and under all answers and
  redirects of the servers, every address that is dialed is a public one. At most \<open>MaxRedirects\<close> requests are made.
\<close>

theorem grab_never_dials_private:
  assumes "resolver_bytes net" and "\<not> AllowPrivateNetworksForTests options"
    and "a \<in> set (snd (fetch_grab_html net options rawURL))"
  shows "\<not> private_address a \<and>
    length (snd (fetch_grab_html net options rawURL)) \<le> nat (MaxRedirects (normalize_grab_options options))"
proof -
  obtain r dialed where f: "fetch_grab_html net options rawURL = (r, dialed)" by (cases "fetch_grab_html net options rawURL")
  have "\<not> AllowPrivateNetworksForTests (normalize_grab_options options)" using assms(2) by (simp add: normalize_grab_options_def)
  moreover have "public_ip (normalize_grab_options options) a"
    using fetch_public(1) [OF assms(1) f] assms(3) f by (simp add: list_all_iff)
  ultimately have "\<not> private_address a" using validated_not_private by (auto simp: public_ip_def)
  then show ?thesis using fetch_public(2) [OF assms(1) f] f by simp
qed

theorem grab_never_dials_private_witness:
  "\<not> private_address [93, 184, 216, 34] \<and> length (snd (fetch_grab_html demo_net defaultGrabOptions ''http://a.b/'')) \<le> 3"
proof -
  have b: "resolver_bytes demo_net" by (auto simp: resolver_bytes_def demo_net_def)
  have p: "\<not> AllowPrivateNetworksForTests defaultGrabOptions" by (simp add: defaultGrabOptions_def)
  have d: "snd (fetch_grab_html demo_net defaultGrabOptions ''http://a.b/'') = [[93, 184, 216, 34]]" by code_simp
  have m: "nat (MaxRedirects (normalize_grab_options defaultGrabOptions)) = 3" by code_simp
  show ?thesis using grab_never_dials_private [OF b p, of "[93, 184, 216, 34]" "''http://a.b/''"] unfolding m by (simp add: d)
qed


section \<open>What the cleaning misses\<close>


end
