(* ===== verification/RestoreSafety.thy ===== *)
theory RestoreSafety
  imports Stillness SafePath
begin

text \<open>
  Which files the members of a backup stand for: never one outside of the site and the archive, never the accounts, the
  revisions or other backups; and the file of a backup comes back to where it was.
\<close>

section \<open>Cleaned relative names\<close>

lemma clean_relative_step:
  assumes "CHR ''/'' \<notin> set c" and "propers ps"
  shows "\<exists>k' qs. clean_step False (ps @ replicate k ''..'') c = qs @ replicate k' ''..'' \<and> propers qs"
proof (cases "c = ''..''")
  case True
  show ?thesis
  proof (cases ps)
    case Nil
    have "clean_step False (ps @ replicate k ''..'') c = [] @ replicate (Suc k) ''..''"
      using True Nil by (cases k) (simp_all add: clean_step_def)
    then show ?thesis by (metis propers_simps(1))
  next
    case (Cons p ps')
    then have "clean_step False (ps @ replicate k ''..'') c = ps' @ replicate k ''..''"
      using True assms(2) by (auto simp: clean_step_def proper_def)
    then show ?thesis using assms(2) Cons by auto
  qed
next
  case False
  then have "clean_step False (ps @ replicate k ''..'') c = (if proper c then c # ps else ps) @ replicate k ''..''"
    using assms(1) by (auto simp: clean_step_def proper_def)
  moreover have "propers (if proper c then c # ps else ps)" using assms(2) by simp
  ultimately show ?thesis by blast
qed

lemma clean_relative:
  "(\<forall>c\<in>set cs. CHR ''/'' \<notin> set c) \<Longrightarrow> propers ps \<Longrightarrow>
     \<exists>k' qs. foldl (clean_step False) (ps @ replicate k ''..'') cs = qs @ replicate k' ''..'' \<and> propers qs"
proof (induction cs arbitrary: ps k)
  case (Cons c cs)
  obtain k' qs where "clean_step False (ps @ replicate k ''..'') c = qs @ replicate k' ''..''" "propers qs"
    using clean_relative_step Cons.prems by (metis list.set_intros(1))
  then show ?case using Cons.IH [of qs k'] Cons.prems(1) by simp
qed auto

lemma clean_comps_relative: "\<exists>k qs. clean_comps False (split_on (CHR ''/'') p) = replicate k ''..'' @ qs \<and> propers qs"
proof -
  obtain k qs where "foldl (clean_step False) ([] @ replicate 0 ''..'') (split_on (CHR ''/'') p) = qs @ replicate k ''..'' \<and> propers qs"
    using clean_relative [of "split_on (CHR ''/'') p" "[]" 0] by (auto dest: split_on_no_sep)
  then have "clean_comps False (split_on (CHR ''/'') p) = replicate k ''..'' @ rev qs \<and> propers (rev qs)"
    by (simp add: clean_comps_def)
  then show ?thesis by blast
qed

lemma path_clean_rel:
  assumes "propers cs" and "cs \<noteq> []"
  shows "path_clean (join_with ''/'' cs) = join_with ''/'' cs" and "\<not> is_abs (join_with ''/'' cs)"
proof -
  obtain d ds where d: "cs = d # ds" using assms(2) by (cases cs) auto
  show a: "\<not> is_abs (join_with ''/'' cs)"
    using assms(1) by (cases ds) (auto simp: d is_abs_def has_prefix_def prefix_def join_with_Cons_Cons proper_def append_eq_Cons_conv)
  show "path_clean (join_with ''/'' cs) = join_with ''/'' cs"
    using assms a by (simp add: path_clean_def clean_comps_def split_join_propers foldl_clean_of_propers)
qed

section \<open>Names of members\<close>

lemma split_on_snoc_sep: "split_on d (s @ [d]) = split_on d s @ [[]]"
  by (induction s) (auto split: list.splits)

lemma has_prefix_trim: "has_prefix s p \<Longrightarrow> s = p @ trim_prefix s p"
  by (auto simp: has_prefix_def prefix_def trim_prefix_def)

text \<open>A name that passes is a list of components, with at most one slash behind them.\<close>

lemma entry_name_comps:
  assumes "validate_backup_entry_name name = Inr ()"
  shows "\<exists>cs e. propers cs \<and> cs \<noteq> [] \<and> trim_suffix name ''/'' = join_with ''/'' cs
     \<and> split_on (CHR ''/'') name = cs @ e \<and> e \<in> {[], ['''']}"
proof -
  have na: "\<not> is_abs name" and clean: "path_clean name = trim_suffix name ''/''"
    and nd: "path_clean name \<noteq> ''.''" "path_clean name \<noteq> ''..''" "\<not> has_prefix (path_clean name) ''../''"
    using assms by (auto simp: validate_backup_entry_name_def Let_def split: if_splits)
  obtain k qs where cs: "clean_comps False (split_on (CHR ''/'') name) = replicate k ''..'' @ qs" and qs: "propers qs"
    using clean_comps_relative by blast
  have "path_clean name = join_with ''/'' (replicate k ''..'' @ qs) \<and> replicate k ''..'' @ qs \<noteq> []"
    using na nd(1) cs by (auto simp: path_clean_def Let_def split: if_splits)
  moreover from this have "k = 0"
    using nd(2,3) by (cases k; cases "replicate (k - 1) ''..'' @ qs") (auto simp: join_with_Cons_Cons has_prefix_def split: if_splits)
  ultimately have t: "trim_suffix name ''/'' = join_with ''/'' qs" and ne: "qs \<noteq> []" using clean by auto
  have "split_on (CHR ''/'') name = qs @ (if has_suffix name ''/'' then [''''] else [])"
  proof (cases "has_suffix name ''/''")
    case True
    then have "name = join_with ''/'' qs @ ''/''" using t by (auto simp: trim_suffix_def has_suffix_def suffix_def)
    then show ?thesis using split_join_propers [OF qs ne] True by (simp add: split_on_snoc_sep)
  next
    case False
    then have "name = join_with ''/'' qs" using t by (simp add: trim_suffix_def)
    then show ?thesis using split_join_propers [OF qs ne] False by simp
  qed
  then show ?thesis using qs ne t by fastforce
qed


lemma entry_name_rest:
  assumes "propers cs" and "split_on (CHR ''/'') name = cs @ e" and "e \<in> {[], ['''']}" and "name = d @ CHR ''/'' # s"
    and "CHR ''/'' \<notin> set d" and "d \<noteq> []"
  shows "hd cs = d \<and> cs \<noteq> [] \<and> split_on (CHR ''/'') s = tl cs @ e \<and> (propers rs \<longrightarrow> walk_from rs s = rs @ tl cs)"
proof -
  have sp: "cs @ e = d # split_on (CHR ''/'') s" using assms(2,4,5) by (simp add: split_on_append_sep)
  then have ne: "cs \<noteq> []" using assms(3,6) by (cases cs) auto
  then have r: "split_on (CHR ''/'') s = tl cs @ e" "hd cs = d" using sp by (cases cs; simp)+
  have "propers (tl cs)" using assms(1) ne by (cases cs) auto
  then have "propers rs \<longrightarrow> walk_from rs s = rs @ tl cs"
    using assms(3) by (auto simp: walk_from_def r(1) foldl_clean_of_propers)
  then show ?thesis using r ne by blast
qed

lemma entry_name_second:
  assumes "propers cs" and "split_on (CHR ''/'') s = tl cs @ e" and "e \<in> {[], ['''']}" and "s = d @ CHR ''/'' # s'"
    and "CHR ''/'' \<notin> set d" and "d \<noteq> []" and "cs \<noteq> []"
  shows "\<exists>r. tl cs = d # r"
  using entry_name_rest [OF _ assms(2,3,4,5,6), of "[]"] assms(1,7) by (cases cs; cases "tl cs") auto

lemma join_target:
  assumes "propers (cwd w)" and "safe_join_under_root root [s] w = (Inr t, w')"
  shows "\<exists>rs. propers rs \<and> abs_of w root = abs_path rs \<and> t = abs_path (walk_from rs s)"
proof -
  obtain rs where rs: "propers rs" "abs_of w root = abs_path rs" using abs_of_propers [OF assms(1)] by blast
  obtain rp w1 w2 where a1: "abs_io root w = (Inr rp, w1)" and a2: "abs_io (path_join [rp, s]) w1 = (Inr t, w2)"
    using assms(2) unfolding safe_join_under_root_def by (auto simp: io_inv split: if_splits sum.splits)
  have "rp = abs_path rs" using abs_io_Inr [OF a1] rs by simp
  then have "t = abs_path (walk_from rs s)"
    using abs_io_Inr [OF a2] rs(1) by (simp add: path_join_abs abs_of_def walk_from_propers)
  then show ?thesis using rs by blast
qed

lemma restorable_split:
  assumes "restorable_archive_name name"
  shows "\<exists>d s. name = ''archive/'' @ d @ CHR ''/'' # s \<and> d \<in> {''metadata'', ''templates'', ''domains''}"
proof -
  have "has_prefix name ''archive/metadata/'' \<or> has_prefix name ''archive/templates/'' \<or> has_prefix name ''archive/domains/''"
    using assms unfolding restorable_archive_name_def by blast
  then have "\<exists>d\<in>{''metadata'', ''templates'', ''domains''}. has_prefix name (''archive/'' @ d @ ''/'')"
    unfolding bex_simps append.simps by simp
  then obtain d where d: "d \<in> {''metadata'', ''templates'', ''domains''}" and p: "has_prefix name (''archive/'' @ d @ ''/'')"
    by blast
  have "name = ''archive/'' @ d @ CHR ''/'' # trim_prefix name (''archive/'' @ d @ ''/'')"
    using has_prefix_trim [OF p] unfolding append_assoc append.simps .
  then show ?thesis using d by blast
qed

text \<open>
  Property C14. Where the members of a backup are restored to. A name that is accepted is a list of components without
  \<open>.\<close>, \<open>..\<close> and empty ones. Below \<open>web/\<close> it stands for the file with the other components below the site; below \<open>archive/\<close>
  for the file below the archive, and only below its directories \<open>metadata\<close>, \<open>templates\<close> and \<open>domains\<close>; otherwise it is one of
  the two files of redirects and of the state of the site. So no backup can bring in accounts, revisions or other backups,
  and none can leave the two roots.
\<close>

theorem restore_target_inside:
  assumes "propers (cwd w)" and "restore_target_for_archive_name c name w = (Inr (Some t), w')"
  shows "\<exists>rs cs. propers rs \<and> propers cs \<and> trim_suffix name ''/'' = join_with ''/'' cs
     \<and> (hd cs = ''web'' \<and> abs_of w (WEB_FILE_PATH c) = abs_path rs \<and> t = abs_path (rs @ tl cs)
        \<or> hd cs = ''archive'' \<and> hd (tl cs) \<in> {''metadata'', ''templates'', ''domains''} \<and> 2 \<le> length cs
          \<and> abs_of w (archive_root c) = abs_path rs \<and> t = abs_path (rs @ tl cs)
        \<or> cs = [''archive'', ''site-state.json''] \<and> t = state_path c
        \<or> cs = [''archive'', ''redirects.json''] \<and> t = redirects_path c)"
proof -
  have ok: "validate_backup_entry_name name = Inr ()"
    using assms(2) by (auto simp: restore_target_for_archive_name_def io_inv)
  obtain cs e where cs: "propers cs" "cs \<noteq> []" "trim_suffix name ''/'' = join_with ''/'' cs"
    and sp: "split_on (CHR ''/'') name = cs @ e" "e \<in> {[], ['''']}" using entry_name_comps [OF ok] by blast
  note rest = entry_name_rest [OF cs(1) sp] and second = entry_name_second [OF cs(1) _ sp(2) _ _ _ cs(2)]
  consider (web) s where "name = ''web/'' @ s" "safe_join_under_root (WEB_FILE_PATH c) [s] w = (Inr t, w')"
    | (state) "name = ''archive/site-state.json''" "t = state_path c"
    | (redirects) "name = ''archive/redirects.json''" "t = redirects_path c"
    | (kept) s d s' where "name = ''archive/'' @ s" "s = d @ CHR ''/'' # s'" "d \<in> {''metadata'', ''templates'', ''domains''}"
        "safe_join_under_root (archive_root c) [s] w = (Inr t, w')"
  proof -
    consider "has_prefix name ''web/''" | "\<not> has_prefix name ''web/''" "name = ''archive/site-state.json''"
      | "\<not> has_prefix name ''web/''" "name = ''archive/redirects.json''"
      | "\<not> has_prefix name ''web/''" "restorable_archive_name name" "name \<noteq> ''archive/site-state.json''" "name \<noteq> ''archive/redirects.json''"
      using assms(2) by (auto simp: restore_target_for_archive_name_def io_inv split: if_splits)
    then show thesis
    proof cases
      case 1
      then show thesis
        using assms(2) web [OF has_prefix_trim] by (auto simp: restore_target_for_archive_name_def io_inv ok)
    next
      case 2 then show thesis using assms(2) state by (auto simp: restore_target_for_archive_name_def io_inv ok)
    next
      case 3 then show thesis using assms(2) redirects by (auto simp: restore_target_for_archive_name_def io_inv ok)
    next
      case 4
      then obtain d s' where d: "name = ''archive/'' @ d @ CHR ''/'' # s'" "d \<in> {''metadata'', ''templates'', ''domains''}"
        using restorable_split by blast
      then have "trim_prefix name ''archive/'' = d @ CHR ''/'' # s'" by (simp add: trim_prefix_def has_prefix_def)
      then show thesis
        using 4 assms(2) kept [OF d(1) refl d(2)] by (auto simp: restore_target_for_archive_name_def io_inv ok)
    qed
  qed
  then show ?thesis
  proof cases
    case web
    then show ?thesis using join_target [OF assms(1) web(2)] rest [of "''web''" s] cs by fastforce
  next
    case state
    have "split_on (CHR ''/'') ''archive/site-state.json'' = [''archive'', ''site-state.json'']" by code_simp
    then have "cs = [''archive'', ''site-state.json'']" using sp state(1) by (cases e rule: rev_cases) auto
    then show ?thesis using cs state(2) propers_simps(1) by blast
  next
    case redirects
    have "split_on (CHR ''/'') ''archive/redirects.json'' = [''archive'', ''redirects.json'']" by code_simp
    then have "cs = [''archive'', ''redirects.json'']" using sp redirects(1) by (cases e rule: rev_cases) auto
    then show ?thesis using cs redirects(2) propers_simps(1) by blast
  next
    case kept
    obtain rs where rs: "propers rs" "abs_of w (archive_root c) = abs_path rs" "t = abs_path (walk_from rs s)"
      using join_target [OF assms(1) kept(4)] by blast
    have r: "hd cs = ''archive''" "split_on (CHR ''/'') s = tl cs @ e" "walk_from rs s = rs @ tl cs"
      using rest [of "''archive''" s rs] kept(1) rs(1) by auto
    have "CHR ''/'' \<notin> set d" "d \<noteq> []" using kept(3) by auto
    from second [OF r(2) kept(2) this] obtain q where "tl cs = d # q" by blast
    then have "hd (tl cs) \<in> {''metadata'', ''templates'', ''domains''} \<and> 2 \<le> length cs" using kept(3) by (cases cs) auto
    then show ?thesis using cs r rs by (intro exI [of _ rs] exI [of _ cs]) simp
  qed
qed


theorem restore_target_inside_witness:
  "\<exists>rs cs. trim_suffix ''web/a/b.html'' ''/'' = join_with ''/'' cs \<and> abs_path (rs @ tl cs) = ''/site/a/b.html''"
proof -
  have p: "propers (cwd demo_world)" by code_simp
  have "fst (restore_target_for_archive_name demo_config ''web/a/b.html'' demo_world) = Inr (Some ''/site/a/b.html'')" by code_simp
  then obtain w' where r: "restore_target_for_archive_name demo_config ''web/a/b.html'' demo_world = (Inr (Some ''/site/a/b.html''), w')"
    using run_Inr [where m = "restore_target_for_archive_name demo_config ''web/a/b.html''"] by blast
  obtain rs cs where t: "propers cs" "trim_suffix ''web/a/b.html'' ''/'' = join_with ''/'' cs"
    and c: "hd cs \<noteq> ''archive'' \<longrightarrow> ''/site/a/b.html'' = abs_path (rs @ tl cs)"
    using restore_target_inside [OF p r] by (metis list.sel(1))
  have n: "trim_suffix ''web/a/b.html'' ''/'' = ''web/a/b.html''" by code_simp
  have "split_on (CHR ''/'') ''web/a/b.html'' = [''web'', ''a'', ''b.html'']" by code_simp
  moreover have "cs \<noteq> []" using t(2) n by auto
  ultimately have "cs = [''web'', ''a'', ''b.html'']" using split_join_propers [OF t(1)] t(2) n by metis
  then show ?thesis using c t(2) by (intro exI [of _ rs] exI [of _ cs]) simp
qed

section \<open>There and back\<close>

lemma join_not_slash:
  assumes "propers cs" and "cs \<noteq> []"
  shows "\<not> has_suffix (join_with ''/'' cs) ''/''"
proof
  assume "has_suffix (join_with ''/'' cs) ''/''"
  then obtain s where "join_with ''/'' cs = s @ ''/''" by (auto simp: has_suffix_def suffix_def)
  then have "cs = split_on (CHR ''/'') s @ ['''']" using split_join_propers [OF assms] split_on_snoc_sep [of "CHR ''/''" s] by simp
  then show False using assms(1) by (simp add: proper_def)
qed

lemma validate_own_name:
  assumes "propers cs" and "cs \<noteq> []"
  shows "validate_backup_entry_name (join_with ''/'' cs) =
     (if contains (join_with ''/'' cs) [CHR 0x5C] \<or> contains (join_with ''/'' cs) [CHR 0x00] then Inl ErrUnsafePath else Inr ())"
proof -
  let ?n = "join_with ''/'' cs"
  obtain d ds where d: "cs = d # ds" and pd: "proper d" using assms by (cases cs) auto
  have ne: "?n \<noteq> ''''" using pd by (cases ds) (auto simp: d join_with_Cons_Cons proper_def)
  have dot: "?n \<noteq> ''.''" "?n \<noteq> ''..''" "\<not> has_prefix ?n ''../''"
    using split_join_propers [OF assms] pd
    by (auto simp: d has_prefix_def prefix_def dest!: arg_cong [where f = "split_on (CHR ''/'')"])
  show ?thesis
    using ne dot path_clean_rel [OF assms] join_not_slash [OF assms]
    by (simp add: validate_backup_entry_name_def Let_def trim_suffix_def)
qed

text \<open>
  Property C18. A backup and its restore agree on names: the member that the walk over the site adds for a file stands, when the
  backup is restored, for the same file; unless its name has a backslash or a zero byte in it, and then the whole
  backup is refused, although it has just been made.
\<close>

theorem backup_name_round_trip:
  assumes "propers rs" and "propers cs" and "cs \<noteq> []" and "\<not> is_dir entry" and "\<not> is_symlink entry"
    and "zip_entry (abs_path rs) ''web'' (abs_path (rs @ cs)) (Inr entry) ms w1 = (Inr ms', w2)"
    and "no_faults w" and "propers (cwd w)" and "abs_of w (WEB_FILE_PATH c) = abs_path rs"
  shows "\<exists>name content. ms' = ms @ [(name, content)] \<and> \<not> Zip_Dir (zip_member (name, content))
     \<and> fst (restore_target_for_archive_name c name w) =
         (if contains name [CHR 0x5C] \<or> contains name [CHR 0x00] then Inl ErrUnsafePath else Inr (Some (abs_path (rs @ cs))))"
proof -
  let ?n = "join_with ''/'' (''web'' # cs)"
  have pc: "propers (''web'' # cs)" using assms(2) by (simp add: proper_def)
  have rel: "filepath_rel (abs_path rs) (abs_path (rs @ cs)) = Inr (join_with ''/'' cs)"
    using assms(1-3) by (simp add: filepath_rel_abs strip_common_prefix)
  have n: "path_join [''web'', join_with ''/'' cs] = ?n"
    using path_clean_rel(1) [OF pc] assms(3) by (cases cs) (simp_all add: path_join_def join_with_Cons_Cons)
  obtain content where ms': "ms' = ms @ [(?n, content)]"
    using assms(1-6) rel
    by (auto simp: zip_entry_def add_file_to_zip_def defer_io_def abs_io_def n io_inv ignoring_def fail_io_def ret_io_def
        split: if_splits prod.splits sum.splits)
  have nd: "\<not> Zip_Dir (zip_member (?n, content))" using join_not_slash [OF pc] by (simp add: zip_member_def)
  have web: "?n = ''web/'' @ join_with ''/'' cs" using assms(3) by (cases cs) (simp_all add: join_with_Cons_Cons)
  have trim: "trim_prefix (''web/'' @ join_with ''/'' cs) ''web/'' = join_with ''/'' cs" by (simp add: trim_prefix_def)
  obtain w' where a1: "same_files w w'" "abs_io (WEB_FILE_PATH c) w = (Inr (abs_path rs), w')"
    using abs_io_no_faults [OF assms(7)] assms(9) by metis
  have a2: "abs_io (abs_path (rs @ cs)) = ret_io (abs_path (rs @ cs))" using assms(1,2) by (simp add: abs_io_def)
  have "fst (safe_join_under_root (WEB_FILE_PATH c) [join_with ''/'' cs] w) = Inr (abs_path (rs @ cs))"
    using assms(1,2) a2
    unfolding safe_join_under_root_def bind_io_def [of "abs_io (WEB_FILE_PATH c)"] a1(2) prod.case sum.case
    by (simp add: path_join_abs_rel inside_root_iff_prefix bind_io_def ret_io_def)
  then obtain w'' where "safe_join_under_root (WEB_FILE_PATH c) [join_with ''/'' cs] w = (Inr (abs_path (rs @ cs)), w'')"
    using run_Inr [where m = "safe_join_under_root (WEB_FILE_PATH c) [join_with ''/'' cs]"] by blast
  then have "fst (restore_target_for_archive_name c ?n w) =
         (if contains ?n [CHR 0x5C] \<or> contains ?n [CHR 0x00] then Inl ErrUnsafePath else Inr (Some (abs_path (rs @ cs))))"
    using validate_own_name [OF pc] trim unfolding web
    by (simp add: restore_target_for_archive_name_def bind_io_def lift_io_def ret_io_def split: prod.splits sum.splits)
  with ms' nd show ?thesis by blast
qed


theorem backup_name_round_trip_witness:
  "\<exists>name content w'. zip_entry ''/site'' ''web'' ''/site/index.html'' (Inr (NFile 420 ''home'')) [] demo_world = (Inr [(name, content)], w')
     \<and> fst (restore_target_for_archive_name demo_config name demo_world) \<in> {Inl ErrUnsafePath, Inr (Some ''/site/index.html'')}"
proof -
  have "fst (zip_entry ''/site'' ''web'' ''/site/index.html'' (Inr (NFile 420 ''home'')) [] demo_world) = Inr [(''web/index.html'', ''home'')]"
    by code_simp
  then obtain w' where z: "zip_entry ''/site'' ''web'' ''/site/index.html'' (Inr (NFile 420 ''home'')) [] demo_world
      = (Inr [(''web/index.html'', ''home'')], w')"
    using run_Inr [where m = "zip_entry ''/site'' ''web'' ''/site/index.html'' (Inr (NFile 420 ''home'')) []"] by blast
  have p: "abs_path [''site''] = ''/site''" "abs_path ([''site''] @ [''index.html'']) = ''/site/index.html''"
    "propers [''site'']" "propers [''index.html'']" "\<not> is_dir (NFile 420 ''home'')" "\<not> is_symlink (NFile 420 ''home'')"
    "propers (cwd demo_world)" "abs_of demo_world (WEB_FILE_PATH demo_config) = ''/site''"
    by (code_simp, code_simp, code_simp, code_simp, code_simp, code_simp, simp, code_simp)
  have "\<exists>name content. [(''web/index.html'', ''home'')] = [] @ [(name, content)] \<and> \<not> Zip_Dir (zip_member (name, content))
     \<and> fst (restore_target_for_archive_name demo_config name demo_world) =
         (if contains name [CHR 0x5C] \<or> contains name [CHR 0x00] then Inl ErrUnsafePath else Inr (Some ''/site/index.html''))"
    using backup_name_round_trip [of "[''site'']" "[''index.html'']" "NFile 420 ''home''" "[]" demo_world _ w' demo_world demo_config]
      p z by simp
  then show ?thesis using z by auto
qed


section \<open>Nothing before all members are checked\<close>

lemma inert_reject [simp]: "inert (reject_symlinks_from n t p)"
  by (induction n arbitrary: p) (auto intro!: inert_catch inert_bind simp: Let_def)

lemma inert_nearest [simp]: "inert (nearest_existing_from n p)"
  by (induction n arbitrary: p) (auto intro!: inert_catch simp: Let_def)

lemma inert_restore_checks [simp]:
  "inert (validate_restore_target_path root t)" "inert (restore_target_for_archive_name c name)" "inert (checked_target c name)"
  "inert (validate_restore_file c f)"
proof -
  show v: "inert (validate_restore_target_path root t)" for root t
    unfolding validate_restore_target_path_def reject_symlink_components_def nearest_existing_parent_def
    by (auto intro!: inert_bind simp del: reject_symlinks_from.simps nearest_existing_from.simps)
  show t: "inert (restore_target_for_archive_name c name)" for name
    unfolding restore_target_for_archive_name_def by (auto intro!: inert_bind)
  show "inert (checked_target c name)" for name
    unfolding checked_target_def by (auto intro!: inert_bind v t split: option.split)
  then show "inert (validate_restore_file c f)"
    unfolding validate_restore_file_def by (auto intro!: inert_bind)
qed

text \<open>A link, or a member whose name is refused.\<close>

definition bad_member :: "zip_file \<Rightarrow> bool" where
  "bad_member f \<longleftrightarrow> Zip_Symlink f \<or> validate_backup_entry_name (Zip_Name f) \<noteq> Inr ()"

lemma bad_member_refused: "bad_member f \<Longrightarrow> \<exists>e. fst (validate_restore_file c f w) = Inl e"
  by (auto simp: bad_member_def validate_restore_file_def bind_io_def lift_io_def fail_io_def split: sum.split prod.split)

lemma each_refused:
  assumes "f \<in> set members" and "bad_member f"
  shows "\<exists>e. fst (each_io (validate_restore_file c) members w) = Inl e"
  using assms(1)
proof (induction members arbitrary: w)
  case (Cons g members)
  show ?case
  proof (cases "f = g")
    case True
    then show ?thesis using bad_member_refused [OF assms(2), of c w] by (auto simp: bind_io_def split: prod.split)
  next
    case False
    then have "\<exists>e. fst (each_io (validate_restore_file c) members w') = Inl e" for w' using Cons by simp
    then show ?thesis by (auto simp: bind_io_def split: prod.split sum.split) (metis fst_conv sum.distinct(1))
  qed
qed simp

text \<open>
  Property C15. A backup with one bad member changes nothing: when any member is a symbolic link, or has a name that is
  absolute, not clean, or leaves the archive, the restore ends with an error before the first file is written, whatever
  comes before that member, and whatever calls of the system fail.
\<close>

theorem bad_member_stops_restore:
  assumes "f \<in> set members" and "bad_member f"
  shows "\<exists>e. fst (restore_members c p members w) = Inl e \<and> files (snd (restore_members c p members w)) = files w"
proof -
  obtain e w' where e: "each_io (validate_restore_file c) members w = (Inl e, w')"
    using each_refused [OF assms, of c w] by (metis prod.collapse)
  have "inert (each_io (validate_restore_file c) members)" by (intro inert_each) simp
  from inertD [OF this e] have "files w' = files w" by (simp add: same_files_def)
  then show ?thesis by (simp add: restore_members_def validate_restore_archive_def bind_io_def e)
qed

theorem bad_member_stops_restore_witness:
  "\<exists>e. fst (restore_members demo_config ''b.zip'' [zip_member (''web/index.html'', ''new''), zip_member (''web/../../etc/x'', ''evil'')] demo_world) = Inl e"
proof -
  have "bad_member (zip_member (''web/../../etc/x'', ''evil''))" by code_simp
  then show ?thesis
    using bad_member_stops_restore [of "zip_member (''web/../../etc/x'', ''evil'')"
      "[zip_member (''web/index.html'', ''new''), zip_member (''web/../../etc/x'', ''evil'')]" demo_config "''b.zip''" demo_world]
    by auto
qed

end
