(* ===== verification/UploadSafety.thy ===== *)
theory UploadSafety
  imports Upload
begin

text \<open>What may be uploaded, and the names that uploads are listed under.\<close>

section \<open>Types\<close>

text \<open>The pairs of an extension and a type of content that are stored, for each kind of upload.\<close>

definition upload_pairs :: "string \<Rightarrow> (string \<times> string) set" where
  "upload_pairs kind =
     (if kind = ''image'' then {(''.gif'', ''image/gif''), (''.jpg'', ''image/jpeg''), (''.jpeg'', ''image/jpeg''), (''.png'', ''image/png'')}
      else {(''.csv'', ''text/plain; charset=utf-8''), (''.json'', ''text/plain; charset=utf-8''), (''.json'', ''application/json''),
        (''.md'', ''text/plain; charset=utf-8''), (''.pdf'', ''application/pdf''), (''.txt'', ''text/plain; charset=utf-8'')})"

lemma image_pair:
  assumes "validate_image_upload decode ext sniffed content = Inr v"
  shows "(Valid_Ext v, Valid_MimeType v) \<in> upload_pairs ''image'' \<and> Valid_Ext v = ext \<and> Valid_MimeType v = sniffed \<and> Valid_Kind v = ''image''
     \<and> (\<exists>format. decode content = Some (Valid_Width v, Valid_Height v, format) \<and> (''.'' @ format = ext \<or> ext = ''.jpg'' \<and> format = ''jpeg''))"
proof -
  obtain want width height format where t: "map_of image_types ext = Some want" "sniffed = want" "decode content = Some (width, height, format)"
    and v: "v = \<lparr>Valid_Kind = ''image'', Valid_Ext = ext, Valid_MimeType = want, Valid_Width = width, Valid_Height = height\<rparr>"
    and f: "''.'' @ format = ext \<or> (ext = ''.jpg'' \<or> ext = ''.jpeg'') \<and> format = ''jpeg''"
    using assms by (auto simp: validate_image_upload_def Let_def split: option.splits if_splits)
  have "(ext, want) \<in> set image_types" using map_of_SomeD [OF t(1)] .
  moreover have "\<forall>p\<in>set image_types. p \<in> upload_pairs ''image''" by code_simp
  ultimately have "(ext, want) \<in> upload_pairs ''image''" by blast
  then show ?thesis using t(2,3) v f by auto
qed

lemma file_pair:
  assumes "validate_file_upload ext sniffed = Inr v"
  shows "(Valid_Ext v, Valid_MimeType v) \<in> upload_pairs ''file'' \<and> Valid_Ext v = ext \<and> Valid_MimeType v = sniffed \<and> Valid_Kind v = ''file''
     \<and> Valid_Width v = 0 \<and> Valid_Height v = 0"
proof -
  obtain mimes where t: "map_of file_types ext = Some mimes" "sniffed \<in> set mimes"
    and v: "v = \<lparr>Valid_Kind = ''file'', Valid_Ext = ext, Valid_MimeType = sniffed, Valid_Width = 0, Valid_Height = 0\<rparr>"
    using assms by (auto simp: validate_file_upload_def split: option.splits if_splits)
  have "(ext, mimes) \<in> set file_types" using map_of_SomeD [OF t(1)] .
  moreover have "\<forall>(e, ms)\<in>set file_types. \<forall>m\<in>set ms. (e, m) \<in> upload_pairs ''file''" by code_simp
  ultimately have "(ext, sniffed) \<in> upload_pairs ''file''" using t(2) by blast
  then show ?thesis using v by auto
qed




section \<open>Names\<close>

definition name_char :: "char \<Rightarrow> bool" where
  "name_char c \<longleftrightarrow> name_byte (byte c)"

lemma name_rune_chars: "list_all name_char (name_rune r)"
  by (auto simp: name_rune_def name_char_def name_byte_def byte_def of_byte_def)

lemma name_runes_chars: "list_all name_char (concat (map name_rune rs))"
  using name_rune_chars by (induction rs) auto

lemma path_ext_suffix: "\<exists>stem. p = stem @ path_ext p \<and> (path_ext p \<noteq> '''' \<longrightarrow> hd (path_ext p) = CHR ''.'')"
proof (cases "path_ext p = ''''")
  case False
  let ?l = "takeWhile not_slash (rev p)"
  have dot: "CHR ''.'' \<in> set ?l" and e: "path_ext p = CHR ''.'' # rev (takeWhile (\<lambda>c. c \<noteq> CHR ''.'') ?l)"
    using False by (auto simp: path_ext_def Let_def split: if_splits)
  obtain a t where a: "?l = a @ CHR ''.'' # t" "CHR ''.'' \<notin> set a" using split_list_first [OF dot] by blast
  have "takeWhile (\<lambda>c. c \<noteq> CHR ''.'') (a @ CHR ''.'' # t) = a" using a(2) by (induction a) auto
  with a have t: "?l = takeWhile (\<lambda>c. c \<noteq> CHR ''.'') ?l @ CHR ''.'' # t" by simp
  have "rev p = ?l @ dropWhile not_slash (rev p)" by simp
  then have "p = rev (dropWhile not_slash (rev p)) @ rev ?l" by (metis rev_append rev_rev_ident)
  then have "p = (rev (dropWhile not_slash (rev p)) @ rev t) @ path_ext p" unfolding e by (subst (asm) t) simp
  with e show ?thesis by fastforce
qed simp

lemma shorten_name_bounds:
  assumes "safe \<noteq> ''''" and "hd safe \<noteq> CHR ''.''"
  shows "length (shorten_name safe) \<le> 128 \<and> shorten_name safe \<noteq> '''' \<and> hd (shorten_name safe) = hd safe
     \<and> set (shorten_name safe) \<subseteq> set safe"
proof (cases "length safe > 128")
  case True
  obtain stem where s: "safe = stem @ path_ext safe" and "path_ext safe \<noteq> '''' \<longrightarrow> hd (path_ext safe) = CHR ''.''"
    using path_ext_suffix by blast
  then have ne: "stem \<noteq> ''''" using assms by (cases stem) auto
  have t: "trim_suffix safe (path_ext safe) = stem"
    using s by (metis append_eq_conv_conj has_suffix_def suffixI trim_suffix_def diff_add_inverse2 length_append)
  let ?e = "if length (path_ext safe) > 16 then '''' else path_ext safe"
  let ?s = "if length stem > 128 - length ?e then take (128 - length ?e) stem else stem"
  have r: "shorten_name safe = ?s @ ?e" using True t by (simp add: shorten_name_def Let_def)
  have l: "length ?e \<le> 16" "length ?s \<le> 128 - length ?e" by auto
  have "?s \<noteq> '''' \<and> hd ?s = hd stem \<and> set ?s \<subseteq> set stem" using ne by (auto simp: hd_take dest: in_set_takeD)
  moreover have "set ?e \<subseteq> set (path_ext safe)" by auto
  moreover have "hd stem = hd safe" "set stem \<union> set (path_ext safe) = set safe"
    using arg_cong [OF s, where f = hd] arg_cong [OF s, where f = set] ne by simp_all
  ultimately show ?thesis unfolding r using l by auto
qed (use assms in \<open>simp add: shorten_name_def\<close>)

lemma trim_bytes_hd: "trim_bytes s cs \<noteq> '''' \<Longrightarrow> hd (trim_bytes s cs) \<notin> set cs"
proof -
  let ?t = "dropWhile (\<lambda>c. c \<in> set cs) s"
  assume ne: "trim_bytes s cs \<noteq> ''''"
  have e: "trim_bytes s cs = trim_right_bytes ?t cs" by (simp add: trim_bytes_def trim_left_bytes_def)
  have t: "?t = trim_right_bytes ?t cs @ rev (takeWhile (\<lambda>c. c \<in> set cs) (rev ?t))"
    unfolding trim_right_bytes_def by (metis rev_append rev_rev_ident takeWhile_dropWhile_id)
  have "hd ?t = hd (trim_bytes s cs)" using arg_cong [OF t, where f = hd] ne e by simp
  moreover have "?t \<noteq> []" using ne e by (metis append_is_Nil_conv t)
  ultimately show ?thesis using hd_dropWhile [of "\<lambda>c. c \<in> set cs" s] by simp
qed

lemma trim_bytes_set: "set (trim_bytes s cs) \<subseteq> set s"
  unfolding trim_bytes_def trim_left_bytes_def trim_right_bytes_def
  by (metis set_dropWhileD set_rev subsetI)

text \<open>
  Property C36. The name that an upload is listed under has between 1 and 128 bytes, each of them a letter, a digit or one
  of \<open>.-_\<close>, and does not begin with a dot or a dash; so it is one component of a path, whatever name the client sends.
\<close>

theorem upload_name_bounds:
  "(let name = sanitize_upload_file_name fileName in
     1 \<le> length name \<and> length name \<le> 128 \<and> list_all name_char name \<and> hd name \<noteq> CHR ''.'' \<and> hd name \<noteq> CHR ''-'' \<and> proper name)"
proof -
  let ?n = "sanitize_upload_file_name fileName"
  have "1 \<le> length ?n \<and> length ?n \<le> 128 \<and> list_all name_char ?n \<and> hd ?n \<noteq> CHR ''.'' \<and> hd ?n \<noteq> CHR ''-''"
  proof -
    have up: "list_all name_char ''upload''" by code_simp
    define base where "base = (let b = trim_space (path_base fileName) in if b = ''.'' \<or> b = ''/'' \<or> b = '''' then ''upload'' else b)"
    define safe where "safe = trim_bytes (concat (map name_rune (runes base))) ''.-''"
    have n: "?n = (if safe = '''' then ''upload'' else shorten_name safe)"
      by (simp add: sanitize_upload_file_name_def Let_def safe_def base_def)
    show ?thesis
    proof (cases "safe = ''''")
      case True then show ?thesis using n up by simp
    next
      case False
      have h: "hd safe \<notin> set ''.-''" using trim_bytes_hd False unfolding safe_def by blast
      have c: "list_all name_char safe"
        using name_runes_chars trim_bytes_set unfolding safe_def list_all_iff by blast
      show ?thesis using shorten_name_bounds [OF False] h c n False by (auto simp: list_all_iff Suc_le_eq)
    qed
  qed
  then show ?thesis by (auto simp: Let_def proper_def name_char_def name_byte_def list_all_iff byte_def)
qed

end
