(* ===== verification/HostSafety.thy ===== *)
theory HostSafety
  imports SafePath Stillness
begin

text \<open>
  Host names come from the client, in a header, and end up as names of directories: each canonical host is one component of a path,
  and two hosts have directories apart.
\<close>

section \<open>Addresses\<close>

lemma read_number_split:
  assumes "read_number base digit s = Some (n, c)" and "digit (CHR ''/'') = None" and "CHR ''/'' \<notin> set (drop c s)"
  shows "CHR ''/'' \<notin> set s"
proof -
  have c: "c = length (takeWhile (\<lambda>c. digit c \<noteq> None) s)"
    using assms(1) by (auto simp: read_number_def Let_def split: if_splits)
  then have "take c s = takeWhile (\<lambda>c. digit c \<noteq> None) s" by (simp add: takeWhile_eq_take [symmetric])
  then have "CHR ''/'' \<notin> set (take c s)" using assms(2) by (auto dest: set_takeWhileD)
  with assms(3) show ?thesis by (metis Un_iff append_take_drop_id set_append)
qed

lemma digits_no_slash: "decimal_value (CHR ''/'') = None" "hex_value (CHR ''/'') = None"
  by code_simp+

lemma ipv4_no_slash: "parse_ipv4_fields k first s = Some ns \<Longrightarrow> CHR ''/'' \<notin> set s"
proof (induction k arbitrary: first s ns)
  case (Suc k)
  let ?s = "if first then s else tl s"
  obtain n c where r: "read_number 10 decimal_value ?s = Some (n, c)"
    and rest: "\<exists>ns. parse_ipv4_fields k False (drop c ?s) = Some ns" and hd: "s \<noteq> []" "\<not> first \<Longrightarrow> hd s = CHR ''.''"
    using Suc.prems by (auto simp: Let_def split: if_splits option.splits)
  have "CHR ''/'' \<notin> set ?s" using read_number_split [OF r digits_no_slash(1)] rest Suc.IH by blast
  then show ?case using hd by (cases s) (auto split: if_splits)
qed (auto split: if_splits)

lemma ipv6_no_slash: "parse_ipv6_groups k bs ell s = Some (ns, e, []) \<Longrightarrow> CHR ''/'' \<notin> set s"
proof (induction k arbitrary: bs ell s)
  case (Suc k)
  show ?case
  proof (cases "length bs \<ge> 16")
    case False
    with Suc.prems obtain n c where r: "read_number 16 hex_value s = Some (n, c)" by (auto split: option.splits if_splits)
    have four: "parse_ipv4 s = Some v \<Longrightarrow> CHR ''/'' \<notin> set s" for v using ipv4_no_slash unfolding parse_ipv4_def .
    have step: "CHR ''/'' \<notin> set s" if "CHR ''/'' \<notin> set (drop c s)" using read_number_split [OF r digits_no_slash(2) that] .
    let ?d = "drop c s"
    consider (four) v where "parse_ipv4 s = Some v" | (last) "?d = []"
      | (one) b e' where "?d \<noteq> []" "hd ?d = CHR '':''" "parse_ipv6_groups k b e' (tl ?d) = Some (ns, e, [])"
      | (two) b e' where "?d \<noteq> []" "hd ?d = CHR '':''" "tl ?d \<noteq> []" "hd (tl ?d) = CHR '':''"
          "tl (tl ?d) = [] \<or> parse_ipv6_groups k b e' (tl (tl ?d)) = Some (ns, e, [])"
    proof -
      have "length ?d \<noteq> 1 \<longrightarrow> ?d \<noteq> [] \<longrightarrow> tl ?d \<noteq> []" by (cases ?d) auto
      then show thesis
        using Suc.prems False r that by (auto simp: Let_def simp del: drop_eq_Nil split: if_splits option.splits)
    qed
    then show ?thesis
    proof cases
      case one then have "CHR ''/'' \<notin> set ?d" using Suc.IH [OF one(3)] by (cases ?d) auto
      then show ?thesis by (rule step)
    next
      case two
      then have "CHR ''/'' \<notin> set (tl (tl ?d))" using Suc.IH by auto
      then have "CHR ''/'' \<notin> set ?d" using two by (cases ?d; cases "tl ?d") auto
      then show ?thesis by (rule step)
    qed (use four step in auto)
  qed (use Suc.prems in simp)
qed simp

lemma parse_ip_no_slash: "parse_ip s = Some a \<Longrightarrow> CHR ''/'' \<notin> set s"
proof -
  assume a: "parse_ip s = Some a"
  have six: "CHR ''/'' \<notin> set s" if v: "parse_ipv6 s = Some v" for v
  proof (cases "has_prefix s ''::''")
    case True
    then obtain t where t: "s = ''::'' @ t" by (auto simp: has_prefix_def prefix_def)
    with v have "CHR ''/'' \<notin> set t"
      by (auto simp: parse_ipv6_def Let_def dest: ipv6_no_slash split: if_splits option.splits prod.splits)
    with t show ?thesis by simp
  next
    case False
    with v show ?thesis
      by (auto simp: parse_ipv6_def Let_def dest: ipv6_no_slash split: if_splits option.splits prod.splits)
  qed
  from a show ?thesis
    using six ipv4_no_slash [of 4 True s] by (auto simp: parse_ip_def parse_ipv4_def split: option.splits if_splits)
qed

section \<open>Canonical hosts\<close>

lemma check_labels_Inr:
  "check_labels labels = Inr () \<Longrightarrow> label \<in> set labels \<Longrightarrow>
     label \<noteq> '''' \<and> length label \<le> 63 \<and> \<not> has_prefix label ''-'' \<and> \<not> has_suffix label ''-'' \<and> list_all (\<lambda>c. host_rune (byte c)) label"
proof (induction labels)
  case (Cons l labels)
  have ok: "l \<noteq> ''''" "length l \<le> 63" "\<not> has_prefix l ''-''" "\<not> has_suffix l ''-''" "list_all host_rune (runes l)" "check_labels labels = Inr ()"
    using Cons.prems(1) by (auto split: if_splits)
  have "list_all (\<lambda>r. r < 128) (runes l)" using ok(5) by (auto simp: list_all_iff host_rune_def)
  then have "runes l = map byte l" by (intro runes_ascii runes_ascii_imp_bytes)
  then have "list_all (\<lambda>c. host_rune (byte c)) l" using ok(5) by (simp add: list_all_iff)
  then show ?case using ok Cons by auto
qed simp

text \<open>A label of a host name.\<close>

definition host_label :: "string \<Rightarrow> bool" where
  "host_label label \<longleftrightarrow> label \<noteq> '''' \<and> length label \<le> 63 \<and> \<not> has_prefix label ''-'' \<and> \<not> has_suffix label ''-''
     \<and> list_all (\<lambda>c. host_rune (byte c)) label"

lemma canonical_host_Inr:
  assumes "canonical_host host = Inr h"
  shows "h \<noteq> '''' \<and> length h \<le> 253 \<and> (parse_ip h \<noteq> None \<or> list_all host_label (split_on (CHR ''.'') h))"
proof -
  have len: "length ''localhost'' \<le> 253" by simp
  have local: "split_on (CHR ''.'') ''localhost'' = [''localhost'']" "host_label ''localhost''" by code_simp+
  have "h \<noteq> '''' \<and> length h \<le> 253 \<and> (parse_ip h \<noteq> None \<or> h = ''localhost'' \<or> check_labels (split_on (CHR ''.'') h) = Inr ())"
    using assms by (auto simp: canonical_host_def bind_result_def guard_err_def Let_def split: sum.splits if_splits)
      (metis len)
  then show ?thesis using check_labels_Inr local unfolding list_all_iff host_label_def by auto
qed

lemma set_join_with: "set (join_with s ws) \<subseteq> set s \<union> \<Union> (set (map set ws))"
  by (induction ws) (auto simp: join_with_Cons_Cons)

lemma canonical_host_proper: "canonical_host host = Inr h \<Longrightarrow> proper h"
proof -
  assume a: "canonical_host host = Inr h"
  note c = canonical_host_Inr [OF a]
  have d: "parse_ip ''.'' = None" "parse_ip ''..'' = None" "split_on (CHR ''.'') ''.'' = ['''', '''']"
    "split_on (CHR ''.'') ''..'' = ['''', '''', '''']" by code_simp+
  have "CHR ''/'' \<notin> set h" if labels: "list_all host_label (split_on (CHR ''.'') h)"
  proof
    assume "CHR ''/'' \<in> set h"
    then have "CHR ''/'' \<in> set (join_with ''.'' (split_on (CHR ''.'') h))" by simp
    then obtain label where l: "label \<in> set (split_on (CHR ''.'') h)" "CHR ''/'' \<in> set label"
      using set_join_with [of "''.''" "split_on (CHR ''.'') h"] by (auto simp del: join_split)
    then have "host_rune (byte (CHR ''/''))" using labels by (auto simp: list_all_iff host_label_def)
    then show False by (simp add: host_rune_def byte_def)
  qed
  moreover have "h \<noteq> ''.'' \<and> h \<noteq> ''..''" using c d by (auto simp: host_label_def)
  ultimately show ?thesis using c parse_ip_no_slash by (auto simp: proper_def)
qed


section \<open>Directories\<close>

lemma join_three:
  assumes "propers rs" and "propers cs"
  shows "path_join (abs_path rs # cs) = abs_path (rs @ cs)"
proof (cases "cs = []")
  case True
  then show ?thesis using assms by (simp add: path_join_def abs_path_def) (metis abs_path_def path_clean_abs_path)
next
  case False
  have "path_join (abs_path rs # cs) = path_join [abs_path rs, join_with ''/'' cs]"
    using False by (simp add: path_join_def abs_path_def join_with_Cons_Cons)
  then show ?thesis using path_join_abs_rel [OF assms] by simp
qed

lemma join_propers:
  assumes "propers (cwd w)" and "propers cs" and "safe_join_under_root root cs w = (Inr t, w')"
  shows "\<exists>rs. propers rs \<and> abs_of w root = abs_path rs \<and> t = abs_path (rs @ cs) \<and> same_files w w'"
proof -
  obtain rs where rs: "propers rs" "abs_of w root = abs_path rs" using abs_of_propers [OF assms(1)] by blast
  obtain rp w1 w2 where a1: "abs_io root w = (Inr rp, w1)" and a2: "abs_io (path_join (rp # cs)) w1 = (Inr t, w2)"
    and w2: "w2 = w'"
    using assms(3) unfolding safe_join_under_root_def by (auto simp: io_inv split: if_splits sum.splits)
  have "rp = abs_path rs" using abs_io_Inr [OF a1] rs by simp
  then have "t = abs_path (rs @ cs)"
    using abs_io_Inr [OF a2] rs(1) assms(2) by (simp add: join_three abs_of_def)
  moreover have "same_files w w1" "same_files w1 w2" using readsD [OF reads_abs_io] a1 a2 by blast+
  ultimately show ?thesis using rs w2 same_files_trans by blast
qed

text \<open>
  Property C19. The directories of a host. A host that is accepted has one canonical form of at most 253 bytes, an address or labels
  of 1 to 63 letters, digits and dashes, which is a single component of a path; and the directories of the host are
  \<open>domains/<host>/public\<close> below the site and \<open>domains/<host>\<close>, with \<open>media\<close> in it, below the archive. So no header can name a
  directory outside, and the directories of two hosts are apart.
\<close>

theorem host_directories:
  assumes "propers (cwd w)" and "domain_paths_of c host w = (Inr roots, w')"
  shows "\<exists>h rs as. canonical_host host = Inr h \<and> proper h \<and> length h \<le> 253
     \<and> (parse_ip h \<noteq> None \<or> list_all host_label (split_on (CHR ''.'') h))
     \<and> propers rs \<and> abs_of w (WEB_FILE_PATH c) = abs_path rs \<and> PublicRoot roots = abs_path (rs @ [''domains'', h, ''public''])
     \<and> propers as \<and> abs_of w (archive_root c) = abs_path as \<and> ArchiveRoot roots = abs_path (as @ [''domains'', h])
     \<and> MediaRoot roots = abs_path (as @ [''domains'', h, ''media''])"
proof -
  obtain h where h: "canonical_host host = Inr h" using assms(2) by (auto simp: domain_paths_of_def io_inv)
  note p = canonical_host_proper [OF h]
  obtain w1 w2 w3 w4 pub arc cache med where
      j1: "safe_join_under_root (WEB_FILE_PATH c) [''domains'', h, ''public''] w = (Inr pub, w1)"
    and j2: "safe_join_under_root (archive_root c) [''domains'', h] w1 = (Inr arc, w2)"
    and j3: "safe_join_under_root arc [''cache'', ''cleanhtml''] w2 = (Inr cache, w3)"
    and j4: "safe_join_under_root arc [''media''] w3 = (Inr med, w4)"
    and roots: "PublicRoot roots = pub" "ArchiveRoot roots = arc" "MediaRoot roots = med"
    using assms(2) h by (auto simp: domain_paths_of_def io_inv)
  have pr: "propers [''domains'', h, ''public'']" "propers [''domains'', h]" "propers [''cache'', ''cleanhtml'']" "propers [''media'']"
    using p by (simp_all add: proper_def)
  obtain rs where rs: "propers rs" "abs_of w (WEB_FILE_PATH c) = abs_path rs" "pub = abs_path (rs @ [''domains'', h, ''public''])"
    and s1: "same_files w w1" using join_propers [OF assms(1) pr(1) j1] by blast
  have c1: "propers (cwd w1)" and a1: "abs_of w1 p = abs_of w p" for p using s1 assms(1) by (simp_all add: same_files_simps)
  obtain as where as: "propers as" "abs_of w (archive_root c) = abs_path as" "arc = abs_path (as @ [''domains'', h])"
    and s2: "same_files w1 w2" using join_propers [OF c1 pr(2) j2] a1 by auto
  have c2: "propers (cwd w2)" using s2 c1 by (simp add: same_files_simps)
  have s3: "same_files w2 w3" using join_propers [OF c2 pr(3) j3] by blast
  have c3: "propers (cwd w3)" using s3 c2 by (simp add: same_files_simps)
  have d: "propers (as @ [''domains'', h])" using as(1) pr(2) by simp
  obtain ms where ms: "propers ms" "abs_of w3 arc = abs_path ms" "med = abs_path (ms @ [''media''])"
    using join_propers [OF c3 pr(4) j4] by blast
  have "ms = as @ [''domains'', h]" using ms(1,2) as(3) d abs_path_inject by (simp add: abs_of_def)
  then show ?thesis using h p canonical_host_Inr [OF h] rs as ms roots by auto
qed


lemma join_live:
  assumes "no_faults w" and "propers (cwd w)" and "propers cs"
  shows "\<exists>t w'. safe_join_under_root root cs w = (Inr t, w') \<and> no_faults w' \<and> propers (cwd w')"
proof -
  obtain rs where rs: "propers rs" "abs_of w root = abs_path rs" using abs_of_propers [OF assms(2)] by blast
  obtain w1 where a1: "abs_io root w = (Inr (abs_path rs), w1)" using abs_io_no_faults [OF assms(1)] rs(2) by metis
  have a2: "abs_io (abs_path (rs @ cs)) = ret_io (abs_path (rs @ cs))" using rs(1) assms(3) by (simp add: abs_io_def)
  have j: "path_join (abs_path rs # cs) = abs_path (rs @ cs)" using join_three rs(1) assms(3) by blast
  have "safe_join_under_root root cs w = (Inr (abs_path (rs @ cs)), w1)"
    unfolding safe_join_under_root_def bind_io_def [of "abs_io root"] a1 prod.case sum.case j
    using rs(1) assms(3) by (simp add: a2 bind_io_def ret_io_def inside_root_iff_prefix)
  moreover have "same_files w w1 \<and> same_setting w w1" using inertD [OF inert_abs_io a1] .
  ultimately show ?thesis using assms(1,2) no_faults_same by (metis same_files_simps(2))
qed

theorem host_directories_witness:
  "\<exists>roots h. canonical_host ''Example.ORG:8080'' = Inr h \<and> h = ''example.org'' \<and> proper h
     \<and> fst (domain_paths_of demo_config ''Example.ORG:8080'' demo_world) = Inr roots
     \<and> PublicRoot roots = ''/site/domains/example.org/public''"
proof -
  let ?h = "''Example.ORG:8080''"
  have h: "canonical_host ?h = Inr ''example.org''" by code_simp
  have pr: "propers [''domains'', ''example.org'', ''public'']" "propers [''domains'', ''example.org'']"
    "propers [''cache'', ''cleanhtml'']" "propers [''media'']" by code_simp+
  have w: "no_faults demo_world" "propers (cwd demo_world)" by simp_all
  obtain a w1 where 1: "safe_join_under_root (WEB_FILE_PATH demo_config) [''domains'', ''example.org'', ''public''] demo_world = (Inr a, w1)"
    "no_faults w1" "propers (cwd w1)" using join_live [OF w pr(1)] by blast
  obtain b w2 where 2: "safe_join_under_root (archive_root demo_config) [''domains'', ''example.org''] w1 = (Inr b, w2)"
    "no_faults w2" "propers (cwd w2)" using join_live [OF 1(2,3) pr(2)] by blast
  obtain d w3 where 3: "safe_join_under_root b [''cache'', ''cleanhtml''] w2 = (Inr d, w3)"
    "no_faults w3" "propers (cwd w3)" using join_live [OF 2(2,3) pr(3)] by blast
  obtain e w4 where 4: "safe_join_under_root b [''media''] w3 = (Inr e, w4)" using join_live [OF 3(2,3) pr(4)] by blast
  obtain roots where run: "domain_paths_of demo_config ?h demo_world = (Inr roots, w4)"
    by (simp add: domain_paths_of_def bind_io_def lift_io_def ret_io_def h 1 2 3 4)
  from host_directories [OF w(2) run] obtain rs where r: "proper ''example.org''" "abs_of demo_world (WEB_FILE_PATH demo_config) = abs_path rs"
    "PublicRoot roots = abs_path (rs @ [''domains'', ''example.org'', ''public''])" "propers rs" unfolding h by auto
  have "abs_of demo_world (WEB_FILE_PATH demo_config) = abs_path [''site'']" "propers [''site'']" by code_simp+
  then have "rs = [''site'']" using r(2,4) abs_path_inject by metis
  then have "PublicRoot roots = ''/site/domains/example.org/public''" using r(3) by (simp add: abs_path_def)
  then show ?thesis using run h r(1) by simp
qed

end
