(* ===== verification/Walks.thy ===== *)
theory Walks
  imports RestoreSafety AtomicLive
begin

text \<open>
  What a walk over a tree meets: every node below its root exactly, and it ends. So the list of pages has all pages, and a
  backup has all files.
\<close>

section \<open>Trees\<close>

text \<open>The names of a file system are components of paths, and what contains a node is a directory.\<close>

definition tree_ok :: "world \<Rightarrow> bool" where
  "tree_ok w \<longleftrightarrow> list_all (\<lambda>p. propers (fst p) \<and>
     (fst p \<noteq> [] \<longrightarrow> (case fs w (butlast (fst p)) of Some n \<Rightarrow> is_dir n | None \<Rightarrow> False))) (files w)"

lemma tree_okD:
  assumes "tree_ok w" and "fs w (q @ [n]) \<noteq> None"
  shows "proper n" and "propers q" and "\<exists>m. fs w q = Some (NDir m)"
proof -
  have "q @ [n] \<in> fst ` set (files w)" using assms(2) fs_keys by blast
  then have "propers (q @ [n]) \<and> (case fs w q of Some n \<Rightarrow> is_dir n | None \<Rightarrow> False)"
    using assms(1) unfolding tree_ok_def list_all_iff by force
  then show "proper n" "propers q" "\<exists>m. fs w q = Some (NDir m)" by (auto simp: is_dir_iff split: option.splits)
qed

lemma tree_ok_above:
  assumes "tree_ok w"
  shows "fs w (q @ cs) \<noteq> None \<Longrightarrow> cs \<noteq> [] \<Longrightarrow> (\<exists>m. fs w q = Some (NDir m)) \<and> propers cs"
proof (induction cs rule: rev_induct)
  case (snoc c cs)
  note d = tree_okD [OF assms, of "q @ cs" c]
  show ?case
  proof (cases "cs = []")
    case True then show ?thesis using d snoc.prems by simp
  next
    case False
    then have "fs w (q @ cs) \<noteq> None" using d snoc.prems by auto
    then show ?thesis using snoc.IH False d snoc.prems by simp
  qed
qed simp

text \<open>The kernel finds a child of a directory under the path of the directory and its name.\<close>

lemma kernel_child:
  assumes "kernel_path w True (abs_path ps) = Inr q" and "fs w q = Some (NDir m)" and "propers ps" and "proper c"
  shows "kernel_path w False (abs_path (ps @ [c])) = Inr (q @ [c])"
proof -
  have ne: "abs_path xs \<noteq> ''''" for xs by (simp add: abs_path_def)
  have "resolve (fs w) True 40 [] ps = Inr q"
    using assms(1,3) ne by (cases "ps = []") (simp_all add: kernel_path_def split_abs_path)
  from resolve_snoc [OF this assms(2,4)] show ?thesis
    using assms(3,4) ne by (simp add: kernel_path_def split_abs_path)
qed

section \<open>Walks\<close>

text \<open>
  What holds after the nodes of a set, named by their paths from the root, have been visited; a visitor may change the
  world elsewhere, as long as it leaves the tree alone.
\<close>

type_synonym 'a walk_inv = "'a \<Rightarrow> string list set \<Rightarrow> world \<Rightarrow> bool"

definition sees_tree :: "world \<Rightarrow> string list \<Rightarrow> path \<Rightarrow> world \<Rightarrow> bool" where
  "sees_tree w rs q w1 \<longleftrightarrow> no_faults w1 \<and> kernel_path w1 False (abs_path rs) = Inr q \<and> (\<forall>cs. fs w1 (q @ cs) = fs w (q @ cs))"

definition visits :: "world \<Rightarrow> string list \<Rightarrow> path \<Rightarrow> 'a walk_fn \<Rightarrow> 'a walk_inv \<Rightarrow> bool" where
  "visits w rs q visit I \<longleftrightarrow>
     (\<forall>acc S w1. I acc S w1 \<longrightarrow> sees_tree w rs q w1) \<and>
     (\<forall>acc S w1 w2. I acc S w1 \<and> same_files w1 w2 \<and> same_setting w1 w2 \<longrightarrow> I acc S w2) \<and>
     (\<forall>cs d acc S w1. I acc S w1 \<and> propers cs \<and> fs w (q @ cs) = Some d \<and> (cs = [] \<or> butlast cs \<in> S) \<longrightarrow>
       (\<exists>acc' w2. visit (abs_path (rs @ cs)) (Inr d) acc w1 = (Inr acc', w2) \<and> I acc' (insert cs S) w2))"

definition subtree :: "world \<Rightarrow> path \<Rightarrow> string list \<Rightarrow> string list set" where
  "subtree w q cs = {cs @ es | es. fs w (q @ cs @ es) \<noteq> None}"

lemma subtree_dir:
  assumes "tree_ok w" and "fs w (q @ cs) = Some d"
  shows "subtree w q cs = insert cs (if is_dir d then \<Union>n\<in>{n. fs w (q @ cs @ [n]) \<noteq> None}. subtree w q (cs @ [n]) else {})"
proof -
  have child: "is_dir d \<and> fs w (q @ cs @ [c]) \<noteq> None" if n: "fs w (q @ cs @ c # es) \<noteq> None" for c es
  proof -
    have "is_dir d" using tree_ok_above [OF assms(1), of "q @ cs" "c # es"] n assms(2) by (auto simp: is_dir_iff)
    moreover have "fs w ((q @ cs) @ [c]) \<noteq> None"
      using tree_ok_above [OF assms(1), of "(q @ cs) @ [c]" es] n by (cases "es = []") auto
    ultimately show ?thesis by simp
  qed
  show ?thesis
  proof (rule set_eqI)
    fix x
    show "x \<in> subtree w q cs \<longleftrightarrow>
      x \<in> insert cs (if is_dir d then \<Union>n\<in>{n. fs w (q @ cs @ [n]) \<noteq> None}. subtree w q (cs @ [n]) else {})" (is "?l \<longleftrightarrow> ?r")
    proof
      assume ?l
      then obtain es where es: "x = cs @ es" "fs w (q @ cs @ es) \<noteq> None" by (auto simp: subtree_def)
      show ?r
      proof (cases es)
        case (Cons c es')
        then have "x \<in> subtree w q (cs @ [c])" using es by (auto simp: subtree_def)
        moreover have "is_dir d" "fs w (q @ cs @ [c]) \<noteq> None" using child [of c es'] es(2) Cons by simp_all
        ultimately show ?thesis by auto
      qed (use es in simp)
    next
      assume ?r
      then show ?l using assms(2) by (auto simp: subtree_def split: if_splits)
    qed
  qed
qed

lemma sees_node:
  assumes "tree_ok w" and "sees_tree w rs q w1" and "propers rs" and "propers cs" and "fs w (q @ cs) = Some d"
  shows "kernel_path w1 False (abs_path (rs @ cs)) = Inr (q @ cs)"
  using assms(4,5)
proof (induction cs arbitrary: d rule: rev_induct)
  case Nil then show ?case using assms(2) by (simp add: sees_tree_def)
next
  case (snoc c cs)
  obtain m where m: "fs w (q @ cs) = Some (NDir m)" using tree_okD(3) [OF assms(1), of "q @ cs" c] snoc.prems(2) by auto
  then have n: "fs w1 (q @ cs) = Some (NDir m)" using assms(2) by (simp add: sees_tree_def)
  have "kernel_path w1 False (abs_path (rs @ cs)) = Inr (q @ cs)" using snoc.IH [OF _ m] snoc.prems(1) by simp
  then have "kernel_path w1 True (abs_path (rs @ cs)) = Inr (q @ cs)" using n by (auto intro: kernel_path_follow)
  from kernel_child [OF this n] show ?case using assms(3) snoc.prems(1) by simp
qed

lemma entries_visit:
  assumes "\<And>c d acc S w1. I acc S w1 \<Longrightarrow> (c, d) \<in> set es \<Longrightarrow> S0 \<subseteq> S \<Longrightarrow>
      \<exists>acc' w2. walk_dir n visit (path_join [p, c]) d acc w1 = (Inr acc', w2) \<and> I acc' (S \<union> B c) w2"
    and "I acc S w1" and "S0 \<subseteq> S"
  shows "\<exists>acc' w2. walk_entries n visit p es acc w1 = (Inr acc', w2) \<and> I acc' (S \<union> (\<Union>(c, d)\<in>set es. B c)) w2"
  using assms
proof (induction es arbitrary: acc S w1)
  case (Cons e es)
  obtain c d where e: "e = (c, d)" by (cases e)
  obtain acc1 w2 where 1: "walk_dir n visit (path_join [p, c]) d acc w1 = (Inr acc1, w2)" "I acc1 (S \<union> B c) w2"
    using Cons.prems(1) [OF Cons.prems(2), of c d] Cons.prems(3) e by auto
  obtain acc2 w3 where 2: "walk_entries n visit p es acc1 w2 = (Inr acc2, w3)" "I acc2 (S \<union> B c \<union> (\<Union>(c, d)\<in>set es. B c)) w3"
    using Cons.IH [OF Cons.prems(1) 1(2)] Cons.prems(3) by auto
  show ?case using 1 2 e by (auto simp: catch_io_def Un_assoc)
qed (simp add: ret_io_def)

lemma read_dir_ok:
  assumes "no_faults w" and "kernel_path w True p = Inr q" and "fs w q = Some (NDir m)"
  shows "\<exists>w'. os_read_dir p w = (Inr (dir_entries w q), w') \<and> same_files w w'"
  using assms
  by (simp add: os_read_dir_def bind_io_def catch_io_def ignoring_def os_open_ok file_calls_ok read_entries_def sys_ok ret_io_def)
    (simp add: same_files_def dir_entries_def child_names_def)

lemma walk_visit:
  assumes ok: "tree_ok w" and rs: "propers rs" and v: "visits w rs q visit I"
  shows "propers cs \<Longrightarrow> fs w (q @ cs) = Some d \<Longrightarrow> tree_depth w < n + length (q @ cs) \<Longrightarrow> I acc S w1 \<Longrightarrow> cs = [] \<or> butlast cs \<in> S \<Longrightarrow>
     \<exists>acc' w2. walk_dir n visit (abs_path (rs @ cs)) d acc w1 = (Inr acc', w2) \<and> I acc' (S \<union> subtree w q cs) w2"
proof (induction n arbitrary: cs d acc S w1)
  case 0
  then show ?case using tree_depth_bound [of w "q @ cs"] by simp
next
  case (Suc n)
  obtain acc1 w2 where 1: "visit (abs_path (rs @ cs)) (Inr d) acc w1 = (Inr acc1, w2)" "I acc1 (insert cs S) w2"
    using v Suc.prems unfolding visits_def by blast
  show ?case
  proof (cases "is_dir d")
    case False
    then have "S \<union> subtree w q cs = insert cs S" using subtree_dir [OF ok Suc.prems(2)] by simp
    then show ?thesis using 1 False by (simp add: catch_io_def ret_io_def)
  next
    case True
    then obtain m where d: "d = NDir m" by (auto simp: is_dir_iff)
    have t: "sees_tree w rs q w2" using v 1(2) unfolding visits_def by blast
    have f2: "fs w2 (q @ cs) = Some (NDir m)" "no_faults w2" using t Suc.prems(2) d by (auto simp: sees_tree_def)
    have "kernel_path w2 False (abs_path (rs @ cs)) = Inr (q @ cs)" by (rule sees_node [OF ok t rs Suc.prems(1,2)])
    then have k: "kernel_path w2 True (abs_path (rs @ cs)) = Inr (q @ cs)" using f2(1) by (auto intro: kernel_path_follow)
    obtain w3 where r: "os_read_dir (abs_path (rs @ cs)) w2 = (Inr (dir_entries w2 (q @ cs)), w3)" "same_files w2 w3"
      using read_dir_ok [OF f2(2) k f2(1)] by blast
    have i3: "I acc1 (insert cs S) w3" using v 1(2) inertD [OF inert_read_dir r(1)] unfolding visits_def by blast
    have entry: "(c, x) \<in> set (dir_entries w2 (q @ cs)) \<longleftrightarrow> fs w (q @ cs @ [c]) = Some x" for c x
      using t by (simp add: set_dir_entries sees_tree_def)
    have step: "\<exists>acc' w2. walk_dir n visit (path_join [abs_path (rs @ cs), c]) x acc w1 = (Inr acc', w2) \<and> I acc' (S' \<union> subtree w q (cs @ [c])) w2"
      if "I acc S' w1" and e: "(c, x) \<in> set (dir_entries w2 (q @ cs))" and "insert cs S \<subseteq> S'" for c x acc S' w1
    proof -
      have x: "fs w (q @ cs @ [c]) = Some x" using e entry by blast
      then have c: "proper c" using tree_okD(1) [OF ok, of "q @ cs" c] by simp
      have "path_join [abs_path (rs @ cs), c] = abs_path (rs @ cs @ [c])"
        using rs Suc.prems(1) c by (simp add: path_join_abs)
      then show ?thesis using Suc.IH [of "cs @ [c]" x acc S' w1] Suc.prems(1,3) c x that(1,3) by simp
    qed
    obtain acc2 w4 where 2: "walk_entries n visit (abs_path (rs @ cs)) (dir_entries w2 (q @ cs)) acc1 w3 = (Inr acc2, w4)"
      "I acc2 (insert cs S \<union> (\<Union>(c, x)\<in>set (dir_entries w2 (q @ cs)). subtree w q (cs @ [c]))) w4"
      using entries_visit [OF step i3 order.refl] by blast
    have "(\<Union>(c, x)\<in>set (dir_entries w2 (q @ cs)). subtree w q (cs @ [c])) = (\<Union>c\<in>{c. fs w (q @ cs @ [c]) \<noteq> None}. subtree w q (cs @ [c]))"
      using entry by fastforce
    then have "insert cs S \<union> (\<Union>(c, x)\<in>set (dir_entries w2 (q @ cs)). subtree w q (cs @ [c])) = S \<union> subtree w q cs"
      using subtree_dir [OF ok Suc.prems(2)] True by auto
    then show ?thesis using 1(1) r(1) 2 True by (simp add: catch_io_def)
  qed
qed

lemma walk_tree_visit:
  assumes "tree_ok w" and "propers rs" and "visits w rs q visit I"
    and "fs w q = Some d" and "I acc {} w1" and depth: "tree_depth w1 = tree_depth w"
  shows "\<exists>acc' w2. walk_tree (abs_path rs) visit acc w1 = (Inr acc', w2) \<and> I acc' (subtree w q []) w2"
proof -
  have t: "sees_tree w rs q w1" using assms(3,5) unfolding visits_def by blast
  have "fs w1 (q @ []) = fs w (q @ [])" using t unfolding sees_tree_def by blast
  then have l: "os_lstat (abs_path rs) w1 = (Inr d, tick_sys w1)"
    using assms(4) t by (simp add: os_lstat_def sys_ok node_at_def sys_result_def sees_tree_def)
  have "same_files w1 (tick_sys w1) \<and> same_setting w1 (tick_sys w1)" by (simp add: same_setting_def)
  then have "I acc {} (tick_sys w1)" using assms(3) assms(5) unfolding visits_def by blast
  then obtain acc' w2 where "walk_dir (Suc (tree_depth w)) visit (abs_path rs) d acc (tick_sys w1) = (Inr acc', w2)"
    "I acc' (subtree w q []) w2"
    using walk_visit [OF assms(1-3), of "[]" d "Suc (tree_depth w)" acc "{}" "tick_sys w1"] assms(4) by auto
  then show ?thesis unfolding walk_tree_def depth by (simp add: catch_io_def l ret_io_def del: walk_dir.simps)
qed

text \<open>A visitor that only collects, into a list.\<close>

definition collects :: "world \<Rightarrow> string list \<Rightarrow> path \<Rightarrow> 'a list walk_fn \<Rightarrow> (string list \<Rightarrow> node \<Rightarrow> 'a set) \<Rightarrow> bool" where
  "collects w rs q visit f \<longleftrightarrow> (\<forall>cs d acc w1.
     propers cs \<and> same_files w w1 \<and> kernel_path w False (abs_path (rs @ cs)) = Inr (q @ cs) \<and> fs w (q @ cs) = Some d \<longrightarrow>
       (\<exists>acc' w2. visit (abs_path (rs @ cs)) (Inr d) acc w1 = (Inr acc', w2) \<and> set acc' = set acc \<union> f cs d \<and> same_files w w2))"

definition collected :: "world \<Rightarrow> path \<Rightarrow> (string list \<Rightarrow> node \<Rightarrow> 'a set) \<Rightarrow> 'a set \<Rightarrow> 'a list walk_inv" where
  "collected w q f A acc S w1 \<longleftrightarrow> same_files w w1 \<and> set acc = A \<union> (\<Union>cs\<in>S. case fs w (q @ cs) of None \<Rightarrow> {} | Some d \<Rightarrow> f cs d)"

lemma walk_tree_collect:
  assumes "no_faults w" and "tree_ok w" and "propers rs" and "collects w rs q visit f"
    and "kernel_path w False (abs_path rs) = Inr q" and "fs w q = Some d" and "same_files w w1"
  shows "\<exists>acc' w2. walk_tree (abs_path rs) visit acc w1 = (Inr acc', w2) \<and> same_files w w2
     \<and> set acc' = set acc \<union> {x. \<exists>es n. fs w (q @ es) = Some n \<and> x \<in> f es n}"
proof -
  let ?I = "collected w q f (set acc)"
  have sees: "sees_tree w rs q w2" if "same_files w w2" for w2
    using that assms(1,5) no_faults_same by (auto simp: sees_tree_def same_files_simps)
  have v: "visits w rs q visit ?I"
    unfolding visits_def
  proof (intro conjI allI impI)
    fix acc S w1 assume "?I acc S w1" then show "sees_tree w rs q w1" using sees by (simp add: collected_def)
  next
    fix acc S w1 w2 assume "?I acc S w1 \<and> same_files w1 w2 \<and> same_setting w1 w2"
    then show "?I acc S w2" using same_files_trans by (auto simp: collected_def)
  next
    fix cs d acc S w1
    assume a: "?I acc S w1 \<and> propers cs \<and> fs w (q @ cs) = Some d \<and> (cs = [] \<or> butlast cs \<in> S)"
    then have s: "same_files w w1" by (simp add: collected_def)
    have "kernel_path w False (abs_path (rs @ cs)) = Inr (q @ cs)"
      using sees_node [OF assms(2) sees assms(3)] a by (simp add: same_files_def)
    then obtain acc' w2 where "visit (abs_path (rs @ cs)) (Inr d) acc w1 = (Inr acc', w2)" "set acc' = set acc \<union> f cs d" "same_files w w2"
      using assms(4) a s unfolding collects_def by blast
    then show "\<exists>acc' w2. visit (abs_path (rs @ cs)) (Inr d) acc w1 = (Inr acc', w2) \<and> ?I acc' (insert cs S) w2"
      using a by (auto simp: collected_def)
  qed
  have i: "?I acc {} w1" using assms(7) by (simp add: collected_def)
  obtain acc' w2 where "walk_tree (abs_path rs) visit acc w1 = (Inr acc', w2)" "?I acc' (subtree w q []) w2"
    using walk_tree_visit [OF assms(2,3) v assms(6) i tree_depth_same [OF assms(7)]] by blast
  moreover have "(\<Union>cs\<in>subtree w q []. case fs w (q @ cs) of None \<Rightarrow> {} | Some d \<Rightarrow> f cs d) = {x. \<exists>es n. fs w (q @ es) = Some n \<and> x \<in> f es n}"
  proof -
    have "x \<in> (case fs w (q @ cs) of None \<Rightarrow> {} | Some d \<Rightarrow> f cs d) \<longleftrightarrow> (\<exists>n. fs w (q @ cs) = Some n \<and> x \<in> f cs n)" for x cs
      by (simp split: option.split)
    then have "(\<exists>cs. fs w (q @ cs) \<noteq> None \<and> x \<in> (case fs w (q @ cs) of None \<Rightarrow> {} | Some d \<Rightarrow> f cs d))
        \<longleftrightarrow> (\<exists>es n. fs w (q @ es) = Some n \<and> x \<in> f es n)" for x by (metis option.distinct(1))
    then show ?thesis by (simp add: subtree_def set_eq_iff)
  qed
  ultimately show ?thesis by (auto simp: collected_def)
qed

section \<open>Backups\<close>

lemma split_join_append:
  "propers ps \<Longrightarrow> ps \<noteq> [] \<Longrightarrow> split_on (CHR ''/'') (join_with ''/'' ps @ CHR ''/'' # s) = ps @ split_on (CHR ''/'') s"
proof (induction ps)
  case (Cons p ps)
  then show ?case by (cases "ps = []") (simp_all add: join_with_Cons_Cons split_on_append_sep properD)
qed simp

lemma path_join_relative:
  assumes "propers ps" and "ps \<noteq> []" and "propers cs"
  shows "path_join [join_with ''/'' ps, if cs = [] then ''.'' else join_with ''/'' cs] = join_with ''/'' (ps @ cs)"
proof -
  let ?s = "if cs = [] then ''.'' else join_with ''/'' cs"
  have ne: "join_with ''/'' ps \<noteq> ''''" using assms(1,2) by (cases ps) (auto simp: join_with_Cons_Cons)
  have na: "\<not> is_abs (join_with ''/'' ps)" using path_clean_rel(2) assms(1,2) by blast
  have "foldl (clean_step False) (rev ps) (split_on (CHR ''/'') ?s) = rev (ps @ cs)"
    using assms(3) by (auto simp: split_join_propers foldl_clean_of_propers clean_step_def)
  then have "clean_comps False (split_on (CHR ''/'') (join_with ''/'' ps @ CHR ''/'' # ?s)) = ps @ cs"
    using assms(1,2) by (simp add: split_join_append clean_comps_def foldl_clean_of_propers)
  moreover have "\<not> is_abs (join_with ''/'' ps @ CHR ''/'' # ?s)" using ne na by (simp add: is_abs_append)
  ultimately show ?thesis using ne assms(2) by (simp add: path_join_def path_clean_def)
qed

definition zipped :: "string list \<Rightarrow> string list \<Rightarrow> node \<Rightarrow> (string \<times> string) set" where
  "zipped ps cs d = (case d of NFile m b \<Rightarrow> {(join_with ''/'' (ps @ cs), b)} | _ \<Rightarrow> {})"

lemma zip_collects:
  assumes "no_faults w" and "propers rs" and "propers ps" and "ps \<noteq> []"
  shows "collects w rs q (zip_entry (abs_path rs) (join_with ''/'' ps)) (zipped ps)"
  unfolding collects_def
proof (intro allI impI)
  fix cs d acc w1
  assume a: "propers cs \<and> same_files w w1 \<and> kernel_path w False (abs_path (rs @ cs)) = Inr (q @ cs) \<and> fs w (q @ cs) = Some d"
  let ?p = "abs_path (rs @ cs)" and ?rel = "if cs = [] then ''.'' else join_with ''/'' cs"
  have pc: "propers (rs @ cs)" using assms(2) a by simp
  have rel: "filepath_rel (abs_path rs) ?p = Inr ?rel"
    using assms(2) pc by (simp add: filepath_rel_abs strip_common_prefix)
  have name: "path_join [join_with ''/'' ps, ?rel] = join_with ''/'' (ps @ cs)"
    using path_join_relative assms(3,4) a by blast
  have inside: "path_is_inside_root (abs_path rs) ?p" using assms(2) pc by (simp add: inside_root_iff_prefix)
  have abs: "abs_io ?p = ret_io ?p" using pc by (simp add: abs_io_def)
  show "\<exists>acc' w2. zip_entry (abs_path rs) (join_with ''/'' ps) ?p (Inr d) acc w1 = (Inr acc', w2)
     \<and> set acc' = set acc \<union> zipped ps cs d \<and> same_files w w2"
  proof (cases d)
    case (NFile m b)
    have k: "kernel_path w1 True ?p = Inr (q @ cs)" "fs w1 (q @ cs) = Some (NFile m b)" "no_faults w1"
      using a NFile kernel_path_follow [of w ?p "q @ cs"] assms(1) no_faults_same by (auto simp: same_files_simps)
    have "add_file_to_zip ?p (join_with ''/'' (ps @ cs)) acc w1 = (Inr (acc @ [(join_with ''/'' (ps @ cs), b)]), tick_sys (tick_sys (tick_sys w1)))"
      using k by (simp add: add_file_to_zip_def bind_io_def defer_io_def catch_io_def ignoring_def os_open_ok file_read_def file_calls_ok sys_ok ret_io_def)
    moreover have "same_files w (tick_sys (tick_sys (tick_sys w1)))" using a by (simp add: same_files_def)
    ultimately show ?thesis
      using NFile inside by (simp add: zip_entry_def abs bind_io_def ret_io_def lift_io_def rel name zipped_def is_dir_iff is_symlink_def)
  qed (use a in \<open>auto simp: zip_entry_def zipped_def is_dir_iff is_symlink_def ret_io_def\<close>)
qed

text \<open>
  Property C16. When no call fails, adding a directory to a backup adds exactly the regular files at and below it, each with its
  content and under its path from the root; the walk ends, at any depth. Links are not followed: so nothing from outside
  gets in; and when the directory itself is a link, nothing is added and no error is reported, which is the backup of a
  site whose web root is a link to it.
\<close>

theorem backup_has_all_files:
  assumes "no_faults w" and "tree_ok w" and "propers (cwd w)" and "propers ps" and "ps \<noteq> []"
    and "kernel_path w False (abs_of w root) = Inr q" and "fs w q = Some d"
  shows "\<exists>ms' w'. add_directory_to_zip root (join_with ''/'' ps) ms w = (Inr ms', w') \<and> fs w' = fs w
     \<and> set ms' = set ms \<union> {(join_with ''/'' (ps @ cs), b) | cs m b. fs w (q @ cs) = Some (NFile m b)}
     \<and> (is_symlink d \<longrightarrow> set ms' = set ms)"
proof -
  obtain rs where rs: "propers rs" "abs_of w root = abs_path rs" using abs_of_propers [OF assms(3)] by blast
  obtain w1 where a: "abs_io root w = (Inr (abs_path rs), w1)" "same_files w w1" using abs_io_no_faults [OF assms(1)] rs(2) by metis
  have k: "kernel_path w False (abs_path rs) = Inr q" using assms(6) rs(2) by simp
  obtain ms' w2 where m: "walk_tree (abs_path rs) (zip_entry (abs_path rs) (join_with ''/'' ps)) ms w1 = (Inr ms', w2)" "same_files w w2"
    "set ms' = set ms \<union> {x. \<exists>es n. fs w (q @ es) = Some n \<and> x \<in> zipped ps es n}"
    using walk_tree_collect [OF assms(1,2) rs(1) zip_collects [OF assms(1) rs(1) assms(4,5)] k assms(7) a(2)] by blast
  have e: "{x. \<exists>es n. fs w (q @ es) = Some n \<and> x \<in> zipped ps es n} =
      {(join_with ''/'' (ps @ cs), b) | cs m b. fs w (q @ cs) = Some (NFile m b)}"
  proof -
    have "x \<in> zipped ps es n \<longleftrightarrow> (\<exists>m b. n = NFile m b \<and> x = (join_with ''/'' (ps @ es), b))" for x es n
      by (cases n) (auto simp: zipped_def)
    then show ?thesis by auto
  qed
  have "fs w (q @ cs) \<noteq> Some (NFile m b)" if "is_symlink d" for cs m b
    using that assms(7) tree_ok_above [OF assms(2), of q cs] by (cases "cs = []") (auto simp: is_symlink_def)
  then show ?thesis
    using m e a(1) same_files_simps(1) [OF m(2)] by (auto simp: add_directory_to_zip_def bind_io_def)
qed


theorem backup_has_all_files_witness:
  "(\<exists>ms' w'. add_directory_to_zip ''/site'' ''web'' [] demo_world = (Inr ms', w')
      \<and> (''web/index.html'', ''home'') \<in> set ms' \<and> (''web/docs/a.html'', ''a'') \<in> set ms')
   \<and> (\<exists>w'. add_directory_to_zip ''/site/in'' ''web'' [] demo_world = (Inr [], w'))"
proof -
  have ok: "tree_ok demo_world" "propers (cwd demo_world)" "propers [''web'']" "[''web''] \<noteq> []" by (code_simp, simp, code_simp, simp)
  have a: "kernel_path demo_world False (abs_of demo_world ''/site'') = Inr [''site'']" "fs demo_world [''site''] = Some (NDir 493)"
    "fs demo_world ([''site''] @ [''index.html'']) = Some (NFile 420 ''home'')"
    "fs demo_world ([''site''] @ [''docs'', ''a.html'']) = Some (NFile 420 ''a'')"
    "kernel_path demo_world False (abs_of demo_world ''/site/in'') = Inr [''site'', ''in'']"
    "fs demo_world [''site'', ''in''] = Some (NLink ''docs'')" "is_symlink (NLink ''docs'')"
    by code_simp+
  have j: "join_with ''/'' [''web''] = ''web''" "join_with ''/'' ([''web''] @ [''index.html'']) = ''web/index.html''"
    "join_with ''/'' ([''web''] @ [''docs'', ''a.html'']) = ''web/docs/a.html''" by code_simp+
  obtain ms w1 where m: "add_directory_to_zip ''/site'' ''web'' [] demo_world = (Inr ms, w1)"
    "set ms = {(join_with ''/'' ([''web''] @ cs), b) | cs m b. fs demo_world ([''site''] @ cs) = Some (NFile m b)}"
    using backup_has_all_files [OF demo_world_facts(1) ok a(1,2), of "[]"] unfolding j(1) by auto
  have "(''web/index.html'', ''home'') \<in> set ms" unfolding m(2) using a(3) j(2) by (intro CollectI exI [of _ "[''index.html'']"]) auto
  moreover have "(''web/docs/a.html'', ''a'') \<in> set ms"
    unfolding m(2) using a(4) j(3) by (intro CollectI exI [of _ "[''docs'', ''a.html'']"]) auto
  moreover obtain ms' w2 where "add_directory_to_zip ''/site/in'' ''web'' [] demo_world = (Inr ms', w2)" "set ms' = {}"
    using backup_has_all_files [OF demo_world_facts(1) ok a(5,6), of "[]"] a(7) unfolding j(1) by auto
  ultimately show ?thesis using m(1) by auto
qed

section \<open>Lists of pages\<close>

lemma path_base_abs:
  assumes "propers cs" and "cs \<noteq> []"
  shows "path_base (abs_path cs) = last cs"
proof -
  obtain ds d where c: "cs = ds @ [d]" using assms(2) by (cases cs rule: rev_cases) auto
  have "abs_path cs = (if False then [] else (if ds = [] then [] else abs_path ds) @ ''/'') @ d" by (simp add: c abs_path_snoc)
  then show ?thesis using path_base_last [of d False] assms(1) c by simp
qed

definition listed :: "string list \<Rightarrow> node \<Rightarrow> string set" where
  "listed cs d = (case d of NFile m b \<Rightarrow> if path_ext (last cs) = ''.html'' then {''/'' @ join_with ''/'' cs} else {} | _ \<Rightarrow> {})"

lemma pages_collect:
  assumes "propers rs" and "fs w q = Some (NDir k)"
  shows "collects w rs q (page_entry (abs_path rs) err (\<lambda>absolutePath pages.
     bind_io (lift_io (filepath_rel (abs_path rs) absolutePath)) (\<lambda>relativePath. ret_io (pages @ [''/'' @ relativePath])))) listed"
  unfolding collects_def
proof (intro allI impI)
  fix cs d acc w1
  assume a: "propers cs \<and> same_files w w1 \<and> kernel_path w False (abs_path (rs @ cs)) = Inr (q @ cs) \<and> fs w (q @ cs) = Some d"
  let ?p = "abs_path (rs @ cs)"
  have pc: "propers (rs @ cs)" using assms(1) a by simp
  have ne: "cs \<noteq> []" if "d = NFile m b" for m b using that a assms(2) by auto
  have rel: "filepath_rel (abs_path rs) ?p = Inr (join_with ''/'' cs)" if "cs \<noteq> []"
    using assms(1) pc that by (simp add: filepath_rel_abs strip_common_prefix)
  have base: "path_base ?p = last cs" if "cs \<noteq> []" using path_base_abs [OF pc] that by simp
  have inside: "path_is_inside_root (abs_path rs) ?p" using assms(1) pc by (simp add: inside_root_iff_prefix)
  have abs: "abs_io ?p = ret_io ?p" using pc by (simp add: abs_io_def)
  show "\<exists>acc' w2. page_entry (abs_path rs) err (\<lambda>absolutePath pages.
       bind_io (lift_io (filepath_rel (abs_path rs) absolutePath)) (\<lambda>relativePath. ret_io (pages @ [''/'' @ relativePath]))) ?p (Inr d) acc w1
       = (Inr acc', w2) \<and> set acc' = set acc \<union> listed cs d \<and> same_files w w2"
  proof (cases d)
    case (NFile m b)
    then show ?thesis
      using a ne [OF NFile] rel base inside
      by (simp add: page_entry_def is_dir_iff is_symlink_def abs bind_io_def ret_io_def lift_io_def listed_def)
  qed (use a in \<open>auto simp: page_entry_def listed_def is_dir_iff is_symlink_def ret_io_def\<close>)
qed



end
