(* ===== verification/SnapshotSafety.thy ===== *)
theory SnapshotSafety
  imports Walks Snapshot
begin

text \<open>What a published snapshot has: the copy of a tree is the tree, without its links.\<close>

section \<open>Paths that the kernel takes as they are\<close>

lemma kernel_physical:
  assumes "tree_ok w" and "fs w q \<noteq> None"
  shows "kernel_path w False (abs_path q) = Inr q"
  using assms(2)
proof (induction q rule: rev_induct)
  case Nil
  then show ?case by (simp add: kernel_path_def split_abs_path) (simp add: abs_path_def)
next
  case (snoc c q)
  obtain m where m: "fs w q = Some (NDir m)" using tree_okD(3) [OF assms(1), of q c] snoc.prems by auto
  then have "kernel_path w True (abs_path q) = Inr q" using snoc.IH by (auto intro: kernel_path_follow)
  from kernel_child [OF this m] show ?case using tree_okD(1,2) [OF assms(1) snoc.prems] by simp
qed

lemma mkdir_parent_abs:
  assumes "propers ps" and "proper c"
  shows "mkdir_parent (abs_path (ps @ [c])) = (if ps = [] then None else Some (abs_path ps))"
proof -
  have c: "c \<noteq> []" "CHR ''/'' \<notin> set c" using assms(2) by (auto simp: proper_def)
  then have l: "last c \<noteq> CHR ''/''" using last_in_set by metis
  let ?d = "if ps = [] then [] else abs_path ps"
  have p: "abs_path (ps @ [c]) = ?d @ CHR ''/'' # c" by (rule abs_path_snoc)
  have i: "rev (dropWhile (\<lambda>c. c = CHR ''/'') (rev (?d @ CHR ''/'' # c))) = ?d @ CHR ''/'' # c"
    using c l by (cases c rule: rev_cases) auto
  have j: "rev (dropWhile not_slash (rev (?d @ CHR ''/'' # c))) = ?d @ ''/''"
    using c(2) dropWhile_not_slash [of "rev c" "rev ?d"] by simp
  show ?thesis unfolding mkdir_parent_def p i Let_def j by (auto simp: abs_path_def)
qed

text \<open>\<open>MkdirAll\<close> of a directory that is there, and of a new one in a directory that is there.\<close>

lemma mkdir_all_new:
  assumes "no_faults w" and "propers ps" and "proper c" and "kernel_path w True (abs_path ps) = Inr d" and "fs w d = Some (NDir m)"
    and "fs w (d @ [c]) = None"
  shows "\<exists>w'. os_mkdir_all (abs_path (ps @ [c])) perm w = (Inr (), w') \<and> fs w' = (fs w)(d @ [c] \<mapsto> NDir (masked perm w)) \<and> same_setting w w'"
proof -
  have k: "kernel_path w False (abs_path (ps @ [c])) = Inr (d @ [c])" by (rule kernel_child [OF assms(4,5,2,3)])
  then have kt: "kernel_path w True (abs_path (ps @ [c])) = Inr (d @ [c])" using assms(6) by (auto intro: kernel_path_follow)
  obtain e where stat: "os_stat (abs_path (ps @ [c])) w = (Inl e, tick_sys w)"
    using assms(1,6) kt by (auto simp: os_stat_def sys_ok node_at_def sys_result_def)
  obtain w2 where parent: "(case mkdir_parent (abs_path (ps @ [c])) of None \<Rightarrow> ret_io () | Some q \<Rightarrow> mkdir_all perm q) (tick_sys w) = (Inr (), w2)"
    "same_files w w2" "same_setting w w2"
  proof (cases "ps = []")
    case True
    then show thesis using that [of "tick_sys w"] mkdir_parent_abs [OF assms(2,3)] by (simp add: ret_io_def)
  next
    case False
    have "mkdir_all perm (abs_path ps) (tick_sys w) = (Inr (), tick_sys (tick_sys w))"
      using mkdir_all_present [of "tick_sys w" "abs_path ps" d m perm] assms(1,4,5) by (simp add: os_mkdir_all_def kernel_path_def)
    then show thesis using that [of "tick_sys (tick_sys w)"] mkdir_parent_abs [OF assms(2,3)] False by (simp add: same_files_def same_setting_def)
  qed
  have s3: "same_files w (tick_sys w2)" using parent(2) by (simp add: same_files_def)
  have nf: "no_faults w2" using no_faults_same [OF parent(2)] assms(1) by simp
  have "os_mkdir (abs_path (ps @ [c])) perm w2 = (Inr (), put_node (d @ [c]) (NDir (masked perm (tick_sys w2))) (tick_sys w2))"
    unfolding os_mkdir_def sys_ok [OF nf] same_files_simps(1,3) [OF s3] k using assms(6) by simp
  then have "os_mkdir_all (abs_path (ps @ [c])) perm w = (Inr (), put_node (d @ [c]) (NDir (masked perm (tick_sys w2))) (tick_sys w2))"
    unfolding os_mkdir_all_def mkdir_all.simps [of perm "abs_path (ps @ [c])"] catch_io_def [of "os_stat (abs_path (ps @ [c]))"] stat
      prod.case sum.case bind_io_def parent(1) by (simp add: catch_io_def ret_io_def)
  moreover have "masked perm (tick_sys w2) = masked perm w" using parent(3) by (simp add: masked_def same_setting_def)
  ultimately show ?thesis using same_files_simps(1) [OF parent(2)] parent(3) by (auto simp: same_setting_def)
qed


section \<open>The copy of a tree\<close>

text \<open>What becomes of a node: directories get the usual mode, files keep theirs, both less the mask of the process; links are left out.\<close>

fun copied :: "world \<Rightarrow> node option \<Rightarrow> node option" where
  "copied w (Some (NDir m)) = Some (NDir (masked 493 w))"
| "copied w (Some (NFile m b)) = Some (NFile (masked m w) b)"
| "copied w _ = None"

text \<open>The files when the nodes of a set have been copied to an empty directory.\<close>

definition overlay :: "world \<Rightarrow> path \<Rightarrow> path \<Rightarrow> string list set \<Rightarrow> file_system" where
  "overlay w q t S p =
     (if strict_prefix t p then (let cs = drop (length t) p in if cs \<in> S then copied w (fs w (q @ cs)) else None) else fs w p)"

definition copying :: "world \<Rightarrow> path \<Rightarrow> path \<Rightarrow> unit walk_inv" where
  "copying w q t acc S w1 \<longleftrightarrow> fs w1 = overlay w q t S \<and> same_setting w w1 \<and> (\<forall>cs\<in>S. cs = [] \<or> butlast cs \<in> S)"

lemma overlay_target: "cs \<noteq> [] \<Longrightarrow> overlay w q t S (t @ cs) = (if cs \<in> S then copied w (fs w (q @ cs)) else None)"
  by (cases cs) (simp_all add: overlay_def strict_prefix_def)

lemma overlay_outside: "\<not> strict_prefix t p \<Longrightarrow> overlay w q t S p = fs w p"
  by (simp add: overlay_def)

lemma overlay_insert:
  assumes "cs \<noteq> []"
  shows "overlay w q t (insert cs S) = (overlay w q t S)(t @ cs := copied w (fs w (q @ cs)))"
proof
  fix p
  show "overlay w q t (insert cs S) p = ((overlay w q t S)(t @ cs := copied w (fs w (q @ cs)))) p"
    using assms by (cases "strict_prefix t p") (auto simp: overlay_def strict_prefix_def prefix_def Let_def)
qed

lemma overlay_nil: "overlay w q t (insert [] S) = overlay w q t S"
proof
  fix p show "overlay w q t (insert [] S) p = overlay w q t S p"
    by (cases "drop (length t) p = []") (auto simp: overlay_def strict_prefix_def prefix_def Let_def)
qed

lemma copied_same: "same_setting w w1 \<Longrightarrow> masked k w1 = masked k w"
  by (simp add: masked_def same_setting_def)

text \<open>A copy from one tree to an empty directory apart from it.\<close>

definition apart :: "world \<Rightarrow> path \<Rightarrow> path \<Rightarrow> bool" where
  "apart w q t \<longleftrightarrow> \<not> prefix q t \<and> \<not> prefix t q \<and> (\<exists>m. fs w t = Some (NDir m)) \<and> (\<forall>cs. cs \<noteq> [] \<longrightarrow> fs w (t @ cs) = None)"

lemma apart_source:
  assumes "apart w q t"
  shows "overlay w q t S (q @ cs) = fs w (q @ cs)"
proof -
  have "\<not> prefix t (q @ cs)" using assms prefix_same_cases [of t "q @ cs" q] by (auto simp: apart_def)
  then show ?thesis by (intro overlay_outside) (auto simp: strict_prefix_def)
qed

lemma overlay_extends:
  assumes "apart w q t"
  shows "extends (fs w) (overlay w q t S)"
  unfolding extends_def
proof (intro allI impI)
  fix p n assume f: "fs w p = Some n"
  have "\<not> strict_prefix t p"
  proof
    assume "strict_prefix t p"
    then obtain cs where "p = t @ cs" "cs \<noteq> []" by (auto simp: strict_prefix_def prefix_def)
    then show False using assms f by (simp add: apart_def)
  qed
  then show "\<exists>n'. overlay w q t S p = Some n' \<and> alike n n'" using f by (simp add: overlay_outside)
qed


text \<open>What holds in every world of a copy.\<close>

lemma copying_facts:
  assumes "tree_ok w" and "no_faults w" and "apart w q t" and "kernel_path w True (abs_path ts) = Inr t" and "copying w q t acc S w1"
    and "fs w q \<noteq> None"
  shows "no_faults w1" and "sees_tree w q q w1" and "kernel_path w1 True (abs_path ts) = Inr t" and "\<exists>m. fs w1 t = Some (NDir m)"
proof -
  have f: "fs w1 = overlay w q t S" and set: "same_setting w w1" using assms(5) by (simp_all add: copying_def)
  show nf: "no_faults w1" using assms(2) set by (simp add: no_faults_def same_setting_def)
  have e: "extends (fs w) (fs w1)" "cwd w1 = cwd w" using overlay_extends [OF assms(3)] f set by (simp_all add: same_setting_def)
  show "kernel_path w1 True (abs_path ts) = Inr t"
    using kernel_path_extends [OF e assms(4)] assms(3) by (auto simp: apart_def)
  have "kernel_path w1 False (abs_path q) = Inr q"
    using kernel_path_extends [OF e kernel_physical [OF assms(1,6)] assms(6)] .
  then show "sees_tree w q q w1" using nf f apart_source [OF assms(3)] by (simp add: sees_tree_def)
  show "\<exists>m. fs w1 t = Some (NDir m)" using assms(3) f by (simp add: apart_def overlay_outside)
qed

text \<open>A directory that has been copied is where its path leads.\<close>

lemma copied_dir:
  assumes "tree_ok w" and "no_faults w" and "apart w q t" and "kernel_path w True (abs_path ts) = Inr t" and "copying w q t acc S w1"
    and "fs w q = Some (NDir k)" and "propers ts"
  shows "cs \<in> S \<Longrightarrow> propers cs \<Longrightarrow> fs w (q @ cs) = Some (NDir m) \<Longrightarrow>
     kernel_path w1 True (abs_path (ts @ cs)) = Inr (t @ cs) \<and> (\<exists>m. fs w1 (t @ cs) = Some (NDir m))"
proof (induction cs arbitrary: m rule: rev_induct)
  case Nil
  then show ?case using copying_facts(3,4) [OF assms(1-5)] assms(6) by simp
next
  case (snoc c cs)
  obtain m' where "fs w (q @ cs) = Some (NDir m')" using tree_okD(3) [OF assms(1), of "q @ cs" c] snoc.prems(3) by auto
  moreover have "cs \<in> S" using assms(5) snoc.prems(1) by (force simp: copying_def)
  ultimately obtain m2 where p: "kernel_path w1 True (abs_path (ts @ cs)) = Inr (t @ cs)" "fs w1 (t @ cs) = Some (NDir m2)"
    using snoc.IH snoc.prems(2) by auto
  have "fs w1 (t @ cs @ [c]) = copied w (fs w (q @ cs @ [c]))"
    using assms(5) snoc.prems(1) overlay_target [of "cs @ [c]" w q t S] by (simp add: copying_def)
  then have d: "fs w1 (t @ cs @ [c]) = Some (NDir (masked 493 w))" using snoc.prems(3) by simp
  have "kernel_path w1 False (abs_path (ts @ cs @ [c])) = Inr (t @ cs @ [c])"
    using kernel_child [OF p] snoc.prems(2) assms(7) by simp
  then show ?case using d by (auto intro: kernel_path_follow)
qed

lemma copy_file_ok:
  assumes "no_faults w" and "kernel_path w False src = Inr a" and "fs w a = Some (NFile m b)"
    and "propers ps" and "proper c" and "kernel_path w True (abs_path ps) = Inr d" and "fs w d = Some (NDir k)"
    and "fs w (d @ [c]) \<in> {None, Some (NFile (masked m w) b')}" and "a \<noteq> d @ [c]"
  shows "\<exists>w'. copy_regular_file src (abs_path (ps @ [c])) w = (Inr (), w') \<and> fs w' = (fs w)(d @ [c] \<mapsto> NFile (masked m w) b) \<and> same_setting w w'"
proof -
  let ?t = "abs_path (ps @ [c])" and ?q = "d @ [c]"
  let ?w2 = "tick_sys (tick_sys w)" and ?w4 = "tick_sys (tick_sys (tick_sys (tick_sys w)))"
  have ks: "kernel_path w True src = Inr a" using assms(2,3) by (auto intro: kernel_path_follow)
  have "kernel_path w False ?t = Inr ?q" by (rule kernel_child [OF assms(6,7,4,5)])
  then have kt: "kernel_path w True ?t = Inr ?q" using assms(8) by (auto intro: kernel_path_follow)
  have dir: "path_dir ?t = abs_path ps" using assms(4,5) by (simp add: path_dir_abs_path)
  have parent: "os_mkdir_all (abs_path ps) 493 (tick_sys w) = (Inr (), ?w2)"
    using mkdir_all_present [of "tick_sys w" "abs_path ps" d k 493] assms(1,6,7) by simp
  have opened: "os_open src ?w2 = (Inr a, tick_sys ?w2)" using os_open_ok [of ?w2 src a] assms(1,3) ks by simp
  have made: "open_trunc ?t m ?w4 = (Inr ?q, put_node ?q (NFile (masked m w) '''') (tick_sys ?w4))"
    using assms(1,8) kt by (auto simp: open_trunc_def sys_ok masked_def)
  let ?w5 = "put_node ?q (NFile (masked m w) '''') (tick_sys ?w4)"
  have read: "file_read a ?w5 = (Inr b, tick_sys ?w5)"
    using assms(1,3,9) by (simp add: file_read_def sys_ok)
  have "file_write ?q b (tick_sys ?w5) = (Inr (), put_node ?q (NFile (masked m w) b) (tick_sys (tick_sys ?w5)))"
    using file_calls_ok(1) [of "tick_sys ?w5" ?q "masked m w" "''''" b] assms(1) by simp
  then have copy: "io_copy ?q a ?w5 = (Inr (), put_node ?q (NFile (masked m w) b) (tick_sys (tick_sys ?w5)))"
    by (simp add: io_copy_def bind_io_def read)
  have "lstat_id src w = (Inr (a, NFile m b), tick_sys w)" using assms(1-3) by (simp add: lstat_id_def sys_ok)
  moreover have "stat_at a (tick_sys ?w2) = (Inr (NFile m b), ?w4)" using assms(1,3) by (simp add: stat_at_def sys_ok)
  ultimately have "copy_regular_file src ?t w =
      (Inr (), tick_sys (tick_sys (put_node ?q (NFile (masked m w) b) (tick_sys (tick_sys ?w5)))))"
    using assms(1) made copy
    by (simp add: copy_regular_file_def copy_opened_def bind_io_def dir parent opened defer_io_def catch_io_def ignoring_def
        file_calls_ok file_mode_def ret_io_def)
  then show ?thesis by (simp add: same_setting_def)
qed

text \<open>The visit of a node below the root.\<close>

lemma copy_entry_eq:
  assumes "propers q" and "propers ts" and "propers cs" and "cs \<noteq> []"
  shows "copy_entry (abs_path q) (abs_path ts) (abs_path (q @ cs)) (Inr d) acc =
    (if is_symlink d then ret_io () else if is_dir d then os_mkdir_all (abs_path (ts @ cs)) 493
     else copy_regular_file (abs_path (q @ cs)) (abs_path (ts @ cs)))"
proof -
  have pc: "propers (q @ cs)" using assms(1,3) by simp
  have "abs_io (abs_path (q @ cs)) = ret_io (abs_path (q @ cs))" using pc by (simp add: abs_io_def)
  moreover have "path_is_inside_root (abs_path q) (abs_path (q @ cs))" using assms(1) pc by (simp add: inside_root_iff_prefix)
  moreover have "filepath_rel (abs_path q) (abs_path (q @ cs)) = Inr (join_with ''/'' cs)" "join_with ''/'' cs \<noteq> ''.''"
    using assms pc join_with_single_comp by (auto simp: filepath_rel_abs strip_common_prefix)
  moreover have "path_join [abs_path ts, join_with ''/'' cs] = abs_path (ts @ cs)" using path_join_abs_rel assms(2,3) by blast
  ultimately show ?thesis by (auto simp: copy_entry_def bind_io_def ret_io_def lift_io_def fun_eq_iff)
qed

lemma copy_dir_step:
  assumes c: "tree_ok w" "no_faults w" "apart w q t" "kernel_path w True (abs_path ts) = Inr t" "copying w q t acc S w1"
      "fs w q = Some (NDir k)" "propers ts"
    and cs: "propers es" "proper c" "fs w (q @ es @ [c]) = Some (NDir k2)"
    and p: "kernel_path w1 True (abs_path (ts @ es)) = Inr (t @ es)" "fs w1 (t @ es) = Some (NDir m2)"
  shows "\<exists>w2. os_mkdir_all (abs_path (ts @ es @ [c])) 493 w1 = (Inr (), w2)
     \<and> fs w2 = (fs w1)(t @ es @ [c] \<mapsto> NDir (masked 493 w)) \<and> same_setting w1 w2"
proof -
  have nf: "no_faults w1" using copying_facts(1) [OF c(1-5)] c(6) by simp
  have f: "fs w1 = overlay w q t S" and set: "same_setting w w1" using c(5) by (simp_all add: copying_def)
  have at_target: "fs w1 (t @ es @ [c]) = (if es @ [c] \<in> S then Some (NDir (masked 493 w)) else None)"
    using f cs(3) overlay_target [of "es @ [c]" w q t S] by simp
  show ?thesis
  proof (cases "es @ [c] \<in> S")
    case True
    have "kernel_path w1 True (abs_path (ts @ es @ [c])) = Inr (t @ es @ [c])" using copied_dir [OF c True] cs by simp
    moreover have here: "fs w1 (t @ es @ [c]) = Some (NDir (masked 493 w))" using at_target True by simp
    ultimately have "os_mkdir_all (abs_path (ts @ es @ [c])) 493 w1 = (Inr (), tick_sys w1)" by (rule mkdir_all_present [OF nf])
    then show ?thesis using here by (auto simp: fun_upd_idem)
  next
    case False
    then have "fs w1 ((t @ es) @ [c]) = None" using at_target by simp
    from mkdir_all_new [OF nf _ cs(2) p this, of 493] show ?thesis using c(7) cs(1) copied_same [OF set] by simp
  qed
qed

lemma copy_file_step:
  assumes c: "tree_ok w" "no_faults w" "apart w q t" "kernel_path w True (abs_path ts) = Inr t" "copying w q t acc S w1"
      "fs w q = Some (NDir k)" "propers ts"
    and q: "propers q" and cs: "propers es" "proper c" "fs w (q @ es @ [c]) = Some (NFile m b)"
    and p: "kernel_path w1 True (abs_path (ts @ es)) = Inr (t @ es)" "fs w1 (t @ es) = Some (NDir m2)"
  shows "\<exists>w2. copy_regular_file (abs_path (q @ es @ [c])) (abs_path (ts @ es @ [c])) w1 = (Inr (), w2)
     \<and> fs w2 = (fs w1)(t @ es @ [c] \<mapsto> NFile (masked m w) b) \<and> same_setting w1 w2"
proof -
  have nf: "no_faults w1" and sees: "sees_tree w q q w1" using copying_facts(1,2) [OF c(1-5)] c(6) by simp_all
  have f: "fs w1 = overlay w q t S" and set: "same_setting w w1" using c(5) by (simp_all add: copying_def)
  have ks: "kernel_path w1 False (abs_path (q @ es @ [c])) = Inr (q @ es @ [c])"
    using sees_node [OF c(1) sees q _ cs(3)] cs(1,2) by simp
  have source: "fs w1 (q @ es @ [c]) = Some (NFile m b)" using f cs(3) apart_source [OF c(3)] by simp
  have old: "fs w1 ((t @ es) @ [c]) \<in> {None, Some (NFile (masked m w1) b)}"
    using f cs(3) overlay_target [of "es @ [c]" w q t S] copied_same [OF set] by simp
  have "q @ es @ [c] \<noteq> (t @ es) @ [c]"
  proof
    assume "q @ es @ [c] = (t @ es) @ [c]"
    then show False using c(3) by (simp add: apart_def)
  qed
  from copy_file_ok [OF nf ks source _ cs(2) p old this] show ?thesis
    using c(7) cs(1) copied_same [OF set] by simp
qed

lemma copy_visits:
  assumes c: "tree_ok w" "no_faults w" "apart w q t" "kernel_path w True (abs_path ts) = Inr t"
    and root: "fs w q = Some (NDir k)" and ts: "propers ts" and q: "propers q"
  shows "visits w q q (copy_entry (abs_path q) (abs_path ts)) (copying w q t)"
  unfolding visits_def
proof (intro conjI allI impI)
  fix acc S w1 assume "copying w q t acc S w1"
  then show "sees_tree w q q w1" using copying_facts(2) [OF c] root by simp
next
  fix acc S w1 w2 assume "copying w q t acc S w1 \<and> same_files w1 w2 \<and> same_setting w1 w2"
  then show "copying w q t acc S w2" using same_setting_trans same_files_simps(1) by (auto simp: copying_def)
next
  fix cs d acc S w1
  assume a: "copying w q t acc S w1 \<and> propers cs \<and> fs w (q @ cs) = Some d \<and> (cs = [] \<or> butlast cs \<in> S)"
  then have I: "copying w q t acc S w1" and closed: "\<forall>cs'\<in>insert cs S. cs' = [] \<or> butlast cs' \<in> insert cs S"
    by (auto simp: copying_def)
  let ?v = "copy_entry (abs_path q) (abs_path ts) (abs_path (q @ cs)) (Inr d) acc w1"
  show "\<exists>acc' w2. ?v = (Inr acc', w2) \<and> copying w q t acc' (insert cs S) w2"
  proof (cases cs rule: rev_cases)
    case Nil
    then have "?v = (Inr (), w1)"
      using q inside_root_iff_prefix [OF q q]
      by (simp add: copy_entry_def abs_io_def bind_io_def ret_io_def lift_io_def filepath_rel_abs)
    then show ?thesis using I Nil closed by (auto simp: copying_def overlay_nil)
  next
    case (snoc es e)
    then have es: "propers es" "proper e" "es \<in> S" and node: "fs w (q @ es @ [e]) = Some d" using a by simp_all
    obtain k' where "fs w (q @ es) = Some (NDir k')" using tree_okD(3) [OF c(1), of "q @ es" e] node by auto
    from copied_dir [OF c I root ts es(3,1) this] obtain m2 where
      p: "kernel_path w1 True (abs_path (ts @ es)) = Inr (t @ es)" "fs w1 (t @ es) = Some (NDir m2)" by blast
    have link: "fs w1 (t @ es @ [e]) = None" if "is_symlink d"
      using that I node overlay_target [of "es @ [e]" w q t S] by (auto simp: copying_def is_symlink_def split: node.splits)
    have v: "?v = (if is_symlink d then ret_io () else if is_dir d then os_mkdir_all (abs_path (ts @ es @ [e])) 493
        else copy_regular_file (abs_path (q @ es @ [e])) (abs_path (ts @ es @ [e]))) w1"
      using copy_entry_eq [OF q ts, of cs d acc] a snoc by simp
    have "\<exists>w2. ?v = (Inr (), w2) \<and> fs w2 = (fs w1)(t @ es @ [e] := copied w (Some d)) \<and> same_setting w1 w2"
      unfolding v using copy_dir_step [OF c I root ts es(1,2) _ p] copy_file_step [OF c I root ts q es(1,2) _ p] node link
      by (cases d) (auto simp: is_dir_iff is_symlink_def ret_io_def fun_upd_idem)
    then show ?thesis
      using closed I node snoc overlay_insert [of cs w q t S] same_setting_trans by (auto simp: copying_def)
  qed
qed




end
