(* ===== verification/Templates.thy ===== *)
theory Templates
  imports Http GoQuote
begin

text \<open>
  The part of \<open>text/template\<close> and \<open>html/template\<close> that the pages of \<open>pkg/webserver/functions.go\<close> use: the
  parser of the actions, the contextual escaper, which finds out for every action in which part of an
  HTML document its value appears and which escapers it needs there, and the execution. A template
  beyond this part is \<open>None\<close> here; the theory \<open>Pages\<close> shows that none of the program's is.
\<close>

section \<open>Templates\<close>

datatype targ =
    PathArg bool "string list"    \<comment> \<open>whether it starts with the dollar sign; the names of the fields\<close>
  | ConstArg string

datatype pipeline = ValPipe targ | EqPipe targ targ | NePipe targ targ

datatype branch_kind = IfBranch | WithBranch | RangeBranch

datatype tnode =
    TextNode string
  | ActionNode pipeline
  | BranchNode branch_kind pipeline "tnode list" "tnode list"

datatype titem = LitItem string | ActItem string

text \<open>The text is cut at the delimiters; empty texts are dropped.\<close>

definition lit_item :: "string \<Rightarrow> titem list \<Rightarrow> titem list" where
  "lit_item acc items = (if acc = '''' then items else LitItem (rev acc) # items)"

fun split_template :: "bool \<Rightarrow> string \<Rightarrow> string \<Rightarrow> titem list option" where
  "split_template inside acc [] = (if inside then None else Some (lit_item acc []))"
| "split_template inside acc (c # s) =
     (if \<not> inside \<and> has_prefix (c # s) ''{{'' then map_option (lit_item acc) (split_template True '''' (tl s))
      else if inside \<and> has_prefix (c # s) ''}}'' then map_option ((#) (ActItem (rev acc))) (split_template False '''' (tl s))
      else split_template inside (c # acc) s)"

definition parse_arg :: "string \<Rightarrow> targ option" where
  "parse_arg a =
     (if a = ''.'' then Some (PathArg False [])
      else if has_prefix a ''$.'' then Some (PathArg True (split_on CHR ''.'' (drop 2 a)))
      else if has_prefix a ''.'' then Some (PathArg False (split_on CHR ''.'' (drop 1 a)))
      else if has_prefix a ''\"'' \<and> has_suffix (drop 1 a) ''\"'' then Some (ConstArg (butlast (drop 1 a)))
      else None)"

definition parse_pipeline :: "string list \<Rightarrow> pipeline option" where
  "parse_pipeline ws =
     (case ws of
        [a] \<Rightarrow> map_option ValPipe (parse_arg a)
      | [f, a, b] \<Rightarrow>
          (case (parse_arg a, parse_arg b) of
             (Some x, Some y) \<Rightarrow> if f = ''eq'' then Some (EqPipe x y) else if f = ''ne'' then Some (NePipe x y) else None
           | _ \<Rightarrow> None)
      | _ \<Rightarrow> None)"

definition branch_keyword :: "string \<Rightarrow> branch_kind option" where
  "branch_keyword k =
     (if k = ''if'' then Some IfBranch else if k = ''with'' then Some WithBranch
      else if k = ''range'' then Some RangeBranch else None)"

text \<open>
  The parser keeps a stack of open branches: the kind, the pipeline, the nodes before the branch in reverse,
  and the first list of the branch once \<open>else\<close> has been seen.
\<close>

type_synonym frame = "branch_kind \<times> pipeline \<times> tnode list \<times> tnode list option"

fun close_branch :: "frame \<Rightarrow> tnode list \<Rightarrow> tnode list" where
  "close_branch (k, p, outer, None) acc = BranchNode k p (rev acc) [] # outer"
| "close_branch (k, p, outer, Some thn) acc = BranchNode k p thn (rev acc) # outer"

fun parse_items :: "frame list \<Rightarrow> tnode list \<Rightarrow> titem list \<Rightarrow> tnode list option" where
  "parse_items [] acc [] = Some (rev acc)"
| "parse_items (f # st) acc [] = None"
| "parse_items st acc (LitItem s # its) = parse_items st (TextNode s # acc) its"
| "parse_items st acc (ActItem a # its) =
     (let ws = split_on CHR '' '' a in
      if ws = [''end''] then (case st of [] \<Rightarrow> None | f # st' \<Rightarrow> parse_items st' (close_branch f acc) its)
      else if ws = [''else''] then
        (case st of (k, p, outer, None) # st' \<Rightarrow> parse_items ((k, p, outer, Some (rev acc)) # st') [] its | _ \<Rightarrow> None)
      else
        (case branch_keyword (hd ws) of
           Some k \<Rightarrow>
             (case parse_pipeline (tl ws) of None \<Rightarrow> None | Some p \<Rightarrow> parse_items ((k, p, acc, None) # st) [] its)
         | None \<Rightarrow>
             (case parse_pipeline ws of None \<Rightarrow> None | Some p \<Rightarrow> parse_items st (ActionNode p # acc) its)))"

definition parse_template :: "string \<Rightarrow> tnode list option" where
  "parse_template s = (case split_template False '''' s of None \<Rightarrow> None | Some its \<Rightarrow> parse_items [] [] its)"

section \<open>The context of a place in a document\<close>

text \<open>
  Where the reader of a document is after some text. \<open>Beyond\<close> is everything the pages do not use:
  comments, scripts, style sheets, unquoted and single-quoted values.
\<close>

datatype attr_kind = PlainAttr | UrlAttr

datatype html_context =
    Content                            \<comment> \<open>ordinary text\<close>
  | TagOpen                            \<comment> \<open>after \<open><\<close>\<close>
  | Bang                               \<comment> \<open>after \<open><!\<close>\<close>
  | EndOpen                            \<comment> \<open>after \<open></\<close>\<close>
  | TagName string                     \<comment> \<open>the name so far\<close>
  | EndName                            \<comment> \<open>in the name of an end tag\<close>
  | InTag string                       \<comment> \<open>in a tag of the element, before an attribute\<close>
  | AttrName string string             \<comment> \<open>the name of an attribute so far\<close>
  | AttrMaybe string                   \<comment> \<open>\<open>InTag\<close>, or at the end of the name of a plain attribute\<close>
  | BeforeValue string attr_kind
  | QuotedValue string attr_kind bool  \<comment> \<open>in double quotes; whether nothing of the value has been read\<close>
  | RcData string string               \<comment> \<open>text of a title or textarea; the part of its end tag just read\<close>
  | Beyond

definition tag_space :: "char \<Rightarrow> bool" where
  "tag_space c \<longleftrightarrow> c \<in> {CHR 0x09, CHR 0x0A, CHR 0x0C, CHR 0x0D, CHR '' ''}"

definition tag_letter :: "char \<Rightarrow> bool" where
  "tag_letter c \<longleftrightarrow> 65 \<le> byte c \<and> byte c \<le> 90 \<or> 97 \<le> byte c \<and> byte c \<le> 122"

text \<open>Evaluation reads the bits of a character instead of its number.\<close>

lemma tag_letter_code [code]:
  "tag_letter (Char b0 b1 b2 b3 b4 b5 b6 b7) \<longleftrightarrow>
     \<not> b7 \<and> b6 \<and> (b0 \<or> b1 \<or> b2 \<or> b3 \<or> b4) \<and> \<not> (b4 \<and> b3 \<and> (b2 \<or> b1 \<and> b0))"
  by (cases b0; cases b1; cases b2; cases b3; cases b4; cases b5; cases b6; cases b7)
    (simp_all add: tag_letter_def byte_def)

lemma is_digit_byte_code [code]:
  "is_digit_byte (Char b0 b1 b2 b3 b4 b5 b6 b7) \<longleftrightarrow> \<not> b7 \<and> \<not> b6 \<and> b5 \<and> b4 \<and> \<not> (b3 \<and> (b2 \<or> b1))"
  by (cases b0; cases b1; cases b2; cases b3; cases b4; cases b5; cases b6; cases b7)
    (simp_all add: is_digit_byte_def byte_def)

lemma lower_byte_code [code]:
  "lower_byte (Char b0 b1 b2 b3 b4 b5 b6 b7) =
     Char b0 b1 b2 b3 b4
       (b5 \<or> \<not> b7 \<and> b6 \<and> (b0 \<or> b1 \<or> b2 \<or> b3 \<or> b4) \<and> \<not> (b4 \<and> b3 \<and> (b2 \<or> b1 \<and> b0))) b6 b7"
  unfolding byte_inject [symmetric] lower_byte_def if_distrib [of byte]
  by (cases b0; cases b1; cases b2; cases b3; cases b4; cases b5; cases b6; cases b7)
    (simp_all add: byte_def [of "Char _ _ _ _ _ _ _ _"])

definition name_char :: "char \<Rightarrow> bool" where
  "name_char c \<longleftrightarrow> tag_letter c \<or> is_digit_byte c \<or> c = CHR ''-''"

definition unsupported_elements :: "string list" where
  "unsupported_elements = [''script'', ''style'', ''plaintext'', ''xmp'', ''iframe'', ''noembed'', ''noframes'', ''noscript'']"

text \<open>After the closing \<open>>\<close> of a start tag.\<close>

definition content_of :: "string \<Rightarrow> html_context" where
  "content_of el =
     (if el = ''title'' \<or> el = ''textarea'' then RcData el ''''
      else if el \<in> set unsupported_elements then Beyond else Content)"

text \<open>
  \<open>action\<close> is the one attribute of the pages that holds an address; the others are plain. An attribute that
  \<open>html/template\<close> treats as an address, a script, a style or a source set beside these is beyond the model.
\<close>

definition plain_attributes :: "string list" where
  "plain_attributes = [''charset'', ''method'', ''type'', ''name'', ''autocomplete'', ''required'', ''minlength'', ''value'', ''rows'',
     ''cols'', ''placeholder'', ''checked'']"

definition attr_kind :: "string \<Rightarrow> attr_kind option" where
  "attr_kind n =
     (if n = ''action'' then Some UrlAttr else if n \<in> set plain_attributes then Some PlainAttr else None)"

definition end_separator :: "char \<Rightarrow> bool" where
  "end_separator c \<longleftrightarrow> c \<in> {CHR ''>'', CHR ''/'', CHR '' '', CHR 0x09, CHR 0x0A, CHR 0x0C}"

text \<open>In the text of a title or textarea only its own end tag counts.\<close>

definition rcdata_step :: "string \<Rightarrow> string \<Rightarrow> char \<Rightarrow> html_context" where
  "rcdata_step el p c =
     (if p = ''</'' @ el \<and> end_separator c then (if c = CHR ''>'' then Content else if c = CHR ''/'' then Beyond else InTag '''')
      else if has_prefix (''</'' @ el) (p @ [lower_byte c]) then RcData el (p @ [lower_byte c])
      else if c = CHR ''<'' then RcData el ''<''
      else RcData el '''')"

text \<open>In a tag, before an attribute.\<close>

definition in_tag_step :: "string \<Rightarrow> char \<Rightarrow> html_context" where
  "in_tag_step el c =
     (if tag_space c then InTag el else if c = CHR ''>'' then content_of el
      else if tag_letter c then AttrName el [lower_byte c] else Beyond)"

fun html_step :: "html_context \<Rightarrow> char \<Rightarrow> html_context" where
  "html_step Content c = (if c = CHR ''<'' then TagOpen else Content)"
| "html_step TagOpen c =
     (if c = CHR ''!'' then Bang else if c = CHR ''/'' then EndOpen
      else if tag_letter c then TagName [lower_byte c] else Beyond)"
| "html_step Bang c = (if tag_letter c then Content else Beyond)"
| "html_step EndOpen c = (if tag_letter c then EndName else Beyond)"
| "html_step (TagName n) c =
     (if name_char c then TagName (n @ [lower_byte c]) else if tag_space c then InTag n
      else if c = CHR ''>'' then content_of n else Beyond)"
| "html_step EndName c = (if name_char c then EndName else if c = CHR ''>'' then Content else Beyond)"
| "html_step (InTag el) c = in_tag_step el c"
| "html_step (AttrName el n) c =
     (if name_char c then AttrName el (n @ [lower_byte c])
      else (case attr_kind n of
              None \<Rightarrow> Beyond
            | Some k \<Rightarrow> if c = CHR ''='' then BeforeValue el k
                        else if c = CHR ''>'' then content_of el
                        else Beyond))"
| "html_step (AttrMaybe el) c = (if c = CHR ''>'' then content_of el else Beyond)"
| "html_step (BeforeValue el k) c = (if c = CHR ''\"'' then QuotedValue el k True else Beyond)"
| "html_step (QuotedValue el k fresh) c = (if c = CHR ''\"'' then InTag el else QuotedValue el k False)"
| "html_step (RcData el p) c = rcdata_step el p c"
| "html_step Beyond c = Beyond"

definition context_after :: "html_context \<Rightarrow> string \<Rightarrow> html_context" where
  "context_after = foldl html_step"

section \<open>Escapers\<close>

text \<open>\<open>htmlReplacementTable\<close>; only ASCII bytes are replaced, so the runes of the text need not be decoded.\<close>

definition html_escape_char :: "char \<Rightarrow> string" where
  "html_escape_char c =
     (if byte c = 0 then map of_byte [239, 191, 189]
      else if c = CHR ''\"'' then ''&#34;''
      else if c = CHR ''&'' then ''&amp;''
      else if byte c = 39 then ''&#39;''
      else if c = CHR ''+'' then ''&#43;''
      else if c = CHR ''<'' then ''&lt;''
      else if c = CHR ''>'' then ''&gt;''
      else [c])"

definition html_escape :: "string \<Rightarrow> string" where
  "html_escape s = concat (map html_escape_char s)"

text \<open>\<open>isSafeURL\<close> and \<open>urlFilter\<close>.\<close>

definition is_safe_url :: "string \<Rightarrow> bool" where
  "is_safe_url s \<longleftrightarrow>
     (let protocol = takeWhile (\<lambda>c. c \<noteq> CHR '':'') s in
      CHR '':'' \<notin> set s \<or> CHR ''/'' \<in> set protocol \<or> map lower_byte protocol \<in> {''http'', ''https'', ''mailto''})"

definition url_filter :: "string \<Rightarrow> string" where
  "url_filter s = (if is_safe_url s then s else ''#ZgotmplZ'')"

text \<open>\<open>urlNormalizer\<close>: bytes that an address may not hold are percent-encoded, valid escapes are kept.\<close>

definition hex_char :: "char \<Rightarrow> bool" where
  "hex_char c \<longleftrightarrow> is_digit_byte c \<or> 65 \<le> byte c \<and> byte c \<le> 70 \<or> 97 \<le> byte c \<and> byte c \<le> 102"

definition url_char :: "char \<Rightarrow> bool" where
  "url_char c \<longleftrightarrow> tag_letter c \<or> is_digit_byte c \<or> c \<in> set ''!#$&*+,/:;=?@[]-._~''"

fun url_normalize :: "string \<Rightarrow> string" where
  "url_normalize [] = []"
| "url_normalize (c # s) =
     (if url_char c \<or> c = CHR ''%'' \<and> 2 \<le> length s \<and> hex_char (s ! 0) \<and> hex_char (s ! 1) then [c]
      else CHR ''%'' # hex_fixed 2 (byte c)) @ url_normalize s"

text \<open>
  The escapers of a context: \<open>htmlescaper\<close>, \<open>rcdataescaper\<close> and \<open>attrescaper\<close> are the same function for
  values that are not of the types of safe content; an address is filtered and normalised before.
\<close>

fun escape_for :: "html_context \<Rightarrow> string \<Rightarrow> string" where
  "escape_for (QuotedValue el UrlAttr fresh) s = html_escape (url_normalize (url_filter s))"
| "escape_for c s = html_escape s"

text \<open>Where an action may stand: an address is inserted at the start of its value only.\<close>

fun insert_context :: "html_context \<Rightarrow> bool" where
  "insert_context Content = True"
| "insert_context (RcData el p) = (p = '''')"
| "insert_context (QuotedValue el PlainAttr fresh) = True"
| "insert_context (QuotedValue el UrlAttr fresh) = fresh"
| "insert_context c = False"

fun after_insert :: "html_context \<Rightarrow> html_context" where
  "after_insert (QuotedValue el k fresh) = QuotedValue el k False"
| "after_insert c = c"

section \<open>The contextual escaper\<close>

datatype enode =
    EText string
  | EAction html_context pipeline
  | EBranch branch_kind pipeline "enode list" "enode list"

text \<open>The contexts at the ends of two branches must agree, up to a plain attribute that one of them has.\<close>

definition tag_of :: "html_context \<Rightarrow> string" where
  "tag_of c = (case c of InTag el \<Rightarrow> el | AttrName el n \<Rightarrow> el | _ \<Rightarrow> '''')"

definition is_tag_end :: "html_context \<Rightarrow> bool" where
  "is_tag_end c = (case c of InTag el \<Rightarrow> True | AttrName el n \<Rightarrow> attr_kind n = Some PlainAttr | _ \<Rightarrow> False)"

definition join_contexts :: "html_context \<Rightarrow> html_context \<Rightarrow> html_context option" where
  "join_contexts c d =
     (if c = d then Some c
      else if is_tag_end c \<and> is_tag_end d \<and> tag_of c = tag_of d then Some (AttrMaybe (tag_of c)) else None)"

text \<open>The body of a loop must end in the context it starts in.\<close>

fun escape_nodes :: "html_context \<Rightarrow> tnode list \<Rightarrow> (enode list \<times> html_context) option" where
  "escape_nodes c [] = Some ([], c)"
| "escape_nodes c (TextNode s # ns) =
     (let d = context_after c s in
      if d = Beyond then None
      else (case escape_nodes d ns of None \<Rightarrow> None | Some (es, e) \<Rightarrow> Some (EText s # es, e)))"
| "escape_nodes c (ActionNode p # ns) =
     (if \<not> insert_context c then None
      else (case escape_nodes (after_insert c) ns of None \<Rightarrow> None | Some (es, e) \<Rightarrow> Some (EAction c p # es, e)))"
| "escape_nodes c (BranchNode k p thn els # ns) =
     (case (escape_nodes c thn, escape_nodes c els) of
        (Some (es1, d1), Some (es2, d2)) \<Rightarrow>
          if k = RangeBranch \<and> d1 \<noteq> c then None
          else (case join_contexts d1 d2 of
                  None \<Rightarrow> None
                | Some d \<Rightarrow>
                    (case escape_nodes d ns of None \<Rightarrow> None | Some (es, e) \<Rightarrow> Some (EBranch k p es1 es2 # es, e)))
      | _ \<Rightarrow> None)"

section \<open>Execution\<close>

text \<open>
  What is written, piece by piece: the text of the template and the values that were put in, escaped for
  their context. \<open>sprint\<close> is \<open>fmt.Sprint\<close> of the values that are neither texts nor numbers: times, whose
  form depends on the zone of the machine.
\<close>

datatype piece = Literal string | Inserted html_context string

primrec piece_text :: "piece \<Rightarrow> string" where
  "piece_text (Literal s) = s"
| "piece_text (Inserted c s) = s"

definition pieces_text :: "piece list \<Rightarrow> string" where
  "pieces_text ps = concat (map piece_text ps)"

fun lookup_path :: "html \<Rightarrow> string list \<Rightarrow> html option" where
  "lookup_path v [] = Some v"
| "lookup_path (HStruct kvs) (n # ns) = (case map_of kvs n of None \<Rightarrow> None | Some v \<Rightarrow> lookup_path v ns)"
| "lookup_path v (n # ns) = None"

fun eval_arg :: "html \<Rightarrow> html \<Rightarrow> targ \<Rightarrow> html option" where
  "eval_arg root dot (PathArg dollar ns) = lookup_path (if dollar then root else dot) ns"
| "eval_arg root dot (ConstArg s) = Some (HStr s)"

text \<open>\<open>eq\<close> and \<open>ne\<close> for texts, the only values the pages compare.\<close>

definition text_equal :: "html option \<Rightarrow> html option \<Rightarrow> bool option" where
  "text_equal a b = (case (a, b) of (Some (HStr x), Some (HStr y)) \<Rightarrow> Some (x = y) | _ \<Rightarrow> None)"

fun eval_pipe :: "html \<Rightarrow> html \<Rightarrow> pipeline \<Rightarrow> html option" where
  "eval_pipe root dot (ValPipe a) = eval_arg root dot a"
| "eval_pipe root dot (EqPipe a b) = map_option HBool (text_equal (eval_arg root dot a) (eval_arg root dot b))"
| "eval_pipe root dot (NePipe a b) =
     map_option (\<lambda>e. HBool (\<not> e)) (text_equal (eval_arg root dot a) (eval_arg root dot b))"

fun html_truth :: "html \<Rightarrow> bool" where
  "html_truth (HStr s) = (s \<noteq> '''')"
| "html_truth (HInt i) = (i \<noteq> 0)"
| "html_truth (HBool b) = b"
| "html_truth (HList vs) = (vs \<noteq> [])"
| "html_truth v = True"

fun print_value :: "(html \<Rightarrow> string) \<Rightarrow> html \<Rightarrow> string" where
  "print_value sprint (HStr s) = s"
| "print_value sprint (HInt i) = int_digits i"
| "print_value sprint (HBool b) = (if b then ''true'' else ''false'')"
| "print_value sprint v = sprint v"

text \<open>An error stops the execution; what was written before it stays written.\<close>

definition and_then :: "piece list \<times> bool \<Rightarrow> piece list \<times> bool \<Rightarrow> piece list \<times> bool" where
  "and_then a b = (if snd a then (fst a @ fst b, snd b) else a)"

fun exec_nodes :: "(html \<Rightarrow> string) \<Rightarrow> html \<Rightarrow> html \<Rightarrow> enode list \<Rightarrow> piece list \<times> bool" where
  "exec_nodes sprint root dot [] = ([], True)"
| "exec_nodes sprint root dot (EText s # es) = and_then ([Literal s], True) (exec_nodes sprint root dot es)"
| "exec_nodes sprint root dot (EAction c p # es) =
     (case eval_pipe root dot p of
        None \<Rightarrow> ([], False)
      | Some v \<Rightarrow> and_then ([Inserted c (escape_for c (print_value sprint v))], True) (exec_nodes sprint root dot es))"
| "exec_nodes sprint root dot (EBranch k p thn els # es) =
     and_then
       (case eval_pipe root dot p of
          None \<Rightarrow> ([], False)
        | Some v \<Rightarrow>
            (case k of
               IfBranch \<Rightarrow> exec_nodes sprint root dot (if html_truth v then thn else els)
             | WithBranch \<Rightarrow>
                 if html_truth v then exec_nodes sprint root v thn else exec_nodes sprint root dot els
             | RangeBranch \<Rightarrow>
                 (case v of
                    HList vs \<Rightarrow>
                      if vs = [] then exec_nodes sprint root dot els
                      else foldr and_then (map (\<lambda>v. exec_nodes sprint root v thn) vs) ([], True)
                  | _ \<Rightarrow> ([], False))))
       (exec_nodes sprint root dot es)"

end
