(* ===== verification/TemplateTypes.thy ===== *)
theory TemplateTypes
  imports Templates
begin

text \<open>
  Types for the values of a page, a check of a template against the type of its values, and the proof that a
  template that passes the check is executed to its end: no field is missing, no value is of the wrong kind.
\<close>

section \<open>Types\<close>

datatype vtype = TStr | TInt | TBool | TTime | TStruct "(string \<times> vtype) list" | TList vtype

fun has_type :: "html \<Rightarrow> vtype \<Rightarrow> bool" where
  "has_type v TStr = (case v of HStr s \<Rightarrow> True | _ \<Rightarrow> False)"
| "has_type v TInt = (case v of HInt i \<Rightarrow> True | _ \<Rightarrow> False)"
| "has_type v TBool = (case v of HBool b \<Rightarrow> True | _ \<Rightarrow> False)"
| "has_type v TTime = (case v of HTime t \<Rightarrow> True | _ \<Rightarrow> False)"
| "has_type v (TStruct ts) =
     (case v of
        HStruct kvs \<Rightarrow> list_all (\<lambda>(n, t). case map_of kvs n of None \<Rightarrow> False | Some u \<Rightarrow> has_type u t) ts
      | _ \<Rightarrow> False)"
| "has_type v (TList t) = (case v of HList vs \<Rightarrow> list_all (\<lambda>u. has_type u t) vs | _ \<Rightarrow> False)"

fun path_type :: "vtype \<Rightarrow> string list \<Rightarrow> vtype option" where
  "path_type t [] = Some t"
| "path_type (TStruct ts) (n # ns) = (case map_of ts n of None \<Rightarrow> None | Some t \<Rightarrow> path_type t ns)"
| "path_type t (n # ns) = None"

fun arg_type :: "vtype \<Rightarrow> vtype \<Rightarrow> targ \<Rightarrow> vtype option" where
  "arg_type root dot (PathArg dollar ns) = path_type (if dollar then root else dot) ns"
| "arg_type root dot (ConstArg s) = Some TStr"

fun pipe_type :: "vtype \<Rightarrow> vtype \<Rightarrow> pipeline \<Rightarrow> vtype option" where
  "pipe_type root dot (ValPipe a) = arg_type root dot a"
| "pipe_type root dot (EqPipe a b) =
     (if arg_type root dot a = Some TStr \<and> arg_type root dot b = Some TStr then Some TBool else None)"
| "pipe_type root dot (NePipe a b) =
     (if arg_type root dot a = Some TStr \<and> arg_type root dot b = Some TStr then Some TBool else None)"

text \<open>The type of the dot in the first list of a branch.\<close>

definition body_type :: "branch_kind \<Rightarrow> vtype \<Rightarrow> vtype \<Rightarrow> vtype option" where
  "body_type k dot t =
     (case k of IfBranch \<Rightarrow> Some dot | WithBranch \<Rightarrow> Some t
      | RangeBranch \<Rightarrow> (case t of TList u \<Rightarrow> Some u | _ \<Rightarrow> None))"

fun check_nodes :: "vtype \<Rightarrow> vtype \<Rightarrow> enode list \<Rightarrow> bool" where
  "check_nodes root dot [] = True"
| "check_nodes root dot (EText s # es) = check_nodes root dot es"
| "check_nodes root dot (EAction c p # es) = (pipe_type root dot p \<noteq> None \<and> check_nodes root dot es)"
| "check_nodes root dot (EBranch k p thn els # es) =
     ((case Option.bind (pipe_type root dot p) (body_type k dot) of
         None \<Rightarrow> False
       | Some t \<Rightarrow> check_nodes root t thn)
      \<and> check_nodes root dot els \<and> check_nodes root dot es)"

section \<open>Checked templates do not fail\<close>

lemma path_typed:
  "has_type v t \<Longrightarrow> path_type t ns = Some u \<Longrightarrow> \<exists>x. lookup_path v ns = Some x \<and> has_type x u"
proof (induction t ns arbitrary: v rule: path_type.induct)
  case (2 ts n ns)
  then obtain t where t: "map_of ts n = Some t" "path_type t ns = Some u" by (auto split: option.splits)
  from 2(2) obtain kvs where v: "v = HStruct kvs" by (auto split: html.splits)
  have "(n, t) \<in> set ts" using t(1) by (rule map_of_SomeD)
  with 2(2) obtain y where "map_of kvs n = Some y" "has_type y t"
    by (auto simp: v list_all_iff split: option.splits)
  with 2(1) [OF t(1) _ t(2)] show ?case by (simp add: v)
qed auto

lemma arg_typed:
  assumes "has_type root R" "has_type dot D" "arg_type R D a = Some t"
  shows "\<exists>x. eval_arg root dot a = Some x \<and> has_type x t"
  using assms path_typed by (cases a) (auto split: if_splits)

lemma has_type_str: "has_type x TStr \<longleftrightarrow> (\<exists>s. x = HStr s)"
  by (cases x) simp_all

lemma has_type_list: "has_type x (TList t) \<longleftrightarrow> (\<exists>vs. x = HList vs \<and> list_all (\<lambda>u. has_type u t) vs)"
  by (cases x) simp_all

lemma text_equal_typed:
  assumes "has_type root R" "has_type dot D" "arg_type R D a = Some TStr" "arg_type R D b = Some TStr"
  shows "\<exists>e. text_equal (eval_arg root dot a) (eval_arg root dot b) = Some e"
proof -
  from arg_typed [OF assms(1-3)] obtain x where "eval_arg root dot a = Some (HStr x)" by (auto simp: has_type_str simp del: has_type.simps)
  moreover from arg_typed [OF assms(1,2,4)] obtain y where "eval_arg root dot b = Some (HStr y)"
    by (auto simp: has_type_str simp del: has_type.simps)
  ultimately show ?thesis by (simp add: text_equal_def)
qed

lemma pipe_typed:
  assumes "has_type root R" "has_type dot D" "pipe_type R D p = Some t"
  shows "\<exists>x. eval_pipe root dot p = Some x \<and> has_type x t"
  using assms arg_typed text_equal_typed by (cases p) (auto split: if_splits, (fastforce+)?)

lemma and_then_done [simp]: "snd (and_then a b) \<longleftrightarrow> snd a \<and> snd b"
  by (simp add: and_then_def)

lemma foldr_done: "snd (foldr and_then rs ([], True)) \<longleftrightarrow> list_all snd rs"
  by (induction rs) simp_all

lemma checked_done:
  "has_type root R \<Longrightarrow> has_type dot D \<Longrightarrow> check_nodes R D es \<Longrightarrow> snd (exec_nodes sprint root dot es)"
proof (induction R D es arbitrary: dot rule: check_nodes.induct)
  case (3 R D c p es)
  then obtain t where t: "pipe_type R D p = Some t" by auto
  from pipe_typed [OF 3(2,3) t] 3 show ?case by auto
next
  case (4 R D k p thn els es)
  then obtain t d where t: "pipe_type R D p = Some t" and d: "body_type k D t = Some d" and thn: "check_nodes R d thn"
    by (auto simp: bind_eq_Some_conv split: option.splits)
  from 4(1) t d thn have body: "has_type v d \<Longrightarrow> snd (exec_nodes sprint root v thn)" for v
    using 4(4) by simp
  from 4 have root: "has_type root R" and dot: "has_type dot D" by simp_all
  from pipe_typed [OF this t] obtain x where x: "eval_pipe root dot p = Some x" "has_type x t" by blast
  have els: "snd (exec_nodes sprint root dot els)" and rest: "snd (exec_nodes sprint root dot es)"
    using 4 root dot by simp_all
  show ?case
  proof (cases k)
    case IfBranch
    with body dot d have "snd (exec_nodes sprint root dot thn)" by (simp add: body_type_def)
    with IfBranch x els rest show ?thesis by simp
  next
    case WithBranch
    with body x d have "snd (exec_nodes sprint root x thn)" by (simp add: body_type_def)
    with WithBranch x els rest show ?thesis by simp
  next
    case RangeBranch
    with d have "t = TList d" by (auto simp: body_type_def split: vtype.splits)
    with x obtain vs where vs: "x = HList vs" "list_all (\<lambda>v. has_type v d) vs"
      by (auto simp: has_type_list simp del: has_type.simps)
    then have "list_all snd (map (\<lambda>v. exec_nodes sprint root v thn) vs)"
      using body by (simp add: list_all_iff)
    with RangeBranch x vs els rest show ?thesis
      by (cases vs) (simp_all add: foldr_done del: foldr_map)
  qed
qed simp_all

end
