(* ===== verification/Pages.thy ===== *)
theory Pages
  imports TemplateTypes
begin

text \<open>
  The pages of the operator: \<open>renderHTML\<close> and the templates of \<open>pkg/webserver/functions.go\<close>, with the types of
  their data; the analysis of the contexts and the check of the types accept all of them.
\<close>

section \<open>The templates\<close>

definition text_lines :: "string list \<Rightarrow> string" where
  "text_lines = join_with [CHR 0x0A]"

definition loginFormTemplate :: string where
  "loginFormTemplate = text_lines
    ['''',
     ''{{with .Data.Message}}<p>{{.}}</p>{{end}}'',
     ''<form method=\"post\" action=\"/?login\">'',
     ''  <label>Email <input type=\"email\" name=\"email\" autocomplete=\"username\"></label>'',
     ''  <label>Password <input type=\"password\" name=\"password\" autocomplete=\"current-password\"></label>'',
     ''  <button type=\"submit\">Log in</button>'',
     ''</form>'']"

definition joinFormTemplate :: string where
  "joinFormTemplate = text_lines
    ['''',
     ''<p>Create the first persistent SiteBrush administrator. This form is available only while no persistent users exist and a bootstrap token is configured.</p>'',
     ''<form method=\"post\" action=\"/?join\">'',
     ''  <label>Bootstrap token <input type=\"password\" name=\"bootstrap_token\" autocomplete=\"one-time-code\" required></label>'',
     ''  <label>Email <input type=\"email\" name=\"email\" autocomplete=\"username\" required></label>'',
     ''  <label>Password <input type=\"password\" name=\"password\" autocomplete=\"new-password\" minlength=\"8\" required></label>'',
     ''  <button type=\"submit\">Create admin</button>'',
     ''</form>'']"

definition editFormTemplate :: string where
  "editFormTemplate = text_lines
    ['''',
     ''<form method=\"post\" action=\"{{.Data.Action}}\">'',
     ''  <input type=\"hidden\" name=\"csrf\" value=\"{{.Data.CSRF}}\">'',
     ''  <textarea name=\"content\" rows=\"30\" cols=\"120\">{{.Data.Body}}</textarea>'',
     ''  <p><button type=\"submit\">Save</button></p>'',
     ''</form>'']"

definition revisionsTemplate :: string where
  "revisionsTemplate = text_lines
    ['''',
     ''{{if .Data.Records}}'',
     ''<ol>{{range .Data.Records}}<li>Revision {{.Revision}} at {{.CreatedAt}} checksum {{.Checksum}}'',
     ''<form method=\"post\" action=\"{{$.Data.Action}}\">'',
     ''  <input type=\"hidden\" name=\"csrf\" value=\"{{$.Data.CSRF}}\">'',
     ''  <input type=\"hidden\" name=\"revision\" value=\"{{.Revision}}\">'',
     ''  <button type=\"submit\">Restore</button>'',
     ''</form></li>{{end}}</ol>'',
     ''{{else}}<p>No revisions.</p>{{end}}'',
     ''{{if .Data.DBRecords}}'',
     ''<h2>Database-backed revisions</h2>'',
     ''<ol>{{range .Data.DBRecords}}<li>DB Revision {{.Revision}} {{.Status}} {{if .Published}}published{{else}}unpublished{{end}} for {{.Domain}}{{.RequestURI}} type {{.Type}} at {{.CreatedAt}}</li>{{end}}</ol>'',
     ''{{end}}'']"

definition subpagesTemplate :: string where
  "subpagesTemplate = text_lines
    ['''',
     ''<p>Current path: {{.Data.CurrentPath}}</p>'',
     ''{{if .Data.Pages}}<ul>{{range .Data.Pages}}<li>{{.}}</li>{{end}}</ul>{{else}}<p>No pages found.</p>{{end}}'',
     ''<form method=\"post\" action=\"{{.Data.Action}}\">'',
     ''  <input type=\"hidden\" name=\"csrf\" value=\"{{.Data.CSRF}}\">'',
     ''  <label>New subpage path <input name=\"path\" placeholder=\"child.html\"></label>'',
     ''  <label>Title <input name=\"title\"></label>'',
     ''  <button type=\"submit\">Create subpage</button>'',
     ''</form>'',
     ''<p>Recursive subpage move/navigation metadata updates are deferred.</p>'']"

definition propertiesTemplate :: string where
  "propertiesTemplate = text_lines
    ['''',
     ''<p>Current path: {{.Data.Path}}</p>'',
     ''<form method=\"post\" action=\"{{.Data.Action}}\">'',
     ''  <input type=\"hidden\" name=\"csrf\" value=\"{{.Data.CSRF}}\">'',
     ''  <label>Title <input name=\"title\" value=\"{{.Data.Title}}\"></label>'',
     ''  <label>Tags <input name=\"tags\" value=\"{{.Data.Tags}}\"></label>'',
     ''  <label>Status <input name=\"status\" value=\"{{.Data.Status}}\"></label>'',
     ''  <label>Published <input type=\"checkbox\" name=\"published\" value=\"1\" {{if .Data.Published}}checked{{end}}></label>'',
     ''  <label>New path <input name=\"new_path\" value=\"{{.Data.NewPath}}\"></label>'',
     ''  <button type=\"submit\">Save properties</button>'',
     ''</form>'']"

definition grabFormTemplate :: string where
  "grabFormTemplate = text_lines
    ['''',
     ''<p>Import one remote HTML page into this SiteBrush page. Recursive asset fetching and template propagation are deferred for safety.</p>'',
     ''<form method=\"post\" action=\"{{.Data.Action}}\">'',
     ''  <input type=\"hidden\" name=\"csrf\" value=\"{{.Data.CSRF}}\">'',
     ''  <label>Remote URL <input type=\"url\" name=\"url\" placeholder=\"https://example.com/page.html\" required></label>'',
     ''  <label>Target path <input name=\"target_path\" placeholder=\"leave blank for current page\"></label>'',
     ''  <button type=\"submit\">Import HTML</button>'',
     ''</form>'']"

definition grabResultTemplate :: string where
  "grabResultTemplate = text_lines
    ['''',
     ''<p>Imported {{.Data.ImportedURI}} from {{.Data.URL}}.</p>'',
     ''{{if ne .Data.FinalURL .Data.URL}}<p>Final URL after redirects: {{.Data.FinalURL}}</p>{{end}}'',
     ''{{if .Data.Templates}}<h2>Detected templates</h2><ul>{{range .Data.Templates}}<li>{{.Name}} via {{.Source}} on &lt;{{.Tag}}&gt;</li>{{end}}</ul>{{else}}<p>No SiteBrush template markers detected.</p>{{end}}'',
     ''{{if .Data.Warnings}}<h2>Warnings</h2><ul>{{range .Data.Warnings}}<li>{{.}}</li>{{end}}</ul>{{end}}'']"

definition profileTemplate :: string where
  "profileTemplate = text_lines
    ['''',
     ''<p>User: {{.Data.User}}</p>'',
     ''{{with .Data.Email}}<p>Email: {{.}}</p>{{end}}'',
     ''<p>Auth source: {{.Data.Source}}</p>'',
     ''<p>Session expires: {{.Data.Expires}}</p>'',
     ''<p>Site root: {{.Data.Site}}</p>'',
     ''{{if eq .Data.Source \"persistent\"}}'',
     ''<h2>Change password</h2>'',
     ''<form method=\"post\" action=\"/?profile\">'',
     ''  <input type=\"hidden\" name=\"csrf\" value=\"{{.Data.CSRF}}\">'',
     ''  <label>Current password <input type=\"password\" name=\"current_password\" autocomplete=\"current-password\"></label>'',
     ''  <label>New password <input type=\"password\" name=\"new_password\" autocomplete=\"new-password\" minlength=\"8\"></label>'',
     ''  <button type=\"submit\">Change password</button>'',
     ''</form>'',
     ''{{else}}'',
     ''<p>Environment admin profile changes are not implemented yet.</p>'',
     ''{{end}}'']"

definition logoutTemplate :: string where
  "logoutTemplate = text_lines
    ['''',
     ''<form method=\"post\" action=\"/?logout\"><input type=\"hidden\" name=\"csrf\" value=\"{{.Data.CSRF}}\"><button type=\"submit\">Log out</button></form>'']"

definition page_templates :: "(string \<times> string) list" where
  "page_templates =
     [(''loginFormTemplate'', loginFormTemplate), (''joinFormTemplate'', joinFormTemplate),
      (''editFormTemplate'', editFormTemplate), (''revisionsTemplate'', revisionsTemplate),
      (''subpagesTemplate'', subpagesTemplate), (''propertiesTemplate'', propertiesTemplate),
      (''grabFormTemplate'', grabFormTemplate), (''grabResultTemplate'', grabResultTemplate),
      (''profileTemplate'', profileTemplate), (''logoutTemplate'', logoutTemplate)]"

definition page_source :: "string \<Rightarrow> string" where
  "page_source body =
     ''<!doctype html><html><head><meta charset=\"utf-8\"><title>{{.Title}}</title></head><body><h1>{{.Title}}</h1>''
       @ body @ ''</body></html>''"

text \<open>
  The template is parsed, its contexts are found, and it is executed on the title and the data. \<open>None\<close>
  means that there is no such template or that it is beyond the model; the flag is whether the
  execution came to its end.
\<close>

definition page_nodes :: "string \<Rightarrow> enode list option" where
  "page_nodes name =
     (case map_of page_templates name of
        None \<Rightarrow> None
      | Some body \<Rightarrow>
          (case parse_template (page_source body) of
             None \<Rightarrow> None
           | Some ns \<Rightarrow>
               (case escape_nodes Content ns of
                  Some (es, Content) \<Rightarrow> Some es
                | _ \<Rightarrow> None)))"

definition page_data :: "string \<Rightarrow> (string \<times> html) list \<Rightarrow> html" where
  "page_data title data = HStruct [(''Title'', HStr title), (''Data'', HStruct data)]"

definition render_html :: "(html \<Rightarrow> string) \<Rightarrow> string \<Rightarrow> string \<Rightarrow> (string \<times> html) list \<Rightarrow> (piece list \<times> bool) option" where
  "render_html sprint title name data =
     (let root = page_data title data in map_option (exec_nodes sprint root root) (page_nodes name))"

section \<open>The types of the data\<close>

definition page_types :: "(string \<times> vtype) list" where
  "page_types =
     [(''loginFormTemplate'', TStruct [(''Message'', TStr)]),
      (''joinFormTemplate'', TStruct []),
      (''editFormTemplate'', TStruct [(''Action'', TStr), (''CSRF'', TStr), (''Body'', TStr)]),
      (''revisionsTemplate'', TStruct [(''Action'', TStr), (''CSRF'', TStr),
         (''Records'', TList (TStruct [(''Revision'', TInt), (''CreatedAt'', TTime), (''Checksum'', TStr)])),
         (''DBRecords'', TList (TStruct [(''Revision'', TInt), (''Status'', TStr), (''Published'', TBool), (''Domain'', TStr),
            (''RequestURI'', TStr), (''Type'', TStr), (''CreatedAt'', TTime)]))]),
      (''subpagesTemplate'', TStruct [(''CurrentPath'', TStr), (''Pages'', TList TStr), (''Action'', TStr), (''CSRF'', TStr)]),
      (''propertiesTemplate'', TStruct [(''Path'', TStr), (''Action'', TStr), (''CSRF'', TStr), (''Title'', TStr), (''Tags'', TStr),
         (''Status'', TStr), (''Published'', TBool), (''NewPath'', TStr)]),
      (''grabFormTemplate'', TStruct [(''Action'', TStr), (''CSRF'', TStr)]),
      (''grabResultTemplate'', TStruct [(''ImportedURI'', TStr), (''URL'', TStr), (''FinalURL'', TStr),
         (''Templates'', TList (TStruct [(''Name'', TStr), (''Source'', TStr), (''Tag'', TStr)])), (''Warnings'', TList TStr)]),
      (''profileTemplate'', TStruct [(''User'', TStr), (''Email'', TStr), (''Source'', TStr), (''Expires'', TTime), (''Site'', TStr),
         (''CSRF'', TStr)]),
      (''logoutTemplate'', TStruct [(''CSRF'', TStr)])]"

definition page_root :: "vtype \<Rightarrow> vtype" where
  "page_root t = TStruct [(''Title'', TStr), (''Data'', t)]"

definition page_checked :: "string \<Rightarrow> bool" where
  "page_checked name =
     (case (page_nodes name, map_of page_types name) of
        (Some es, Some t) \<Rightarrow> check_nodes (page_root t) (page_root t) es
      | _ \<Rightarrow> False)"

text \<open>Data that a page can be rendered with.\<close>

definition page_typed :: "string \<Rightarrow> (string \<times> html) list \<Rightarrow> bool" where
  "page_typed name data = (case map_of page_types name of None \<Rightarrow> False | Some t \<Rightarrow> has_type (HStruct data) t)"

section \<open>The templates pass the analysis and the check\<close>

lemma page_checked_login: "page_checked ''loginFormTemplate''"
  by code_simp

lemma page_checked_join: "page_checked ''joinFormTemplate''"
  by code_simp

lemma page_checked_edit: "page_checked ''editFormTemplate''"
  by code_simp

lemma page_checked_revisions: "page_checked ''revisionsTemplate''"
  by code_simp

lemma page_checked_subpages: "page_checked ''subpagesTemplate''"
  by code_simp

lemma page_checked_properties: "page_checked ''propertiesTemplate''"
  by code_simp

lemma page_checked_grab: "page_checked ''grabFormTemplate''"
  by code_simp

lemma page_checked_grabresult: "page_checked ''grabResultTemplate''"
  by code_simp

lemma page_checked_profile: "page_checked ''profileTemplate''"
  by code_simp

lemma page_checked_logout: "page_checked ''logoutTemplate''"
  by code_simp

lemmas page_checked_all =
  page_checked_login page_checked_join page_checked_edit page_checked_revisions page_checked_subpages
  page_checked_properties page_checked_grab page_checked_grabresult page_checked_profile page_checked_logout

lemma page_checked_name:
  assumes "name \<in> set (map fst page_templates)"
  shows "page_checked name"
proof -
  have "list_all page_checked (map fst page_templates)"
    by (simp only: page_templates_def list.map fst_conv list.pred_inject page_checked_all simp_thms)
  with assms show ?thesis by (simp only: list_all_iff)
qed

lemma page_nodes_accepted: "name \<in> set (map fst page_templates) \<Longrightarrow> page_nodes name \<noteq> None"
  using page_checked_name [of name] by (auto simp: page_checked_def split: option.splits)

text \<open>Data of the right type carries the execution to its end.\<close>

lemma page_finished:
  assumes "name \<in> set (map fst page_templates)" "page_typed name data"
  shows "\<exists>ps. render_html sprint title name data = Some (ps, True)"
proof -
  obtain t where t: "map_of page_types name = Some t" "has_type (HStruct data) t"
    using assms(2) by (auto simp: page_typed_def split: option.splits)
  obtain es where es: "page_nodes name = Some es" "check_nodes (page_root t) (page_root t) es"
    using page_checked_name [OF assms(1)] t(1) by (auto simp: page_checked_def split: option.splits)
  have "has_type (page_data title data) (page_root t)"
    using t(2) by (simp add: page_data_def page_root_def)
  then have "snd (exec_nodes sprint (page_data title data) (page_data title data) es)"
    using checked_done es(2) by blast
  then show ?thesis by (simp add: render_html_def Let_def es(1)) (metis prod.collapse)
qed

end
