(* ===== verification/TemplateSafety.thy ===== *)
theory TemplateSafety
  imports Templates
begin

text \<open>
  The analysis of the contexts is sound for every execution: at every value a reader of the output is in the
  context that the analysis has found, and the escaped value does not leave it.
\<close>

section \<open>Escaped text\<close>

lemma byte_marks [simp]: "byte CHR ''<'' = 60" "byte CHR ''>'' = 62" "byte CHR ''\"'' = 34"
  by (simp_all add: byte_def)

text \<open>No escaped text holds a character that ends a text, a value or a title.\<close>

lemma mark_bytes: "c = CHR ''<'' \<longleftrightarrow> byte c = 60" "c = CHR ''\"'' \<longleftrightarrow> byte c = 34"
  by (metis byte_inject byte_marks(1), metis byte_inject byte_marks(3))

lemma html_escape_char_safe:
  assumes "x \<in> set (html_escape_char c)"
  shows "x \<noteq> CHR ''<'' \<and> x \<noteq> CHR ''\"''"
proof -
  have "list_all (\<lambda>x. x \<noteq> CHR ''<'' \<and> x \<noteq> CHR ''\"'') (html_escape_char c)"
    by (simp add: html_escape_char_def) (simp add: mark_bytes)
  with assms show ?thesis by (simp add: list_all_iff)
qed

lemma html_escape_safe: "x \<in> set (html_escape s) \<Longrightarrow> x \<noteq> CHR ''<'' \<and> x \<noteq> CHR ''\"''"
  using html_escape_char_safe by (force simp: html_escape_def)

lemma escape_for_safe: "x \<in> set (escape_for c s) \<Longrightarrow> x \<noteq> CHR ''<'' \<and> x \<noteq> CHR ''\"''"
  by (cases "(c, s)" rule: escape_for.cases) (auto dest: html_escape_safe)

lemma context_after_simps [simp]:
  "context_after c [] = c"
  "context_after c (x # s) = context_after (html_step c x) s"
  "context_after c (s @ t) = context_after (context_after c s) t"
  by (simp_all add: context_after_def)

lemma rcdata_step_keeps:
  assumes "x \<noteq> CHR ''<''"
  shows "rcdata_step el '''' x = RcData el ''''"
proof -
  have "lower_byte x \<noteq> CHR ''<''"
    using assms by (simp add: lower_byte_def mark_bytes)
  with assms show ?thesis by (auto simp: rcdata_step_def has_prefix_def)
qed

lemma content_keeps: "(\<And>x. x \<in> set s \<Longrightarrow> x \<noteq> CHR ''<'') \<Longrightarrow> context_after Content s = Content"
  by (induction s) simp_all

lemma rcdata_keeps: "(\<And>x. x \<in> set s \<Longrightarrow> x \<noteq> CHR ''<'') \<Longrightarrow> context_after (RcData el '''') s = RcData el ''''"
  by (induction s) (simp_all add: rcdata_step_keeps)

lemma value_keeps:
  "(\<And>x. x \<in> set s \<Longrightarrow> x \<noteq> CHR ''\"'') \<Longrightarrow>
     context_after (QuotedValue el k f) s = QuotedValue el k (f \<and> s = '''')"
  by (induction s arbitrary: f) simp_all

section \<open>The analysis is sound\<close>

text \<open>The context a reader is in fits the one that the analysis has found.\<close>

definition fits :: "html_context \<Rightarrow> html_context \<Rightarrow> bool" where
  "fits a c \<longleftrightarrow>
     (case c of
        QuotedValue el k False \<Rightarrow> \<exists>f. a = QuotedValue el k f
      | AttrMaybe el \<Rightarrow> a = c \<or> is_tag_end a \<and> tag_of a = el
      | _ \<Rightarrow> a = c)"

lemma fits_refl [simp]: "fits c c"
  by (auto simp: fits_def split: html_context.splits bool.splits)

lemma fits_cases:
  assumes "fits a c"
  obtains "a = c"
    | el k f where "c = QuotedValue el k False" "a = QuotedValue el k f"
    | el where "c = AttrMaybe el" "a = InTag el"
    | el n where "c = AttrMaybe el" "a = AttrName el n" "attr_kind n = Some PlainAttr"
  using assms by (auto simp: fits_def is_tag_end_def tag_of_def split: html_context.splits bool.splits)

lemma fits_quoted: "fits (QuotedValue el k f) (QuotedValue el k False)"
  by (simp add: fits_def)

lemma fits_step:
  assumes "fits a c" "html_step c x \<noteq> Beyond"
  shows "fits (html_step a x) (html_step c x)"
  using assms(1)
proof (cases rule: fits_cases)
  case (2 el k f)
  then show ?thesis by (simp add: fits_quoted)
next
  case (3 el)
  with assms(2) show ?thesis by (simp add: in_tag_step_def tag_space_def split: if_splits)
next
  case (4 el n)
  with assms(2) show ?thesis by (simp add: name_char_def tag_letter_def is_digit_byte_def split: if_splits)
qed simp

lemma beyond_stays [simp]: "context_after Beyond s = Beyond"
  by (induction s) simp_all

lemma fits_after: "fits a c \<Longrightarrow> context_after c s \<noteq> Beyond \<Longrightarrow> fits (context_after a s) (context_after c s)"
proof (induction s arbitrary: a c)
  case (Cons x s)
  then have "html_step c x \<noteq> Beyond" by auto
  with Cons show ?case by (simp add: fits_step)
qed simp

lemma fits_join:
  assumes "join_contexts c d = Some e" "fits a c \<or> fits a d"
  shows "fits a e"
  using assms
  by (auto simp: join_contexts_def fits_def is_tag_end_def tag_of_def split: if_splits html_context.splits bool.splits)

text \<open>An inserted value stays in the text, the title or the value of an attribute where it was put.\<close>

definition same_place :: "html_context \<Rightarrow> html_context \<Rightarrow> bool" where
  "same_place a c =
     (case (a, c) of
        (QuotedValue el k f, QuotedValue el' k' f') \<Rightarrow> el = el' \<and> k = k'
      | _ \<Rightarrow> a = c)"

lemma insert_stays:
  assumes "insert_context c" "fits a c"
  shows "same_place a c" "same_place (context_after a (escape_for c s)) c"
    "fits (context_after a (escape_for c s)) (after_insert c)"
proof -
  have safe: "\<And>x. x \<in> set (escape_for c s) \<Longrightarrow> x \<noteq> CHR ''<''" "\<And>x. x \<in> set (escape_for c s) \<Longrightarrow> x \<noteq> CHR ''\"''"
    using escape_for_safe by blast+
  from assms show "same_place a c"
    by (cases c rule: insert_context.cases) (auto simp: fits_def same_place_def split: bool.splits)
  from assms safe show "same_place (context_after a (escape_for c s)) c"
    by (cases c rule: insert_context.cases)
      (auto simp: fits_def same_place_def content_keeps rcdata_keeps value_keeps split: bool.splits)
  from assms safe show "fits (context_after a (escape_for c s)) (after_insert c)"
    by (cases c rule: insert_context.cases)
      (auto simp: fits_def content_keeps rcdata_keeps value_keeps split: bool.splits)
qed

text \<open>The addresses that are inserted have no scheme, or a harmless one.\<close>

lemma byte_colon [simp]: "byte CHR '':'' = 58" "byte CHR ''/'' = 47" "byte CHR ''%'' = 37" by (simp_all add: byte_def)

definition url_block :: "char \<Rightarrow> string \<Rightarrow> string" where
  "url_block c s =
     (if url_char c \<or> c = CHR ''%'' \<and> 2 \<le> length s \<and> hex_char (s ! 0) \<and> hex_char (s ! 1) then [c]
      else CHR ''%'' # hex_fixed 2 (byte c))"

lemma url_normalize_Cons: "url_normalize (c # s) = url_block c s @ url_normalize s"
  by (simp add: url_block_def)

lemma hex_digit_chars: "n < 16 \<Longrightarrow> hex_digit n \<noteq> CHR '':'' \<and> hex_digit n \<noteq> CHR ''/''"
  by (auto simp: hex_digit_def dest!: arg_cong [where f = byte])

lemma hex_fixed_chars: "x \<in> set (hex_fixed 2 n) \<Longrightarrow> x \<noteq> CHR '':''"
  using hex_digit_chars [of "n mod 16"] hex_digit_chars [of "n div 16 mod 16"] by (auto simp: numeral_2_eq_2)

lemma url_block_colon: "url_block CHR '':'' s = [CHR '':'']" "url_block CHR ''/'' s = [CHR ''/'']"
  by (simp_all add: url_block_def url_char_def)

lemma url_block_chars: "c \<noteq> CHR '':'' \<Longrightarrow> x \<in> set (url_block c s) \<Longrightarrow> x \<noteq> CHR '':''"
  by (auto simp: url_block_def hex_fixed_chars dest: hex_fixed_chars split: if_splits)

lemma url_block_letter: "tag_letter c \<Longrightarrow> url_block c s = [c]"
  by (simp add: url_block_def url_char_def)

lemma normal_colon: "CHR '':'' \<in> set (url_normalize u) \<longleftrightarrow> CHR '':'' \<in> set u"
proof (induction u)
  case (Cons c u)
  then show ?case
    using url_block_chars [of c "CHR '':''" u]
    by (cases "c = CHR '':''") (auto simp: url_normalize_Cons url_block_colon simp del: url_normalize.simps)
qed simp

abbreviation protocol_of :: "string \<Rightarrow> string" where
  "protocol_of \<equiv> takeWhile (\<lambda>c. c \<noteq> CHR '':'')"

lemma normal_protocol:
  "c \<noteq> CHR '':'' \<Longrightarrow> protocol_of (url_normalize (c # s)) = url_block c s @ protocol_of (url_normalize s)"
  using url_block_chars [of c _ s]
  by (auto simp: url_normalize_Cons takeWhile_append2 simp del: url_normalize.simps intro!: takeWhile_append2)

lemma normal_slash: "CHR ''/'' \<in> set (protocol_of u) \<Longrightarrow> CHR ''/'' \<in> set (protocol_of (url_normalize u))"
  by (induction u) (auto simp: normal_protocol url_block_colon simp del: url_normalize.simps split: if_splits)

lemma normal_letters: "list_all tag_letter (protocol_of u) \<Longrightarrow> protocol_of (url_normalize u) = protocol_of u"
proof (induction u)
  case (Cons c u)
  then show ?case
    by (cases "c = CHR '':''")
      (simp_all add: normal_protocol url_block_letter url_normalize_Cons url_block_colon del: url_normalize.simps)
qed simp

lemma lower_letter: "tag_letter (lower_byte c) \<Longrightarrow> tag_letter c"
  by (auto simp: tag_letter_def lower_byte_def split: if_splits)

lemma safe_url_normal: "is_safe_url u \<Longrightarrow> is_safe_url (url_normalize u)"
proof -
  have "list_all tag_letter p" if "map lower_byte p \<in> {''http'', ''https'', ''mailto''}" for p
  proof -
    have "list_all tag_letter ''http''" "list_all tag_letter ''https''" "list_all tag_letter ''mailto''"
      by (simp_all add: tag_letter_def byte_def)
    with that have "list_all tag_letter (map lower_byte p)" by auto
    then show ?thesis using lower_letter by (auto simp: list_all_iff)
  qed
  moreover assume "is_safe_url u"
  ultimately show ?thesis
    unfolding is_safe_url_def Let_def normal_colon
    using normal_slash normal_letters by metis
qed
lemma safe_url_filter: "is_safe_url (url_filter s)"
  by (simp add: url_filter_def is_safe_url_def)

definition address_safe :: "html_context \<Rightarrow> string \<Rightarrow> bool" where
  "address_safe c s = (case c of QuotedValue el UrlAttr f \<Rightarrow> \<exists>u. s = html_escape u \<and> is_safe_url u | _ \<Rightarrow> True)"

lemma escaped_address_safe: "address_safe c (escape_for c s)"
  by (auto simp: address_safe_def safe_url_normal safe_url_filter split: html_context.splits attr_kind.splits)

primrec pieces_fit :: "html_context \<Rightarrow> piece list \<Rightarrow> bool" where
  "pieces_fit a [] = True"
| "pieces_fit a (p # ps) =
     ((case p of
         Literal s \<Rightarrow> True
       | Inserted c s \<Rightarrow> insert_context c \<and> same_place a c \<and> same_place (context_after a s) c \<and> address_safe c s)
      \<and> pieces_fit (context_after a (piece_text p)) ps)"

lemma pieces_text_simps [simp]:
  "pieces_text [] = []" "pieces_text (p # ps) = piece_text p @ pieces_text ps"
  "pieces_text (ps @ qs) = pieces_text ps @ pieces_text qs"
  by (simp_all add: pieces_text_def)

lemma pieces_fit_append:
  "pieces_fit a (ps @ qs) \<longleftrightarrow> pieces_fit a ps \<and> pieces_fit (context_after a (pieces_text ps)) qs"
  by (induction ps arbitrary: a) auto

text \<open>What a run of some nodes must do, from the context before them to the one after them.\<close>

definition run_fits :: "html_context \<Rightarrow> html_context \<Rightarrow> piece list \<times> bool \<Rightarrow> bool" where
  "run_fits c e r \<longleftrightarrow>
     (\<forall>a. fits a c \<longrightarrow> pieces_fit a (fst r) \<and> (snd r \<longrightarrow> fits (context_after a (pieces_text (fst r))) e))"

lemma run_fits_nil [simp]: "run_fits c c ([], True)" "run_fits c e ([], False)"
  by (simp_all add: run_fits_def)

lemma run_fits_then: "run_fits c d r \<Longrightarrow> run_fits d e q \<Longrightarrow> run_fits c e (and_then r q)"
  by (auto simp: run_fits_def and_then_def pieces_fit_append)

lemma run_fits_join:
  assumes "join_contexts c d = Some e" "run_fits b c r \<or> run_fits b d r"
  shows "run_fits b e r"
  using assms by (auto simp: run_fits_def intro: fits_join)

lemma run_fits_loop: "(\<And>r. r \<in> set rs \<Longrightarrow> run_fits c c r) \<Longrightarrow> run_fits c c (foldr and_then rs ([], True))"
  by (induction rs) (auto intro: run_fits_then)

lemma run_fits_text: "context_after c s \<noteq> Beyond \<Longrightarrow> run_fits c (context_after c s) ([Literal s], True)"
  by (simp add: run_fits_def fits_after)

lemma run_fits_insert: "insert_context c \<Longrightarrow> run_fits c (after_insert c) ([Inserted c (escape_for c s)], True)"
  by (simp add: run_fits_def insert_stays escaped_address_safe)

lemma exec_fits: "escape_nodes c ns = Some (es, e) \<Longrightarrow> run_fits c e (exec_nodes sprint root dot es)"
proof (induction c ns arbitrary: es e dot rule: escape_nodes.induct)
  case (1 c)
  then show ?case by simp
next
  case (2 c s ns)
  then show ?case
    by (auto simp: Let_def split: if_splits option.splits intro!: run_fits_then [OF run_fits_text])
next
  case (3 c p ns)
  then show ?case
    by (auto split: if_splits option.splits intro!: run_fits_then [OF run_fits_insert])
next
  case (4 c k p thn els ns)
  then obtain es1 d1 es2 d2 d es3 where
    parts: "escape_nodes c thn = Some (es1, d1)" "escape_nodes c els = Some (es2, d2)"
      "k = RangeBranch \<longrightarrow> d1 = c" "join_contexts d1 d2 = Some d" "escape_nodes d ns = Some (es3, e)"
      "es = EBranch k p es1 es2 # es3"
    by (auto split: option.splits if_splits)
  have branch: "run_fits c d (exec_nodes sprint root v es1)" "run_fits c d (exec_nodes sprint root v es2)" for v
    using run_fits_join [OF parts(4)] 4(1) [OF parts(1)] 4(2) [OF parts(2)] by blast+
  have loop: "k = RangeBranch \<Longrightarrow> run_fits c d (foldr and_then (map (\<lambda>v. exec_nodes sprint root v es1) vs) ([], True))" for vs
    using 4(1) [OF parts(1)] parts(3) by (intro run_fits_join [OF parts(4)] disjI1) (auto intro!: run_fits_loop simp del: foldr_map)
  have rest: "run_fits d e (exec_nodes sprint root dot es3)"
    using 4(3) parts by simp
  show ?case
    unfolding parts(6) exec_nodes.simps
    by (rule run_fits_then [OF _ rest])
      (use branch loop in \<open>auto simp del: foldr_map split: option.splits branch_kind.splits html.splits\<close>)
qed

end
