(* ===== verification/PageSafety.thy ===== *)
theory PageSafety
  imports Pages TemplateSafety
begin

text \<open>
  What holds of every page that \<open>renderHTML\<close> writes: no value changes its structure.
\<close>

section \<open>The structure of the pages\<close>

lemma page_nodes_fit:
  assumes "page_nodes name = Some es"
  shows "run_fits Content Content (exec_nodes sprint root dot es)"
  using assms exec_fits
  by (fastforce simp: page_nodes_def split: option.splits prod.splits html_context.splits)





end
