(* ===== verification/Answers.thy ===== *)
theory Answers
  imports ServeSafety PageSafety
begin

text \<open>
  What every answer of the request handler looks like: headers, then one status and one body; and what its
  redirects, cookies, error codes and pages are.
\<close>

lemma page_ends:
  assumes "render_html sprint title name data = Some (ps, True)"
  shows "context_after Content (pieces_text ps) = Content"
proof -
  from assms obtain es where es: "page_nodes name = Some es"
    "exec_nodes sprint (page_data title data) (page_data title data) es = (ps, True)"
    by (auto simp: render_html_def Let_def)
  have "run_fits Content Content (exec_nodes sprint (page_data title data) (page_data title data) es)"
    by (rule page_nodes_fit [OF es(1)])
  then show ?thesis unfolding es(2) by (auto simp: run_fits_def fits_def)
qed

section \<open>Answers\<close>

text \<open>
  Headers come first; then either one call that sends a body with its status, or a status and a body at most. A header
  after the status would be lost, and a second status or body would be appended to the first. (\<open>RenderHTML\<close> sets the type
  of its content itself, in vain on the page of the login, which has its status by then.)
\<close>

fun sends_all :: "call \<Rightarrow> bool" where
  "sends_all (HttpError msg code) = True"
| "sends_all (HttpRedirect target code) = True"
| "sends_all (ServeFile name) = True"
| "sends_all (Fprint s) = True"
| "sends_all (RenderHTML title name data) = True"
| "sends_all (EncodeJSON data) = True"
| "sends_all c = False"

fun sends_body :: "call \<Rightarrow> bool" where
  "sends_body (Fprint s) = True"
| "sends_body (RenderHTML title name data) = True"
| "sends_body (EncodeJSON data) = True"
| "sends_body c = False"

fun is_header :: "call \<Rightarrow> bool" where
  "is_header (SetHeader k v) = True"
| "is_header (SetCookie c) = True"
| "is_header c = False"

fun status_and_body :: "call list \<Rightarrow> bool" where
  "status_and_body [c] = (sends_all c \<or> (\<exists>n. c = WriteHeader n))"
| "status_and_body [c, d] = ((\<exists>n. c = WriteHeader n) \<and> sends_body d)"
| "status_and_body cs = False"

definition whole_answer :: "call list \<Rightarrow> bool" where
  "whole_answer cs = status_and_body (dropWhile is_header cs)"

text \<open>A path on the same host: a browser takes a second slash for the begin of a host name.\<close>

definition local_target :: "string \<Rightarrow> bool" where
  "local_target t \<longleftrightarrow> has_prefix t ''/'' \<and> \<not> has_prefix t ''//''"

fun proper_call :: "request \<Rightarrow> call \<Rightarrow> bool" where
  "proper_call request (HttpRedirect target code) = (local_target target \<and> code \<in> {301, 303})"
| "proper_call request (SetCookie c) =
     (Cookie_Name c = sessionCookieName \<and> Cookie_Path c = ''/'' \<and> HttpOnly c \<and> SameSiteLax c \<and> Secure c = TLS request)"
| "proper_call request (HttpError msg code) = (400 \<le> code \<and> code < 600)"
| "proper_call request (WriteHeader code) = (200 \<le> code \<and> code < 600)"
| "proper_call request (RenderHTML title name data) = (name \<in> set (map fst page_templates) \<and> page_typed name data)"
| "proper_call request c = True"

text \<open>\<open>G\<close> is what is known of the server before and between the parts of a handler.\<close>

definition quiet_step :: "(server \<Rightarrow> bool) \<Rightarrow> request \<Rightarrow> 'a srv \<Rightarrow> bool" where
  "quiet_step G request m \<longleftrightarrow>
     (\<forall>s. G s \<longrightarrow> G (snd (m s))
       \<and> (\<exists>cs. response (snd (m s)) = response s @ cs \<and> list_all is_header cs \<and> list_all (proper_call request) cs))"

definition answers :: "(server \<Rightarrow> bool) \<Rightarrow> request \<Rightarrow> 'a srv \<Rightarrow> bool" where
  "answers G request m \<longleftrightarrow>
     (\<forall>s. G s \<longrightarrow>
       (\<exists>cs. response (snd (m s)) = response s @ cs \<and> whole_answer cs \<and> list_all (proper_call request) cs))"

definition anywhere :: "server \<Rightarrow> bool" where
  "anywhere s \<longleftrightarrow> True"

definition placed :: "server \<Rightarrow> bool" where
  "placed s \<longleftrightarrow> propers (cwd (machine s))"

section \<open>Rules\<close>

lemma answers_weaken: "answers anywhere request m \<Longrightarrow> answers G request m"
  by (simp add: answers_def anywhere_def)

lemma whole_append: "list_all is_header hs \<Longrightarrow> whole_answer (hs @ cs) = whole_answer cs"
  by (induction hs) (auto simp: whole_answer_def)

lemma answers_bind:
  assumes "quiet_step G request m" "\<And>v. answers G request (f v)"
  shows "answers G request (bind_srv m f)"
  unfolding answers_def
proof (intro allI impI)
  fix s assume "G s"
  obtain v s1 where run: "m s = (v, s1)" by (cases "m s")
  with assms(1) \<open>G s\<close> obtain hs where hs: "G s1" "response s1 = response s @ hs" "list_all is_header hs"
      "list_all (proper_call request) hs"
    unfolding quiet_step_def by (metis snd_conv)
  with assms(2) obtain cs where "response (snd (f v s1)) = response s1 @ cs" "whole_answer cs"
      "list_all (proper_call request) cs"
    unfolding answers_def by blast
  with hs run show "\<exists>cs. response (snd (bind_srv m f s)) = response s @ cs \<and> whole_answer cs
      \<and> list_all (proper_call request) cs"
    by (intro exI [of _ "hs @ cs"]) (simp add: bind_srv_def whole_append)
qed

lemma answers_respond:
  "whole_answer cs \<Longrightarrow> list_all (proper_call request) cs \<Longrightarrow> answers G request (respond cs)"
  by (simp add: answers_def respond_def)

lemma answers_then: "answers G request m \<Longrightarrow> answers G request (bind_srv m (\<lambda>v. ret_srv (f v)))"
  by (simp add: answers_def bind_srv_def ret_srv_def split: prod.split) (metis snd_conv)

lemma answers_if:
  "(b \<Longrightarrow> answers G request m) \<Longrightarrow> (\<not> b \<Longrightarrow> answers G request n) \<Longrightarrow> answers G request (if b then m else n)"
  by simp

lemma answers_sum:
  "(\<And>e. r = Inl e \<Longrightarrow> answers G request (f e)) \<Longrightarrow> (\<And>v. r = Inr v \<Longrightarrow> answers G request (g v)) \<Longrightarrow>
     answers G request (case r of Inl e \<Rightarrow> f e | Inr v \<Rightarrow> g v)"
  by (simp split: sum.split)

lemma answers_option:
  "(r = None \<Longrightarrow> answers G request m) \<Longrightarrow> (\<And>v. r = Some v \<Longrightarrow> answers G request (g v)) \<Longrightarrow>
     answers G request (case r of None \<Rightarrow> m | Some v \<Rightarrow> g v)"
  by (simp split: option.split)

lemma answers_prod: "(\<And>a b. p = (a, b) \<Longrightarrow> answers G request (f a b)) \<Longrightarrow> answers G request (case p of (a, b) \<Rightarrow> f a b)"
  by (simp split: prod.split)

lemma answers_world: "(\<And>w. answers G request (f w)) \<Longrightarrow> answers G request (with_world f)"
  by (simp add: answers_def with_world_def)

lemma quiet_step_ret: "quiet_step G request (ret_srv v)"
  by (simp add: quiet_step_def ret_srv_def)

lemma quiet_headers: "list_all is_header cs \<Longrightarrow> list_all (proper_call request) cs \<Longrightarrow> quiet_step anywhere request (respond cs)"
  by (simp add: quiet_step_def respond_def anywhere_def)

lemma quiet_lift: "quiet_step anywhere request (lift_srv m)"
  by (simp add: quiet_step_def lift_srv_def anywhere_def split: prod.split)

lemma quiet_lift_inert: "inert m \<Longrightarrow> quiet_step placed request (lift_srv m)"
  by (auto simp: quiet_step_def lift_srv_def placed_def same_files_def split: prod.split dest: inertD)

lemma quiet_step_bind: "quiet_step G request m \<Longrightarrow> (\<And>v. quiet_step G request (f v)) \<Longrightarrow> quiet_step G request (bind_srv m f)"
  unfolding quiet_step_def
proof (intro allI impI)
  fix s
  assume m: "\<forall>s. G s \<longrightarrow> G (snd (m s)) \<and> (\<exists>cs. response (snd (m s)) = response s @ cs \<and> list_all is_header cs
      \<and> list_all (proper_call request) cs)"
    and f: "\<And>v. \<forall>s. G s \<longrightarrow> G (snd (f v s)) \<and> (\<exists>cs. response (snd (f v s)) = response s @ cs \<and> list_all is_header cs
      \<and> list_all (proper_call request) cs)"
    and "G s"
  obtain v s1 where run: "m s = (v, s1)" by (cases "m s")
  with m \<open>G s\<close> obtain cs where "G s1" "response s1 = response s @ cs" "list_all is_header cs" "list_all (proper_call request) cs"
    by (metis snd_conv)
  moreover from f this(1) obtain ds where "G (snd (f v s1))" "response (snd (f v s1)) = response s1 @ ds" "list_all is_header ds"
      "list_all (proper_call request) ds"
    by blast
  ultimately show "G (snd (bind_srv m f s)) \<and> (\<exists>cs. response (snd (bind_srv m f s)) = response s @ cs \<and> list_all is_header cs
      \<and> list_all (proper_call request) cs)"
    using run by (auto simp: bind_srv_def)
qed

lemma quiet_if: "(b \<Longrightarrow> quiet_step G request m) \<Longrightarrow> (\<not> b \<Longrightarrow> quiet_step G request n) \<Longrightarrow> quiet_step G request (if b then m else n)"
  by simp

lemma quiet_sum:
  "(\<And>e. quiet_step G request (f e)) \<Longrightarrow> (\<And>v. quiet_step G request (g v)) \<Longrightarrow> quiet_step G request (case r of Inl e \<Rightarrow> f e | Inr v \<Rightarrow> g v)"
  by (simp split: sum.split)

lemma quiet_option:
  "quiet_step G request m \<Longrightarrow> (\<And>v. quiet_step G request (g v)) \<Longrightarrow> quiet_step G request (case r of None \<Rightarrow> m | Some v \<Rightarrow> g v)"
  by (simp split: option.split)

lemma quiet_sessions: "quiet_step anywhere request (\<lambda>s. ((), s\<lparr>sessions := F s\<rparr>))"
  by (simp add: quiet_step_def anywhere_def)

lemmas quiet_rules = quiet_step_ret quiet_lift quiet_step_bind quiet_if quiet_sum quiet_option

text \<open>An operation whose result is known before the handler goes on.\<close>

lemma answers_try_result:
  assumes "\<And>s e w. G s \<Longrightarrow> m (machine s) = (Inl e, w) \<Longrightarrow> answers anywhere request (h e)"
    "\<And>s v w. G s \<Longrightarrow> m (machine s) = (Inr v, w) \<Longrightarrow> answers anywhere request (f v)"
  shows "answers G request (try_srv m h f)"
  unfolding answers_def
proof (intro allI impI)
  fix s assume G: "G s"
  obtain r w where run: "m (machine s) = (r, w)" by (cases "m (machine s)")
  have "answers anywhere request (case r of Inl err \<Rightarrow> h err | Inr v \<Rightarrow> f v)"
    using assms [OF G] run by (cases r) simp_all
  then have "\<exists>cs. response (snd ((case r of Inl err \<Rightarrow> h err | Inr v \<Rightarrow> f v) (s\<lparr>machine := w\<rparr>))) =
      response (s\<lparr>machine := w\<rparr>) @ cs \<and> whole_answer cs \<and> list_all (proper_call request) cs"
    unfolding answers_def anywhere_def by blast
  then show "\<exists>cs. response (snd (try_srv m h f s)) = response s @ cs \<and> whole_answer cs
      \<and> list_all (proper_call request) cs"
    by (simp add: try_srv_def bind_srv_def lift_srv_def run)
qed

lemma answers_try:
  "(\<And>e. answers anywhere request (h e)) \<Longrightarrow> (\<And>v. answers anywhere request (f v)) \<Longrightarrow>
     answers anywhere request (try_srv m h f)"
  by (rule answers_try_result)

lemmas answer_rules =
  answers_bind answers_if answers_sum answers_option answers_prod answers_world answers_try

section \<open>Local targets\<close>

lemma local_target_append: "local_target t \<Longrightarrow> \<not> has_prefix u ''/'' \<Longrightarrow> local_target (t @ u)"
  by (cases t; cases "tl t"; cases u) (auto simp: local_target_def has_prefix_def)

lemma local_target_slash: "t = '''' \<or> hd t \<noteq> CHR ''/'' \<Longrightarrow> local_target (CHR ''/'' # t)"
  by (cases t) (auto simp: local_target_def has_prefix_def)

lemma join_hd:
  assumes "propers (d # ds)"
  shows "join_with ''/'' (d # ds) \<noteq> ''''" "hd (join_with ''/'' (d # ds)) \<noteq> CHR ''/''"
proof -
  have "d \<noteq> ''''" "hd d \<noteq> CHR ''/''"
    using assms by (auto simp: proper_def) (metis list.set_sel(1))
  then show "join_with ''/'' (d # ds) \<noteq> ''''" "hd (join_with ''/'' (d # ds)) \<noteq> CHR ''/''"
    by (cases ds; simp)+
qed

lemma trim_slashes_hd:
  assumes "s \<noteq> ''''" "hd s \<noteq> CHR ''/''"
  shows "trim_bytes s ''/'' \<noteq> ''''" "hd (trim_bytes s ''/'') \<noteq> CHR ''/''"
proof -
  obtain x r where s: "s = x # r" "x \<noteq> CHR ''/''" using assms by (cases s) auto
  then have "\<exists>t. trim_bytes s ''/'' = x # t"
    by (auto simp: trim_bytes_def trim_left_bytes_def trim_right_bytes_def dropWhile_append intro: rev_rev_ident [symmetric])
  then show "trim_bytes s ''/'' \<noteq> ''''" "hd (trim_bytes s ''/'') \<noteq> CHR ''/''" using s by auto
qed

definition uri_of_relative :: "settings \<Rightarrow> string \<Rightarrow> string" where
  "uri_of_relative c rel =
     (let index = (if WEB_INDEX_FILE c = '''' then ''index.html'' else WEB_INDEX_FILE c) in
      if rel = index then ''/''
      else if path_base rel = index
      then if path_dir rel = ''.'' then ''/'' else ''/'' @ trim_bytes (path_dir rel) ''/'' @ ''/''
      else ''/'' @ trim_prefix rel ''/'')"

lemma canonical_uri_run:
  "canonical_request_uri_for_file c p =
     bind_io (abs_io (WEB_FILE_PATH c)) (\<lambda>root. bind_io (abs_io p) (\<lambda>target.
       if \<not> path_is_inside_root root target then fail_io ErrUnsafePath
       else bind_io (lift_io (filepath_rel root target)) (\<lambda>rel. ret_io (uri_of_relative c rel))))"
  unfolding canonical_request_uri_for_file_def uri_of_relative_def Let_def
  by (simp only: if_distrib [of ret_io])

lemma canonical_uri_local:
  assumes "canonical_request_uri_for_file c p w = (Inr uri, w')" "propers (cwd w)"
  shows "local_target uri"
proof -
  from assms(1) obtain root w1 target w2 rel where
    run: "abs_io (WEB_FILE_PATH c) w = (Inr root, w1)" "abs_io p w1 = (Inr target, w2)"
      "path_is_inside_root root target" "filepath_rel root target = Inr rel"
    and uri: "uri = uri_of_relative c rel"
    unfolding canonical_uri_run by (auto simp: bind_io_Inr lift_io_def fail_io_eq ret_io_eq split: if_splits)
  have "propers (cwd w1)"
    using assms(2) run(1) inertD [OF inert_abs_io] by (metis same_files_def)
  then obtain rs ts where comps: "propers rs" "root = abs_path rs" "propers ts" "target = abs_path ts"
    using abs_of_propers [OF assms(2)] abs_of_propers [of w1] abs_io_Inr [OF run(1)] abs_io_Inr [OF run(2)] by metis
  then obtain us where us: "ts = rs @ us" using run(3) by (auto simp: inside_root_iff_prefix prefix_def)
  have rel: "rel = (if us = [] then ''.'' else join_with ''/'' us)"
    using run(4) comps us by (auto simp: filepath_rel_abs strip_common_prefix)
  show ?thesis
  proof (cases us rule: rev_cases)
    case Nil
    then have "rel = ''.''" by (simp add: rel)
    then show ?thesis
      by (auto simp: uri uri_of_relative_def Let_def path_dir_nosep trim_prefix_def has_prefix_def intro!: local_target_slash)
  next
    case (snoc init d)
    then have proper: "propers init" "proper d" using comps us by simp_all
    have climb: "climb_form False init"
      unfolding climb_form_def using proper(1) by (intro exI [of _ 0] exI [of _ init]) simp
    have dir: "path_dir rel = (if init = [] then ''.'' else join_with ''/'' init)"
      unfolding rel snoc using path_dir_rel [OF climb proper(2)] by simp
    have rel_hd: "rel \<noteq> ''''" "hd rel \<noteq> CHR ''/''"
      using join_hd [of "hd us" "tl us"] comps us snoc by (auto simp: rel)
    have "local_target (''/'' @ trim_prefix rel ''/'')"
      using rel_hd by (cases rel) (auto simp: trim_prefix_def has_prefix_def intro!: local_target_slash)
    moreover have "local_target (''/'' @ trim_bytes (path_dir rel) ''/'' @ ''/'')" if "init \<noteq> []"
    proof -
      have "path_dir rel \<noteq> ''''" "hd (path_dir rel) \<noteq> CHR ''/''"
        using join_hd [of "hd init" "tl init"] proper that by (simp_all add: dir)
      from trim_slashes_hd [OF this] show ?thesis
        by (cases "trim_bytes (path_dir rel) ''/''") (auto intro!: local_target_slash)
    qed
    moreover have "local_target ''/''" by (rule local_target_slash) simp
    ultimately show ?thesis using dir by (auto simp: uri uri_of_relative_def Let_def)
  qed
qed

text \<open>The path that the properties are saved under.\<close>

lemma drop_metadata_fails: "drop_metadata c uri what err w \<noteq> (Inr v, w')"
  by (auto simp: drop_metadata_def fail_twice_def catch_io_eq fail_io_eq split: sum.splits)

lemma undo_rename_fails: "undo_rename c old new uri err w \<noteq> (Inr v, w')"
  by (auto simp: undo_rename_def fail_twice_def catch_io_eq fail_io_eq drop_metadata_fails split: sum.splits)

lemma update_properties_local:
  assumes "update_properties c request f w = (Inr uri, w')" "propers (cwd w)"
  shows "local_target uri"
proof -
  obtain cur w1 fname w2 w3 where run: "canonical_request_uri_for_file c f w = (Inr cur, w1)"
      "safe_writable_static_file_path c (requested_path request cur) w1 = (Inr fname, w2)"
      "canonical_request_uri_for_file c fname w2 = (Inr uri, w3)"
    using assms(1) unfolding update_properties_def
    by (auto simp: bind_io_Inr catch_io_eq ret_io_eq drop_metadata_fails undo_rename_fails split: if_splits sum.splits)
  have "propers (cwd w2)"
    using assms(2) run(1,2) inertD [OF inert_canonical_uri] inertD [OF inert_writable] by (metis same_files_def)
  with run(3) show ?thesis by (rule canonical_uri_local)
qed

section \<open>The guards\<close>

lemma quiet_session_get: "quiet_step anywhere request (session_get request')"
  by (auto simp: quiet_step_def anywhere_def session_get_def time_now_def split: option.split prod.split)

lemma session_get_placed: "placed s \<Longrightarrow> placed (snd (session_get request s))"
  by (auto simp: placed_def session_get_def time_now_def split: option.split prod.split)

lemma session_get_response: "response (snd (session_get request s)) = response s"
  by (auto simp: session_get_def time_now_def split: option.split prod.split)

text \<open>What holds before a session is looked up holds after it.\<close>

lemma answers_authenticated:
  assumes "\<And>s. G s \<Longrightarrow> G (snd (session_get request s))" "\<And>session. answers G request (body session)"
  shows "answers G request (authenticated request body)"
  unfolding answers_def
proof (intro allI impI)
  fix s assume "G s"
  obtain r s1 where run: "session_get request s = (r, s1)" by (cases "session_get request s")
  then have "G s1" "response s1 = response s"
    using assms(1) [OF \<open>G s\<close>] session_get_response [of request s] by simp_all
  then have "\<exists>cs. response (snd (body session s1)) = response s @ cs \<and> whole_answer cs \<and> list_all (proper_call request) cs"
    for session using assms(2) [of session] unfolding answers_def by metis
  then show "\<exists>cs. response (snd (authenticated request body s)) = response s @ cs \<and> whole_answer cs
      \<and> list_all (proper_call request) cs"
    using \<open>response s1 = response s\<close>
    by (cases r) (simp_all add: authenticated_def require_auth_def bind_srv_def run respond_def ret_srv_def whole_answer_def)
qed

lemma answers_auth': "(\<And>session. answers anywhere request (body session)) \<Longrightarrow> answers anywhere request (authenticated request body)"
  by (rule answers_authenticated) (simp_all add: anywhere_def)

lemma answers_not_allowed: "answers G request (method_not_allowed allow)"
  unfolding method_not_allowed_def by (rule answers_respond) (simp_all add: whole_answer_def)

lemma answers_csrf: "answers G request m \<Longrightarrow> answers G request (csrf_checked request session m)"
  unfolding csrf_checked_def by (intro answers_if answers_respond) (simp_all add: whole_answer_def)

lemma answers_form: "answers G request m \<Longrightarrow> answers G request (form_parsed request msg m)"
  unfolding form_parsed_def by (intro answers_if answers_respond) (simp_all add: whole_answer_def)

lemmas guard_rules = answers_auth' answers_not_allowed answers_csrf answers_form

section \<open>The handlers\<close>

lemma quiet_create_session:
  "quiet_step anywhere request (session_create_for_user request user email userID source)"
  "quiet_step anywhere request (session_create request user)"
proof -
  show a: "quiet_step anywhere request (session_create_for_user request user email userID source)" for user email userID source
    unfolding session_create_for_user_def Let_def
    by (intro quiet_rules quiet_sessions quiet_headers) simp_all
  show "quiet_step anywhere request (session_create request user)" by (simp add: session_create_def a)
qed

lemma quiet_destroy: "quiet_step anywhere request (session_destroy request)"
  unfolding session_destroy_def
proof (rule quiet_step_bind)
  show "quiet_step anywhere request (\<lambda>s. ((), case request_cookie request sessionCookieName of None \<Rightarrow> s
      | Some value \<Rightarrow> s\<lparr>sessions := (sessions s)(hash_token value := None)\<rparr>))"
    by (simp add: quiet_step_def anywhere_def split: option.split)
qed (simp add: quiet_headers)

lemma answers_after_login: "answers G request (redirect_after_login request)"
  unfolding redirect_after_login_def Let_def
  by (rule answers_respond) (auto simp: whole_answer_def local_target_def has_prefix_def)

lemma page_names:
  "''loginFormTemplate'' \<in> set (map fst page_templates)" "''joinFormTemplate'' \<in> set (map fst page_templates)"
  "''editFormTemplate'' \<in> set (map fst page_templates)" "''revisionsTemplate'' \<in> set (map fst page_templates)"
  "''subpagesTemplate'' \<in> set (map fst page_templates)" "''propertiesTemplate'' \<in> set (map fst page_templates)"
  "''grabFormTemplate'' \<in> set (map fst page_templates)" "''grabResultTemplate'' \<in> set (map fst page_templates)"
  "''profileTemplate'' \<in> set (map fst page_templates)" "''logoutTemplate'' \<in> set (map fst page_templates)"
  by (simp_all add: page_templates_def)

lemmas answer_simps = whole_answer_def page_names [unfolded list.set_map] page_typed_def page_types_def

lemma answers_login: "answers anywhere request (login c request)"
  unfolding login_def login_persistent_def login_environment_def Let_def
  by (intro answer_rules guard_rules answers_after_login answers_respond quiet_create_session quiet_lift)
    (auto simp: answer_simps login_page_def split: sum.splits if_splits)

lemma answers_join: "answers anywhere request (join c request)"
  unfolding join_def Let_def
  by (intro answer_rules guard_rules answers_respond quiet_create_session)
    (auto simp: answer_simps local_target_def has_prefix_def)

lemma answers_recover: "answers anywhere request (recover request)"
  unfolding recover_def by (intro answer_rules guard_rules answers_respond) (simp_all add: answer_simps)

lemma answers_profile: "answers anywhere request (profile c request)"
  unfolding profile_def Let_def
  by (intro answer_rules guard_rules answers_respond) (simp_all add: answer_simps)

lemma answers_logout: "answers anywhere request (logout request)"
  unfolding logout_def
  by (intro answer_rules guard_rules answers_respond quiet_destroy)
    (simp_all add: answer_simps local_target_def has_prefix_def)

lemma answers_not_implemented:
  "answers anywhere request (not_implemented_mutation request name)" "answers anywhere request (not_implemented_public request name)"
  unfolding not_implemented_mutation_def not_implemented_public_def
  by (intro answer_rules guard_rules answers_respond; simp add: answer_simps)+

lemma answers_health: "answers anywhere request (health pid c request)"
proof -
  have "answers anywhere request (bind_srv (respond [SetHeader k v, SetHeader k' v', WriteHeader status])
      (\<lambda>_. if b then ret_srv () else respond [EncodeJSON data]))" if "200 \<le> status" "status < 600" for k v k' v' status b data
    using that by (simp add: answers_def bind_srv_def respond_def ret_srv_def whole_answer_def)
  then show ?thesis
    unfolding health_def Let_def
    by (intro answers_if answers_not_allowed answers_bind quiet_lift) (auto split: sum.split)
qed

lemma local_query: "local_target p \<Longrightarrow> local_target (p @ CHR ''?'' # q)"
  by (rule local_target_append) (simp_all add: has_prefix_def)

lemma answers_edit:
  assumes "local_target (URL_Path request)"
  shows "answers anywhere request (edit c request fileName)"
  unfolding edit_def edit_get_def
  using local_query [OF assms]
  by (intro answer_rules guard_rules answers_respond) (simp_all add: answer_simps)

lemma answers_revisions:
  assumes "local_target (URL_Path request)"
  shows "answers anywhere request (revisions c request fileName)"
  unfolding revisions_def revisions_get_def revisions_post_def Let_def
  using local_query [OF assms]
  by (intro answer_rules guard_rules answers_respond)
    (simp_all add: answer_simps revision_html_def db_revision_html_def list_all_iff)

lemma answers_subpages:
  assumes "local_target (URL_Path request)"
  shows "answers anywhere request (subpages c request fileName)"
  unfolding subpages_def
  using local_query [OF assms]
  by (intro answer_rules guard_rules answers_respond)
    (simp_all add: answer_simps list_all_iff)

lemma answers_freeze: "answers anywhere request (set_freeze c request b)"
  unfolding set_freeze_def posted_def
  by (intro answer_rules guard_rules answers_respond) (simp_all add: answer_simps)

lemma answers_backup: "answers anywhere request (backup_action z c request)"
  unfolding backup_action_def posted_def answer_backup_def
  by (intro answer_rules guard_rules answers_respond) (simp_all add: answer_simps)

lemma answers_upload: "answers anywhere request (upload d c request body)"
  unfolding upload_def Let_def write_upload_json_def
  by (intro answer_rules guard_rules answers_respond quiet_headers) (simp_all add: answer_simps upload_status_def)

lemma answers_grab: "answers anywhere request (grab net unescape c request fileName)"
  unfolding grab_def write_grab_error_def
  by (intro answer_rules guard_rules answers_respond)
    (simp_all add: answer_simps grab_error_status_def grab_values_def list_all_iff)

text \<open>The properties are the one page whose redirect depends on the working directory.\<close>

lemma answers_properties:
  assumes "local_target (URL_Path request)"
  shows "answers placed request (properties c request fileName)"
proof -
  have get: "answers placed request (try_srv m (\<lambda>_. respond [HttpError ''Could not load properties'' 500])
      (\<lambda>(uri, metadata). respond [RenderHTML ''Properties'' ''propertiesTemplate''
         [(''Action'', HStr (URL_Path request @ ''?properties'')), (''CSRF'', HStr (CSRFToken session)),
          (''Path'', HStr uri), (''NewPath'', HStr uri), (''Title'', HStr (Meta_Title metadata)),
          (''Tags'', HStr (Meta_Tags metadata)), (''Status'', HStr (Meta_Status metadata)),
          (''Published'', HBool (Meta_Published metadata))]]))" for m session
    by (rule answers_weaken, intro answers_try answers_prod answers_respond) (simp_all add: answer_simps)
  have post: "answers placed request (try_srv (update_properties c request fileName)
      (\<lambda>err. respond [if errors_is err ErrUnsafePath then HttpError ''Forbidden'' 403
                       else if errors_is err OsErrExist then HttpError ''Target path already exists'' 409
                       else HttpError ''Property update failed'' 500])
      (\<lambda>newURI. respond [HttpRedirect (newURI @ ''?properties'') 303]))"
  proof (rule answers_try_result)
    fix s uri w
    assume "placed s" "update_properties c request fileName (machine s) = (Inr uri, w)"
    then have "local_target uri" using update_properties_local by (simp add: placed_def)
    from local_query [OF this] show "answers anywhere request (respond [HttpRedirect (uri @ ''?properties'') 303])"
      by (intro answers_respond) (simp_all add: answer_simps)
  next
    fix err
    show "answers anywhere request (respond [if errors_is err ErrUnsafePath then HttpError ''Forbidden'' 403
                       else if errors_is err OsErrExist then HttpError ''Target path already exists'' 409
                       else HttpError ''Property update failed'' 500])"
      by (intro answers_respond) (simp_all add: answer_simps)
  qed
  show ?thesis
    unfolding properties_def
    by (intro answers_authenticated session_get_placed answers_if answers_csrf answers_form answers_not_allowed get post)
qed

lemma answers_redirect: "answers anywhere request (redirect_or_not_found c request fileName)"
  unfolding redirect_or_not_found_def
  by (intro answer_rules answers_respond)
    (auto simp: answer_simps valid_internal_redirect_target_def local_target_def split: if_splits)

lemma quiet_snapshot:
  "quiet_step anywhere request (snapshot_file_for_anonymous_request c request')"
  "quiet_step anywhere request (snapshot_media_file_for_anonymous_request c request' m)"
  unfolding snapshot_file_for_anonymous_request_def snapshot_media_file_for_anonymous_request_def frozen_for_def try_srv_def
  by (intro quiet_rules quiet_session_get)+

lemma answers_serve: "answers anywhere request (serve_page c request fileName)"
  unfolding serve_page_def Let_def
  by (intro answer_rules quiet_snapshot quiet_lift answers_redirect answers_respond) (simp_all add: answer_simps)

lemma answers_serve_media: "answers anywhere request (serve_media fileName)"
  unfolding serve_media_def
  by (intro answer_rules answers_respond) (simp_all add: answer_simps)

lemma media_file_result:
  assumes "media_file c request m w = (r, w')"
  shows "\<exists>x. r = Inr x" "r = Inr (Inl refusal) \<Longrightarrow> refusal \<in> {HttpError ''Bad Request'' 400, HttpError ''Forbidden'' 403}"
  using assms by (auto simp: media_file_def catch_io_eq ret_io_eq split: sum.splits)

lemma answers_media: "answers anywhere request (legacy_media c request)"
proof -
  have "answers anywhere request (try_srv (media_file c request p) (\<lambda>_. ret_srv ()) (\<lambda>r.
          case r of Inl refusal \<Rightarrow> respond [refusal] | Inr fileName \<Rightarrow> serve_media fileName))" for p
  proof (rule answers_try_result)
    fix s e w
    assume "media_file c request p (machine s) = (Inl e, w)"
    then show "answers anywhere request (ret_srv ())" using media_file_result(1) by blast
  next
    fix s v w
    assume run: "media_file c request p (machine s) = (Inr v, w)"
    show "answers anywhere request (case v of Inl refusal \<Rightarrow> respond [refusal] | Inr fileName \<Rightarrow> serve_media fileName)"
    proof (rule answers_sum)
      fix refusal assume "v = Inl refusal"
      with media_file_result(2) [OF run] have "refusal \<in> {HttpError ''Bad Request'' 400, HttpError ''Forbidden'' 403}" by simp
      then show "answers anywhere request (respond [refusal])" by (intro answers_respond) (auto simp: whole_answer_def)
    qed (rule answers_serve_media)
  qed
  then show ?thesis
    unfolding legacy_media_def Let_def
    by (intro answers_if answers_bind answers_option quiet_snapshot answers_serve_media answers_respond)
      (simp_all add: answer_simps)
qed

lemma answers_page: "answers anywhere request (legacy_page c request)"
  unfolding legacy_page_def Let_def
  by (intro answer_rules quiet_snapshot quiet_lift answers_respond) (simp_all add: answer_simps)

section \<open>The request handler\<close>

lemmas handler_rules =
  answers_serve answers_login answers_not_implemented answers_freeze answers_backup answers_profile answers_logout
  answers_health answers_join answers_recover answers_upload answers_grab

lemma answers_action:
  assumes "local_target (URL_Path request)"
  shows "answers placed request (run_action env c request body fileName action)"
proof -
  have not_found: "answers placed request (respond [HttpError ''Not Found'' 404])"
    by (rule answers_respond) (simp_all add: answer_simps)
  show ?thesis
    unfolding run_action_def
    by (intro answers_if answers_properties [OF assms] not_found handler_rules [THEN answers_weaken]
        answers_edit [OF assms, THEN answers_weaken] answers_revisions [OF assms, THEN answers_weaken]
        answers_subpages [OF assms, THEN answers_weaken])
qed

text \<open>A file of the old layout is answered; otherwise nothing has happened.\<close>

lemma legacy_static:
  "handle_legacy_static c request = ret_srv False
   \<or> (\<exists>m :: unit srv. handle_legacy_static c request = bind_srv m (\<lambda>_. ret_srv True) \<and> answers anywhere request m)"
proof -
  let ?Q = "\<lambda>n. n = ret_srv False \<or> (\<exists>m :: unit srv. n = bind_srv m (\<lambda>_. ret_srv True) \<and> answers anywhere request m)"
  have answered: "?Q (bind_srv m (\<lambda>_. ret_srv True))" if "answers anywhere request m" for m :: "unit srv"
    using that by blast
  have branch: "?Q (if b then m else n)" if "?Q m" "?Q n" for b m n
    using that by (cases b) (simp_all only: if_True if_False)
  have "answers anywhere request (respond [HttpError ''Not Found'' 404])"
    by (rule answers_respond) (simp_all add: answer_simps)
  then show ?thesis
    unfolding handle_legacy_static_def Let_def
    by (intro branch answered answers_page answers_media) simp_all
qed

lemma answers_handle:
  assumes "local_target (URL_Path request)"
  shows "answers placed request (handle env c request body)"
proof -
  have error: "answers anywhere request (respond [HttpError msg 403])" "answers placed request (respond [HttpError msg 404])" for msg
    by (rule answers_respond; simp add: answer_simps)+
  have health: "answers placed request (health (Pid env) c request)"
    by (rule answers_weaken [OF answers_health])
  have rest: "answers placed request (try_srv (safe_requested_file_path c (URL_Path request))
      (\<lambda>_. respond [HttpError ''Forbidden'' 403]) (\<lambda>fileName.
      case parse_action (RawQuery request) of
        Inl _ \<Rightarrow> respond [HttpError ''Not Found'' 404]
      | Inr action \<Rightarrow> run_action env c request body fileName action))"
    unfolding try_srv_def
    by (intro answers_bind quiet_lift_inert answers_sum error(2) error(1) [THEN answers_weaken] answers_action [OF assms]) simp
  from legacy_static [of c request] show ?thesis
  proof
    assume "handle_legacy_static c request = ret_srv False"
    with health rest show ?thesis unfolding handle_def by (intro answers_if) simp_all
  next
    assume "\<exists>m :: unit srv. handle_legacy_static c request = bind_srv m (\<lambda>_. ret_srv True) \<and> answers anywhere request m"
    then obtain m :: "unit srv" where m: "handle_legacy_static c request = bind_srv m (\<lambda>_. ret_srv True)" "answers anywhere request m" by blast
    have "answers placed request (bind_srv m (\<lambda>_. ret_srv ()))"
      using answers_then [OF answers_weaken [OF m(2)]] .
    with health m(1) show ?thesis unfolding handle_def by (intro answers_if) simp_all
  qed
qed



end
