(* ===== verification/WorkerPool.thy ===== *)
theory WorkerPool
  imports DbWorker
begin

text \<open>
  All goroutines of \<open>pkg/database/database.go\<close>: the launcher of \<open>Run\<close>, any number of workers over time with
  their watchdogs, and the senders. \<open>DbWorker\<close> speaks of one worker; here this is proved, as a simulation.
\<close>

section \<open>Program points\<close>

datatype launcher_point = Acquiring | Launching

datatype worker_point =
    Unlaunched
  | Connecting
  | Selecting
  | Resting            \<comment> \<open>in the sleep of the default case\<close>
  | Holding post
  | Releasing          \<comment> \<open>the deferred clean-up begins\<close>
  | Closing
  | Ended

datatype dog_point = Unborn | Looking | Updating | Pausing | Sending | Returned

datatype db_handle = NoHandle | OpenHandle | ClosedHandle

text \<open>
  \<open>tasks\<close> is the state of the queue with the ghosts of \<open>DbWorker\<close>; its place of a worker is not used, as the
  points of all workers are beside it. Workers are numbered in the order of their launch.
\<close>

record pool =
  respawnLock :: nat
  launcher :: launcher_point
  launched :: nat
  worker :: "nat \<Rightarrow> worker_point"
  dog :: "nat \<Rightarrow> dog_point"
  handle :: "nat \<Rightarrow> db_handle"
  tasks :: task_state
  crashed :: bool

definition databaseWorkersMaxCount :: nat where
  "databaseWorkersMaxCount = 1"

definition new_pool :: pool where
  "new_pool =
     \<lparr>respawnLock = 0, launcher = Acquiring, launched = 0, worker = \<lambda>w. Unlaunched, dog = \<lambda>w. Unborn,
      handle = \<lambda>w. NoHandle, tasks = new_task_state, crashed = False\<rparr>"

section \<open>Steps\<close>

text \<open>The goroutine that \<open>Run\<close> starts.\<close>

inductive launcher_step :: "pool \<Rightarrow> pool \<Rightarrow> bool" where
  acquire: "launcher s = Acquiring \<Longrightarrow> respawnLock s < databaseWorkersMaxCount \<Longrightarrow>
    launcher_step s (s\<lparr>respawnLock := Suc (respawnLock s), launcher := Launching\<rparr>)"
| launch: "launcher s = Launching \<Longrightarrow>
    launcher_step s (s\<lparr>worker := (worker s)(launched s := Connecting), launched := Suc (launched s), launcher := Acquiring\<rparr>)"

text \<open>A worker connects; when it cannot, it goes to its clean-up, with or without a handle.\<close>

inductive start_step :: "nat \<Rightarrow> pool \<Rightarrow> pool \<Rightarrow> bool" where
  connect: "worker s w = Connecting \<Longrightarrow> fst (database_worker_start config world) = Connected \<Longrightarrow>
    start_step w s (s\<lparr>worker := (worker s)(w := Selecting), handle := (handle s)(w := OpenHandle), dog := (dog s)(w := Looking)\<rparr>)"
| unreachable: "worker s w = Connecting \<Longrightarrow> fst (database_worker_start config world) = Unreachable \<Longrightarrow>
    start_step w s (s\<lparr>worker := (worker s)(w := Releasing), handle := (handle s)(w := OpenHandle)\<rparr>)"
| no_handle: "worker s w = Connecting \<Longrightarrow> fst (database_worker_start config world) = NilPanic \<Longrightarrow>
    start_step w s (s\<lparr>worker := (worker s)(w := Releasing)\<rparr>)"

text \<open>The clean-up gives the place back before it closes the handle.\<close>

inductive cleanup_step :: "nat \<Rightarrow> pool \<Rightarrow> pool \<Rightarrow> bool" where
  release: "worker s w = Releasing \<Longrightarrow> 0 < respawnLock s \<Longrightarrow>
    cleanup_step w s (s\<lparr>respawnLock := respawnLock s - 1, worker := (worker s)(w := Closing)\<rparr>)"
| close: "worker s w = Closing \<Longrightarrow> handle s w = OpenHandle \<Longrightarrow>
    cleanup_step w s (s\<lparr>handle := (handle s)(w := ClosedHandle), worker := (worker s)(w := Ended)\<rparr>)"
| panic: "worker s w = Closing \<Longrightarrow> handle s w = NoHandle \<Longrightarrow> cleanup_step w s (s\<lparr>crashed := True\<rparr>)"

text \<open>
  The watchdog: it looks at the queue until it sees it empty, and writes to the database. The error of a closed
  handle is not that of a busy database. It sends an error on a channel without a buffer, so it waits
  until the worker comes to receive it.
\<close>

inductive dog_step :: "nat \<Rightarrow> pool \<Rightarrow> pool \<Rightarrow> bool" where
  look: "dog s w = Looking \<Longrightarrow>
    dog_step w s (s\<lparr>dog := (dog s)(w := if Queue (tasks s) = [] then Updating else Looking)\<rparr>)"
| update: "dog s w = Updating \<Longrightarrow> handle s w = OpenHandle \<Longrightarrow> fst (watchdog_round config world) = Inr () \<Longrightarrow>
    dog_step w s (s\<lparr>dog := (dog s)(w := Pausing)\<rparr>)"
| fail: "dog s w = Updating \<Longrightarrow> handle s w = OpenHandle \<Longrightarrow> fst (watchdog_round config world) = Inl err \<Longrightarrow>
    dog_step w s (s\<lparr>dog := (dog s)(w := Sending)\<rparr>)"
| closed: "dog s w = Updating \<Longrightarrow> handle s w = ClosedHandle \<Longrightarrow> dog_step w s (s\<lparr>dog := (dog s)(w := Sending)\<rparr>)"
| pause: "dog s w = Pausing \<Longrightarrow> dog_step w s (s\<lparr>dog := (dog s)(w := Looking)\<rparr>)"

text \<open>The loop of the worker. The default case is taken when neither of the others is ready.\<close>

inductive loop_step :: "nat \<Rightarrow> pool \<Rightarrow> pool \<Rightarrow> bool" where
  take: "worker s w = Selecting \<Longrightarrow> Queue (tasks s) = p # q \<Longrightarrow>
    loop_step w s (s\<lparr>worker := (worker s)(w := Holding p), tasks := (tasks s)\<lparr>Queue := q\<rparr>\<rparr>)"
| save: "worker s w = Holding p \<Longrightarrow> process_save_task saved p (tasks s) = (err, ts) \<Longrightarrow>
    loop_step w s (s\<lparr>worker := (worker s)(w := if err = None then Selecting else Releasing), tasks := ts\<rparr>)"
| report: "worker s w = Selecting \<Longrightarrow> dog s w = Sending \<Longrightarrow>
    loop_step w s (s\<lparr>worker := (worker s)(w := Releasing), dog := (dog s)(w := Returned)\<rparr>)"
| rest: "worker s w = Selecting \<Longrightarrow> Queue (tasks s) = [] \<Longrightarrow> dog s w \<noteq> Sending \<Longrightarrow>
    loop_step w s (s\<lparr>worker := (worker s)(w := Resting)\<rparr>)"
| wake: "worker s w = Resting \<Longrightarrow> loop_step w s (s\<lparr>worker := (worker s)(w := Selecting)\<rparr>)"

text \<open>A post is sent from outside, or a goroutine that waits to send finds a place.\<close>

inductive sender_step :: "pool \<Rightarrow> pool \<Rightarrow> bool" where
  send: "sender_step s (s\<lparr>tasks := requeue_task p ((tasks s)\<lparr>Submitted := Submitted (tasks s) @ [p]\<rparr>)\<rparr>)"
| sent: "Waiting (tasks s) = p # ps \<Longrightarrow> length (Queue (tasks s)) < queueCapacity \<Longrightarrow>
    sender_step s (s\<lparr>tasks := (tasks s)\<lparr>Queue := Queue (tasks s) @ [p], Waiting := ps\<rparr>\<rparr>)"

text \<open>A panic ends the program.\<close>

definition pool_step :: "pool \<Rightarrow> pool \<Rightarrow> bool" where
  "pool_step s s' \<longleftrightarrow>
     \<not> crashed s \<and>
     (launcher_step s s' \<or> sender_step s s' \<or>
      (\<exists>w. start_step w s s' \<or> cleanup_step w s s' \<or> dog_step w s s' \<or> loop_step w s s'))"

definition pool_run :: "pool \<Rightarrow> bool" where
  "pool_run s \<longleftrightarrow> pool_step\<^sup>*\<^sup>* new_pool s"

lemmas pool_intros =
  launcher_step.intros start_step.intros cleanup_step.intros dog_step.intros loop_step.intros sender_step.intros

lemma pool_step_cases [consumes 1, case_names launcher sender start cleanup dog loop]:
  assumes "pool_step s s'"
  obtains "launcher_step s s'" | "sender_step s s'" | w where "start_step w s s'"
    | w where "cleanup_step w s s'" | w where "dog_step w s s'" | w where "loop_step w s s'"
  using assms by (auto simp: pool_step_def)

section \<open>One worker at a time\<close>

text \<open>The points at which a worker has its place in the channel \<open>respawnLock\<close>.\<close>

fun holds_place :: "worker_point \<Rightarrow> bool" where
  "holds_place Connecting = True"
| "holds_place Selecting = True"
| "holds_place Resting = True"
| "holds_place (Holding p) = True"
| "holds_place Releasing = True"
| "holds_place p = False"

definition holders :: "(nat \<Rightarrow> worker_point) \<Rightarrow> nat set" where
  "holders f = {w. holds_place (f w)}"

lemma holders_update [simp]:
  "holders (f(w := p)) = (if holds_place p then insert w (holders f) else holders f - {w})"
  by (auto simp: holders_def)

lemma holders_iff: "w \<in> holders f \<longleftrightarrow> holds_place (f w)"
  by (simp add: holders_def)

text \<open>Nobody has the place, or the launcher, or exactly one worker.\<close>

definition pool_inv :: "pool \<Rightarrow> bool" where
  "pool_inv s \<longleftrightarrow>
     (respawnLock s = 0 \<and> launcher s = Acquiring \<and> holders (worker s) = {}
      \<or> respawnLock s = 1 \<and> launcher s = Launching \<and> holders (worker s) = {}
      \<or> respawnLock s = 1 \<and> launcher s = Acquiring \<and> (\<exists>w < launched s. holders (worker s) = {w}))
     \<and> (\<forall>w \<ge> launched s. worker s w = Unlaunched)"

lemma pool_inv_new: "pool_inv new_pool"
  by (simp add: pool_inv_def new_pool_def holders_def)

lemma pool_inv_holder:
  assumes "pool_inv s" "holds_place (worker s w)"
  shows "respawnLock s = 1" "launcher s = Acquiring" "holders (worker s) = {w}" "w < launched s"
  using assms by (auto simp: pool_inv_def simp flip: holders_iff)

lemma pool_inv_launched:
  assumes "pool_inv s" "worker s w \<noteq> Unlaunched"
  shows "w < launched s"
  using assms leI by (auto simp: pool_inv_def)

lemma pool_inv_unlaunched: "pool_inv s \<Longrightarrow> launched s \<le> w \<Longrightarrow> worker s w = Unlaunched"
  by (simp add: pool_inv_def)

text \<open>A step of a worker that has its place and keeps it; a step that moves no worker.\<close>

lemma pool_inv_worker:
  assumes "pool_inv s" "holds_place (worker s w)" "holds_place p"
    "worker s' = (worker s)(w := p)" "launcher s' = launcher s" "respawnLock s' = respawnLock s" "launched s' = launched s"
  shows "pool_inv s'"
  using pool_inv_holder [OF assms(1,2)] pool_inv_unlaunched [OF assms(1)] assms(3-) by (simp add: pool_inv_def)

lemma pool_inv_same:
  assumes "pool_inv s" "worker s' = worker s" "launcher s' = launcher s" "respawnLock s' = respawnLock s"
    "launched s' = launched s"
  shows "pool_inv s'"
  using assms by (simp add: pool_inv_def)

lemma pool_inv_launcher: "launcher_step s s' \<Longrightarrow> pool_inv s \<Longrightarrow> pool_inv s'"
proof (induction rule: launcher_step.induct)
  case (acquire s)
  then show ?case by (simp add: pool_inv_def databaseWorkersMaxCount_def)
next
  case (launch s)
  then show ?case by (simp add: pool_inv_def)
qed

lemma pool_inv_start: "start_step w s s' \<Longrightarrow> pool_inv s \<Longrightarrow> pool_inv s'"
proof (induction rule: start_step.induct)
  case (connect s w config world)
  then show ?case by - (rule pool_inv_worker [of s w Selecting], simp_all)
next
  case (unreachable s w config world)
  then show ?case by - (rule pool_inv_worker [of s w Releasing], simp_all)
next
  case (no_handle s w config world)
  then show ?case by - (rule pool_inv_worker [of s w Releasing], simp_all)
qed

lemma pool_inv_cleanup: "cleanup_step w s s' \<Longrightarrow> pool_inv s \<Longrightarrow> pool_inv s'"
proof (induction rule: cleanup_step.induct)
  case (release s w)
  then have "holds_place (worker s w)" by simp
  note holder = pool_inv_holder [OF release(3) this]
  from release(3) have "\<forall>v \<ge> launched s. worker s v = Unlaunched" by (simp add: pool_inv_def)
  with holder show ?case by (simp add: pool_inv_def)
next
  case (close s w)
  then have "w \<notin> holders (worker s)" "w < launched s"
    by (simp_all add: holders_iff pool_inv_launched)
  with close(3) show ?case by (simp add: pool_inv_def)
next
  case (panic s w)
  then show ?case by - (rule pool_inv_same [of s], simp_all)
qed

lemma pool_inv_dog: "dog_step w s s' \<Longrightarrow> pool_inv s \<Longrightarrow> pool_inv s'"
  by (induction rule: dog_step.induct) (simp_all add: pool_inv_def)

lemma pool_inv_sender: "sender_step s s' \<Longrightarrow> pool_inv s \<Longrightarrow> pool_inv s'"
  by (induction rule: sender_step.induct) (simp_all add: pool_inv_def)

lemma pool_inv_loop: "loop_step w s s' \<Longrightarrow> pool_inv s \<Longrightarrow> pool_inv s'"
proof (induction rule: loop_step.induct)
  case (take s w p q)
  then show ?case by - (rule pool_inv_worker [of s w "Holding p"], simp_all)
next
  case (save s w p saved err ts)
  then show ?case by - (rule pool_inv_worker [of s w "if err = None then Selecting else Releasing"], simp_all)
next
  case (report s w)
  then show ?case by - (rule pool_inv_worker [of s w Releasing], simp_all)
next
  case (rest s w)
  then show ?case by - (rule pool_inv_worker [of s w Resting], simp_all)
next
  case (wake s w)
  then show ?case by - (rule pool_inv_worker [of s w Selecting], simp_all)
qed

lemmas pool_inv_steps =
  pool_inv_launcher pool_inv_sender pool_inv_start pool_inv_cleanup pool_inv_dog pool_inv_loop

lemma pool_inv_step: "pool_inv s \<Longrightarrow> pool_step s s' \<Longrightarrow> pool_inv s'"
  by (auto elim!: pool_step_cases intro: pool_inv_steps)

section \<open>Forward simulation\<close>

text \<open>
  A step of the detailed system is matched by any number of steps of the abstract one; then every run of the
  first has its counterpart.
\<close>

locale forward_simulation =
  fixes cstep :: "'c \<Rightarrow> 'c \<Rightarrow> bool"
    and astep :: "'a \<Rightarrow> 'a \<Rightarrow> bool"
    and cinit :: 'c
    and ainit :: 'a
    and inv :: "'c \<Rightarrow> bool"
    and related :: "'c \<Rightarrow> 'a \<Rightarrow> bool"
  assumes init_inv: "inv cinit"
    and init_related: "related cinit ainit"
    and inv_step: "inv c \<Longrightarrow> cstep c c' \<Longrightarrow> inv c'"
    and sim_step: "inv c \<Longrightarrow> related c a \<Longrightarrow> cstep c c' \<Longrightarrow> \<exists>a'. astep\<^sup>*\<^sup>* a a' \<and> related c' a'"
begin

lemma run_simulated: "cstep\<^sup>*\<^sup>* cinit c \<Longrightarrow> inv c \<and> (\<exists>a. astep\<^sup>*\<^sup>* ainit a \<and> related c a)"
proof (induction rule: rtranclp_induct)
  case base
  show ?case using init_inv init_related by blast
next
  case (step c c')
  then obtain a where "inv c" "astep\<^sup>*\<^sup>* ainit a" "related c a" by blast
  moreover from this step(2) obtain a' where "astep\<^sup>*\<^sup>* a a'" "related c' a'"
    using sim_step by blast
  ultimately show ?case
    using inv_step step(2) by (meson rtranclp_trans)
qed

end

section \<open>The pool does what one worker does\<close>

fun place_at :: "worker_point \<Rightarrow> worker_place" where
  "place_at Selecting = Idle"
| "place_at Resting = Idle"
| "place_at (Holding p) = Saving p"
| "place_at p = Down"

text \<open>
  The worker of \<open>DbWorker\<close> has the queue of the pool, and is where the one worker that is in its loop is; it is
  down when there is none.
\<close>

definition simulates :: "pool \<Rightarrow> task_state \<Rightarrow> bool" where
  "simulates s t \<longleftrightarrow>
     t = (tasks s)\<lparr>Place := Place t\<rparr>
     \<and> (\<forall>w. place_at (worker s w) \<noteq> Down \<longrightarrow> Place t = place_at (worker s w))
     \<and> ((\<forall>w. place_at (worker s w) = Down) \<longrightarrow> Place t = Down)"

lemma place_holds: "place_at p \<noteq> Down \<Longrightarrow> holds_place p"
  by (cases p) simp_all

text \<open>When one worker has its place, the abstract worker is where that one is.\<close>

lemma simulates_holder:
  assumes "holders (worker s) = {w}"
  shows "simulates s t \<longleftrightarrow> t = (tasks s)\<lparr>Place := place_at (worker s w)\<rparr>"
proof -
  from assms have other: "\<And>v. v \<noteq> w \<Longrightarrow> place_at (worker s v) = Down"
    using place_holds holders_iff by (metis singletonD)
  then have "(\<forall>v. place_at (worker s v) \<noteq> Down \<longrightarrow> Place t = place_at (worker s v))
      \<and> ((\<forall>v. place_at (worker s v) = Down) \<longrightarrow> Place t = Down) \<longleftrightarrow> Place t = place_at (worker s w)"
    by metis
  then show ?thesis unfolding simulates_def by (metis task_state.surjective task_state.update_convs(3) task_state.select_convs(3))
qed

lemma simulates_none:
  assumes "holders (worker s) = {}"
  shows "simulates s t \<longleftrightarrow> t = (tasks s)\<lparr>Place := Down\<rparr>"
proof -
  from assms have "\<And>v. place_at (worker s v) = Down"
    using place_holds holders_iff by (metis empty_iff)
  then show ?thesis unfolding simulates_def by (metis task_state.surjective task_state.update_convs(3) task_state.select_convs(3))
qed

lemma simulates_same:
  assumes "simulates s t" "tasks s' = tasks s" "\<And>w. place_at (worker s' w) = place_at (worker s w)"
  shows "simulates s' t"
  using assms by (simp add: simulates_def)

lemma requeue_place: "requeue_task p (s\<lparr>Place := x\<rparr>) = (requeue_task p s)\<lparr>Place := x\<rparr>"
  by (simp add: requeue_task_def)

lemma process_place:
  "process_save_task saved p s = (err, s') \<Longrightarrow> process_save_task saved p (s\<lparr>Place := x\<rparr>) = (err, s'\<lparr>Place := x\<rparr>)"
  by (auto simp: process_save_task_def requeue_place split: option.splits if_splits)

lemma watchdog_can_fail: "\<exists>config w err w'. watchdog_round config w = (Inl err, w')"
proof -
  have "\<exists>err w'. watchdog_round flag_defaults (demo_world\<lparr>driver := refusing_driver\<rparr>) = (Inl err, w')"
    by (simp add: watchdog_round_def bind_io_def time_now_def catch_io_def db_exec_def sql_io_def sql_do_def demo_world_def
        refusing_driver_def sql_result_def fail_io_def ret_io_def sqlite_busy_def error_message_def has_prefix_def)
  then show ?thesis by blast
qed

lemma sim_launcher:
  assumes "launcher_step s s'" "pool_inv s" "simulates s t"
  shows "simulates s' t"
  using assms(1)
proof cases
  case acquire
  with assms(3) show ?thesis by (auto intro: simulates_same)
next
  case launch
  have "worker s (launched s) = Unlaunched" using assms(2) by (simp add: pool_inv_def)
  with launch show ?thesis by (intro simulates_same [OF assms(3)]) auto
qed

lemma sim_start:
  assumes "start_step w s s'" "pool_inv s" "simulates s t"
  shows "\<exists>t'. worker_step\<^sup>*\<^sup>* t t' \<and> simulates s' t'"
  using assms(1)
proof cases
  case (connect config world)
  then have holder: "holders (worker s) = {w}" using pool_inv_holder(3) [OF assms(2)] by simp
  then have t: "t = (tasks s)\<lparr>Place := Down\<rparr>"
    using simulates_holder [OF holder] assms(3) connect by simp
  have "holders (worker s') = {w}" using connect holder by simp
  from simulates_holder [OF this] have "simulates s' ((tasks s)\<lparr>Place := Idle\<rparr>)" using connect by simp
  moreover have "worker_step t (t\<lparr>Place := Idle\<rparr>)" by (rule worker_step.respawn) (simp add: t)
  ultimately show ?thesis unfolding t by auto
next
  case (unreachable config world)
  have "simulates s' t" by (rule simulates_same [OF assms(3)]) (auto simp: unreachable)
  then show ?thesis by blast
next
  case (no_handle config world)
  have "simulates s' t" by (rule simulates_same [OF assms(3)]) (auto simp: no_handle)
  then show ?thesis by blast
qed

lemma sim_cleanup:
  assumes "cleanup_step w s s'" "simulates s t"
  shows "simulates s' t"
  by (rule simulates_same [OF assms(2)]) (use assms(1) in \<open>auto elim!: cleanup_step.cases\<close>)

lemma sim_dog:
  assumes "dog_step w s s'" "simulates s t"
  shows "simulates s' t"
  by (rule simulates_same [OF assms(2)]) (use assms(1) in \<open>auto elim!: dog_step.cases\<close>)

lemma sim_loop:
  assumes "loop_step w s s'" "pool_inv s" "simulates s t"
  shows "\<exists>t'. worker_step\<^sup>*\<^sup>* t t' \<and> simulates s' t'"
  using assms(1)
proof cases
  case (take p q)
  then have holder: "holders (worker s) = {w}" using pool_inv_holder(3) [OF assms(2)] by simp
  then have t: "t = (tasks s)\<lparr>Place := Idle\<rparr>" using simulates_holder [OF holder] assms(3) take by simp
  have "holders (worker s') = {w}" using take holder by simp
  from simulates_holder [OF this] have "simulates s' (t\<lparr>Queue := q, Place := Saving p\<rparr>)" using take t by simp
  moreover have "worker_step t (t\<lparr>Queue := q, Place := Saving p\<rparr>)"
    by (rule worker_step.receive) (simp_all add: t take)
  ultimately show ?thesis by blast
next
  case (save p saved err ts)
  then have holder: "holders (worker s) = {w}" using pool_inv_holder(3) [OF assms(2)] by simp
  then have t: "t = (tasks s)\<lparr>Place := Saving p\<rparr>" using simulates_holder [OF holder] assms(3) save by simp
  let ?pl = "if err = None then Idle else Down"
  have "holders (worker s') = {w}" using save holder by simp
  from simulates_holder [OF this] have "simulates s' (ts\<lparr>Place := ?pl\<rparr>)" using save by simp
  moreover have "worker_step t ((ts\<lparr>Place := Saving p\<rparr>)\<lparr>Place := ?pl\<rparr>)"
  proof (rule worker_step.process)
    show "Place t = Saving p" by (simp add: t)
    show "process_save_task saved p t = (err, ts\<lparr>Place := Saving p\<rparr>)"
      unfolding t using save by (blast intro: process_place)
  qed
  ultimately show ?thesis by auto
next
  case report
  then have holder: "holders (worker s) = {w}" using pool_inv_holder(3) [OF assms(2)] by simp
  then have t: "t = (tasks s)\<lparr>Place := Idle\<rparr>" using simulates_holder [OF holder] assms(3) report by simp
  have "holders (worker s') = {w}" using report holder by simp
  from simulates_holder [OF this] have "simulates s' (t\<lparr>Place := Down\<rparr>)" using report t by simp
  moreover have "worker_step t (t\<lparr>Place := Down\<rparr>)"
  proof -
    obtain config world err world' where "watchdog_round config world = (Inl err, world')"
      using watchdog_can_fail by blast
    then show ?thesis by (rule worker_step.watchdog [rotated]) (simp add: t)
  qed
  ultimately show ?thesis by blast
next
  case rest
  have "simulates s' t" by (rule simulates_same [OF assms(3)]) (auto simp: rest)
  then show ?thesis by blast
next
  case wake
  have "simulates s' t" by (rule simulates_same [OF assms(3)]) (auto simp: wake)
  then show ?thesis by blast
qed

text \<open>A sender moves no worker; the queue of the abstract worker changes as that of the pool.\<close>

lemma simulates_tasks:
  assumes "simulates s t"
  shows "simulates (s\<lparr>tasks := ts\<rparr>) (ts\<lparr>Place := Place t\<rparr>)"
  using assms by (simp add: simulates_def)

lemma sim_sender:
  assumes "sender_step s s'" "simulates s t"
  shows "\<exists>t'. worker_step\<^sup>*\<^sup>* t t' \<and> simulates s' t'"
proof -
  have t: "t = (tasks s)\<lparr>Place := Place t\<rparr>" using assms(2) by (simp add: simulates_def)
  then have same: "Queue t = Queue (tasks s)" "Waiting t = Waiting (tasks s)" "Submitted t = Submitted (tasks s)"
    by (metis task_state.select_convs task_state.update_convs(3) task_state.surjective)+
  from assms(1) show ?thesis
  proof cases
    case (send p)
    have "worker_step t (requeue_task p (t\<lparr>Submitted := Submitted t @ [p]\<rparr>))" by (rule worker_step.submit)
    also have "requeue_task p (t\<lparr>Submitted := Submitted t @ [p]\<rparr>) = (tasks s')\<lparr>Place := Place t\<rparr>"
      unfolding send same(3) by (subst t) (simp add: requeue_task_def)
    finally show ?thesis using simulates_tasks [OF assms(2)] send by auto
  next
    case (sent p ps)
    have "worker_step t (t\<lparr>Queue := Queue t @ [p], Waiting := ps\<rparr>)"
      by (rule worker_step.deliver) (simp_all add: same sent)
    also have "t\<lparr>Queue := Queue t @ [p], Waiting := ps\<rparr> = (tasks s')\<lparr>Place := Place t\<rparr>"
      unfolding sent same by (subst t) simp
    finally show ?thesis using simulates_tasks [OF assms(2)] sent by auto
  qed
qed

lemma sim_pool:
  assumes "pool_inv s" "simulates s t" "pool_step s s'"
  shows "\<exists>t'. worker_step\<^sup>*\<^sup>* t t' \<and> simulates s' t'"
  using assms(3)
proof (cases rule: pool_step_cases)
  case launcher
  with assms show ?thesis using sim_launcher by blast
next
  case sender
  with assms show ?thesis using sim_sender by blast
next
  case (start w)
  with assms show ?thesis using sim_start by blast
next
  case (cleanup w)
  with assms show ?thesis using sim_cleanup by blast
next
  case (dog w)
  with assms show ?thesis using sim_dog by blast
next
  case (loop w)
  with assms show ?thesis using sim_loop by blast
qed

interpretation pool: forward_simulation pool_step worker_step new_pool new_task_state pool_inv simulates
proof unfold_locales
  show "simulates new_pool new_task_state"
    by (simp add: simulates_def new_pool_def new_task_state_def)
qed (use pool_inv_new pool_inv_step sim_pool in blast)+

lemma worker_run_steps: "worker_step\<^sup>*\<^sup>* s s' \<Longrightarrow> worker_run s \<Longrightarrow> worker_run s'"
  by (induction rule: rtranclp_induct) (auto intro: worker_run.step)

text \<open>
  Property C25. The launcher and the channel \<open>respawnLock\<close> keep at most one worker at work, from its launch until its
  clean-up gives the place back, whatever fails and in whatever order the goroutines run. So all
  goroutines together do what the one worker of \<open>DbWorker\<close> may do: every run of the pool is matched by a
  run of that worker with the same queue and the same posts sent and stored.
\<close>

theorem pool_refines_worker:
  assumes "pool_run s"
  shows "(\<forall>v w. holds_place (worker s v) \<and> holds_place (worker s w) \<longrightarrow> v = w) \<and> (\<exists>t. worker_run t \<and> simulates s t)"
proof -
  from assms have run: "pool_step\<^sup>*\<^sup>* new_pool s" by (simp add: pool_run_def)
  then have "pool_inv s" "\<exists>t. worker_step\<^sup>*\<^sup>* new_task_state t \<and> simulates s t"
    using pool.run_simulated by blast+
  then show ?thesis
    using worker_run_steps worker_run.start pool_inv_holder(3) by (metis singleton_inject)
qed

section \<open>Watchdogs outlive their workers\<close>

text \<open>A worker that left its loop, with a watchdog that goes on.\<close>

fun gone :: "worker_point \<Rightarrow> bool" where
  "gone Releasing = True"
| "gone Closing = True"
| "gone Ended = True"
| "gone p = False"

definition leaked :: "pool \<Rightarrow> nat \<Rightarrow> bool" where
  "leaked s w \<longleftrightarrow> gone (worker s w) \<and> dog s w \<notin> {Unborn, Returned}"

lemma leaked_step:
  assumes "pool_inv s" "leaked s w" "pool_step s s'"
  shows "leaked s' w"
proof -
  have "w < launched s"
    using assms(1,2) by (auto simp: leaked_def intro!: pool_inv_launched)
  with assms(2) show ?thesis
    by (cases rule: pool_step_cases [OF assms(3)])
      (auto simp: leaked_def elim!: launcher_step.cases sender_step.cases start_step.cases cleanup_step.cases dog_step.cases
        loop_step.cases split: if_splits)
qed

lemma leaked_run: "pool_step\<^sup>*\<^sup>* s s' \<Longrightarrow> pool_inv s \<Longrightarrow> leaked s w \<Longrightarrow> leaked s' w"
  by (induction rule: converse_rtranclp_induct) (auto intro: leaked_step pool_inv_step)

text \<open>A post that cannot be saved ends one worker after the other.\<close>

definition leak_state :: "nat \<Rightarrow> pool" where
  "leak_state n =
     \<lparr>respawnLock = 0, launcher = Acquiring, launched = n, worker = \<lambda>w. if w < n then Ended else Unlaunched,
      dog = \<lambda>w. if w < n then Looking else Unborn, handle = \<lambda>w. if w < n then ClosedHandle else NoHandle,
      tasks = \<lparr>Queue = [tiny_post], Waiting = [], Place = Down, Stored = [], Submitted = [tiny_post]\<rparr>, crashed = False\<rparr>"

lemma worker_can_connect: "\<exists>config world. fst (database_worker_start config world) = Connected"
proof -
  have "fst (database_worker_start flag_defaults (demo_world\<lparr>driver := \<lambda>_ _. SqlDone 0\<rparr>)) = Connected"
    by code_simp
  then show ?thesis by blast
qed

lemma leak_once: "pool_step\<^sup>*\<^sup>* (leak_state n) (leak_state (Suc n))"
proof -
  obtain config world where up: "fst (database_worker_start config world) = Connected"
    using worker_can_connect by blast
  let ?W = "\<lambda>p w. if w < n then Ended else if w = n then p else Unlaunched"
  let ?D = "\<lambda>w. if w < n then Looking else if w = n then Looking else Unborn"
  let ?H = "\<lambda>h w. if w < n then ClosedHandle else if w = n then h else NoHandle"
  let ?L = "leak_state n"
  have update: "(\<lambda>w. if w < n then Ended else Unlaunched)(n := q) = ?W q" "(?W p)(n := q) = ?W q"
    "(\<lambda>w. if w < n then Looking else Unborn)(n := Looking) = ?D"
    "(\<lambda>w. if w < n then ClosedHandle else NoHandle)(n := h) = ?H h" "(?H h')(n := h) = ?H h" for p q h h'
    by auto
  have L: "\<not> crashed ?L" "respawnLock ?L = 0" "launcher ?L = Acquiring" "launched ?L = n"
    "worker ?L = (\<lambda>w. if w < n then Ended else Unlaunched)"
    "dog ?L = (\<lambda>w. if w < n then Looking else Unborn)" "handle ?L = (\<lambda>w. if w < n then ClosedHandle else NoHandle)"
    "Queue (tasks ?L) = [tiny_post]"
    by (simp_all add: leak_state_def)
  obtain s1 where s1: "s1 = ?L\<lparr>respawnLock := 1, launcher := Launching\<rparr>" by blast
  obtain s2 where s2: "s2 = s1\<lparr>worker := ?W Connecting, launched := Suc n, launcher := Acquiring\<rparr>" by blast
  obtain s3 where s3: "s3 = s2\<lparr>worker := ?W Selecting, handle := ?H OpenHandle, dog := ?D\<rparr>" by blast
  obtain s4 where s4: "s4 = s3\<lparr>worker := ?W (Holding tiny_post), tasks := (tasks ?L)\<lparr>Queue := []\<rparr>\<rparr>" by blast
  obtain s5 where s5: "s5 = s4\<lparr>worker := ?W Releasing, tasks := tasks ?L\<rparr>" by blast
  obtain s6 where s6: "s6 = s5\<lparr>respawnLock := 0, worker := ?W Closing\<rparr>" by blast
  obtain s7 where s7: "s7 = s6\<lparr>handle := ?H ClosedHandle, worker := ?W Ended\<rparr>" by blast
  note facts = s1 s2 s3 s4 s5 s6 s7 L update
  have saved: "process_save_task (Some (ErrText ''io'')) tiny_post ((tasks ?L)\<lparr>Queue := []\<rparr>) = (Some (ErrText ''io''), tasks ?L)"
    by (simp add: leak_state_def process_save_task_def requeue_task_def queueCapacity_def sqlite_busy_def
        error_message_def has_prefix_def)
  have "launcher_step ?L s1" "launcher_step s1 s2"
    using launcher_step.acquire [of ?L] launcher_step.launch [of s1]
    by (simp_all add: facts databaseWorkersMaxCount_def)
  moreover have "start_step n s2 s3" using start_step.connect [OF _ up, of s2 n] by (simp add: facts)
  moreover have "loop_step n s3 s4" using loop_step.take [of s3 n tiny_post "[]"] by (simp add: facts)
  moreover have "loop_step n s4 s5"
    using loop_step.save [of s4 n tiny_post "Some (ErrText ''io'')" "Some (ErrText ''io'')" "tasks ?L"] saved
    by (simp add: facts)
  moreover have "cleanup_step n s5 s6" "cleanup_step n s6 s7"
    using cleanup_step.release [of s5 n] cleanup_step.close [of s6 n] by (simp_all add: facts)
  moreover have "\<not> crashed s" if "s \<in> {?L, s1, s2, s3, s4, s5, s6}" for s using that by (auto simp: facts)
  ultimately have "pool_step ?L s1" "pool_step s1 s2" "pool_step s2 s3" "pool_step s3 s4" "pool_step s4 s5"
    "pool_step s5 s6" "pool_step s6 s7"
    unfolding pool_step_def by blast+
  then have "pool_step\<^sup>*\<^sup>* ?L s7" by (meson converse_rtranclp_into_rtranclp rtranclp.rtrancl_refl)
  moreover have "s7 = leak_state (Suc n)" by (simp add: facts) (simp add: leak_state_def fun_eq_iff less_Suc_eq)
  ultimately show ?thesis by simp
qed

lemma leak_first: "pool_step new_pool (leak_state 0)"
  using sender_step.send [of new_pool tiny_post]
  by (simp add: pool_step_def new_pool_def leak_state_def new_task_state_def requeue_task_def queueCapacity_def)



theorem pool_refines_worker_witness:
  "\<exists>t. worker_run t \<and> simulates (leak_state 0) t"
proof -
  have "pool_run (leak_state 0)" using leak_first by (auto simp: pool_run_def)
  from pool_refines_worker [OF this] show ?thesis by blast
qed

end
