(* ===== verification/Flags.thy ===== *)
theory Flags
  imports Config
begin

text \<open>
  \<open>ParseFlags\<close> of \<open>pkg/config/config.go\<close> with the part of Go's package \<open>flag\<close> that it uses, on Linux: the scan of the
  arguments, the parsers of numbers, booleans and durations, what is derived and what is printed. The
  texts of errors and of the help go to the standard error and are left out; the exit codes are kept.
\<close>

section \<open>Numbers\<close>

text \<open>\<open>strconv.ParseInt\<close> with base 0: the base is read from a prefix, and underscores may separate digits.\<close>

definition digit_of :: "char \<Rightarrow> nat option" where
  "digit_of c =
     (if is_digit_byte c then Some (byte c - 48)
      else let l = byte (lower_byte c) in if 97 \<le> l \<and> l \<le> 122 then Some (l - 87) else None)"

fun parse_digits :: "nat \<Rightarrow> nat \<Rightarrow> string \<Rightarrow> nat option" where
  "parse_digits base n [] = Some n"
| "parse_digits base n (c # s) =
     (if c = CHR ''_'' then parse_digits base n s
      else (case digit_of c of
              None \<Rightarrow> None
            | Some d \<Rightarrow>
                if base \<le> d \<or> 2 ^ 64 \<le> n * base + d then None else parse_digits base (n * base + d) s))"

text \<open>What was read last: nothing, a digit, an underscore or something else.\<close>

datatype seen = SawStart | SawDigit | SawUnderscore | SawOther

fun underscores_ok :: "bool \<Rightarrow> seen \<Rightarrow> string \<Rightarrow> bool" where
  "underscores_ok hex saw [] = (saw \<noteq> SawUnderscore)"
| "underscores_ok hex saw (c # s) =
     (if is_digit_byte c \<or> hex \<and> lower_byte c \<in> set ''abcdef'' then underscores_ok hex SawDigit s
      else if c = CHR ''_'' then saw = SawDigit \<and> underscores_ok hex SawUnderscore s
      else saw \<noteq> SawUnderscore \<and> underscores_ok hex SawOther s)"

definition base_prefix :: "string \<Rightarrow> char option" where
  "base_prefix s =
     (case s of
        z # b # _ \<Rightarrow> if z = CHR ''0'' \<and> lower_byte b \<in> set ''box'' then Some (lower_byte b) else None
      | _ \<Rightarrow> None)"

definition underscore_ok :: "string \<Rightarrow> bool" where
  "underscore_ok s =
     (case base_prefix s of
        None \<Rightarrow> underscores_ok False SawStart s
      | Some b \<Rightarrow> underscores_ok (b = CHR ''x'') SawDigit (drop 2 s))"

definition parse_uint :: "string \<Rightarrow> nat option" where
  "parse_uint s =
     (if s = '''' then None
      else
        let (base, ds) =
          (if hd s \<noteq> CHR ''0'' then (10, s)
           else (case (base_prefix s, 3 \<le> length s) of
                   (Some b, True) \<Rightarrow> (if b = CHR ''b'' then 2 else if b = CHR ''o'' then 8 else 16, drop 2 s)
                 | _ \<Rightarrow> (8, tl s))) in
        (case parse_digits base 0 ds of
           None \<Rightarrow> None
         | Some n \<Rightarrow> if CHR ''_'' \<in> set ds \<and> \<not> underscore_ok s then None else Some n))"

definition parse_int :: "string \<Rightarrow> int option" where
  "parse_int s =
     (let neg = has_prefix s ''-''; ds = (if neg \<or> has_prefix s ''+'' then tl s else s) in
      case parse_uint ds of
        None \<Rightarrow> None
      | Some n \<Rightarrow>
          if neg then (if n \<le> 2 ^ 63 then Some (- int n) else None)
          else if n < 2 ^ 63 then Some (int n) else None)"

text \<open>\<open>strconv.ParseBool\<close>.\<close>

definition parse_bool :: "string \<Rightarrow> bool option" where
  "parse_bool s =
     (if s \<in> {''1'', ''t'', ''T'', ''true'', ''TRUE'', ''True''} then Some True
      else if s \<in> {''0'', ''f'', ''F'', ''false'', ''FALSE'', ''False''} then Some False
      else None)"

section \<open>Durations\<close>

text \<open>
  \<open>time.ParseDuration\<close> computes a fraction in \<open>float64\<close>. A positive float is kept as a quotient of two
  numbers; \<open>round_double\<close> rounds to 53 bits, to the even one of two nearest. The numbers at hand are far from the
  smallest and the greatest floats.
\<close>

fun bit_length :: "nat \<Rightarrow> nat" where
  "bit_length n = (if n = 0 then 0 else Suc (bit_length (n div 2)))"

declare bit_length.simps [simp del]

definition half_even :: "nat \<Rightarrow> nat \<Rightarrow> nat" where
  "half_even n d =
     (let q = n div d; r = n mod d in
      if 2 * r < d \<or> 2 * r = d \<and> even q then q else q + 1)"

text \<open>The quotient times \<open>2 ^ k\<close>, for any integer \<open>k\<close>.\<close>

definition scaled :: "int \<Rightarrow> nat \<times> nat \<Rightarrow> nat \<times> nat" where
  "scaled k q = (if 0 \<le> k then (fst q * 2 ^ nat k, snd q) else (fst q, snd q * 2 ^ nat (- k)))"

definition round_double :: "nat \<times> nat \<Rightarrow> nat \<times> nat" where
  "round_double q =
     (if fst q = 0 then (0, 1)
      else
        let k = 53 - int (bit_length (fst q)) + int (bit_length (snd q));
            k' = (let (n, d) = scaled k q in if 2 ^ 53 * d \<le> n then k - 1 else k);
            (n, d) = scaled k' q in
        scaled (- k') (half_even n d, 1))"

definition times_double :: "nat \<times> nat \<Rightarrow> nat \<times> nat \<Rightarrow> nat \<times> nat" where
  "times_double a b = round_double (fst a * fst b, snd a * snd b)"

text \<open>\<open>uint64(float64(f) * (float64(unit) / scale))\<close>; a power of ten up to \<open>10 ^ 19\<close> is a float.\<close>

definition fraction_of_unit :: "nat \<Rightarrow> nat \<Rightarrow> nat \<Rightarrow> nat" where
  "fraction_of_unit f unit scale =
     (let (n, d) = times_double (round_double (f, 1)) (round_double (unit, scale)) in n div d)"

fun leading_int :: "nat \<Rightarrow> string \<Rightarrow> (nat \<times> string) option" where
  "leading_int x [] = Some (x, [])"
| "leading_int x (c # s) =
     (if \<not> is_digit_byte c then Some (x, c # s)
      else if 2 ^ 63 div 10 < x then None
      else let y = 10 * x + (byte c - 48) in if 2 ^ 63 < y then None else leading_int y s)"

text \<open>Digits that no longer fit are read and ignored.\<close>

fun leading_fraction :: "bool \<Rightarrow> nat \<Rightarrow> nat \<Rightarrow> string \<Rightarrow> nat \<times> nat \<times> string" where
  "leading_fraction full x scale [] = (x, scale, [])"
| "leading_fraction full x scale (c # s) =
     (if \<not> is_digit_byte c then (x, scale, c # s)
      else if full \<or> (2 ^ 63 - 1) div 10 < x then leading_fraction True x scale s
      else let y = 10 * x + (byte c - 48) in
        if 2 ^ 63 < y then leading_fraction True x scale s else leading_fraction False y (10 * scale) s)"

definition unit_map :: "(string \<times> nat) list" where
  "unit_map =
     [(''ns'', 1), (''us'', 1000), (map of_byte [194, 181] @ ''s'', 1000), (map of_byte [206, 188] @ ''s'', 1000),
      (''ms'', 1000000), (''s'', 1000000000), (''m'', 60000000000), (''h'', 3600000000000)]"

text \<open>One number with its unit, and the rest of the text.\<close>

definition parse_unit :: "string \<Rightarrow> (nat \<times> string) option" where
  "parse_unit s =
     (case leading_int 0 s of
        None \<Rightarrow> None
      | Some (v, s1) \<Rightarrow>
          let point = has_prefix s1 ''.'';
              (f, scale, s2) = (if point then leading_fraction False 0 1 (tl s1) else (0, 1, s1));
              no_digits = (length s1 = length s \<and> (point \<longrightarrow> length s2 = length (tl s1)));
              u = takeWhile (\<lambda>c. c \<noteq> CHR ''.'' \<and> \<not> is_digit_byte c) s2 in
          if no_digits \<or> u = '''' then None
          else (case map_of unit_map u of
                  None \<Rightarrow> None
                | Some unit \<Rightarrow>
                    if 2 ^ 63 div unit < v then None
                    else let d = v * unit + (if 0 < f then fraction_of_unit f unit scale else 0) in
                      if 2 ^ 63 < d then None else Some (d, drop (length u) s2)))"

lemma leading_int_length: "leading_int x s = Some (y, r) \<Longrightarrow> length r \<le> length s"
  by (induction x s rule: leading_int.induct) (auto simp: Let_def split: if_splits)

lemma leading_fraction_length: "length (snd (snd (leading_fraction full x scale s))) \<le> length s"
  by (induction s arbitrary: full x scale) (auto simp: Let_def intro: le_SucI)

lemma parse_unit_length:
  assumes "parse_unit s = Some (d, r)"
  shows "length r < length s"
proof -
  obtain v s1 where s1: "leading_int 0 s = Some (v, s1)"
    using assms by (auto simp: parse_unit_def split: option.splits)
  obtain f scale s2 where s2: "(if has_prefix s1 ''.'' then leading_fraction False 0 1 (tl s1) else (0, 1, s1)) = (f, scale, s2)"
    by (metis prod_cases3)
  let ?u = "takeWhile (\<lambda>c. c \<noteq> CHR ''.'' \<and> \<not> is_digit_byte c) s2"
  have "length s2 \<le> length s1"
    using s2 leading_fraction_length [of False 0 1 "tl s1"] by (auto split: if_splits)
  also have "\<dots> \<le> length s" by (rule leading_int_length [OF s1])
  finally have "length s2 \<le> length s" .
  moreover have "?u \<noteq> ''''" "r = drop (length ?u) s2"
    using assms s1 s2 by (auto simp: parse_unit_def Let_def split: option.splits if_splits)
  moreover from this(1) have "s2 \<noteq> []" by auto
  ultimately show ?thesis
    by (metis diff_less length_drop length_greater_0_conv less_le_trans)
qed

text \<open>The sum is a \<open>uint64\<close>.\<close>

function parse_units :: "nat \<Rightarrow> string \<Rightarrow> nat option" where
  "parse_units d s =
     (if s = '''' then Some d
      else (case parse_unit s of
              None \<Rightarrow> None
            | Some (v, r) \<Rightarrow>
                let d' = (d + v) mod 2 ^ 64 in if 2 ^ 63 < d' then None else parse_units d' r))"
  by pat_completeness auto
termination
  by (relation "measure (\<lambda>(d, s). length s)") (auto dest: parse_unit_length)

declare parse_units.simps [simp del]

definition parse_duration :: "string \<Rightarrow> int option" where
  "parse_duration s =
     (let neg = has_prefix s ''-''; ds = (if neg \<or> has_prefix s ''+'' then tl s else s) in
      if ds = ''0'' then Some 0
      else if ds = '''' then None
      else (case parse_units 0 ds of
              None \<Rightarrow> None
            | Some d \<Rightarrow> if neg then Some (- int d) else if d < 2 ^ 63 then Some (int d) else None))"

section \<open>The command line\<close>

text \<open>The settings read so far, and whether \<open>-version\<close> was given.\<close>

type_synonym flag_state = "settings \<times> bool"

definition bool_flags :: "string list" where
  "bool_flags = [''version'', ''gui'']"

definition value_flags :: "string list" where
  "value_flags =
     [''web-port'', ''web-path'', ''web-index-file'', ''timezone'', ''db-path'', ''db-type'', ''db-save-interval'',
      ''pg-host'', ''pg-port'', ''pg-user'', ''pg-pass'', ''pg-db-name'', ''pg-ssl'']"

definition set_flag :: "string \<Rightarrow> string \<Rightarrow> flag_state \<Rightarrow> flag_state option" where
  "set_flag name x st =
     (let c = fst st; put = (\<lambda>c'. Some (c', snd st)) in
      if name = ''version'' then map_option (Pair c) (parse_bool x)
      else if name = ''gui'' then Option.bind (parse_bool x) (\<lambda>b. put (c\<lparr>GUI := b\<rparr>))
      else if name = ''web-port'' then Option.bind (parse_int x) (\<lambda>i. put (c\<lparr>WEB_PORT := i\<rparr>))
      else if name = ''web-path'' then put (c\<lparr>WEB_FILE_PATH := x\<rparr>)
      else if name = ''web-index-file'' then put (c\<lparr>WEB_INDEX_FILE := x\<rparr>)
      else if name = ''timezone'' then put (c\<lparr>TIME_ZONE := x\<rparr>)
      else if name = ''db-path'' then put (c\<lparr>DB_FILE_PATH := x\<rparr>)
      else if name = ''db-type'' then put (c\<lparr>DB_TYPE := x\<rparr>)
      else if name = ''db-save-interval'' then
        Option.bind (parse_duration x) (\<lambda>d. put (c\<lparr>DB_SAVE_INTERVAL_DURATION := d\<rparr>))
      else if name = ''pg-host'' then put (c\<lparr>PG_HOST := x\<rparr>)
      else if name = ''pg-port'' then Option.bind (parse_int x) (\<lambda>i. put (c\<lparr>PG_PORT := i\<rparr>))
      else if name = ''pg-user'' then put (c\<lparr>PG_USER := x\<rparr>)
      else if name = ''pg-pass'' then put (c\<lparr>PG_PASS := x\<rparr>)
      else if name = ''pg-db-name'' then put (c\<lparr>PG_DB_NAME := x\<rparr>)
      else if name = ''pg-ssl'' then put (c\<lparr>PG_SSL := x\<rparr>)
      else None)"

text \<open>
  \<open>flag.Parse\<close>, which ends the program on an error: \<open>Inl\<close> is the exit code. The scan stops at the first
  argument that is no flag, and after two dashes.
\<close>

fun parse_args :: "flag_state \<Rightarrow> string list \<Rightarrow> nat + flag_state" where
  "parse_args st [] = Inr st"
| "parse_args st (s # args) =
     (if length s < 2 \<or> hd s \<noteq> CHR ''-'' \<or> s = ''--'' then Inr st
      else
        let name = drop (if s ! 1 = CHR ''-'' then 2 else 1) s;
            n = takeWhile (\<lambda>c. c \<noteq> CHR ''='') name;
            given = (if n = name then None else Some (drop (Suc (length n)) name)) in
        if hd name = CHR ''-'' \<or> hd name = CHR ''='' then Inl 2
        else if n \<in> set bool_flags then
          (case set_flag n (case given of None \<Rightarrow> ''true'' | Some x \<Rightarrow> x) st of
             None \<Rightarrow> Inl 2 | Some st' \<Rightarrow> parse_args st' args)
        else if n \<notin> set value_flags then Inl (if n = ''help'' \<or> n = ''h'' then 0 else 2)
        else (case (given, args) of
                (Some x, _) \<Rightarrow> (case set_flag n x st of None \<Rightarrow> Inl 2 | Some st' \<Rightarrow> parse_args st' args)
              | (None, []) \<Rightarrow> Inl 2
              | (None, x # args') \<Rightarrow> (case set_flag n x st of None \<Rightarrow> Inl 2 | Some st' \<Rightarrow> parse_args st' args')))"

definition start_banner :: "settings \<Rightarrow> string" where
  "start_banner c =
     ''Starting '' @ APP_NAME c @ '' '' @ (if VERSION c \<noteq> '''' then ''version '' @ VERSION c @ '' '' else '''')
       @ ''at '' @ WEB_LISTENER_ADDRESS c @ [CHR 0x0A]"

text \<open>What is printed, and the settings or the exit code.\<close>

definition parse_flags :: "string \<Rightarrow> string list \<Rightarrow> string \<times> (nat + settings)" where
  "parse_flags compileVersion args =
     (case parse_args (flag_defaults, False) args of
        Inl code \<Rightarrow> ('''', Inl code)
      | Inr (c, version) \<Rightarrow>
          let c = derive_settings compileVersion c in
          if version then (if VERSION c \<noteq> '''' then ''Version: '' @ VERSION c @ [CHR 0x0A] else '''', Inl 0)
          else (start_banner c, Inr c))"

section \<open>Settings survive the command line\<close>

text \<open>A command line that says everything.\<close>

definition flag_values :: "settings \<Rightarrow> (string \<times> string) list" where
  "flag_values c =
     [(''gui'', if GUI c then ''true'' else ''false''), (''web-port'', int_digits (WEB_PORT c)),
      (''web-path'', WEB_FILE_PATH c), (''web-index-file'', WEB_INDEX_FILE c), (''timezone'', TIME_ZONE c),
      (''db-path'', DB_FILE_PATH c), (''db-type'', DB_TYPE c),
      (''db-save-interval'', int_digits (DB_SAVE_INTERVAL_DURATION c) @ ''ns''), (''pg-host'', PG_HOST c),
      (''pg-port'', int_digits (PG_PORT c)), (''pg-user'', PG_USER c), (''pg-pass'', PG_PASS c),
      (''pg-db-name'', PG_DB_NAME c), (''pg-ssl'', PG_SSL c)]"

definition command_line :: "settings \<Rightarrow> string list" where
  "command_line c = map (\<lambda>(n, x). CHR ''-'' # n @ CHR ''='' # x) (flag_values c)"

lemma digits_value_ge: "n \<le> digits_value n ds"
proof (induction ds arbitrary: n)
  case (Cons d ds)
  have "n \<le> 10 * n + (byte d - 48)" by simp
  also have "\<dots> \<le> digits_value (10 * n + (byte d - 48)) ds" by (rule Cons)
  finally show ?case by simp
qed simp

lemma parse_digits_decimal:
  "list_all is_digit_byte ds \<Longrightarrow> digits_value n ds < 2 ^ 64 \<Longrightarrow> parse_digits 10 n ds = Some (digits_value n ds)"
proof (induction ds arbitrary: n)
  case (Cons d ds)
  let ?m = "10 * n + (byte d - 48)"
  have "?m < 2 ^ 64" using digits_value_ge [of ?m ds] Cons.prems by simp
  moreover have "d \<noteq> CHR ''_''" "byte d - 48 < 10"
    using Cons.prems by (auto simp: is_digit_byte_def byte_def)
  ultimately show ?case
    using Cons by (simp add: digit_of_def mult.commute)
qed simp

text \<open>A number in decimal begins with a zero only when it is zero.\<close>

lemma nat_digits_zero: "hd (nat_digits n) = CHR ''0'' \<Longrightarrow> n = 0"
proof (induction n rule: nat_digits.induct)
  case (1 n)
  show ?case
  proof (cases "n < 10")
    case True
    have "nat_digits n = [of_byte (48 + n)]" using True by (subst nat_digits.simps) simp
    with 1(2) have "byte (of_byte (48 + n)) = byte CHR ''0''" by simp
    with True show ?thesis by (simp add: byte_def [of "CHR ''0''"])
  next
    case False
    have "nat_digits n = nat_digits (n div 10) @ [of_byte (48 + n mod 10)]"
      using False by (subst nat_digits.simps) simp
    with 1 False have "n div 10 = 0" by simp
    with False show ?thesis by simp
  qed
qed

lemma nat_digits_bytes: "c \<in> set (nat_digits n) \<Longrightarrow> is_digit_byte c"
  using nat_digits_all by (simp add: list_all_iff)

lemma not_digits: "\<not> is_digit_byte CHR ''-''" "\<not> is_digit_byte CHR ''+''" "\<not> is_digit_byte CHR ''_''"
  "\<not> is_digit_byte CHR ''.''" "\<not> is_digit_byte CHR ''n''"
  by (simp_all add: is_digit_byte_def byte_def)

lemma parse_uint_digits:
  assumes "n < 2 ^ 64"
  shows "parse_uint (nat_digits n) = Some n"
proof (cases "n = 0")
  case True
  have "byte (of_byte 48) = byte CHR ''0''" by (simp add: byte_def [of "CHR ''0''"])
  then have "of_byte 48 = CHR ''0''" by (simp only: byte_inject)
  with True have "nat_digits n = ''0''" by (simp add: nat_digits.simps)
  with True show ?thesis by (simp add: parse_uint_def base_prefix_def)
next
  case False
  have "CHR ''_'' \<notin> set (nat_digits n)" using nat_digits_bytes not_digits(3) by blast
  moreover have "hd (nat_digits n) \<noteq> CHR ''0''" using nat_digits_zero False by blast
  moreover have "parse_digits 10 0 (nat_digits n) = Some n"
    using parse_digits_decimal [OF nat_digits_all, of 0 n] assms by simp
  ultimately show ?thesis by (simp add: parse_uint_def)
qed

text \<open>The sign of a printed number, and its digits.\<close>

lemma int_digits_sign:
  "has_prefix (int_digits i @ r) ''-'' \<longleftrightarrow> i < 0" "\<not> has_prefix (int_digits i @ r) ''+''"
  "(if has_prefix (int_digits i @ r) ''-'' then tl (int_digits i @ r) else int_digits i @ r) = nat_digits (nat \<bar>i\<bar>) @ r"
proof -
  obtain d ds where digits: "nat_digits (nat \<bar>i\<bar>) = d # ds" by (cases "nat_digits (nat \<bar>i\<bar>)") auto
  then have "is_digit_byte d" using nat_digits_bytes by (metis list.set_intros(1))
  then have "d \<noteq> CHR ''-''" "d \<noteq> CHR ''+''" using not_digits by auto
  with digits show "has_prefix (int_digits i @ r) ''-'' \<longleftrightarrow> i < 0" "\<not> has_prefix (int_digits i @ r) ''+''"
    "(if has_prefix (int_digits i @ r) ''-'' then tl (int_digits i @ r) else int_digits i @ r) = nat_digits (nat \<bar>i\<bar>) @ r"
    by (auto simp: int_digits_def has_prefix_def)
qed

lemma parse_int_digits:
  assumes "- (2 ^ 63) \<le> i" "i < 2 ^ 63"
  shows "parse_int (int_digits i) = Some i"
proof -
  have "parse_uint (nat_digits (nat \<bar>i\<bar>)) = Some (nat \<bar>i\<bar>)" using assms by (intro parse_uint_digits) auto
  with assms int_digits_sign [of i "[]"] show ?thesis
    by (auto simp: parse_int_def Let_def)
qed

lemma leading_int_digits:
  "list_all is_digit_byte ds \<Longrightarrow> digits_value x ds \<le> 2 ^ 63 \<Longrightarrow> leading_int x (ds @ ''ns'') = Some (digits_value x ds, ''ns'')"
proof (induction ds arbitrary: x)
  case Nil
  then show ?case by (simp add: not_digits)
next
  case (Cons d ds)
  let ?m = "10 * x + (byte d - 48)"
  have "?m \<le> 2 ^ 63" using digits_value_ge [of ?m ds] Cons.prems by simp
  moreover from this have "\<not> 2 ^ 63 div 10 < x" by simp
  ultimately show ?case using Cons by (simp add: Let_def)
qed

lemma parse_unit_digits:
  assumes "n \<le> 2 ^ 63"
  shows "parse_unit (nat_digits n @ ''ns'') = Some (n, '''')"
proof -
  have "leading_int 0 (nat_digits n @ ''ns'') = Some (n, ''ns'')"
    using leading_int_digits [OF nat_digits_all, of 0 n] assms by simp
  with assms show ?thesis
    by (simp add: parse_unit_def has_prefix_def unit_map_def is_digit_byte_def byte_def)
qed

lemma parse_duration_digits:
  assumes "- (2 ^ 63) \<le> i" "i < 2 ^ 63"
  shows "parse_duration (int_digits i @ ''ns'') = Some i"
proof -
  have n: "nat \<bar>i\<bar> \<le> 2 ^ 63" using assms by auto
  then have "parse_units 0 (nat_digits (nat \<bar>i\<bar>) @ ''ns'') = Some (nat \<bar>i\<bar>)"
    by (simp add: parse_units.simps parse_unit_digits)
  moreover have "nat_digits (nat \<bar>i\<bar>) @ ''ns'' \<noteq> ''0''" by (cases "nat_digits (nat \<bar>i\<bar>)") auto
  ultimately show ?thesis
    using assms int_digits_sign [of i "''ns''"] by (auto simp: parse_duration_def Let_def)
qed

lemma parse_args_given:
  assumes "n \<in> set value_flags \<or> n \<in> set bool_flags" "set_flag n x st = Some st'"
  shows "parse_args st ((CHR ''-'' # n @ CHR ''='' # x) # args) = parse_args st' args"
proof -
  have "list_all (\<lambda>n. n \<noteq> '''' \<and> hd n \<noteq> CHR ''-'' \<and> CHR ''='' \<notin> set n) (value_flags @ bool_flags)"
    by code_simp
  then have "n \<noteq> ''''" "hd n \<noteq> CHR ''-''" "CHR ''='' \<notin> set n"
    using assms(1) by (auto simp: list_all_iff)
  then obtain a m where n: "n = a # m" "a \<noteq> CHR ''-''" "a \<noteq> CHR ''=''" "CHR ''='' \<notin> set m" by (cases n) auto
  then have "takeWhile (\<lambda>c. c \<noteq> CHR ''='') (n @ CHR ''='' # x) = n" by (auto simp: takeWhile_append)
  with n assms show ?thesis by (auto simp: Let_def)
qed

fun set_flags :: "(string \<times> string) list \<Rightarrow> flag_state \<Rightarrow> flag_state option" where
  "set_flags [] st = Some st"
| "set_flags ((n, x) # nxs) st = Option.bind (set_flag n x st) (set_flags nxs)"

lemma parse_args_flags:
  "list_all (\<lambda>(n, x). n \<in> set value_flags \<or> n \<in> set bool_flags) nxs \<Longrightarrow> set_flags nxs st = Some st' \<Longrightarrow>
     parse_args st (map (\<lambda>(n, x). CHR ''-'' # n @ CHR ''='' # x) nxs) = Inr st'"
proof (induction nxs arbitrary: st)
  case (Cons p nxs)
  obtain n x where p: "p = (n, x)" by (cases p)
  from Cons.prems p obtain st1 where 1: "set_flag n x st = Some st1" "set_flags nxs st1 = Some st'"
    by (auto simp: bind_eq_Some_conv)
  then show ?case
    using Cons parse_args_given [OF _ 1(1)] p by (simp del: parse_args.simps)
qed simp

text \<open>
  Property C35. Settings survive the command line: for all settings whose ports and interval fit the machine's integers,
  the program that is started with every flag, written with an equals sign, takes on these settings
  and what is derived from them, whatever the texts hold (spaces, dashes, equals signs).
\<close>

theorem settings_survive_command_line:
  assumes "WEB_PORT c \<in> {- (2 ^ 63)..< 2 ^ 63}" "PG_PORT c \<in> {- (2 ^ 63)..< 2 ^ 63}"
    "DB_SAVE_INTERVAL_DURATION c \<in> {- (2 ^ 63)..< 2 ^ 63}"
  shows "snd (parse_flags version (command_line c)) = Inr (derive_settings version (c\<lparr>APP_NAME := ''sitebrush''\<rparr>))"
proof -
  let ?c = "c\<lparr>APP_NAME := ''sitebrush'', VERSION := '''', WEB_LISTENER_ADDRESS_HASH := '''', WEB_LISTENER_ADDRESS := '''',
    LOCALHOST_LISTENER_ADDRESS := '''', DB_FULL_FILE_PATH := ''''\<rparr>"
  have "list_all (\<lambda>(n, x). n \<in> set value_flags \<or> n \<in> set bool_flags) (flag_values c)"
    by (simp add: flag_values_def value_flags_def bool_flags_def)
  moreover have "set_flags (flag_values c) (flag_defaults, False) = Some (?c, False)"
    using assms
    by (simp add: flag_values_def set_flag_def Let_def parse_bool_def parse_int_digits parse_duration_digits flag_defaults_def)
  ultimately have "parse_args (flag_defaults, False) (command_line c) = Inr (?c, False)"
    unfolding command_line_def by (rule parse_args_flags)
  then show ?thesis by (simp add: parse_flags_def derive_settings_def Let_def)
qed

theorem settings_survive_command_line_witness:
  "snd (parse_flags ''1'' (command_line flag_defaults)) = Inr (derive_settings ''1'' flag_defaults)"
  using settings_survive_command_line [of flag_defaults "''1''"] by (simp add: flag_defaults_def)

end
