(* ===== verification/Spec2Isabelle.thy ===== *)
theory Spec2Isabelle
  imports SafePath Migration KeyedMutex AtomicFile Http JsonCodec PostStore DbWorker AuthSafety ServeSafety GrabSafety RestoreSafety UploadSafety HostSafety SnapshotSafety Answers WorkerPool Flags
begin

text \<open>
  SiteBrush is a small web server, written in Go, that serves a directory of static pages and lets an operator
  edit them in the browser. This library models its own code under \<open>pkg/\<close> and proves what makes it correct.

  \<^bold>\<open>The program.\<close> \<open>pkg/webserver/functions.go\<close> has the request handler and nearly all actions: login and
  sessions, editing a page with its history, page properties with renames and redirects, freezing the site into a
  published snapshot, backups, subpages. \<open>auth_store.go\<close>, \<open>upload.go\<close> and \<open>grab.go\<close> beside it keep the users,
  take media uploads and fetch pages of other sites. All of them keep their data in files, most of it JSON, in an
  archive directory outside of the site, and, when the SQLite database is configured, in rows as well
  (\<open>pkg/database\<close>, with the row types of \<open>pkg/data\<close>). \<open>pkg/migration\<close> plans the import of a version 1 site,
  \<open>pkg/config\<close> reads the flags, \<open>pkg/mylog\<close> prints log lines.

  \<^bold>\<open>The world.\<close> Every operation with effects is a function \<open>'a io\<close> from a \<open>world\<close> to a result and a world
  (theory \<open>World\<close>): a file system with symbolic links as a map from physical paths to nodes, the clock, the
  random source, the environment, the SQL driver as a function of all calls so far, and an oracle by which any
  system call may fail. A failing call changes nothing, except that a failing write may leave a part of its data; a
  crash is a run in which every call fails from some point on, so a theorem about all worlds covers crashes. Handlers
  are functions \<open>'a srv\<close> on a \<open>server\<close>: a world, the sessions, and the calls made on the response writer. Errors
  are values of \<open>go_error\<close>, and \<open>errors_is\<close> walks their chains.

  \<^bold>\<open>Theories.\<close>

  \<^item> Go's library, as far as the code uses it: \<open>GoStrings\<close>, \<open>GoUnicode\<close>, \<open>GoQuote\<close>, \<open>Utf8\<close> (package
    \<open>strings\<close>, runes), \<open>GoPath\<close> (\<open>path\<close>, \<open>path/filepath\<close>), \<open>GoUrl\<close> (\<open>net/url\<close>), \<open>GoMime\<close>, \<open>GoSniff\<close> (types of
    content), \<open>GoRegex\<close> (regular expressions and their leftmost matches), \<open>GoTime\<close>, \<open>GoJson\<close>, \<open>JsonCodec\<close>, \<open>JsonTrip\<close>
    (\<open>encoding/json\<close> and the round trip of every codec), \<open>World\<close>, \<open>SysWrite\<close>, \<open>DirRead\<close>, \<open>Tree\<close> (\<open>os\<close>, system
    calls, \<open>filepath.WalkDir\<close>), \<open>Crypto\<close> (SHA-256, HMAC, hex and base64). \<open>Prelude\<close> has what all share.
  \<^item> \<open>FileFrame\<close> and \<open>DbFrame\<close>: which files an operation can change; the locale of JSON files is in \<open>JsonFile\<close>.
  \<^item> \<open>SafePath\<close>: \<open>safePathUnderRoot\<close> and the checks before a write. \<open>AtomicFile\<close>, \<open>AtomicLive\<close>:
    \<open>atomicWriteFile\<close>. \<open>KeyedMutex\<close>: \<open>keyedMutex\<close>.
  \<^item> \<open>Data\<close>, \<open>Config\<close>, \<open>Migration\<close>: the packages of these names; \<open>Flags\<close>: the command line. \<open>Database\<close>, \<open>PostStore\<close>, \<open>DbWorker\<close>:
    \<open>pkg/database\<close> and \<open>pkg/mylog\<close>. \<open>WorkerPool\<close>: all goroutines of \<open>pkg/database\<close>, which do what the one worker of
    \<open>DbWorker\<close> may do, by forward simulation.
  \<^item> \<open>Password\<close>, \<open>Http\<close>: password hashes, tokens, requests, responses, sessions. \<open>AuthRows\<close>, \<open>AuthStore\<close>,
    \<open>AuthSpec\<close>, \<open>AuthDemo\<close>, \<open>AuthSafety\<close>: the user store, its abstract specification and the refinement.
    \<open>Accounts\<close>: the handlers of the account.
  \<^item> \<open>Hosts\<close>, \<open>HostSafety\<close>: \<open>canonicalHost\<close>, the domains and their directories. \<open>Archive\<close>: the names in the archive.
    \<open>SiteRows\<close>, \<open>Revisions\<close>, \<open>History\<close>, \<open>EditSafety\<close>: the history of a page and \<open>saveEditedFile\<close>. \<open>PageInfo\<close>: properties,
    renames, redirects. \<open>Snapshot\<close>, \<open>SnapshotSafety\<close>: freezing, and the copy of the site. \<open>Subpages\<close>: lists of pages and new pages.
  \<^item> \<open>Backup\<close>, \<open>Restore\<close>: making and restoring a backup. \<open>Walks\<close>: a walk meets all of a tree, so a backup is complete.
    \<open>RestoreSafety\<close>: what the names in a backup stand for, and the refusal of bad ones.
  \<^item> \<open>Upload\<close>, \<open>UploadSafety\<close>: \<open>upload.go\<close>, the types and names it stores. \<open>Grab\<close>, \<open>GrabPage\<close>, \<open>GrabSafety\<close>: \<open>grab.go\<close>, the
    addresses that a fetch may reach, the cleaning of a page and its templates.
  \<^item> \<open>Templates\<close>, \<open>TemplateSafety\<close>, \<open>TemplateTypes\<close>: the part of \<open>html/template\<close> that the program uses, with its
    escapers; its analysis of contexts is sound, and a template that fits the type of its data does not fail. \<open>Pages\<close>, \<open>PageSafety\<close>: \<open>renderHTML\<close>, the templates, and what holds of every page.
  \<^item> \<open>Serve\<close>: the handlers of pages and of the site, \<open>parseAction\<close> and the dispatch of \<open>handle\<close>, which calls all of the
    above. \<open>Stillness\<close>, \<open>ServeSafety\<close>: nothing changes a file but an operator's action. \<open>Answers\<close>: every request
    gets one whole answer, with local redirects, guarded cookies and finished pages.

  \<^bold>\<open>What is proved.\<close> The handler as a whole changes files only for a valid session, with its CSRF token in a POST, and
  gives every request exactly one answer. Paths,
  hosts, names of uploads and of members of a backup lead to files below their roots, also physically where the code
  checks links; a fetch reaches public addresses only. An atomic write, a saved page with its history, a stored post and every
  operation of the user store do all or nothing of what their specifications say, when any calls fail. A
  recovery token and the form of the first administrator work once; a session ends when it is destroyed or expires.
  No value changes the structure of a page of the operator. Walks end, and backups, snapshots and lists have exactly the files of the site; names survive a backup and its restore. The keyed
  mutex excludes, leaks nothing and makes progress; the workers of the database follow one another and lose no post. Where the code
  does less than it means to, a property states what it does.

  \<^bold>\<open>Parameters.\<close> What is outside of the repository is an argument: the driver of the database (\<open>World\<close>), the bytes of ZIP archives
  (\<open>zip_format\<close>), the image decoders, the resolver and the servers that a fetch talks to (\<open>internet\<close>), the table of
  HTML entities, the process id (fields of the record \<open>outside\<close> of the handler), and the parts of a multipart body.

  \<^bold>\<open>Fuel.\<close> A climb to an existing ancestor has as many turns as the path has bytes (\<open>climb_enough_fuel\<close>), a walk over a tree as
  many levels as the longest path of the world has components (\<open>walk_collect\<close>), a fetch as many redirects as its options
  allow (\<open>client_fuel\<close>); these are proved to be enough where the tree does not grow meanwhile. \<open>os.CreateTemp\<close> tries 10000
  names, as in Go, and links are followed 40 times, as in Linux.

  \<^bold>\<open>Not modelled.\<close> The start of the HTTP server and the browser window, and log lines except in \<open>DbWorker\<close>,
  are output only. A page is a call of the response with its data, which \<open>Pages\<close> renders. Time zones are UTC. Files
  that are no directories, links or regular files do not occur, nor do permissions to read. Requests of the
  handler run one after the other; what protects concurrent ones is in \<open>KeyedMutex\<close>.
\<close>

end
